(* ===== verification/Prelude.thy ===== *)
theory Prelude
  imports Complex_Main "HOL-Library.Word" "HOL-Library.AList"
begin

text \<open>
  Shared vocabulary of the development: Rust's \<open>Result\<close>, the machine integer types of the
  source with the checked and lossless conversions it uses, \<open>HashMap\<close> as an association
  list, and the generic facts on them that the component theories rely on.

  A \<open>HashMap<K, V>\<close> is a list of key/value pairs with distinct keys.  Look-up is
  \<^const>\<open>map_of\<close>, insertion is \<^const>\<open>AList.update\<close>.  The list order stands for one
  iteration order; Rust leaves that order unspecified, and no property of the development
  depends on it except through the set of pairs visited.
\<close>

declare map_of_eq_Some_iff [simp del] Some_eq_map_of_iff [simp del]

section \<open>Results\<close>

datatype ('a, 'e) result = Ok 'a | Err 'e

fun is_ok :: "('a, 'e) result \<Rightarrow> bool" where
  "is_ok (Ok _) = True"
| "is_ok (Err _) = False"

fun result_bind :: "('a, 'e) result \<Rightarrow> ('a \<Rightarrow> ('b, 'e) result) \<Rightarrow> ('b, 'e) result" where
  "result_bind (Ok x) f = f x"
| "result_bind (Err e) f = Err e"

fun result_map :: "('a \<Rightarrow> 'b) \<Rightarrow> ('a, 'e) result \<Rightarrow> ('b, 'e) result" where
  "result_map f (Ok x) = Ok (f x)"
| "result_map f (Err e) = Err e"

fun map_err :: "('e \<Rightarrow> 'f) \<Rightarrow> ('a, 'e) result \<Rightarrow> ('a, 'f) result" where
  "map_err f (Ok x) = Ok x"
| "map_err f (Err e) = Err (f e)"

lemma result_bind_cong [fundef_cong]:
  assumes "r = r'" and "\<And>x. r' = Ok x \<Longrightarrow> f x = g x"
  shows "result_bind r f = result_bind r' g"
  using assms by (cases r') auto

lemma result_bind_eq_Ok:
  "result_bind r f = Ok y \<longleftrightarrow> (\<exists>x. r = Ok x \<and> f x = Ok y)"
  by (cases r) auto

lemma result_bind_eq_Err:
  "result_bind r f = Err e \<longleftrightarrow> r = Err e \<or> (\<exists>x. r = Ok x \<and> f x = Err e)"
  by (cases r) auto

lemma result_map_eq_Ok: "result_map f r = Ok y \<longleftrightarrow> (\<exists>x. r = Ok x \<and> y = f x)"
  by (cases r) auto

lemma result_map_eq_Err [simp]: "result_map f r = Err e \<longleftrightarrow> r = Err e"
  by (cases r) auto

lemma map_err_eq_Ok [simp]: "map_err f r = Ok y \<longleftrightarrow> r = Ok y"
  by (cases r) auto

lemma is_ok_iff: "is_ok r \<longleftrightarrow> (\<exists>x. r = Ok x)"
  by (cases r) auto

lemmas result_eqs = result_bind_eq_Ok result_bind_eq_Err result_map_eq_Ok is_ok_iff

section \<open>Machine integers\<close>

type_synonym i8 = "8 word"
type_synonym i16 = "16 word"
type_synonym i32 = "32 word"
type_synonym i64 = "64 word"
type_synonym u8 = "8 word"
type_synonym u16 = "16 word"
type_synonym u32 = "32 word"
type_synonym u64 = "64 word"

text \<open>\<open>i8::try_from(i32)\<close> and its kin: \<open>Some\<close> exactly when the value fits.\<close>

definition i8_try_from_i32 :: "i32 \<Rightarrow> i8 option" where
  "i8_try_from_i32 v = (if - 128 \<le> sint v \<and> sint v \<le> 127 then Some (scast v) else None)"

definition i16_try_from_i32 :: "i32 \<Rightarrow> i16 option" where
  "i16_try_from_i32 v = (if - 32768 \<le> sint v \<and> sint v \<le> 32767 then Some (scast v) else None)"

definition u8_try_from_u32 :: "u32 \<Rightarrow> u8 option" where
  "u8_try_from_u32 v = (if uint v \<le> 255 then Some (ucast v) else None)"

definition u16_try_from_u32 :: "u32 \<Rightarrow> u16 option" where
  "u16_try_from_u32 v = (if uint v \<le> 65535 then Some (ucast v) else None)"

definition i32_try_from_i64 :: "i64 \<Rightarrow> i32 option" where
  "i32_try_from_i64 v =
     (if - (2 ^ 31) \<le> sint v \<and> sint v < 2 ^ 31 then Some (scast v) else None)"

definition u32_try_from_u64 :: "u64 \<Rightarrow> u32 option" where
  "u32_try_from_u64 v = (if uint v < 2 ^ 32 then Some (ucast v) else None)"

definition u64_try_from_i32 :: "i32 \<Rightarrow> u64 option" where
  "u64_try_from_i32 v = (if sint v < 0 then None else Some (scast v))"

definition u64_try_from_i64 :: "i64 \<Rightarrow> u64 option" where
  "u64_try_from_i64 v = (if sint v < 0 then None else Some v)"

text \<open>\<open>i64::from(i32)\<close>, \<open>i64::from(u32)\<close> and \<open>u64::from(u32)\<close>: lossless widenings.\<close>

definition i64_from_i32 :: "i32 \<Rightarrow> i64" where
  "i64_from_i32 v = scast v"

definition i64_from_u32 :: "u32 \<Rightarrow> i64" where
  "i64_from_u32 v = ucast v"

definition u64_from_u32 :: "u32 \<Rightarrow> u64" where
  "u64_from_u32 v = ucast v"

named_theorems int_conv_simps "values of the integer conversions"

lemma sint_range_i32: "- (2 ^ 31) \<le> sint (v :: i32) \<and> sint v < 2 ^ 31"
  using sint_greater_eq [of v] sint_less [of v] by simp

lemma sint_range_i64: "- (2 ^ 63) \<le> sint (v :: i64) \<and> sint v < 2 ^ 63"
  using sint_greater_eq [of v] sint_less [of v] by simp

lemma uint_range_u32: "0 \<le> uint (v :: u32) \<and> uint v < 2 ^ 32"
  using uint_lt2p [of v] by simp

lemma uint_range_u64: "0 \<le> uint (v :: u64) \<and> uint v < 2 ^ 64"
  using uint_lt2p [of v] by simp

lemma sint_word_of_int_64: "- (2 ^ 63) \<le> k \<Longrightarrow> k < 2 ^ 63 \<Longrightarrow> sint (word_of_int k :: i64) = k"
  by (simp add: int_word_sint)

lemma uint_word_of_int_64: "0 \<le> k \<Longrightarrow> k < 2 ^ 64 \<Longrightarrow> uint (word_of_int k :: u64) = k"
  by (simp add: uint_word_of_int)

lemma sint_word_of_int_32: "- (2 ^ 31) \<le> k \<Longrightarrow> k < 2 ^ 31 \<Longrightarrow> sint (word_of_int k :: i32) = k"
  by (simp add: int_word_sint)

lemma uint_word_of_int_32: "0 \<le> k \<Longrightarrow> k < 2 ^ 32 \<Longrightarrow> uint (word_of_int k :: u32) = k"
  by (simp add: uint_word_of_int)

lemma uint_eq_sint_64: "0 \<le> sint v \<Longrightarrow> uint (v :: i64) = sint v"
  using sint_range_i64 [of v] uint_word_of_int_64 [of "sint v"] by simp

lemma sint_i64_from_i32 [int_conv_simps]: "sint (i64_from_i32 v) = sint v"
  using sint_range_i32 [of v] sint_word_of_int_64 [of "sint v"] by (simp add: i64_from_i32_def)

lemma sint_i64_from_u32 [int_conv_simps]: "sint (i64_from_u32 v) = uint v"
  using uint_range_u32 [of v] sint_word_of_int_64 [of "uint v"]
    order_trans [of "- (2 ^ 63)" 0 "uint v"]
  by (simp add: i64_from_u32_def)

lemma uint_u64_from_u32 [int_conv_simps]: "uint (u64_from_u32 v) = uint v"
  using uint_range_u32 [of v] uint_word_of_int_64 [of "uint v"] by (simp add: u64_from_u32_def)

lemma u64_try_from_i32_Some:
  "\<not> sint v < 0 \<Longrightarrow> \<exists>w. u64_try_from_i32 v = Some w \<and> uint w = sint v"
  using sint_range_i32 [of v] uint_word_of_int_64 [of "sint v"] by (simp add: u64_try_from_i32_def)

lemma u64_try_from_i64_Some:
  "\<not> sint v < 0 \<Longrightarrow> \<exists>w. u64_try_from_i64 v = Some w \<and> uint w = sint v"
  using uint_eq_sint_64 [of v] by (simp add: u64_try_from_i64_def)

lemma i32_try_from_i64_Some:
  "i32_try_from_i64 v = Some w \<Longrightarrow> sint w = sint v"
  using sint_word_of_int_32 [of "sint v"]
  by (auto simp: i32_try_from_i64_def split: if_splits)

lemma u32_try_from_u64_Some:
  "u32_try_from_u64 v = Some w \<Longrightarrow> uint w = uint v"
  using uint_word_of_int_32 [of "uint v"]
  by (auto simp: u32_try_from_u64_def split: if_splits)

text \<open>Narrow integers stored in 32 bits keep their value, so their range is known.\<close>

lemma sint_range_i8: "- 128 \<le> sint (v :: i8) \<and> sint v \<le> 127"
  using sint_greater_eq [of v] sint_less [of v] by simp

lemma sint_range_i16: "- 32768 \<le> sint (v :: i16) \<and> sint v \<le> 32767"
  using sint_greater_eq [of v] sint_less [of v] by simp

lemma uint_range_u8: "uint (v :: u8) \<le> 255"
  using uint_lt2p [of v] by simp

lemma uint_range_u16: "uint (v :: u16) \<le> 65535"
  using uint_lt2p [of v] by simp

lemma widen_values:
  "sint (scast (a :: i8) :: i32) = sint a" "sint (scast (b :: i16) :: i32) = sint b"
  "uint (ucast (c :: u8) :: u32) = uint c" "uint (ucast (d :: u16) :: u32) = uint d"
  using sint_range_i8 [of a] sint_range_i16 [of b] uint_range_u8 [of c] uint_range_u16 [of d]
    sint_word_of_int_32 [of "sint a"] sint_word_of_int_32 [of "sint b"]
    uint_word_of_int_32 [of "uint c"] uint_word_of_int_32 [of "uint d"]
  by simp_all

lemmas narrow_simps = widen_values sint_range_i8 sint_range_i16 uint_range_u8 uint_range_u16

end
