(* ===== verification/Glob.thy ===== *)
theory Glob
  imports Prelude "HOL-Library.Sublist"
begin

text \<open>
  \<open>databroker/src/glob.rs\<close>: the translation of a path glob into the text of a regular
  expression, and the two static patterns that say what a valid path and a valid glob
  pattern are.  The \<open>regex\<close> crate is a parameter of the model: \<open>re p\<close> is \<open>None\<close> when
  \<open>Regex::new(p)\<close> fails and otherwise the function \<open>is_match\<close> of the compiled pattern.

  A \<open>char\<close> stands for a Unicode scalar value below 256; text outside that range is not
  modelled.
\<close>

type_synonym regex_engine = "string \<Rightarrow> (string \<Rightarrow> bool) option"

section \<open>Strings\<close>

text \<open>\<open>str::replace\<close> with a non-empty pattern: leftmost, non-overlapping occurrences.\<close>

function str_replace :: "string \<Rightarrow> string \<Rightarrow> string \<Rightarrow> string" where
  "str_replace pat rep [] = []"
| "str_replace pat rep (c # s) =
     (if pat \<noteq> [] \<and> prefix pat (c # s)
      then rep @ str_replace pat rep (drop (length pat) (c # s))
      else c # str_replace pat rep s)"
  by pat_completeness auto
termination
  by (relation "measure (\<lambda>(pat, rep, s). length s)") auto

definition str_contains :: "string \<Rightarrow> string \<Rightarrow> bool" where
  "str_contains s pat = sublist pat s"

lemma str_contains_code [code]:
  "str_contains s pat = list_ex (prefix pat) (suffixes s)"
  by (auto simp: str_contains_def list_ex_iff sublist_altdef')

section \<open>Globs\<close>

datatype GlobError = RegexError

definition NUL :: string where
  "NUL = [CHR 0x00]"

text \<open>\<open>to_regex_string\<close>, with the successive textual replacements of the source.\<close>

definition to_regex_string :: "string \<Rightarrow> string" where
  "to_regex_string glob =
     (let re = ''^'' in
      if glob = ''*'' then str_replace ''^'' NUL re
      else if glob = [] then re
      else
        let regex_string = str_replace ''.'' [CHR 0x5C, CHR ''.''] glob;
            dot = [CHR 0x5C, CHR ''.''];
            cls = ''[^.'' @ [CHR 0x5C] @ ''s'' @ [CHR 0x5C] @ '':]+'';
            regex_string =
              (if \<not> str_contains glob ''*'' then regex_string @ ''(?:'' @ dot @ ''.+)?''
               else
                 let r1 = (if prefix ''**.'' glob then str_replace (''**'' @ dot) (''.+'' @ dot) regex_string
                           else if prefix ''*.'' glob then str_replace (''*'' @ dot) (cls @ dot) regex_string
                           else regex_string);
                     r2 = (if suffix ''.*'' glob then str_replace (dot @ ''*'') (dot @ cls) r1
                           else if suffix ''.**'' glob then str_replace (dot @ ''**'') (dot @ ''.*'') r1
                           else r1);
                     r3 = (if str_contains glob ''.**.'' then str_replace (dot @ ''**'') (''['' @ dot @ cls @ '']*'') r2
                           else r2)
                 in if str_contains glob ''.*.'' then str_replace (dot @ ''*'') (dot @ cls) r3 else r3)
        in re @ regex_string @ ''$'')"

definition to_regex :: "regex_engine \<Rightarrow> string \<Rightarrow> (string \<Rightarrow> bool, GlobError) result" where
  "to_regex re glob =
     (case re (to_regex_string glob) of Some m \<Rightarrow> Ok m | None \<Rightarrow> Err RegexError)"

section \<open>The static patterns\<close>

definition unlines :: "string list \<Rightarrow> string" where
  "unlines ls = concat (map (\<lambda>l. l @ [CHR 0x0A]) ls)"

text \<open>The text of \<open>REGEX_VALID_PATTERN\<close>; \<open>(?x)\<close> makes white space and comments insignificant.\<close>

definition REGEX_VALID_PATTERN :: string where
  "REGEX_VALID_PATTERN =
     (let b = [CHR 0x5C] in unlines
      [''(?x)'',
       ''        ^  # anchor at start (only match full paths)'',
       ''        # At least one subpath (consisting of either of three):'',
       ''        (?:'',
       ''            [^'' @ b @ ''.'' @ b @ ''s'' @ b @ '':]+  # Any character except :, whitespace and .'',
       ''            |'',
       ''            '' @ b @ ''*                 # An asterisk'',
       ''            |'',
       ''            '' @ b @ ''*'' @ b @ ''*               # A double asterisk'',
       ''        )'',
       ''        # which can be followed by ( separator + another subpath )'',
       ''        # repeated any number of times'',
       ''        (?:'',
       ''            '' @ b @ ''. # Separator, literal dot'',
       ''            (?:'',
       ''                [^'' @ b @ ''.'' @ b @ ''s'' @ b @ '':]+  # Any character except :, whitespace and .'',
       ''                |'',
       ''                '' @ b @ ''*                 # An asterisk'',
       ''                |'',
       ''                '' @ b @ ''*'' @ b @ ''*               # A double asterisk'',
       ''            )+'',
       ''        )*'',
       ''        $  # anchor at end (to match only full paths)''] @ ''        '')"

definition REGEX_VALID_PATH :: string where
  "REGEX_VALID_PATH =
     (let b = [CHR 0x5C] in unlines
      [''(?x)'',
       ''        ^  # anchor at start (only match full paths)'',
       ''        # At least one subpath (consisting of either of three):'',
       ''        (?:'',
       ''            [^'' @ b @ ''.'' @ b @ ''s'' @ b @ '':'' @ b @ ''*]+  # Any character except :, whitespace and .'',
       ''        )'',
       ''        # which can be followed by ( separator + another subpath )'',
       ''        # repeated any number of times'',
       ''        (?:'',
       ''            '' @ b @ ''. # Separator, literal dot'',
       ''            (?:'',
       ''                [^'' @ b @ ''.'' @ b @ ''s'' @ b @ '':'' @ b @ ''*]+  # Any character except :, whitespace and .'',
       ''            )+'',
       ''        )*'',
       ''        $  # anchor at end (to match only full paths)''] @ ''        '')"

text \<open>
  The static patterns are compiled once, and \<open>expect\<close> aborts the program should that fail;
  in that case the model answers \<open>False\<close>, so that nothing can be registered.
\<close>

definition static_match :: "regex_engine \<Rightarrow> string \<Rightarrow> string \<Rightarrow> bool" where
  "static_match re p s = (case re p of Some m \<Rightarrow> m s | None \<Rightarrow> False)"

definition is_valid_pattern :: "regex_engine \<Rightarrow> string \<Rightarrow> bool" where
  "is_valid_pattern re input = static_match re REGEX_VALID_PATTERN input"

definition is_valid_path :: "regex_engine \<Rightarrow> string \<Rightarrow> bool" where
  "is_valid_path re input = static_match re REGEX_VALID_PATH input"

end
