(* ===== verification/Permissions.thy ===== *)
theory Permissions
  imports Glob
begin

text \<open>
  \<open>databroker/src/permissions.rs\<close>: the permissions a client holds, the builder that
  collects them, and the four checks that guard the database.  Time is the number of
  nanoseconds since the Unix epoch; \<open>SystemTime::now()\<close> is the argument \<open>now\<close>.
\<close>

type_synonym SystemTime = int

datatype PathMatcher = M_Nothing | M_Everything | M_Regexps "string list"

datatype PathMatchBuilder = B_Nothing | B_Everything | B_Globs "string list"

datatype Permission = P_Nothing | P_All | P_Glob string

datatype PermissionError = Denied | Expired

datatype PermissionsBuildError = BuildError

record Permissions =
  expires_at :: "SystemTime option"
  perm_read :: PathMatcher
  perm_actuate :: PathMatcher
  perm_provide :: PathMatcher
  perm_create :: PathMatcher

record PermissionBuilder =
  expiration :: "SystemTime option"
  bld_read :: PathMatchBuilder
  bld_actuate :: PathMatchBuilder
  bld_provide :: PathMatchBuilder
  bld_create :: PathMatchBuilder

definition ALLOW_ALL :: Permissions where
  "ALLOW_ALL = \<lparr>expires_at = None, perm_read = M_Everything, perm_actuate = M_Everything,
     perm_provide = M_Everything, perm_create = M_Everything\<rparr>"

definition ALLOW_NONE :: Permissions where
  "ALLOW_NONE = \<lparr>expires_at = None, perm_read = M_Nothing, perm_actuate = M_Nothing,
     perm_provide = M_Nothing, perm_create = M_Nothing\<rparr>"

section \<open>Path matchers and their builder\<close>

fun re_matches :: "regex_engine \<Rightarrow> string \<Rightarrow> string \<Rightarrow> bool" where
  "re_matches re p path = (case re p of Some m \<Rightarrow> m path | None \<Rightarrow> False)"

fun is_match :: "regex_engine \<Rightarrow> PathMatcher \<Rightarrow> string \<Rightarrow> bool" where
  "is_match re M_Nothing path = False"
| "is_match re M_Everything path = True"
| "is_match re (M_Regexps regexps) path = list_ex (\<lambda>p. re_matches re p path) regexps"

fun extend_with :: "PathMatchBuilder \<Rightarrow> PathMatchBuilder \<Rightarrow> PathMatchBuilder" where
  "extend_with B_Everything other = B_Everything"
| "extend_with self B_Nothing = self"
| "extend_with self B_Everything = B_Everything"
| "extend_with B_Nothing (B_Globs other) = B_Globs other"
| "extend_with (B_Globs regexps) (B_Globs other) = B_Globs (regexps @ other)"

fun extend_with_glob :: "PathMatchBuilder \<Rightarrow> string \<Rightarrow> PathMatchBuilder" where
  "extend_with_glob B_Nothing glob = B_Globs [glob]"
| "extend_with_glob B_Everything glob = B_Everything"
| "extend_with_glob (B_Globs globs) glob = B_Globs (globs @ [glob])"

text \<open>\<open>RegexSet::new\<close> fails exactly when one of its patterns does not compile.\<close>

fun build_matcher :: "regex_engine \<Rightarrow> PathMatchBuilder \<Rightarrow> (PathMatcher, PermissionsBuildError) result" where
  "build_matcher re B_Nothing = Ok M_Nothing"
| "build_matcher re B_Everything = Ok M_Everything"
| "build_matcher re (B_Globs globs) =
     (let regexps = map to_regex_string globs in
      if list_all (\<lambda>p. re p \<noteq> None) regexps then Ok (M_Regexps regexps) else Err BuildError)"

section \<open>The permission builder\<close>

definition new_builder :: PermissionBuilder where
  "new_builder = \<lparr>expiration = None, bld_read = B_Nothing, bld_actuate = B_Nothing,
     bld_provide = B_Nothing, bld_create = B_Nothing\<rparr>"

definition set_expires_at :: "PermissionBuilder \<Rightarrow> SystemTime \<Rightarrow> PermissionBuilder" where
  "set_expires_at b t = b\<lparr>expiration := Some t\<rparr>"

fun extend_with_permission :: "PathMatchBuilder \<Rightarrow> Permission \<Rightarrow> PathMatchBuilder" where
  "extend_with_permission b P_Nothing = b"
| "extend_with_permission b P_All = extend_with b B_Everything"
| "extend_with_permission b (P_Glob path) = extend_with_glob b path"

definition add_read_permission :: "PermissionBuilder \<Rightarrow> Permission \<Rightarrow> PermissionBuilder" where
  "add_read_permission b p = b\<lparr>bld_read := extend_with_permission (bld_read b) p\<rparr>"

definition add_actuate_permission :: "PermissionBuilder \<Rightarrow> Permission \<Rightarrow> PermissionBuilder" where
  "add_actuate_permission b p = b\<lparr>bld_actuate := extend_with_permission (bld_actuate b) p\<rparr>"

definition add_provide_permission :: "PermissionBuilder \<Rightarrow> Permission \<Rightarrow> PermissionBuilder" where
  "add_provide_permission b p = b\<lparr>bld_provide := extend_with_permission (bld_provide b) p\<rparr>"

definition add_create_permission :: "PermissionBuilder \<Rightarrow> Permission \<Rightarrow> PermissionBuilder" where
  "add_create_permission b p = b\<lparr>bld_create := extend_with_permission (bld_create b) p\<rparr>"

definition build_permissions :: "regex_engine \<Rightarrow> PermissionBuilder \<Rightarrow> (Permissions, PermissionsBuildError) result" where
  "build_permissions re b =
     result_bind (build_matcher re (bld_read b)) (\<lambda>r.
     result_bind (build_matcher re (bld_actuate b)) (\<lambda>a.
     result_bind (build_matcher re (bld_provide b)) (\<lambda>p.
     result_bind (build_matcher re (bld_create b)) (\<lambda>c.
       Ok \<lparr>expires_at = expiration b, perm_read = r, perm_actuate = a,
           perm_provide = p, perm_create = c\<rparr>))))"

section \<open>The checks\<close>

definition expired :: "SystemTime \<Rightarrow> Permissions \<Rightarrow> (unit, PermissionError) result" where
  "expired now p =
     (case expires_at p of
        Some t \<Rightarrow> if t < now then Err Expired else Ok ()
      | None \<Rightarrow> Ok ())"

definition can_read :: "regex_engine \<Rightarrow> SystemTime \<Rightarrow> Permissions \<Rightarrow> string \<Rightarrow> (unit, PermissionError) result" where
  "can_read re now p path =
     result_bind (expired now p) (\<lambda>_.
       if is_match re (perm_read p) path then Ok ()
       else if is_match re (perm_actuate p) path then Ok ()
       else if is_match re (perm_provide p) path then Ok ()
       else if is_match re (perm_create p) path then Ok ()
       else Err Denied)"

definition can_write_actuator_target ::
  "regex_engine \<Rightarrow> SystemTime \<Rightarrow> Permissions \<Rightarrow> string \<Rightarrow> (unit, PermissionError) result" where
  "can_write_actuator_target re now p path =
     result_bind (expired now p) (\<lambda>_.
       if is_match re (perm_actuate p) path then Ok () else Err Denied)"

definition can_write_datapoint ::
  "regex_engine \<Rightarrow> SystemTime \<Rightarrow> Permissions \<Rightarrow> string \<Rightarrow> (unit, PermissionError) result" where
  "can_write_datapoint re now p path =
     result_bind (expired now p) (\<lambda>_.
       if is_match re (perm_provide p) path then Ok () else Err Denied)"

definition can_create :: "regex_engine \<Rightarrow> SystemTime \<Rightarrow> Permissions \<Rightarrow> string \<Rightarrow> (unit, PermissionError) result" where
  "can_create re now p path =
     result_bind (expired now p) (\<lambda>_.
       if is_match re (perm_create p) path then Ok () else Err Denied)"

lemmas check_defs = can_read_def can_write_actuator_target_def can_write_datapoint_def
  can_create_def expired_def

definition has_expired :: "SystemTime \<Rightarrow> Permissions \<Rightarrow> bool" where
  "has_expired now p \<longleftrightarrow> (\<exists>t. expires_at p = Some t \<and> t < now)"

lemma expired_iff: "expired now p = (if has_expired now p then Err Expired else Ok ())"
  by (auto simp: expired_def has_expired_def split: option.splits)

lemma has_expired_mono: "has_expired now p \<Longrightarrow> now \<le> now' \<Longrightarrow> has_expired now' p"
  by (auto simp: has_expired_def)

lemma can_read_eq:
  "can_read re now p path =
     (if has_expired now p then Err Expired
      else if is_match re (perm_read p) path \<or> is_match re (perm_actuate p) path \<or>
              is_match re (perm_provide p) path \<or> is_match re (perm_create p) path
      then Ok () else Err Denied)"
  by (simp add: can_read_def expired_iff)

lemma can_write_actuator_target_eq:
  "can_write_actuator_target re now p path =
     (if has_expired now p then Err Expired
      else if is_match re (perm_actuate p) path then Ok () else Err Denied)"
  by (simp add: can_write_actuator_target_def expired_iff)

lemma can_write_datapoint_eq:
  "can_write_datapoint re now p path =
     (if has_expired now p then Err Expired
      else if is_match re (perm_provide p) path then Ok () else Err Denied)"
  by (simp add: can_write_datapoint_def expired_iff)

lemma can_create_eq:
  "can_create re now p path =
     (if has_expired now p then Err Expired
      else if is_match re (perm_create p) path then Ok () else Err Denied)"
  by (simp add: can_create_def expired_iff)

lemmas check_eqs = can_read_eq can_write_actuator_target_eq can_write_datapoint_eq can_create_eq

lemma ALLOW_ALL_checks [simp]:
  "can_read re now ALLOW_ALL path = Ok ()"
  "can_write_datapoint re now ALLOW_ALL path = Ok ()"
  "can_write_actuator_target re now ALLOW_ALL path = Ok ()"
  "can_create re now ALLOW_ALL path = Ok ()"
  by (simp_all add: check_eqs ALLOW_ALL_def has_expired_def)

lemma ALLOW_NONE_checks [simp]:
  "can_read re now ALLOW_NONE path = Err Denied"
  "can_write_datapoint re now ALLOW_NONE path = Err Denied"
  "can_write_actuator_target re now ALLOW_NONE path = Err Denied"
  "can_create re now ALLOW_NONE path = Err Denied"
  by (simp_all add: check_eqs ALLOW_NONE_def has_expired_def)

section \<open>The access policy the database relies on\<close>

text \<open>
  The database asks four questions about a path.  Two laws tie the answers together: every
  right to change a path includes the right to read it, and expiry is uniform, so that a
  check fails with \<open>Expired\<close> on one path exactly when all checks do on every path.
\<close>

locale access_policy =
  fixes readable provides actuates creates :: "'path \<Rightarrow> (unit, PermissionError) result"
  assumes provide_reads: "provides x = Ok () \<Longrightarrow> readable x = Ok ()"
    and actuate_reads: "actuates x = Ok () \<Longrightarrow> readable x = Ok ()"
    and create_reads: "creates x = Ok () \<Longrightarrow> readable x = Ok ()"
    and expiry_uniform:
      "provides x = Err Expired \<longleftrightarrow> readable y = Err Expired"
      "actuates x = Err Expired \<longleftrightarrow> readable y = Err Expired"
      "creates x = Err Expired \<longleftrightarrow> readable y = Err Expired"
begin

lemma unreadable_denies_change:
  assumes "readable x = Err Denied"
  shows "provides x = Err Denied \<and> actuates x = Err Denied \<and> creates x = Err Denied"
proof -
  have cases: "r = Ok () \<or> r = Err Denied \<or> r = Err Expired" for r :: "(unit, PermissionError) result"
  proof (cases r)
    case (Err e)
    then show ?thesis by (cases e) auto
  qed simp
  show ?thesis
    using assms cases [of "provides x"] cases [of "actuates x"] cases [of "creates x"]
      provide_reads [of x] actuate_reads [of x] create_reads [of x]
      expiry_uniform [of x x] by auto
qed

lemma readable_not_expired:
  assumes "readable y = Ok ()"
  shows "provides x \<noteq> Err Expired" and "actuates x \<noteq> Err Expired" and "creates x \<noteq> Err Expired"
  using assms expiry_uniform [of x y] by auto

end

interpretation policy: access_policy
  "can_read re now p" "can_write_datapoint re now p" "can_write_actuator_target re now p"
  "can_create re now p" for re now p
  by unfold_locales (auto simp: check_eqs split: if_splits)

section \<open>What a builder grants\<close>

text \<open>The paths a builder stands for: the union of the permissions added to it.\<close>

fun builder_grants :: "regex_engine \<Rightarrow> PathMatchBuilder \<Rightarrow> string \<Rightarrow> bool" where
  "builder_grants re B_Nothing path = False"
| "builder_grants re B_Everything path = True"
| "builder_grants re (B_Globs globs) path =
     (\<exists>g\<in>set globs. re_matches re (to_regex_string g) path)"

fun permission_grants :: "regex_engine \<Rightarrow> Permission \<Rightarrow> string \<Rightarrow> bool" where
  "permission_grants re P_Nothing path = False"
| "permission_grants re P_All path = True"
| "permission_grants re (P_Glob g) path = re_matches re (to_regex_string g) path"

lemma extend_with_grants:
  "builder_grants re (extend_with a b) path \<longleftrightarrow> builder_grants re a path \<or> builder_grants re b path"
  by (cases "(a, b)" rule: extend_with.cases) auto

lemma extend_with_permission_grants:
  "builder_grants re (extend_with_permission b p) path \<longleftrightarrow>
     builder_grants re b path \<or> permission_grants re p path"
  by (cases p; cases b) auto

lemma build_matcher_grants:
  "build_matcher re b = Ok m \<Longrightarrow> is_match re m path = builder_grants re b path"
  by (cases b) (auto simp: Let_def list_ex_iff split: if_splits)

lemma build_permissions_Ok:
  "build_permissions re b = Ok p \<longleftrightarrow>
     build_matcher re (bld_read b) = Ok (perm_read p) \<and>
     build_matcher re (bld_actuate b) = Ok (perm_actuate p) \<and>
     build_matcher re (bld_provide b) = Ok (perm_provide p) \<and>
     build_matcher re (bld_create b) = Ok (perm_create p) \<and>
     expires_at p = expiration b"
  by (auto simp: build_permissions_def result_eqs)

section \<open>Properties\<close>

text \<open>
  What built permissions grant: adding a permission to one of the four lists of a builder
  extends what that list grants by exactly the paths of the permission, and \<open>build\<close> carries
  this over to the matchers of the result, so that the check of a value write succeeds on a
  path exactly when the permissions have not expired and one of the added permissions covers
  it.
\<close>

theorem built_permissions_grant:
  assumes "build_permissions re (foldl add_provide_permission b perms) = Ok p"
  shows "can_write_datapoint re now p path = Ok () \<longleftrightarrow>
    \<not> has_expired now p \<and>
    (builder_grants re (bld_provide b) path \<or> (\<exists>q\<in>set perms. permission_grants re q path))"
proof -
  have "builder_grants re (bld_provide (foldl add_provide_permission b perms)) path \<longleftrightarrow>
      builder_grants re (bld_provide b) path \<or> (\<exists>q\<in>set perms. permission_grants re q path)"
    by (induction perms arbitrary: b)
      (auto simp: add_provide_permission_def extend_with_permission_grants
        simp del: extend_with_permission.simps permission_grants.simps)
  then show ?thesis using assms
    by (auto simp: can_write_datapoint_eq build_permissions_Ok dest!: build_matcher_grants)
qed

theorem built_permissions_grant_witness:
  "can_write_datapoint (\<lambda>p. Some (\<lambda>s. s = ''Vehicle''))
     7 \<lparr>expires_at = None, perm_read = M_Nothing, perm_actuate = M_Nothing,
       perm_provide = M_Regexps [to_regex_string ''Vehicle''], perm_create = M_Nothing\<rparr> ''Vehicle'' = Ok ()"
  using built_permissions_grant [of "\<lambda>p. Some (\<lambda>s. s = ''Vehicle'')" new_builder "[P_Glob ''Vehicle'']"
    "\<lparr>expires_at = None, perm_read = M_Nothing, perm_actuate = M_Nothing,
       perm_provide = M_Regexps [to_regex_string ''Vehicle''], perm_create = M_Nothing\<rparr>" 7 "''Vehicle''"]
  by (simp add: new_builder_def add_provide_permission_def build_permissions_def has_expired_def)

end
