(* ===== verification/Authorization.thy ===== *)
theory Authorization
  imports Permissions
begin

text \<open>
  From a bearer token to permissions (\<open>authorization/jwt/scope.rs\<close>,
  \<open>authorization/jwt/decoder.rs\<close>, and the interceptor in \<open>grpc/server.rs\<close>).  The crates
  \<open>regex\<close>, \<open>jsonwebtoken\<close> and \<open>tonic\<close> are parameters: \<open>captures p s\<close> is
  \<open>Regex::new(p).captures(s)\<close> as a function from group names, \<open>decode\<close> the validation of a
  token, and \<open>to_str\<close> the text of a header value.  \<open>scope_regex_spec\<close> is the meaning of the
  scope pattern according to the documentation of \<open>regex\<close>.
\<close>

section \<open>Scopes\<close>

datatype Action = A_Read | A_Actuate | A_Provide | A_Create

record Scope =
  sc_action :: Action
  sc_path :: "string option"

datatype ScopeError = ScopeParseError

type_synonym captures = "string \<Rightarrow> string \<Rightarrow> (string \<Rightarrow> string option) option"

definition SCOPE_REGEX :: string where
  "SCOPE_REGEX =
     (let b = [CHR 0x5C] in unlines
      [''(?x)'',
       ''        ^'',
       ''        (?P<action>([^:]*)) # match action'',
       [],
       ''        (?::'',
       ''            (?P<path>'',
       ''                ('',
       ''                    ('',
       ''                        [A-Z][a-zA-Z0-1]*'',
       ''                        |'',
       ''                        '' @ b @ ''*'',
       ''                    )'',
       ''                    (?:'',
       ''                        '' @ b @ ''.'',
       ''                        ('',
       ''                            [A-Z][a-zA-Z0-1]*'',
       ''                            |'',
       ''                            '' @ b @ ''*'',
       ''                        )'',
       ''                    )*'',
       ''                )'',
       ''            )'',
       ''        )?''] @ ''        $'')"

text \<open>\<open>char::is_whitespace\<close> and \<open>str::split_whitespace\<close> on the modelled characters.\<close>

definition is_whitespace :: "char \<Rightarrow> bool" where
  "is_whitespace c \<longleftrightarrow> (of_char c :: nat) \<in> {9, 10, 11, 12, 13, 32, 133, 160}"

fun split_ws :: "string \<Rightarrow> string \<Rightarrow> string list" where
  "split_ws word [] = (if word = [] then [] else [word])"
| "split_ws word (c # cs) =
     (if is_whitespace c then (if word = [] then split_ws [] cs else word # split_ws [] cs)
      else split_ws (word @ [c]) cs)"

definition split_whitespace :: "string \<Rightarrow> string list" where
  "split_whitespace s = split_ws [] s"

definition parse_action :: "string \<Rightarrow> Action option" where
  "parse_action s =
     (if s = ''read'' then Some A_Read
      else if s = ''actuate'' then Some A_Actuate
      else if s = ''provide'' then Some A_Provide
      else if s = ''create'' then Some A_Create
      else None)"

fun parse_scopes :: "captures \<Rightarrow> string list \<Rightarrow> (Scope list, ScopeError) result" where
  "parse_scopes captures [] = Ok []"
| "parse_scopes captures (scope # scopes) =
     (case captures SCOPE_REGEX scope of
        Some groups \<Rightarrow>
          (case groups ''action'' of
             Some action \<Rightarrow>
               (case parse_action action of
                  Some a \<Rightarrow>
                    result_map (\<lambda>ss. \<lparr>sc_action = a, sc_path = groups ''path''\<rparr> # ss)
                      (parse_scopes captures scopes)
                | None \<Rightarrow> Err ScopeParseError)
           | None \<Rightarrow> Err ScopeParseError)
      | None \<Rightarrow> Err ScopeParseError)"

definition parse_whitespace_separated :: "captures \<Rightarrow> string \<Rightarrow> (Scope list, ScopeError) result" where
  "parse_whitespace_separated captures scope = parse_scopes captures (split_whitespace scope)"

section \<open>Claims\<close>

text \<open>
  \<open>JwtPanic\<close> stands for the panic of \<open>UNIX_EPOCH + Duration\<close> when the seconds do not fit
  the signed 64-bit counter of a \<open>SystemTime\<close>.
\<close>

datatype JwtError = PublicKeyError | DecodeError | ClaimsError | JwtPanic

record Claims =
  cl_sub :: string
  cl_iss :: string
  cl_aud :: "string list"
  cl_iat :: u64
  cl_exp :: u64
  cl_scope :: string

definition decode_token :: "(string \<Rightarrow> Claims option) \<Rightarrow> string \<Rightarrow> (Claims, JwtError) result" where
  "decode_token decode token =
     (case decode token of Some claims \<Rightarrow> Ok claims | None \<Rightarrow> Err DecodeError)"

definition add_scope :: "PermissionBuilder \<Rightarrow> Scope \<Rightarrow> PermissionBuilder" where
  "add_scope permissions scope =
     (case sc_path scope of
        Some path \<Rightarrow>
          (case sc_action scope of
             A_Read \<Rightarrow> add_read_permission permissions (P_Glob path)
           | A_Actuate \<Rightarrow> add_actuate_permission permissions (P_Glob path)
           | A_Provide \<Rightarrow> add_provide_permission permissions (P_Glob path)
           | A_Create \<Rightarrow> add_create_permission permissions (P_Glob path))
      | None \<Rightarrow>
          (case sc_action scope of
             A_Read \<Rightarrow> add_read_permission permissions P_All
           | A_Actuate \<Rightarrow> add_actuate_permission permissions P_All
           | A_Provide \<Rightarrow> add_provide_permission permissions P_All
           | A_Create \<Rightarrow> add_create_permission permissions P_All))"

definition permissions_try_from ::
  "captures \<Rightarrow> regex_engine \<Rightarrow> Claims \<Rightarrow> (Permissions, JwtError) result" where
  "permissions_try_from captures re claims =
     (case parse_whitespace_separated captures (cl_scope claims) of
        Err ScopeParseError \<Rightarrow> Err ClaimsError
      | Ok scopes \<Rightarrow>
          (let permissions = foldl add_scope new_builder scopes
           in if uint (cl_exp claims) < 2 ^ 63 then
                (case build_permissions re
                        (set_expires_at permissions (uint (cl_exp claims) * 1000000000)) of
                   Ok p \<Rightarrow> Ok p
                 | Err BuildError \<Rightarrow> Err ClaimsError)
              else Err JwtPanic))"

section \<open>The interceptor\<close>

datatype Authorization = Auth_Disabled | Auth_Enabled "string \<Rightarrow> Claims option"

datatype AuthStatus = Unauthenticated | AuthPanic

definition auth_error :: "JwtError \<Rightarrow> AuthStatus" where
  "auth_error err = (case err of JwtPanic \<Rightarrow> AuthPanic | _ \<Rightarrow> Unauthenticated)"

text \<open>The result is the permissions inserted into the extensions of the request.\<close>

definition intercept ::
  "captures \<Rightarrow> regex_engine \<Rightarrow> ('h \<Rightarrow> string option) \<Rightarrow> Authorization \<Rightarrow> 'h option \<Rightarrow>
   (Permissions, AuthStatus) result" where
  "intercept captures re to_str auth header =
     (case auth of
        Auth_Disabled \<Rightarrow> Ok ALLOW_ALL
      | Auth_Enabled token_decoder \<Rightarrow>
          (case header of
             Some header \<Rightarrow>
               (case to_str header of
                  Some header \<Rightarrow>
                    if prefix ''Bearer '' header then
                      (let token = drop 7 header
                       in case decode_token token_decoder token of
                            Ok claims \<Rightarrow> map_err auth_error (permissions_try_from captures re claims)
                          | Err _ \<Rightarrow> Err Unauthenticated)
                    else Err Unauthenticated
                | None \<Rightarrow> Err Unauthenticated)
           | None \<Rightarrow> Err Unauthenticated))"

section \<open>What a token grants\<close>

definition scope_grants :: "regex_engine \<Rightarrow> Action \<Rightarrow> Scope \<Rightarrow> string \<Rightarrow> bool" where
  "scope_grants re a scope path \<longleftrightarrow> sc_action scope = a \<and>
     (case sc_path scope of Some g \<Rightarrow> re_matches re (to_regex_string g) path | None \<Rightarrow> True)"

fun bld_of :: "Action \<Rightarrow> PermissionBuilder \<Rightarrow> PathMatchBuilder" where
  "bld_of A_Read b = bld_read b"
| "bld_of A_Actuate b = bld_actuate b"
| "bld_of A_Provide b = bld_provide b"
| "bld_of A_Create b = bld_create b"

fun perm_of :: "Action \<Rightarrow> Permissions \<Rightarrow> PathMatcher" where
  "perm_of A_Read p = perm_read p"
| "perm_of A_Actuate p = perm_actuate p"
| "perm_of A_Provide p = perm_provide p"
| "perm_of A_Create p = perm_create p"

lemma add_scope_grants:
  "builder_grants re (bld_of a (add_scope b s)) path \<longleftrightarrow>
     builder_grants re (bld_of a b) path \<or> scope_grants re a s path"
  by (cases a; cases "sc_action s"; cases "sc_path s")
    (simp_all add: add_scope_def add_read_permission_def add_actuate_permission_def
      add_provide_permission_def add_create_permission_def extend_with_permission_grants
      scope_grants_def del: extend_with_permission.simps re_matches.simps)

lemma foldl_add_scope_grants:
  "builder_grants re (bld_of a (foldl add_scope b scopes)) path \<longleftrightarrow>
     builder_grants re (bld_of a b) path \<or> (\<exists>s\<in>set scopes. scope_grants re a s path)"
  by (induction scopes arbitrary: b) (auto simp: add_scope_grants)

lemma permissions_try_from_grants:
  assumes "permissions_try_from captures re claims = Ok p"
    and "parse_whitespace_separated captures (cl_scope claims) = Ok scopes"
  shows "is_match re (perm_of a p) path \<longleftrightarrow> (\<exists>s\<in>set scopes. scope_grants re a s path)"
    and "expires_at p = Some (uint (cl_exp claims) * 1000000000)"
proof -
  let ?b = "set_expires_at (foldl add_scope new_builder scopes) (uint (cl_exp claims) * 1000000000)"
  have b: "build_permissions re ?b = Ok p"
    using assms by (auto simp: permissions_try_from_def Let_def
        split: if_splits result.splits PermissionsBuildError.splits)
  have "bld_of a ?b = bld_of a (foldl add_scope new_builder scopes)"
    by (cases a) (simp_all add: set_expires_at_def)
  moreover have "build_matcher re (bld_of a ?b) = Ok (perm_of a p)"
    using b by (cases a) (simp_all add: build_permissions_Ok)
  moreover have "\<not> builder_grants re (bld_of a new_builder) path"
    by (cases a) (simp_all add: new_builder_def)
  ultimately show "is_match re (perm_of a p) path \<longleftrightarrow> (\<exists>s\<in>set scopes. scope_grants re a s path)"
    using build_matcher_grants [of re "bld_of a ?b" "perm_of a p" path]
    by (simp add: foldl_add_scope_grants)
  show "expires_at p = Some (uint (cl_exp claims) * 1000000000)"
    using b by (simp add: build_permissions_Ok set_expires_at_def)
qed

lemma permissions_try_from_scopes:
  "permissions_try_from captures re claims = Ok p \<Longrightarrow>
   \<exists>scopes. parse_whitespace_separated captures (cl_scope claims) = Ok scopes"
  by (auto simp: permissions_try_from_def split: result.splits ScopeError.splits)

lemma intercept_Enabled_Ok:
  "intercept captures re to_str (Auth_Enabled decode) header = Ok p \<longleftrightarrow>
     (\<exists>h token claims. header = Some h \<and> to_str h = Some (''Bearer '' @ token) \<and>
        decode token = Some claims \<and> permissions_try_from captures re claims = Ok p)"
  by (auto simp: intercept_def decode_token_def Let_def prefix_def
      split: option.splits result.splits if_splits)

section \<open>The scope grammar\<close>

text \<open>
  The meaning of \<open>SCOPE_REGEX\<close>: everything up to the first colon is the action; a colon must
  be followed by components, separated by dots, each an asterisk or an upper-case letter
  followed by letters and the digits zero and one.
\<close>

definition is_upper :: "char \<Rightarrow> bool" where
  "is_upper c \<longleftrightarrow> 65 \<le> (of_char c :: nat) \<and> (of_char c :: nat) \<le> 90"

definition is_scope_char :: "char \<Rightarrow> bool" where
  "is_scope_char c \<longleftrightarrow> is_upper c \<or> (97 \<le> (of_char c :: nat) \<and> (of_char c :: nat) \<le> 122) \<or>
     c = CHR ''0'' \<or> c = CHR ''1''"

fun is_component :: "string \<Rightarrow> bool" where
  "is_component [] = False"
| "is_component (c # cs) \<longleftrightarrow> c = CHR ''*'' \<and> cs = [] \<or> is_upper c \<and> list_all is_scope_char cs"

fun split_dots :: "string \<Rightarrow> string \<Rightarrow> string list" where
  "split_dots word [] = [word]"
| "split_dots word (c # cs) =
     (if c = CHR ''.'' then word # split_dots [] cs else split_dots (word @ [c]) cs)"

definition is_scope_path :: "string \<Rightarrow> bool" where
  "is_scope_path s \<longleftrightarrow> list_all is_component (split_dots [] s)"

definition scope_groups :: "string \<Rightarrow> (string \<Rightarrow> string option) option" where
  "scope_groups s =
     (let action = takeWhile (\<lambda>c. c \<noteq> CHR '':'') s; rest = drop (length action) s
      in if rest = [] then Some [''action'' \<mapsto> action]
         else if is_scope_path (tl rest) then Some [''action'' \<mapsto> action, ''path'' \<mapsto> tl rest]
         else None)"

definition scope_regex_spec :: "captures \<Rightarrow> bool" where
  "scope_regex_spec captures \<longleftrightarrow> captures SCOPE_REGEX = scope_groups"

section \<open>Properties\<close>

text \<open>
  The permissions made from the claims of a token: for each of the four actions, a path
  is matched exactly when one of the scopes of the token names that action and either no path
  or a glob that matches it, and the permissions expire at the expiration time of the token.
\<close>

theorem token_grants:
  assumes "permissions_try_from captures re claims = Ok p"
  shows "\<exists>scopes. parse_whitespace_separated captures (cl_scope claims) = Ok scopes \<and>
    (\<forall>a path. is_match re (perm_of a p) path \<longleftrightarrow>
       (\<exists>s\<in>set scopes. sc_action s = a \<and>
          (case sc_path s of Some g \<Rightarrow> re_matches re (to_regex_string g) path | None \<Rightarrow> True))) \<and>
    expires_at p = Some (uint (cl_exp claims) * 1000000000)"
proof -
  obtain scopes where s: "parse_whitespace_separated captures (cl_scope claims) = Ok scopes"
    using permissions_try_from_scopes [OF assms] by blast
  then show ?thesis using permissions_try_from_grants [OF assms s]
    by (auto simp: scope_grants_def)
qed

definition example_claims :: Claims where
  "example_claims =
     \<lparr>cl_sub = ''local dev'', cl_iss = ''issuer'', cl_aud = [''kuksa.val''], cl_iat = 0, cl_exp = 9,
      cl_scope = ''read:Vehicle.* provide''\<rparr>"

definition example_captures :: captures where
  "example_captures p s = scope_groups s"

lemma example_try_from:
  "permissions_try_from example_captures (\<lambda>_. Some (\<lambda>_. True)) example_claims =
     Ok \<lparr>expires_at = Some 9000000000, perm_read = M_Regexps [to_regex_string ''Vehicle.*''],
         perm_actuate = M_Nothing, perm_provide = M_Everything, perm_create = M_Nothing\<rparr>"
  by (simp add: permissions_try_from_def parse_whitespace_separated_def split_whitespace_def
      example_claims_def example_captures_def is_whitespace_def scope_groups_def is_scope_path_def
      is_upper_def is_scope_char_def parse_action_def add_scope_def new_builder_def
      add_read_permission_def add_provide_permission_def set_expires_at_def build_permissions_def
      Let_def)

theorem token_grants_witness:
  "\<exists>scopes. parse_whitespace_separated example_captures (cl_scope example_claims) = Ok scopes"
  using token_grants [OF example_try_from] by blast

text \<open>
  With authorization enabled a request obtains permissions only through a bearer token
  that the decoder has accepted, and exactly those made from its claims; in particular a
  request without the header, with another scheme or with a rejected token obtains none.
\<close>

theorem interceptor_guard:
  "intercept captures re to_str (Auth_Enabled decode) header = Ok p \<longleftrightarrow>
     (\<exists>h token claims. header = Some h \<and> to_str h = Some (''Bearer '' @ token) \<and>
        decode token = Some claims \<and> permissions_try_from captures re claims = Ok p)"
  by (rule intercept_Enabled_Ok)

text \<open>
  A scope whose path contains a digit other than zero and one is refused, and with it
  the whole token, although VSS paths such as \<open>Vehicle.Cabin.Seat.Row2\<close> contain such digits.
\<close>

theorem digits_in_scopes:
  "scope_regex_spec captures \<Longrightarrow>
   parse_whitespace_separated captures ''read:Vehicle.Cabin.Seat.Row2'' = Err ScopeParseError"
  by (simp add: parse_whitespace_separated_def split_whitespace_def is_whitespace_def
      scope_regex_spec_def scope_groups_def is_scope_path_def is_upper_def is_scope_char_def Let_def)

theorem digits_in_scopes_witness:
  "scope_regex_spec example_captures \<and>
   parse_whitespace_separated example_captures ''read:Vehicle.Cabin.Seat.Row2'' = Err ScopeParseError"
  using digits_in_scopes [of example_captures]
  by (auto simp: scope_regex_spec_def example_captures_def fun_eq_iff)

end
