(* ===== verification/Floats.thy ===== *)
theory Floats
  imports Prelude "HOL-Library.Log_Nat"
begin

text \<open>
  Rust's \<open>f32\<close> and \<open>f64\<close> as IEEE 754 bit patterns.  \<open>f32_val\<close> and \<open>f64_val\<close> decode a
  pattern into its exact rational value (or an infinity, or NaN), the comparisons are
  those of IEEE 754, and subtraction is the exact difference rounded to nearest, ties to
  even.  These are the floating-point operations that \<open>types.rs\<close> uses: \<open>f64::from\<close> on
  \<open>i32\<close>, \<open>u32\<close> and \<open>f32\<close> (all exact), \<open>-\<close>, \<open>abs\<close>, \<open><\<close>, \<open>>\<close> and \<open>==\<close>.
\<close>

type_synonym f32 = "32 word"
type_synonym f64 = "64 word"

datatype fpval = NaN | PInf | NInf | Fin rat

definition f64_val :: "f64 \<Rightarrow> fpval" where
  "f64_val w =
     (let s = 2 ^ 63 \<le> uint w; e = uint w div 2 ^ 52 mod 2 ^ 11; m = uint w mod 2 ^ 52 in
      if e = 2047 then (if m \<noteq> 0 then NaN else if s then NInf else PInf)
      else let mag = (if e = 0 then of_int m * 2 powi (- 1074)
                      else of_int (2 ^ 52 + m) * 2 powi (e - 1075))
           in Fin (if s then - mag else mag))"

definition f32_val :: "f32 \<Rightarrow> fpval" where
  "f32_val w =
     (let s = 2 ^ 31 \<le> uint w; e = uint w div 2 ^ 23 mod 2 ^ 8; m = uint w mod 2 ^ 23 in
      if e = 255 then (if m \<noteq> 0 then NaN else if s then NInf else PInf)
      else let mag = (if e = 0 then of_int m * 2 powi (- 149)
                      else of_int (2 ^ 23 + m) * 2 powi (e - 150))
           in Fin (if s then - mag else mag))"

section \<open>Comparison\<close>

fun fp_lt :: "fpval \<Rightarrow> fpval \<Rightarrow> bool" where
  "fp_lt (Fin a) (Fin b) = (a < b)"
| "fp_lt (Fin a) PInf = True"
| "fp_lt NInf (Fin b) = True"
| "fp_lt NInf PInf = True"
| "fp_lt _ _ = False"

fun fp_eq :: "fpval \<Rightarrow> fpval \<Rightarrow> bool" where
  "fp_eq NaN _ = False"
| "fp_eq _ NaN = False"
| "fp_eq x y = (x = y)"

lemma fp_eq_sym: "fp_eq x y = fp_eq y x"
  by (cases x; cases y) auto

lemma fp_eq_refl_iff: "fp_eq x x \<longleftrightarrow> x \<noteq> NaN"
  by (cases x) auto

lemma fp_eq_imp: "fp_eq x y \<Longrightarrow> x = y"
  by (cases x; cases y) auto

lemma fp_lt_irrefl [simp]: "\<not> fp_lt x x"
  by (cases x) auto

lemma fp_lt_trans: "fp_lt x y \<Longrightarrow> fp_lt y z \<Longrightarrow> fp_lt x z"
  by (cases x; cases y; cases z) auto

lemma fp_trichotomy:
  "x \<noteq> NaN \<Longrightarrow> y \<noteq> NaN \<Longrightarrow> fp_lt x y \<or> fp_eq x y \<or> fp_lt y x"
  by (cases x; cases y) auto

lemma fp_lt_NaN [simp]: "\<not> fp_lt NaN x" "\<not> fp_lt x NaN"
  by (cases x; simp)+

section \<open>Rounding and subtraction\<close>

definition round_half_even :: "rat \<Rightarrow> int" where
  "round_half_even x =
     (let f = \<lfloor>x\<rfloor>; d = x - of_int f in
      if d < 1 / 2 then f else if 1 / 2 < d then f + 1 else if even f then f else f + 1)"

text \<open>The exponent of the leading binary digit of a positive rational.\<close>

definition rat_ilog2 :: "rat \<Rightarrow> int" where
  "rat_ilog2 x =
     (let (a, b) = quotient_of x;
          k = int (floorlog 2 (nat a)) - int (floorlog 2 (nat b))
      in if 2 powi k \<le> x then k else k - 1)"

text \<open>
  \<open>p\<close> is the precision in bits, \<open>qmin\<close> the exponent of the smallest subnormal and \<open>emax\<close>
  the exponent at which the format overflows.
\<close>

definition rnd_pos :: "int \<Rightarrow> int \<Rightarrow> rat \<Rightarrow> rat" where
  "rnd_pos p qmin x =
     (let q = 2 powi (max (rat_ilog2 x - (p - 1)) qmin)
      in of_int (round_half_even (x / q)) * q)"

definition fp_rnd :: "int \<Rightarrow> int \<Rightarrow> int \<Rightarrow> rat \<Rightarrow> fpval" where
  "fp_rnd p qmin emax x =
     (if x = 0 then Fin 0
      else let r = rnd_pos p qmin \<bar>x\<bar> in
        if 2 powi emax \<le> r then (if 0 < x then PInf else NInf)
        else Fin (if 0 < x then r else - r))"

fun fp_sub :: "(rat \<Rightarrow> fpval) \<Rightarrow> fpval \<Rightarrow> fpval \<Rightarrow> fpval" where
  "fp_sub rnd (Fin a) (Fin b) = rnd (a - b)"
| "fp_sub rnd NaN y = NaN"
| "fp_sub rnd x NaN = NaN"
| "fp_sub rnd PInf PInf = NaN"
| "fp_sub rnd PInf y = PInf"
| "fp_sub rnd NInf NInf = NaN"
| "fp_sub rnd NInf y = NInf"
| "fp_sub rnd (Fin a) PInf = NInf"
| "fp_sub rnd (Fin a) NInf = PInf"

fun fp_abs :: "fpval \<Rightarrow> fpval" where
  "fp_abs (Fin a) = Fin \<bar>a\<bar>"
| "fp_abs NInf = PInf"
| "fp_abs x = x"

definition f64_rnd :: "rat \<Rightarrow> fpval" where
  "f64_rnd = fp_rnd 53 (- 1074) 1024"

definition f32_rnd :: "rat \<Rightarrow> fpval" where
  "f32_rnd = fp_rnd 24 (- 149) 128"

definition f64_epsilon :: rat where
  "f64_epsilon = 1 / 2 ^ 52"

definition f32_epsilon :: rat where
  "f32_epsilon = 1 / 2 ^ 23"

text \<open>The test \<open>(x - y).abs() < EPSILON\<close> of \<open>DataValue::equals\<close>.\<close>

definition f64_close :: "fpval \<Rightarrow> fpval \<Rightarrow> bool" where
  "f64_close x y = fp_lt (fp_abs (fp_sub f64_rnd x y)) (Fin f64_epsilon)"

definition f32_close :: "fpval \<Rightarrow> fpval \<Rightarrow> bool" where
  "f32_close x y = fp_lt (fp_abs (fp_sub f32_rnd x y)) (Fin f32_epsilon)"

lemma fp_abs_rnd_minus: "fp_abs (fp_rnd p q e (- x)) = fp_abs (fp_rnd p q e x)"
  by (auto simp: fp_rnd_def Let_def)

lemma fp_abs_sub_sym:
  "fp_abs (fp_sub (fp_rnd p q e) x y) = fp_abs (fp_sub (fp_rnd p q e) y x)"
proof (cases "\<exists>a b. x = Fin a \<and> y = Fin b")
  case True
  then obtain a b where "x = Fin a" "y = Fin b" by blast
  then show ?thesis using fp_abs_rnd_minus [of p q e "a - b"] by simp
next
  case False
  then show ?thesis by (cases x; cases y) simp_all
qed

lemma f64_close_sym: "f64_close x y = f64_close y x"
  by (simp add: f64_close_def f64_rnd_def fp_abs_sub_sym [of _ _ _ x y])

lemma f32_close_sym: "f32_close x y = f32_close y x"
  by (simp add: f32_close_def f32_rnd_def fp_abs_sub_sym [of _ _ _ x y])

lemma f64_close_refl: "f64_close (Fin a) (Fin a)"
  by (simp add: f64_close_def f64_rnd_def fp_rnd_def f64_epsilon_def)

lemma f32_close_refl: "f32_close (Fin a) (Fin a)"
  by (simp add: f32_close_def f32_rnd_def fp_rnd_def f32_epsilon_def)

section \<open>Rounding does not shrink a difference below the threshold\<close>

lemma round_half_even_ge: "of_int n \<le> x \<Longrightarrow> n \<le> round_half_even x"
  using le_floor_iff [of n x] by (auto simp: round_half_even_def Let_def)

lemma floorlog2_bounds:
  assumes "0 < (a :: int)"
  shows "2 powi (int (floorlog 2 (nat a)) - 1) \<le> (of_int a :: rat)"
    and "(of_int a :: rat) < 2 powi (int (floorlog 2 (nat a)))"
proof -
  have l: "0 < floorlog 2 (nat a)" and lo: "2 ^ (floorlog 2 (nat a) - 1) \<le> nat a"
    and hi: "nat a < 2 ^ floorlog 2 (nat a)"
    using assms floorlog_bounds [of "nat a" 2] by (auto simp: floorlog_def)
  have "(2 :: rat) ^ (floorlog 2 (nat a) - 1) \<le> of_nat (nat a)"
    using lo by (metis of_nat_le_iff of_nat_numeral of_nat_power)
  moreover have "of_nat (nat a) < (2 :: rat) ^ floorlog 2 (nat a)"
    using hi by (metis of_nat_less_iff of_nat_numeral of_nat_power)
  moreover have "(of_nat (nat a) :: rat) = of_int a" using assms by simp
  moreover have "int (floorlog 2 (nat a)) - 1 = int (floorlog 2 (nat a) - 1)" using l by simp
  ultimately show "2 powi (int (floorlog 2 (nat a)) - 1) \<le> (of_int a :: rat)"
    and "(of_int a :: rat) < 2 powi (int (floorlog 2 (nat a)))"
    by (simp_all only: power_int_of_nat)
qed

lemma rat_ilog2_bounds:
  assumes "0 < x"
  shows "2 powi (rat_ilog2 x) \<le> x" and "x < 2 powi (rat_ilog2 x + 1)"
proof -
  obtain a b where q: "quotient_of x = (a, b)" by (cases "quotient_of x")
  then have b: "0 < b" and x: "x = of_int a / of_int b"
    by (auto dest: quotient_of_denom_pos quotient_of_div)
  then have a: "0 < a" using assms by (simp add: zero_less_divide_iff)
  define la lb where "la = int (floorlog 2 (nat a))" and "lb = int (floorlog 2 (nat b))"
  note fa = floorlog2_bounds [OF a, folded la_def] and fb = floorlog2_bounds [OF b, folded lb_def]
  have pos: "(0 :: rat) < of_int a" "(0 :: rat) < of_int b" using a b by simp_all
  have up: "x < 2 powi (la - lb + 1)"
  proof -
    have "x < 2 powi la / of_int b" using fa(2) pos x by (simp add: divide_strict_right_mono)
    also have "\<dots> \<le> 2 powi la / 2 powi (lb - 1)"
      using fb(1) pos by (intro divide_left_mono mult_pos_pos) simp_all
    also have "\<dots> = 2 powi (la - lb + 1)"
      by (simp add: power_int_diff power_int_add)
    finally show ?thesis .
  qed
  have lo: "2 powi (la - lb - 1) \<le> x"
  proof -
    have "(2 :: rat) powi (la - lb - 1) = 2 powi (la - 1) / 2 powi lb"
      by (simp add: power_int_diff)
    also have "\<dots> \<le> of_int a / 2 powi lb" using fa(1) by (simp add: divide_right_mono)
    also have "\<dots> \<le> x" unfolding x
      using fb(2) pos by (intro divide_left_mono mult_pos_pos) simp_all
    finally show ?thesis .
  qed
  have k: "rat_ilog2 x = (if 2 powi (la - lb) \<le> x then la - lb else la - lb - 1)"
    by (simp add: rat_ilog2_def q la_def lb_def Let_def)
  show "2 powi (rat_ilog2 x) \<le> x" using k lo by simp
  show "x < 2 powi (rat_ilog2 x + 1)" using k up by (simp split: if_splits)
qed

lemma rnd_pos_ge_pow2:
  assumes "2 powi k \<le> x" and "0 < p" and "qmin \<le> k - (p - 1)"
  shows "2 powi k \<le> rnd_pos p qmin x"
proof -
  have x: "0 < x" using assms(1) zero_less_power_int [of 2 k] by (rule order_less_le_trans [rotated]) simp
  define L where "L = rat_ilog2 x"
  have "(2 :: rat) powi k < 2 powi (L + 1)"
    using assms(1) rat_ilog2_bounds(2) [OF x] unfolding L_def by simp
  then have kL: "k \<le> L"
    using power_int_increasing [of "L + 1" k "2 :: rat"] by force
  then have m: "max (L - (p - 1)) qmin = L - (p - 1)" using assms(3) by simp
  define q :: rat where "q = 2 powi (L - (p - 1))"
  have q0: "0 < q" by (simp add: q_def)
  have eq: "2 ^ nat (p - 1) * q = 2 powi L"
  proof -
    have "(2 :: rat) ^ nat (p - 1) = 2 powi (p - 1)"
      using assms(2) power_int_of_nat [of "2 :: rat" "nat (p - 1)"] by simp
    then have "2 ^ nat (p - 1) * q = 2 powi (p - 1) * 2 powi (L - (p - 1))" by (simp add: q_def)
    also have "\<dots> = 2 powi L" by (simp flip: power_int_add)
    finally show ?thesis .
  qed
  have "of_int (2 ^ nat (p - 1)) \<le> x / q"
    using rat_ilog2_bounds(1) [OF x] eq q0 by (simp add: L_def pos_le_divide_eq)
  then have "(2 ^ nat (p - 1) :: int) \<le> round_half_even (x / q)" by (rule round_half_even_ge)
  then have "(of_int (2 ^ nat (p - 1)) :: rat) \<le> of_int (round_half_even (x / q))" by (simp only: of_int_le_iff)
  then have "2 powi L \<le> of_int (round_half_even (x / q)) * q"
    using q0 unfolding eq [symmetric] by (simp only: of_int_power of_int_numeral mult_le_cancel_right_pos)
  moreover have "rnd_pos p qmin x = of_int (round_half_even (x / q)) * q"
    by (simp add: rnd_pos_def Let_def m q_def flip: L_def)
  ultimately have "2 powi L \<le> rnd_pos p qmin x" by simp
  then show ?thesis using kL order_trans by (metis power_int_increasing one_le_numeral)
qed

lemma f64_close_imp:
  assumes "f64_close (Fin a) (Fin b)"
  shows "\<bar>a - b\<bar> < f64_epsilon"
proof (rule ccontr)
  assume "\<not> ?thesis"
  then have ge: "2 powi (- 52) \<le> \<bar>a - b\<bar>" by (simp add: f64_epsilon_def power_int_def field_simps)
  have "2 powi (- 52) \<le> rnd_pos 53 (- 1074) \<bar>a - b\<bar>" by (rule rnd_pos_ge_pow2 [OF ge]) simp_all
  moreover have "a \<noteq> b" using ge by (auto simp: power_int_def)
  ultimately show False using assms
    by (auto simp: f64_close_def f64_rnd_def fp_rnd_def Let_def f64_epsilon_def power_int_def
        field_simps split: if_splits)
qed

lemma f32_close_imp:
  assumes "f32_close (Fin a) (Fin b)"
  shows "\<bar>a - b\<bar> < f32_epsilon"
proof (rule ccontr)
  assume "\<not> ?thesis"
  then have ge: "2 powi (- 23) \<le> \<bar>a - b\<bar>" by (simp add: f32_epsilon_def power_int_def field_simps)
  have "2 powi (- 23) \<le> rnd_pos 24 (- 149) \<bar>a - b\<bar>" by (rule rnd_pos_ge_pow2 [OF ge]) simp_all
  moreover have "a \<noteq> b" using ge by (auto simp: power_int_def)
  ultimately show False using assms
    by (auto simp: f32_close_def f32_rnd_def fp_rnd_def Let_def f32_epsilon_def power_int_def
        field_simps split: if_splits)
qed

end
