(* ===== verification/Types.thy ===== *)
theory Types
  imports Floats
begin

text \<open>
  The data model of \<open>databroker/src/types.rs\<close>: the declared data types, entry types and
  change types, the run-time values, Rust's derived \<open>PartialEq\<close> on them, and the three
  comparison methods \<open>greater_than\<close>, \<open>less_than\<close> and \<open>equals\<close> that the query executor
  uses.  Each method is proved equal to a reference definition on exact numbers.
\<close>

section \<open>Data types and values\<close>

datatype DataType =
    T_String | T_Bool | T_Int8 | T_Int16 | T_Int32 | T_Int64
  | T_Uint8 | T_Uint16 | T_Uint32 | T_Uint64 | T_Float | T_Double
  | T_StringArray | T_BoolArray | T_Int8Array | T_Int16Array | T_Int32Array | T_Int64Array
  | T_Uint8Array | T_Uint16Array | T_Uint32Array | T_Uint64Array | T_FloatArray | T_DoubleArray

datatype EntryType = Sensor | Attribute | Actuator

datatype ChangeType = Static | OnChange | Continuous

datatype DataValue =
    NotAvailable
  | Bool bool
  | String string
  | Int32 i32
  | Int64 i64
  | Uint32 u32
  | Uint64 u64
  | Float f32
  | Double f64
  | BoolArray "bool list"
  | StringArray "string list"
  | Int32Array "i32 list"
  | Int64Array "i64 list"
  | Uint32Array "u32 list"
  | Uint64Array "u64 list"
  | FloatArray "f32 list"
  | DoubleArray "f64 list"

datatype CastError = CastError

text \<open>
  The derived \<open>PartialEq\<close>: on floating-point payloads it is IEEE equality, under which NaN
  differs from itself and the two zeros are equal.
\<close>

definition f32_eq :: "f32 \<Rightarrow> f32 \<Rightarrow> bool" where
  "f32_eq v w = fp_eq (f32_val v) (f32_val w)"

definition f64_eq :: "f64 \<Rightarrow> f64 \<Rightarrow> bool" where
  "f64_eq v w = fp_eq (f64_val v) (f64_val w)"

fun dv_eq :: "DataValue \<Rightarrow> DataValue \<Rightarrow> bool" where
  "dv_eq (Float v) w = (case w of Float v' \<Rightarrow> f32_eq v v' | _ \<Rightarrow> False)"
| "dv_eq (Double v) w = (case w of Double v' \<Rightarrow> f64_eq v v' | _ \<Rightarrow> False)"
| "dv_eq (FloatArray v) w = (case w of FloatArray v' \<Rightarrow> list_all2 f32_eq v v' | _ \<Rightarrow> False)"
| "dv_eq (DoubleArray v) w = (case w of DoubleArray v' \<Rightarrow> list_all2 f64_eq v v' | _ \<Rightarrow> False)"
| "dv_eq v w = (v = w)"

text \<open>\<open>f64::from(i32)\<close> and \<open>f64::from(u32)\<close> are exact.\<close>

definition f64_from_i32 :: "i32 \<Rightarrow> fpval" where
  "f64_from_i32 v = Fin (of_int (sint v))"

definition f64_from_u32 :: "u32 \<Rightarrow> fpval" where
  "f64_from_u32 v = Fin (of_int (uint v))"

section \<open>Comparisons\<close>

definition greater_than :: "DataValue \<Rightarrow> DataValue \<Rightarrow> (bool, CastError) result" where
  "greater_than self other =
     (case (self, other) of
        (Int32 v, Int32 w) \<Rightarrow> Ok (sint w < sint v)
      | (Int32 v, Int64 w) \<Rightarrow> Ok (sint w < sint (i64_from_i32 v))
      | (Int32 v, Uint32 w) \<Rightarrow> Ok (sint (i64_from_u32 w) < sint (i64_from_i32 v))
      | (Int32 v, Uint64 w) \<Rightarrow> (if sint v < 0 then Ok False
         else case u64_try_from_i32 v of Some v' \<Rightarrow> Ok (uint w < uint v') | None \<Rightarrow> Err CastError)
      | (Int32 v, Float w) \<Rightarrow> Ok (fp_lt (f32_val w) (f64_from_i32 v))
      | (Int32 v, Double w) \<Rightarrow> Ok (fp_lt (f64_val w) (f64_from_i32 v))
      | (Int64 v, Int32 w) \<Rightarrow> Ok (sint (i64_from_i32 w) < sint v)
      | (Int64 v, Int64 w) \<Rightarrow> Ok (sint w < sint v)
      | (Int64 v, Uint32 w) \<Rightarrow> Ok (sint (i64_from_u32 w) < sint v)
      | (Int64 v, Uint64 w) \<Rightarrow> (if sint v < 0 then Ok False
         else case u64_try_from_i64 v of Some v' \<Rightarrow> Ok (uint w < uint v') | None \<Rightarrow> Err CastError)
      | (Int64 v, Float w) \<Rightarrow> (case i32_try_from_i64 v of Some v' \<Rightarrow> Ok (fp_lt (f32_val w) (f64_from_i32 v')) | None \<Rightarrow> Err CastError)
      | (Int64 v, Double w) \<Rightarrow> (case i32_try_from_i64 v of Some v' \<Rightarrow> Ok (fp_lt (f64_val w) (f64_from_i32 v')) | None \<Rightarrow> Err CastError)
      | (Uint32 v, Int32 w) \<Rightarrow> Ok (sint (i64_from_i32 w) < sint (i64_from_u32 v))
      | (Uint32 v, Int64 w) \<Rightarrow> Ok (sint w < sint (i64_from_u32 v))
      | (Uint32 v, Uint32 w) \<Rightarrow> Ok (uint w < uint v)
      | (Uint32 v, Uint64 w) \<Rightarrow> Ok (uint w < uint (u64_from_u32 v))
      | (Uint32 v, Float w) \<Rightarrow> Ok (fp_lt (f32_val w) (f64_from_u32 v))
      | (Uint32 v, Double w) \<Rightarrow> Ok (fp_lt (f64_val w) (f64_from_u32 v))
      | (Uint64 v, Int32 w) \<Rightarrow> (if sint w < 0 then Ok True
         else case u64_try_from_i32 w of Some w' \<Rightarrow> Ok (uint w' < uint v) | None \<Rightarrow> Err CastError)
      | (Uint64 v, Int64 w) \<Rightarrow> (if sint w < 0 then Ok True
         else case u64_try_from_i64 w of Some w' \<Rightarrow> Ok (uint w' < uint v) | None \<Rightarrow> Err CastError)
      | (Uint64 v, Uint32 w) \<Rightarrow> Ok (uint (u64_from_u32 w) < uint v)
      | (Uint64 v, Uint64 w) \<Rightarrow> Ok (uint w < uint v)
      | (Uint64 v, Float w) \<Rightarrow> (case u32_try_from_u64 v of Some v' \<Rightarrow> Ok (fp_lt (f32_val w) (f64_from_u32 v')) | None \<Rightarrow> Err CastError)
      | (Uint64 v, Double w) \<Rightarrow> (case u32_try_from_u64 v of Some v' \<Rightarrow> Ok (fp_lt (f64_val w) (f64_from_u32 v')) | None \<Rightarrow> Err CastError)
      | (Float v, Int32 w) \<Rightarrow> Ok (fp_lt (f64_from_i32 w) (f32_val v))
      | (Float v, Int64 w) \<Rightarrow> (case i32_try_from_i64 w of Some w' \<Rightarrow> Ok (fp_lt (f64_from_i32 w') (f32_val v)) | None \<Rightarrow> Err CastError)
      | (Float v, Uint32 w) \<Rightarrow> Ok (fp_lt (f64_from_u32 w) (f32_val v))
      | (Float v, Uint64 w) \<Rightarrow> (case u32_try_from_u64 w of Some w' \<Rightarrow> Ok (fp_lt (f64_from_u32 w') (f32_val v)) | None \<Rightarrow> Err CastError)
      | (Float v, Float w) \<Rightarrow> Ok (fp_lt (f32_val w) (f32_val v))
      | (Float v, Double w) \<Rightarrow> Ok (fp_lt (f64_val w) (f32_val v))
      | (Double v, Int32 w) \<Rightarrow> Ok (fp_lt (f64_from_i32 w) (f64_val v))
      | (Double v, Int64 w) \<Rightarrow> (case i32_try_from_i64 w of Some w' \<Rightarrow> Ok (fp_lt (f64_from_i32 w') (f64_val v)) | None \<Rightarrow> Err CastError)
      | (Double v, Uint32 w) \<Rightarrow> Ok (fp_lt (f64_from_u32 w) (f64_val v))
      | (Double v, Uint64 w) \<Rightarrow> (case u32_try_from_u64 w of Some w' \<Rightarrow> Ok (fp_lt (f64_from_u32 w') (f64_val v)) | None \<Rightarrow> Err CastError)
      | (Double v, Float w) \<Rightarrow> Ok (fp_lt (f32_val w) (f64_val v))
      | (Double v, Double w) \<Rightarrow> Ok (fp_lt (f64_val w) (f64_val v))
      | _ \<Rightarrow> Err CastError)"

definition less_than :: "DataValue \<Rightarrow> DataValue \<Rightarrow> (bool, CastError) result" where
  "less_than self other =
     (case (self, other) of
        (Int32 v, Int32 w) \<Rightarrow> Ok (sint v < sint w)
      | (Int32 v, Int64 w) \<Rightarrow> Ok (sint (i64_from_i32 v) < sint w)
      | (Int32 v, Uint32 w) \<Rightarrow> Ok (sint (i64_from_i32 v) < sint (i64_from_u32 w))
      | (Int32 v, Uint64 w) \<Rightarrow> (if sint v < 0 then Ok True
         else case u64_try_from_i32 v of Some v' \<Rightarrow> Ok (uint v' < uint w) | None \<Rightarrow> Err CastError)
      | (Int32 v, Float w) \<Rightarrow> Ok (fp_lt (f64_from_i32 v) (f32_val w))
      | (Int32 v, Double w) \<Rightarrow> Ok (fp_lt (f64_from_i32 v) (f64_val w))
      | (Int64 v, Int32 w) \<Rightarrow> Ok (sint v < sint (i64_from_i32 w))
      | (Int64 v, Int64 w) \<Rightarrow> Ok (sint v < sint w)
      | (Int64 v, Uint32 w) \<Rightarrow> Ok (sint v < sint (i64_from_u32 w))
      | (Int64 v, Uint64 w) \<Rightarrow> (if sint v < 0 then Ok True
         else case u64_try_from_i64 v of Some v' \<Rightarrow> Ok (uint v' < uint w) | None \<Rightarrow> Err CastError)
      | (Int64 v, Float w) \<Rightarrow> (case i32_try_from_i64 v of Some v' \<Rightarrow> Ok (fp_lt (f64_from_i32 v') (f32_val w)) | None \<Rightarrow> Err CastError)
      | (Int64 v, Double w) \<Rightarrow> (case i32_try_from_i64 v of Some v' \<Rightarrow> Ok (fp_lt (f64_from_i32 v') (f64_val w)) | None \<Rightarrow> Err CastError)
      | (Uint32 v, Int32 w) \<Rightarrow> Ok (sint (i64_from_u32 v) < sint (i64_from_i32 w))
      | (Uint32 v, Int64 w) \<Rightarrow> Ok (sint (i64_from_u32 v) < sint w)
      | (Uint32 v, Uint32 w) \<Rightarrow> Ok (uint v < uint w)
      | (Uint32 v, Uint64 w) \<Rightarrow> Ok (uint (u64_from_u32 v) < uint w)
      | (Uint32 v, Float w) \<Rightarrow> Ok (fp_lt (f64_from_u32 v) (f32_val w))
      | (Uint32 v, Double w) \<Rightarrow> Ok (fp_lt (f64_from_u32 v) (f64_val w))
      | (Uint64 v, Int32 w) \<Rightarrow> (if sint w < 0 then Ok False
         else case u64_try_from_i32 w of Some w' \<Rightarrow> Ok (uint v < uint w') | None \<Rightarrow> Err CastError)
      | (Uint64 v, Int64 w) \<Rightarrow> (if sint w < 0 then Ok False
         else case u64_try_from_i64 w of Some w' \<Rightarrow> Ok (uint v < uint w') | None \<Rightarrow> Err CastError)
      | (Uint64 v, Uint32 w) \<Rightarrow> Ok (uint v < uint (u64_from_u32 w))
      | (Uint64 v, Uint64 w) \<Rightarrow> Ok (uint v < uint w)
      | (Uint64 v, Float w) \<Rightarrow> (case u32_try_from_u64 v of Some v' \<Rightarrow> Ok (fp_lt (f64_from_u32 v') (f32_val w)) | None \<Rightarrow> Err CastError)
      | (Uint64 v, Double w) \<Rightarrow> (case u32_try_from_u64 v of Some v' \<Rightarrow> Ok (fp_lt (f64_from_u32 v') (f64_val w)) | None \<Rightarrow> Err CastError)
      | (Float v, Int32 w) \<Rightarrow> Ok (fp_lt (f32_val v) (f64_from_i32 w))
      | (Float v, Int64 w) \<Rightarrow> (case i32_try_from_i64 w of Some w' \<Rightarrow> Ok (fp_lt (f32_val v) (f64_from_i32 w')) | None \<Rightarrow> Err CastError)
      | (Float v, Uint32 w) \<Rightarrow> Ok (fp_lt (f32_val v) (f64_from_u32 w))
      | (Float v, Uint64 w) \<Rightarrow> (case u32_try_from_u64 w of Some w' \<Rightarrow> Ok (fp_lt (f32_val v) (f64_from_u32 w')) | None \<Rightarrow> Err CastError)
      | (Float v, Float w) \<Rightarrow> Ok (fp_lt (f32_val v) (f32_val w))
      | (Float v, Double w) \<Rightarrow> Ok (fp_lt (f32_val v) (f64_val w))
      | (Double v, Int32 w) \<Rightarrow> Ok (fp_lt (f64_val v) (f64_from_i32 w))
      | (Double v, Int64 w) \<Rightarrow> (case i32_try_from_i64 w of Some w' \<Rightarrow> Ok (fp_lt (f64_val v) (f64_from_i32 w')) | None \<Rightarrow> Err CastError)
      | (Double v, Uint32 w) \<Rightarrow> Ok (fp_lt (f64_val v) (f64_from_u32 w))
      | (Double v, Uint64 w) \<Rightarrow> (case u32_try_from_u64 w of Some w' \<Rightarrow> Ok (fp_lt (f64_val v) (f64_from_u32 w')) | None \<Rightarrow> Err CastError)
      | (Double v, Float w) \<Rightarrow> Ok (fp_lt (f64_val v) (f32_val w))
      | (Double v, Double w) \<Rightarrow> Ok (fp_lt (f64_val v) (f64_val w))
      | _ \<Rightarrow> Err CastError)"

definition equals :: "DataValue \<Rightarrow> DataValue \<Rightarrow> (bool, CastError) result" where
  "equals self other =
     (case (self, other) of
        (Bool v, Bool w) \<Rightarrow> Ok (v = w)
      | (String v, String w) \<Rightarrow> Ok (v = w)
      | (Int32 v, Int32 w) \<Rightarrow> Ok (v = w)
      | (Int32 v, Int64 w) \<Rightarrow> Ok (sint (i64_from_i32 v) = sint w)
      | (Int32 v, Uint32 w) \<Rightarrow> Ok (sint (i64_from_i32 v) = sint (i64_from_u32 w))
      | (Int32 v, Uint64 w) \<Rightarrow> (if sint v < 0 then Ok False
         else case u64_try_from_i32 v of Some v' \<Rightarrow> Ok (uint v' = uint w) | None \<Rightarrow> Err CastError)
      | (Int32 v, Float w) \<Rightarrow> Ok (f64_close (f64_from_i32 v) (f32_val w))
      | (Int32 v, Double w) \<Rightarrow> Ok (f64_close (f64_from_i32 v) (f64_val w))
      | (Int64 v, Int32 w) \<Rightarrow> Ok (sint v = sint (i64_from_i32 w))
      | (Int64 v, Int64 w) \<Rightarrow> Ok (v = w)
      | (Int64 v, Uint32 w) \<Rightarrow> Ok (sint v = sint (i64_from_u32 w))
      | (Int64 v, Uint64 w) \<Rightarrow> (if sint v < 0 then Ok False
         else case u64_try_from_i64 v of Some v' \<Rightarrow> Ok (uint v' = uint w) | None \<Rightarrow> Err CastError)
      | (Int64 v, Float w) \<Rightarrow> (case i32_try_from_i64 v of Some v' \<Rightarrow> Ok (f64_close (f64_from_i32 v') (f32_val w)) | None \<Rightarrow> Err CastError)
      | (Int64 v, Double w) \<Rightarrow> (case i32_try_from_i64 v of Some v' \<Rightarrow> Ok (f64_close (f64_from_i32 v') (f64_val w)) | None \<Rightarrow> Err CastError)
      | (Uint32 v, Int32 w) \<Rightarrow> Ok (sint (i64_from_u32 v) = sint (i64_from_i32 w))
      | (Uint32 v, Int64 w) \<Rightarrow> Ok (sint (i64_from_u32 v) = sint w)
      | (Uint32 v, Uint32 w) \<Rightarrow> Ok (v = w)
      | (Uint32 v, Uint64 w) \<Rightarrow> Ok (uint (u64_from_u32 v) = uint w)
      | (Uint32 v, Float w) \<Rightarrow> Ok (f64_close (f64_from_u32 v) (f32_val w))
      | (Uint32 v, Double w) \<Rightarrow> Ok (f64_close (f64_from_u32 v) (f64_val w))
      | (Uint64 v, Int32 w) \<Rightarrow> (if sint w < 0 then Ok False
         else case u64_try_from_i32 w of Some w' \<Rightarrow> Ok (uint v = uint w') | None \<Rightarrow> Err CastError)
      | (Uint64 v, Int64 w) \<Rightarrow> (if sint w < 0 then Ok False
         else case u64_try_from_i64 w of Some w' \<Rightarrow> Ok (uint v = uint w') | None \<Rightarrow> Err CastError)
      | (Uint64 v, Uint32 w) \<Rightarrow> Ok (uint v = uint (u64_from_u32 w))
      | (Uint64 v, Uint64 w) \<Rightarrow> Ok (v = w)
      | (Uint64 v, Float w) \<Rightarrow> (case u32_try_from_u64 v of Some v' \<Rightarrow> Ok (f64_close (f64_from_u32 v') (f32_val w)) | None \<Rightarrow> Err CastError)
      | (Uint64 v, Double w) \<Rightarrow> (case u32_try_from_u64 v of Some v' \<Rightarrow> Ok (f64_close (f64_from_u32 v') (f64_val w)) | None \<Rightarrow> Err CastError)
      | (Float v, Int32 w) \<Rightarrow> Ok (f64_close (f32_val v) (f64_from_i32 w))
      | (Float v, Int64 w) \<Rightarrow> (case i32_try_from_i64 w of Some w' \<Rightarrow> Ok (f64_close (f32_val v) (f64_from_i32 w')) | None \<Rightarrow> Err CastError)
      | (Float v, Uint32 w) \<Rightarrow> Ok (f64_close (f32_val v) (f64_from_u32 w))
      | (Float v, Uint64 w) \<Rightarrow> (case u32_try_from_u64 w of Some w' \<Rightarrow> Ok (f64_close (f32_val v) (f64_from_u32 w')) | None \<Rightarrow> Err CastError)
      | (Float v, Float w) \<Rightarrow> Ok (f32_close (f32_val v) (f32_val w))
      | (Float v, Double w) \<Rightarrow> Ok (f64_close (f32_val v) (f64_val w))
      | (Double v, Int32 w) \<Rightarrow> Ok (f64_close (f64_val v) (f64_from_i32 w))
      | (Double v, Int64 w) \<Rightarrow> (case i32_try_from_i64 w of Some w' \<Rightarrow> Ok (f64_close (f64_val v) (f64_from_i32 w')) | None \<Rightarrow> Err CastError)
      | (Double v, Uint32 w) \<Rightarrow> Ok (f64_close (f64_val v) (f64_from_u32 w))
      | (Double v, Uint64 w) \<Rightarrow> (case u32_try_from_u64 w of Some w' \<Rightarrow> Ok (f64_close (f64_val v) (f64_from_u32 w')) | None \<Rightarrow> Err CastError)
      | (Double v, Float w) \<Rightarrow> Ok (f64_close (f64_val v) (f32_val w))
      | (Double v, Double w) \<Rightarrow> Ok (f64_close (f64_val v) (f64_val w))
      | _ \<Rightarrow> Err CastError)"

section \<open>Reference comparison on exact numbers\<close>

text \<open>The exact number a value denotes, if it is numeric.\<close>

fun num_val :: "DataValue \<Rightarrow> fpval option" where
  "num_val (Int32 v) = Some (Fin (of_int (sint v)))"
| "num_val (Int64 v) = Some (Fin (of_int (sint v)))"
| "num_val (Uint32 v) = Some (Fin (of_int (uint v)))"
| "num_val (Uint64 v) = Some (Fin (of_int (uint v)))"
| "num_val (Float v) = Some (f32_val v)"
| "num_val (Double v) = Some (f64_val v)"
| "num_val _ = None"

fun is_fp :: "DataValue \<Rightarrow> bool" where
  "is_fp (Float _) = True"
| "is_fp (Double _) = True"
| "is_fp _ = False"

text \<open>A 64-bit integer is compared with a floating-point value only when it fits 32 bits.\<close>

fun fits_f64 :: "DataValue \<Rightarrow> bool" where
  "fits_f64 (Int64 v) = (- (2 ^ 31) \<le> sint v \<and> sint v < 2 ^ 31)"
| "fits_f64 (Uint64 v) = (uint v < 2 ^ 32)"
| "fits_f64 _ = True"

definition comparable :: "DataValue \<Rightarrow> DataValue \<Rightarrow> bool" where
  "comparable v w \<longleftrightarrow> num_val v \<noteq> None \<and> num_val w \<noteq> None \<and>
     (is_fp v \<longrightarrow> fits_f64 w) \<and> (is_fp w \<longrightarrow> fits_f64 v)"

definition num_less :: "DataValue \<Rightarrow> DataValue \<Rightarrow> (bool, CastError) result" where
  "num_less v w =
     (if comparable v w then Ok (fp_lt (the (num_val v)) (the (num_val w))) else Err CastError)"

text \<open>Equality: exact on two integers, within the machine epsilon as soon as a side is floating-point.\<close>

definition num_equal :: "DataValue \<Rightarrow> DataValue \<Rightarrow> (bool, CastError) result" where
  "num_equal v w =
     (case (v, w) of
        (Bool a, Bool b) \<Rightarrow> Ok (a = b)
      | (String a, String b) \<Rightarrow> Ok (a = b)
      | (Float a, Float b) \<Rightarrow> Ok (f32_close (f32_val a) (f32_val b))
      | _ \<Rightarrow> if \<not> comparable v w then Err CastError
             else if is_fp v \<or> is_fp w then Ok (f64_close (the (num_val v)) (the (num_val w)))
             else Ok (the (num_val v) = the (num_val w)))"

lemma uint_scast_i32: "0 \<le> sint v \<Longrightarrow> uint (scast (v :: i32) :: u64) = sint v"
  using u64_try_from_i32_Some [of v] by (auto simp: u64_try_from_i32_def)

lemma sint_scast_i64:
  "- 2147483648 \<le> sint v \<Longrightarrow> sint v < 2147483648 \<Longrightarrow> sint (scast (v :: i64) :: i32) = sint v"
  using i32_try_from_i64_Some [of v] by (auto simp: i32_try_from_i64_def)

lemma uint_ucast_u64: "uint v < 4294967296 \<Longrightarrow> uint (ucast (v :: u64) :: u32) = uint v"
  using u32_try_from_u64_Some [of v] by (auto simp: u32_try_from_u64_def)

lemmas cast_simps = u64_try_from_i32_def u64_try_from_i64_def i32_try_from_i64_def
  u32_try_from_u64_def f64_from_i32_def f64_from_u32_def
  uint_scast_i32 uint_eq_sint_64 sint_scast_i64 uint_ucast_u64 int_conv_simps

lemma uint_neg_simps:
  "sint (a :: i32) < 0 \<Longrightarrow> sint a < uint (b :: u64)"
  "sint (c :: i64) < 0 \<Longrightarrow> sint c < uint (b :: u64)"
  using uint_range_u64 [of b] by linarith+

lemma uint_neg_neq:
  "sint (a :: i32) < 0 \<Longrightarrow> sint a \<noteq> uint (b :: u64)"
  "sint (a :: i32) < 0 \<Longrightarrow> uint (b :: u64) \<noteq> sint a"
  "sint (c :: i64) < 0 \<Longrightarrow> sint c \<noteq> uint (b :: u64)"
  "sint (c :: i64) < 0 \<Longrightarrow> uint (b :: u64) \<noteq> sint c"
  using uint_neg_simps [where b = b] by (metis less_irrefl)+

lemma sint_eq_iff: "sint v = sint w \<longleftrightarrow> v = w"
  by (metis signed_word_eqI)

lemma less_than_num_less: "less_than v w = num_less v w"
  by (cases v; cases w)
    (simp_all add: less_than_def num_less_def comparable_def cast_simps uint_neg_simps
      not_less order_less_imp_le del: of_int_sint of_int_uint)

lemma greater_than_num_less: "greater_than v w = num_less w v"
  by (cases v; cases w)
    (simp_all add: greater_than_def num_less_def comparable_def cast_simps uint_neg_simps
      not_less order_less_imp_le del: of_int_sint of_int_uint)

lemma equals_num_equal: "equals v w = num_equal v w"
  by (cases v; cases w)
    (simp_all add: equals_def num_equal_def comparable_def cast_simps uint_neg_neq
      sint_eq_iff word_uint_eq_iff not_less order_less_imp_le del: of_int_sint of_int_uint)

lemma comparable_sym: "comparable v w = comparable w v"
  by (auto simp: comparable_def)

lemma num_equal_sym: "num_equal v w = num_equal w v"
  by (cases v; cases w)
    (auto simp: num_equal_def comparable_sym [of v w] comparable_def f64_close_sym f32_close_sym
      simp del: of_int_sint of_int_uint)

lemma num_less_asym: "num_less v w = Ok True \<Longrightarrow> num_less w v = Ok False"
  by (auto simp: num_less_def comparable_sym [of w v] dest: fp_lt_trans split: if_splits)

lemma num_less_equal_defined: "num_less v w = Ok b \<Longrightarrow> \<exists>c. num_equal v w = Ok c"
  by (cases v; cases w) (auto simp: num_equal_def num_less_def comparable_def split: if_splits)

section \<open>The comparison interface of the query executor\<close>

text \<open>
  What \<open>execute_binary_operation\<close> relies on: \<open>greater_than\<close> is the converse of
  \<open>less_than\<close>, a strict comparison is asymmetric, equality is symmetric, and equality is
  defined wherever the order is.  \<open>ge\<close> and \<open>le\<close> are computed from them as the executor
  does, by falling back to equality when the strict comparison is false.
\<close>

locale ordered_comparison =
  fixes gt lt eq :: "'v \<Rightarrow> 'v \<Rightarrow> (bool, 'e) result"
  assumes gt_lt: "gt v w = lt w v"
    and lt_asym: "lt v w = Ok True \<Longrightarrow> lt w v = Ok False"
    and lt_sym_err: "lt v w = Err e \<Longrightarrow> \<exists>e'. lt w v = Err e'"
    and eq_sym: "eq v w = eq w v"
    and eq_defined: "lt v w = Ok b \<Longrightarrow> \<exists>c. eq v w = Ok c"
begin

definition ge :: "'v \<Rightarrow> 'v \<Rightarrow> (bool, 'e) result" where
  "ge v w = (case gt v w of Ok b \<Rightarrow> if b then Ok b else eq v w | Err e \<Rightarrow> Err e)"

definition le :: "'v \<Rightarrow> 'v \<Rightarrow> (bool, 'e) result" where
  "le v w = (case lt v w of Ok b \<Rightarrow> if b then Ok b else eq v w | Err e \<Rightarrow> Err e)"

lemma ge_le_converse: "ge v w = le w v"
  by (auto simp: ge_def le_def gt_lt eq_sym [of v w] split: result.split)

lemma le_defined_iff: "is_ok (le v w) \<longleftrightarrow> is_ok (lt v w)"
  using eq_defined [of v w] by (cases "lt v w") (auto simp: le_def)

lemma ge_defined_iff: "is_ok (ge v w) \<longleftrightarrow> is_ok (lt v w)"
  using lt_sym_err [of v w] lt_sym_err [of w v]
  by (cases "lt v w"; cases "lt w v") (auto simp: ge_le_converse le_defined_iff)

lemma lt_imp_le: "lt v w = Ok True \<Longrightarrow> le v w = Ok True"
  by (simp add: le_def)

lemma le_and_ge_imp_eq: "le v w = Ok True \<Longrightarrow> ge v w = Ok True \<Longrightarrow> eq v w = Ok True"
  using lt_asym [of v w] lt_asym [of w v]
  by (auto simp: le_def ge_def gt_lt split: result.splits if_splits)

end

interpretation cmp: ordered_comparison greater_than less_than equals
proof unfold_locales
  show "greater_than v w = less_than w v" for v w
    by (simp add: greater_than_num_less less_than_num_less)
  show "less_than w v = Ok False" if "less_than v w = Ok True" for v w
    using that by (simp add: less_than_num_less num_less_asym)
  show "\<exists>e'. less_than w v = Err e'" if "less_than v w = Err e" for v w e
    using that by (auto simp: less_than_num_less num_less_def comparable_sym [of w v] split: if_splits)
  show "equals v w = equals w v" for v w
    by (simp add: equals_num_equal num_equal_sym [of v w])
  show "\<exists>c. equals v w = Ok c" if "less_than v w = Ok b" for v w b
    using that by (auto simp: equals_num_equal less_than_num_less dest: num_less_equal_defined)
qed

section \<open>Properties\<close>

text \<open>
  C21.  The three comparisons of \<open>DataValue\<close>, with their nine by nine tables of integer and
  floating-point combinations, compare the mathematical values: \<open>less_than\<close> and
  \<open>greater_than\<close> are the strict order and its converse, \<open>equals\<close> is equality, exact between
  integers and within the machine epsilon once a floating-point number is involved, and all
  three are cast errors on the same pairs of values that have no common comparison.
\<close>

theorem comparison_reference:
  "less_than v w = num_less v w \<and> greater_than v w = num_less w v \<and> equals v w = num_equal v w"
  by (simp add: less_than_num_less greater_than_num_less equals_num_equal)

end
