(* ===== verification/Entry.thy ===== *)
theory Entry
  imports Types Permissions
begin

text \<open>
  The entries of the broker (\<open>databroker/src/broker.rs\<close>, the data structures and
  \<open>impl Entry\<close>): what an entry and an update hold, how an update is reduced to its changes
  (\<open>diff\<close>), validated against the entry's metadata (\<open>validate\<close>) and applied.  The
  invariant is that a stored value conforms to the declared data type.
\<close>

section \<open>Data\<close>

datatype UpdateError =
  NotFound | WrongType | OutOfBounds | UnsupportedType | PermissionDenied | PermissionExpired

record Metadata =
  md_id :: i32
  md_path :: string
  md_data_type :: DataType
  md_entry_type :: EntryType
  md_change_type :: ChangeType
  md_description :: string
  md_allowed :: "DataValue option"
  md_unit :: "string option"

record Datapoint =
  dp_ts :: SystemTime
  dp_value :: DataValue

record Entry =
  e_datapoint :: Datapoint
  e_actuator_target :: "Datapoint option"
  e_metadata :: Metadata

datatype Field = F_Datapoint | F_ActuatorTarget | F_MetadataUnit

record EntryUpdate =
  upd_path :: "string option"
  upd_datapoint :: "Datapoint option"
  upd_actuator_target :: "Datapoint option option"
  upd_entry_type :: "EntryType option"
  upd_data_type :: "DataType option"
  upd_description :: "string option"
  upd_allowed :: "DataValue option option"
  upd_unit :: "string option"

definition default_update :: EntryUpdate where
  "default_update = \<lparr>upd_path = None, upd_datapoint = None, upd_actuator_target = None,
     upd_entry_type = None, upd_data_type = None, upd_description = None,
     upd_allowed = None, upd_unit = None\<rparr>"

fun opt_dv_eq :: "DataValue option \<Rightarrow> DataValue option \<Rightarrow> bool" where
  "opt_dv_eq None None = True"
| "opt_dv_eq (Some v) (Some w) = dv_eq v w"
| "opt_dv_eq _ _ = False"

section \<open>Operations\<close>

definition diff :: "Entry \<Rightarrow> EntryUpdate \<Rightarrow> EntryUpdate" where
  "diff self update =
     (case upd_datapoint update of
        Some datapoint \<Rightarrow>
          if md_change_type (e_metadata self) \<noteq> Continuous then
            if dv_eq (dp_value datapoint) (dp_value (e_datapoint self))
            then update\<lparr>upd_datapoint := None\<rparr> else update
          else update
      | None \<Rightarrow> update)"

definition validate_allowed_type :: "Entry \<Rightarrow> DataValue option \<Rightarrow> (unit, UpdateError) result" where
  "validate_allowed_type self allowed =
     (case allowed of
        Some allowed_values \<Rightarrow>
          (case (allowed_values, md_data_type (e_metadata self)) of
        (BoolArray _, T_Bool) \<Rightarrow> Ok ()
      | (StringArray _, T_String) \<Rightarrow> Ok ()
      | (Int32Array _, T_Int32) \<Rightarrow> Ok ()
      | (Int64Array _, T_Int64) \<Rightarrow> Ok ()
      | (Uint32Array _, T_Uint32) \<Rightarrow> Ok ()
      | (Uint64Array _, T_Uint64) \<Rightarrow> Ok ()
      | (FloatArray _, T_Float) \<Rightarrow> Ok ()
      | (DoubleArray _, T_Double) \<Rightarrow> Ok ()
      | (BoolArray _, T_BoolArray) \<Rightarrow> Ok ()
      | (StringArray _, T_StringArray) \<Rightarrow> Ok ()
      | (Int32Array _, T_Int32Array) \<Rightarrow> Ok ()
      | (Int64Array _, T_Int64Array) \<Rightarrow> Ok ()
      | (Uint32Array _, T_Uint32Array) \<Rightarrow> Ok ()
      | (Uint64Array _, T_Uint64Array) \<Rightarrow> Ok ()
      | (FloatArray _, T_FloatArray) \<Rightarrow> Ok ()
      | (DoubleArray _, T_DoubleArray) \<Rightarrow> Ok ()
      | _ \<Rightarrow> Err WrongType)
      | None \<Rightarrow> Ok ())"

text \<open>\<open>Vec::contains\<close>, by the equality of the element type.\<close>

definition vec_contains :: "('a \<Rightarrow> 'a \<Rightarrow> bool) \<Rightarrow> 'a list \<Rightarrow> 'a \<Rightarrow> bool" where
  "vec_contains eq xs v = list_ex (\<lambda>x. eq x v) xs"

definition check_contains :: "bool \<Rightarrow> (unit, UpdateError) result" where
  "check_contains b = (if b then Ok () else Err OutOfBounds)"

fun check_each :: "('a \<Rightarrow> bool) \<Rightarrow> 'a list \<Rightarrow> (unit, UpdateError) result" where
  "check_each ok [] = Ok ()"
| "check_each ok (item # items) = (if ok item then check_each ok items else Err OutOfBounds)"

definition validate_allowed :: "Entry \<Rightarrow> DataValue \<Rightarrow> (unit, UpdateError) result" where
  "validate_allowed self value =
     (case md_allowed (e_metadata self) of
        Some allowed_values \<Rightarrow>
          (case (allowed_values, value) of
        (BoolArray allowed, Bool v) \<Rightarrow> check_contains (vec_contains (=) allowed v)
      | (DoubleArray allowed, Double v) \<Rightarrow> check_contains (vec_contains f64_eq allowed v)
      | (FloatArray allowed, Float v) \<Rightarrow> check_contains (vec_contains f32_eq allowed v)
      | (Int32Array allowed, Int32 v) \<Rightarrow> check_contains (vec_contains (=) allowed v)
      | (Int64Array allowed, Int64 v) \<Rightarrow> check_contains (vec_contains (=) allowed v)
      | (StringArray allowed, String v) \<Rightarrow> check_contains (vec_contains (=) allowed v)
      | (Uint32Array allowed, Uint32 v) \<Rightarrow> check_contains (vec_contains (=) allowed v)
      | (Uint64Array allowed, Uint64 v) \<Rightarrow> check_contains (vec_contains (=) allowed v)
      | (BoolArray allowed, BoolArray vs) \<Rightarrow> check_each (\<lambda>v. vec_contains (=) allowed v) vs
      | (DoubleArray allowed, DoubleArray vs) \<Rightarrow> check_each (\<lambda>v. vec_contains f64_eq allowed v) vs
      | (FloatArray allowed, FloatArray vs) \<Rightarrow> check_each (\<lambda>v. vec_contains f32_eq allowed v) vs
      | (Int32Array allowed, Int32Array vs) \<Rightarrow> check_each (\<lambda>v. vec_contains (=) allowed v) vs
      | (Int64Array allowed, Int64Array vs) \<Rightarrow> check_each (\<lambda>v. vec_contains (=) allowed v) vs
      | (StringArray allowed, StringArray vs) \<Rightarrow> check_each (\<lambda>v. vec_contains (=) allowed v) vs
      | (Uint32Array allowed, Uint32Array vs) \<Rightarrow> check_each (\<lambda>v. vec_contains (=) allowed v) vs
      | (Uint64Array allowed, Uint64Array vs) \<Rightarrow> check_each (\<lambda>v. vec_contains (=) allowed v) vs
      | _ \<Rightarrow> Err UnsupportedType)
      | None \<Rightarrow> Ok ())"

definition in_bounds :: "'a option \<Rightarrow> (unit, UpdateError) result" where
  "in_bounds r = (case r of Some _ \<Rightarrow> Ok () | None \<Rightarrow> Err OutOfBounds)"

text \<open>The loops over arrays stop at the first element that does not fit.\<close>

fun all_in_bounds :: "('a \<Rightarrow> 'b option) \<Rightarrow> 'a list \<Rightarrow> (unit, UpdateError) result" where
  "all_in_bounds conv [] = Ok ()"
| "all_in_bounds conv (v # array) =
     (case conv v of Some _ \<Rightarrow> all_in_bounds conv array | None \<Rightarrow> Err OutOfBounds)"

definition validate_value :: "Entry \<Rightarrow> DataValue \<Rightarrow> (unit, UpdateError) result" where
  "validate_value self value =
     (if dv_eq value NotAvailable then Ok ()
      else case md_data_type (e_metadata self) of
        T_Bool \<Rightarrow> (case value of Bool _ \<Rightarrow> Ok () | _ \<Rightarrow> Err WrongType)
      | T_String \<Rightarrow> (case value of String _ \<Rightarrow> Ok () | _ \<Rightarrow> Err WrongType)
      | T_Int8 \<Rightarrow> (case value of Int32 v \<Rightarrow> in_bounds (i8_try_from_i32 v) | _ \<Rightarrow> Err WrongType)
      | T_Int16 \<Rightarrow> (case value of Int32 v \<Rightarrow> in_bounds (i16_try_from_i32 v) | _ \<Rightarrow> Err WrongType)
      | T_Int32 \<Rightarrow> (case value of Int32 _ \<Rightarrow> Ok () | _ \<Rightarrow> Err WrongType)
      | T_Int64 \<Rightarrow> (case value of Int64 _ \<Rightarrow> Ok () | _ \<Rightarrow> Err WrongType)
      | T_Uint8 \<Rightarrow> (case value of Uint32 v \<Rightarrow> in_bounds (u8_try_from_u32 v) | _ \<Rightarrow> Err WrongType)
      | T_Uint16 \<Rightarrow> (case value of Uint32 v \<Rightarrow> in_bounds (u16_try_from_u32 v) | _ \<Rightarrow> Err WrongType)
      | T_Uint32 \<Rightarrow> (case value of Uint32 _ \<Rightarrow> Ok () | _ \<Rightarrow> Err WrongType)
      | T_Uint64 \<Rightarrow> (case value of Uint64 _ \<Rightarrow> Ok () | _ \<Rightarrow> Err WrongType)
      | T_Float \<Rightarrow> (case value of Float _ \<Rightarrow> Ok () | _ \<Rightarrow> Err WrongType)
      | T_Double \<Rightarrow> (case value of Double _ \<Rightarrow> Ok () | _ \<Rightarrow> Err WrongType)
      | T_BoolArray \<Rightarrow> (case value of BoolArray _ \<Rightarrow> Ok () | _ \<Rightarrow> Err WrongType)
      | T_StringArray \<Rightarrow> (case value of StringArray _ \<Rightarrow> Ok () | _ \<Rightarrow> Err WrongType)
      | T_Int8Array \<Rightarrow> (case value of Int32Array array \<Rightarrow> all_in_bounds i8_try_from_i32 array | _ \<Rightarrow> Err WrongType)
      | T_Int16Array \<Rightarrow> (case value of Int32Array array \<Rightarrow> all_in_bounds i16_try_from_i32 array | _ \<Rightarrow> Err WrongType)
      | T_Int32Array \<Rightarrow> (case value of Int32Array _ \<Rightarrow> Ok () | _ \<Rightarrow> Err WrongType)
      | T_Int64Array \<Rightarrow> (case value of Int64Array _ \<Rightarrow> Ok () | _ \<Rightarrow> Err WrongType)
      | T_Uint8Array \<Rightarrow> (case value of Uint32Array array \<Rightarrow> all_in_bounds u8_try_from_u32 array | _ \<Rightarrow> Err WrongType)
      | T_Uint16Array \<Rightarrow> (case value of Uint32Array array \<Rightarrow> all_in_bounds u16_try_from_u32 array | _ \<Rightarrow> Err WrongType)
      | T_Uint32Array \<Rightarrow> (case value of Uint32Array _ \<Rightarrow> Ok () | _ \<Rightarrow> Err WrongType)
      | T_Uint64Array \<Rightarrow> (case value of Uint64Array _ \<Rightarrow> Ok () | _ \<Rightarrow> Err WrongType)
      | T_FloatArray \<Rightarrow> (case value of FloatArray _ \<Rightarrow> Ok () | _ \<Rightarrow> Err WrongType)
      | T_DoubleArray \<Rightarrow> (case value of DoubleArray _ \<Rightarrow> Ok () | _ \<Rightarrow> Err WrongType))"

definition validate :: "Entry \<Rightarrow> EntryUpdate \<Rightarrow> (unit, UpdateError) result" where
  "validate self update =
     result_bind
       (case upd_datapoint update of
          Some datapoint \<Rightarrow>
            result_bind (validate_value self (dp_value datapoint))
              (\<lambda>_. validate_allowed self (dp_value datapoint))
        | None \<Rightarrow> Ok ()) (\<lambda>_.
     result_bind
       (case upd_actuator_target update of
          Some (Some actuatortarget) \<Rightarrow>
            result_bind (validate_value self (dp_value actuatortarget))
              (\<lambda>_. validate_allowed self (dp_value actuatortarget))
        | _ \<Rightarrow> Ok ()) (\<lambda>_.
       (case upd_allowed update of
          Some (Some updated_allowed) \<Rightarrow>
            if \<not> opt_dv_eq (Some updated_allowed) (md_allowed (e_metadata self))
            then validate_allowed_type self (Some updated_allowed) else Ok ()
        | _ \<Rightarrow> Ok ())))"

text \<open>\<open>apply\<close> returns the updated entry and the set of changed fields.\<close>

definition apply_update :: "Entry \<Rightarrow> EntryUpdate \<Rightarrow> Entry \<times> Field set" where
  "apply_update self update =
     (let changed = {};
          (self, changed) =
            (case upd_datapoint update of
               Some datapoint \<Rightarrow> (self\<lparr>e_datapoint := datapoint\<rparr>, insert F_Datapoint changed)
             | None \<Rightarrow> (self, changed));
          (self, changed) =
            (case upd_actuator_target update of
               Some actuator_target \<Rightarrow>
                 (self\<lparr>e_actuator_target := actuator_target\<rparr>, insert F_ActuatorTarget changed)
             | None \<Rightarrow> (self, changed));
          self =
            (case upd_allowed update of
               Some updated_allowed \<Rightarrow>
                 if \<not> opt_dv_eq updated_allowed (md_allowed (e_metadata self))
                 then self\<lparr>e_metadata := (e_metadata self)\<lparr>md_allowed := updated_allowed\<rparr>\<rparr>
                 else self
             | None \<Rightarrow> self)
      in (self, changed))"

section \<open>Conformance of values to data types\<close>

text \<open>The reference notion: the values of a declared type, with the bounds of the narrow integers.\<close>

definition conforms :: "DataType \<Rightarrow> DataValue \<Rightarrow> bool" where
  "conforms dt value =
     (case (dt, value) of
        (T_Bool, Bool _) \<Rightarrow> True
      | (T_String, String _) \<Rightarrow> True
      | (T_Int32, Int32 _) \<Rightarrow> True
      | (T_Int64, Int64 _) \<Rightarrow> True
      | (T_Uint32, Uint32 _) \<Rightarrow> True
      | (T_Uint64, Uint64 _) \<Rightarrow> True
      | (T_Float, Float _) \<Rightarrow> True
      | (T_Double, Double _) \<Rightarrow> True
      | (T_BoolArray, BoolArray _) \<Rightarrow> True
      | (T_StringArray, StringArray _) \<Rightarrow> True
      | (T_Int32Array, Int32Array _) \<Rightarrow> True
      | (T_Int64Array, Int64Array _) \<Rightarrow> True
      | (T_Uint32Array, Uint32Array _) \<Rightarrow> True
      | (T_Uint64Array, Uint64Array _) \<Rightarrow> True
      | (T_FloatArray, FloatArray _) \<Rightarrow> True
      | (T_DoubleArray, DoubleArray _) \<Rightarrow> True
      | (T_Int8, Int32 v) \<Rightarrow> sint v \<in> {- 128..127}
      | (T_Int16, Int32 v) \<Rightarrow> sint v \<in> {- 32768..32767}
      | (T_Uint8, Uint32 v) \<Rightarrow> uint v \<le> 255
      | (T_Uint16, Uint32 v) \<Rightarrow> uint v \<le> 65535
      | (T_Int8Array, Int32Array vs) \<Rightarrow> (\<forall>v\<in>set vs. sint v \<in> {- 128..127})
      | (T_Int16Array, Int32Array vs) \<Rightarrow> (\<forall>v\<in>set vs. sint v \<in> {- 32768..32767})
      | (T_Uint8Array, Uint32Array vs) \<Rightarrow> (\<forall>v\<in>set vs. uint v \<le> 255)
      | (T_Uint16Array, Uint32Array vs) \<Rightarrow> (\<forall>v\<in>set vs. uint v \<le> 65535)
      | _ \<Rightarrow> False)"

text \<open>The value is carried by the constructor the type uses, whatever its bounds.\<close>

definition carried_by :: "DataType \<Rightarrow> DataValue \<Rightarrow> bool" where
  "carried_by dt value =
     (case (dt, value) of
        (T_Bool, Bool _) \<Rightarrow> True
      | (T_String, String _) \<Rightarrow> True
      | (T_Int32, Int32 _) \<Rightarrow> True
      | (T_Int64, Int64 _) \<Rightarrow> True
      | (T_Uint32, Uint32 _) \<Rightarrow> True
      | (T_Uint64, Uint64 _) \<Rightarrow> True
      | (T_Float, Float _) \<Rightarrow> True
      | (T_Double, Double _) \<Rightarrow> True
      | (T_BoolArray, BoolArray _) \<Rightarrow> True
      | (T_StringArray, StringArray _) \<Rightarrow> True
      | (T_Int32Array, Int32Array _) \<Rightarrow> True
      | (T_Int64Array, Int64Array _) \<Rightarrow> True
      | (T_Uint32Array, Uint32Array _) \<Rightarrow> True
      | (T_Uint64Array, Uint64Array _) \<Rightarrow> True
      | (T_FloatArray, FloatArray _) \<Rightarrow> True
      | (T_DoubleArray, DoubleArray _) \<Rightarrow> True
      | (T_Int8, Int32 _) \<Rightarrow> True
      | (T_Int16, Int32 _) \<Rightarrow> True
      | (T_Uint8, Uint32 _) \<Rightarrow> True
      | (T_Uint16, Uint32 _) \<Rightarrow> True
      | (T_Int8Array, Int32Array _) \<Rightarrow> True
      | (T_Int16Array, Int32Array _) \<Rightarrow> True
      | (T_Uint8Array, Uint32Array _) \<Rightarrow> True
      | (T_Uint16Array, Uint32Array _) \<Rightarrow> True
      | _ \<Rightarrow> False)"

definition value_ok :: "DataType \<Rightarrow> DataValue \<Rightarrow> bool" where
  "value_ok dt v \<longleftrightarrow> v = NotAvailable \<or> conforms dt v"

lemma all_in_bounds_eq:
  "all_in_bounds conv vs = (if \<exists>v\<in>set vs. conv v = None then Err OutOfBounds else Ok ())"
  by (induction vs) (auto split: option.splits)

lemma dv_eq_NotAvailable [simp]: "dv_eq v NotAvailable \<longleftrightarrow> v = NotAvailable"
  by (cases v) auto

lemma try_from_None_simps:
  "i8_try_from_i32 v = None \<longleftrightarrow> sint v \<notin> {- 128..127}"
  "i16_try_from_i32 v = None \<longleftrightarrow> sint v \<notin> {- 32768..32767}"
  "u8_try_from_u32 w = None \<longleftrightarrow> \<not> uint w \<le> 255"
  "u16_try_from_u32 w = None \<longleftrightarrow> \<not> uint w \<le> 65535"
  by (auto simp: i8_try_from_i32_def i16_try_from_i32_def u8_try_from_u32_def u16_try_from_u32_def)

lemma in_bounds_eq: "in_bounds r = (if r = None then Err OutOfBounds else Ok ())"
  by (auto simp: in_bounds_def split: option.split)

lemmas bounds_eqs = all_in_bounds_eq in_bounds_eq try_from_None_simps

lemma validate_value_eq:
  "validate_value e v =
     (if value_ok (md_data_type (e_metadata e)) v then Ok ()
      else if carried_by (md_data_type (e_metadata e)) v then Err OutOfBounds
      else Err WrongType)"
  by (cases "md_data_type (e_metadata e)"; cases v)
    (simp_all add: validate_value_def value_ok_def conforms_def carried_by_def bounds_eqs)

section \<open>Allowed values\<close>

fun scalars :: "DataValue \<Rightarrow> DataValue list" where
  "scalars (BoolArray xs) = map Bool xs"
| "scalars (StringArray xs) = map String xs"
| "scalars (Int32Array xs) = map Int32 xs"
| "scalars (Int64Array xs) = map Int64 xs"
| "scalars (Uint32Array xs) = map Uint32 xs"
| "scalars (Uint64Array xs) = map Uint64 xs"
| "scalars (FloatArray xs) = map Float xs"
| "scalars (DoubleArray xs) = map Double xs"
| "scalars v = [v]"

text \<open>An \<open>allowed\<close> array applies to scalars and arrays of its own element type.\<close>

definition same_element_type :: "DataValue \<Rightarrow> DataValue \<Rightarrow> bool" where
  "same_element_type allowed value =
     (case (allowed, value) of
        (BoolArray _, Bool _) \<Rightarrow> True
      | (StringArray _, String _) \<Rightarrow> True
      | (Int32Array _, Int32 _) \<Rightarrow> True
      | (Int64Array _, Int64 _) \<Rightarrow> True
      | (Uint32Array _, Uint32 _) \<Rightarrow> True
      | (Uint64Array _, Uint64 _) \<Rightarrow> True
      | (FloatArray _, Float _) \<Rightarrow> True
      | (DoubleArray _, Double _) \<Rightarrow> True
      | (BoolArray _, BoolArray _) \<Rightarrow> True
      | (StringArray _, StringArray _) \<Rightarrow> True
      | (Int32Array _, Int32Array _) \<Rightarrow> True
      | (Int64Array _, Int64Array _) \<Rightarrow> True
      | (Uint32Array _, Uint32Array _) \<Rightarrow> True
      | (Uint64Array _, Uint64Array _) \<Rightarrow> True
      | (FloatArray _, FloatArray _) \<Rightarrow> True
      | (DoubleArray _, DoubleArray _) \<Rightarrow> True
      | _ \<Rightarrow> False)"

definition all_allowed :: "DataValue \<Rightarrow> DataValue \<Rightarrow> bool" where
  "all_allowed allowed value \<longleftrightarrow>
     (\<forall>x\<in>set (scalars value). \<exists>a\<in>set (scalars allowed). dv_eq a x)"

lemma check_each_eq:
  "check_each ok vs = (if \<forall>v\<in>set vs. ok v then Ok () else Err OutOfBounds)"
  by (induction vs) auto

lemma validate_allowed_eq:
  "validate_allowed e v =
     (case md_allowed (e_metadata e) of
        None \<Rightarrow> Ok ()
      | Some allowed \<Rightarrow>
          if \<not> same_element_type allowed v then Err UnsupportedType
          else if all_allowed allowed v then Ok () else Err OutOfBounds)"
proof (cases "md_allowed (e_metadata e)")
  case None
  then show ?thesis by (simp add: validate_allowed_def)
next
  case (Some allowed)
  then show ?thesis
    by (cases allowed; cases v)
      (simp_all add: validate_allowed_def same_element_type_def all_allowed_def check_each_eq
        check_contains_def vec_contains_def list_ex_iff)
qed

section \<open>The entry invariant\<close>

definition entry_wf :: "Entry \<Rightarrow> bool" where
  "entry_wf e \<longleftrightarrow>
     value_ok (md_data_type (e_metadata e)) (dp_value (e_datapoint e)) \<and>
     (\<forall>t. e_actuator_target e = Some t \<longrightarrow> value_ok (md_data_type (e_metadata e)) (dp_value t)) \<and>
     validate_allowed_type e (md_allowed (e_metadata e)) = Ok ()"

lemma validate_allowed_type_cong:
  assumes "md_data_type (e_metadata e) = md_data_type (e_metadata e')"
  shows "validate_allowed_type e a = validate_allowed_type e' a"
  unfolding validate_allowed_type_def by (subst assms) (rule refl)

lemma validate_OkD:
  assumes "validate e u = Ok ()"
  shows "upd_datapoint u = Some d \<Longrightarrow>
      validate_value e (dp_value d) = Ok () \<and> validate_allowed e (dp_value d) = Ok ()"
    and "upd_actuator_target u = Some (Some t) \<Longrightarrow>
      validate_value e (dp_value t) = Ok () \<and> validate_allowed e (dp_value t) = Ok ()"
    and "upd_allowed u = Some (Some a) \<Longrightarrow> \<not> opt_dv_eq (Some a) (md_allowed (e_metadata e)) \<Longrightarrow>
      validate_allowed_type e (Some a) = Ok ()"
  using assms by (auto simp: validate_def result_eqs split: option.splits if_splits)

lemma apply_update_fields:
  "e_datapoint (fst (apply_update e u)) = (case upd_datapoint u of Some d \<Rightarrow> d | None \<Rightarrow> e_datapoint e)"
  "e_actuator_target (fst (apply_update e u)) =
     (case upd_actuator_target u of Some t \<Rightarrow> t | None \<Rightarrow> e_actuator_target e)"
  "e_metadata (fst (apply_update e u)) =
     (case upd_allowed u of
        Some a \<Rightarrow> if opt_dv_eq a (md_allowed (e_metadata e)) then e_metadata e
                   else (e_metadata e)\<lparr>md_allowed := a\<rparr>
      | None \<Rightarrow> e_metadata e)"
  "snd (apply_update e u) =
     (if upd_datapoint u = None then {} else {F_Datapoint}) \<union>
     (if upd_actuator_target u = None then {} else {F_ActuatorTarget})"
  by (auto simp: apply_update_def Let_def split: option.splits)

lemma apply_update_frame [simp]:
  "md_data_type (e_metadata (fst (apply_update e u))) = md_data_type (e_metadata e)"
  "md_path (e_metadata (fst (apply_update e u))) = md_path (e_metadata e)"
  "md_id (e_metadata (fst (apply_update e u))) = md_id (e_metadata e)"
  "md_entry_type (e_metadata (fst (apply_update e u))) = md_entry_type (e_metadata e)"
  "md_change_type (e_metadata (fst (apply_update e u))) = md_change_type (e_metadata e)"
  by (auto simp: apply_update_fields split: option.splits)

lemma validate_value_OkD: "validate_value e v = Ok () \<Longrightarrow> value_ok (md_data_type (e_metadata e)) v"
  by (simp add: validate_value_eq split: if_splits)

lemma apply_update_wf:
  assumes wf: "entry_wf e" and valid: "validate e u = Ok ()"
  shows "entry_wf (fst (apply_update e u))"
proof -
  note v = validate_OkD [OF valid]
  have "value_ok (md_data_type (e_metadata e)) (dp_value (e_datapoint (fst (apply_update e u))))"
    using wf v(1) by (auto simp: apply_update_fields entry_wf_def dest: validate_value_OkD split: option.split)
  moreover have "value_ok (md_data_type (e_metadata e)) (dp_value t)"
    if "e_actuator_target (fst (apply_update e u)) = Some t" for t
    using wf v(2) that
    by (auto simp: apply_update_fields entry_wf_def dest: validate_value_OkD split: option.splits)
  moreover have "validate_allowed_type e (md_allowed (e_metadata (fst (apply_update e u)))) = Ok ()"
  proof (cases "upd_allowed u")
    case None
    then show ?thesis using wf by (simp add: apply_update_fields entry_wf_def)
  next
    case (Some a)
    then show ?thesis using wf v(3)
      by (cases a) (auto simp: apply_update_fields entry_wf_def validate_allowed_type_def)
  qed
  ultimately show ?thesis
    using validate_allowed_type_cong [of "fst (apply_update e u)" e] by (simp add: entry_wf_def)
qed

lemma diff_fields:
  "upd_datapoint (diff e u) =
     (case upd_datapoint u of
        Some d \<Rightarrow> if md_change_type (e_metadata e) \<noteq> Continuous \<and>
                      dv_eq (dp_value d) (dp_value (e_datapoint e)) then None else Some d
      | None \<Rightarrow> None)"
  "upd_actuator_target (diff e u) = upd_actuator_target u"
  "upd_allowed (diff e u) = upd_allowed u"
  by (auto simp: diff_def split: option.split)

section \<open>Properties\<close>

text \<open>
  C38.  Validation of a value, on every branch: a value of the declared type passes, a value
  that only misses the bounds of a narrow integer type is out of bounds, any other value has
  the wrong type; and an \<open>allowed\<close> list admits exactly the values (or arrays) all of whose
  elements it contains, values of another element type being unsupported.
\<close>

theorem validation_outcome:
  "validate_value e v =
     (if v = NotAvailable \<or> conforms (md_data_type (e_metadata e)) v then Ok ()
      else if carried_by (md_data_type (e_metadata e)) v then Err OutOfBounds
      else Err WrongType) \<and>
   validate_allowed e v =
     (case md_allowed (e_metadata e) of
        None \<Rightarrow> Ok ()
      | Some allowed \<Rightarrow>
          if \<not> same_element_type allowed v then Err UnsupportedType
          else if all_allowed allowed v then Ok () else Err OutOfBounds)"
  by (simp add: validate_value_eq validate_allowed_eq value_ok_def)

text \<open>
  An entry of a narrow integer type can have no \<open>allowed\<close> list: the values of such an
  entry travel as 32-bit integers, but every list, also one of 32-bit integers, is refused as
  being of the wrong type.
\<close>

theorem narrow_types_have_no_allowed:
  "md_data_type (e_metadata e) \<in> {T_Int8, T_Int16, T_Uint8, T_Uint16} \<Longrightarrow>
   validate_allowed_type e (Some allowed) = Err WrongType"
  by (auto simp: validate_allowed_type_def split: DataValue.split)

definition int8_entry :: Entry where
  "int8_entry =
     \<lparr>e_datapoint = \<lparr>dp_ts = 0, dp_value = NotAvailable\<rparr>, e_actuator_target = None,
      e_metadata =
        \<lparr>md_id = 0, md_path = ''A'', md_data_type = T_Int8, md_entry_type = Sensor,
         md_change_type = OnChange, md_description = [], md_allowed = None, md_unit = None\<rparr>\<rparr>"

theorem narrow_types_have_no_allowed_witness:
  "md_data_type (e_metadata int8_entry) \<in> {T_Int8, T_Int16, T_Uint8, T_Uint16} \<and>
   validate_allowed_type int8_entry (Some (Int32Array [1, 2])) = Err WrongType"
  using narrow_types_have_no_allowed [of int8_entry "Int32Array [1, 2]"]
  by (simp add: int8_entry_def)

text \<open>
  The value \<open>NotAvailable\<close> passes the check of the data type, yet an entry with an
  \<open>allowed\<close> list rejects it as being of an unsupported type.
\<close>

theorem not_available_with_allowed:
  "md_allowed (e_metadata e) = Some allowed \<Longrightarrow>
   validate_value e NotAvailable = Ok () \<and> validate_allowed e NotAvailable = Err UnsupportedType"
  by (cases allowed) (simp_all add: validate_value_eq value_ok_def validate_allowed_eq same_element_type_def)

definition allowed_entry :: Entry where
  "allowed_entry =
     int8_entry\<lparr>e_metadata := (e_metadata int8_entry)\<lparr>md_data_type := T_Int32, md_allowed := Some (Int32Array [1, 2])\<rparr>\<rparr>"

theorem not_available_with_allowed_witness:
  "validate_value allowed_entry NotAvailable = Ok () \<and>
   validate_allowed allowed_entry NotAvailable = Err UnsupportedType"
  using not_available_with_allowed [of allowed_entry "Int32Array [1, 2]"]
  by (simp add: allowed_entry_def)

end
