(* ===== verification/Database.thy ===== *)
theory Database
  imports Entry
begin

text \<open>
  The database of the broker (\<open>databroker/src/broker.rs\<close>: \<open>Database\<close>,
  \<open>DatabaseReadAccess\<close>, \<open>DatabaseWriteAccess\<close>).  Entries are stored by id, and a second
  map takes paths to ids.  Every access goes through the permissions of the caller.  The
  invariant \<open>db_wf\<close> says that the two maps are inverse to each other and that every entry is
  well-formed; the abstraction \<open>abs_db\<close> is the map from paths to entries a client sees.
\<close>

section \<open>State and results\<close>

datatype ReadError = ReadNotFound | ReadPermissionDenied | ReadPermissionExpired

datatype RegistrationError = ValidationError | RegPermissionDenied | RegPermissionExpired

record Database =
  next_id :: i32
  path_to_id :: "(string \<times> i32) list"
  entries :: "(i32 \<times> Entry) list"

definition new_database :: Database where
  "new_database = \<lparr>next_id = 0, path_to_id = [], entries = []\<rparr>"

section \<open>Reading\<close>

datatype EntryReadAccess = ReadEntry Entry | ReadErr Metadata ReadError

fun era_datapoint :: "EntryReadAccess \<Rightarrow> (Datapoint, ReadError) result" where
  "era_datapoint (ReadEntry entry) = Ok (e_datapoint entry)"
| "era_datapoint (ReadErr _ err) = Err err"

fun era_actuator_target :: "EntryReadAccess \<Rightarrow> (Datapoint option, ReadError) result" where
  "era_actuator_target (ReadEntry entry) = Ok (e_actuator_target entry)"
| "era_actuator_target (ReadErr _ err) = Err err"

fun era_metadata :: "EntryReadAccess \<Rightarrow> Metadata" where
  "era_metadata (ReadEntry entry) = e_metadata entry"
| "era_metadata (ReadErr metadata _) = metadata"

definition new_entry_read_access ::
  "regex_engine \<Rightarrow> SystemTime \<Rightarrow> Permissions \<Rightarrow> Entry \<Rightarrow> EntryReadAccess" where
  "new_entry_read_access re now permissions entry =
     (case can_read re now permissions (md_path (e_metadata entry)) of
        Ok _ \<Rightarrow> ReadEntry entry
      | Err Denied \<Rightarrow> ReadErr (e_metadata entry) ReadPermissionDenied
      | Err Expired \<Rightarrow> ReadErr (e_metadata entry) ReadPermissionExpired)"

definition get_entry_by_id ::
  "regex_engine \<Rightarrow> SystemTime \<Rightarrow> Permissions \<Rightarrow> Database \<Rightarrow> i32 \<Rightarrow> (Entry, ReadError) result" where
  "get_entry_by_id re now permissions db eid =
     (case map_of (entries db) eid of
        Some entry \<Rightarrow>
          (case can_read re now permissions (md_path (e_metadata entry)) of
             Ok _ \<Rightarrow> Ok entry
           | Err Denied \<Rightarrow> Err ReadPermissionDenied
           | Err Expired \<Rightarrow> Err ReadPermissionExpired)
      | None \<Rightarrow> Err ReadNotFound)"

definition get_entry_by_path ::
  "regex_engine \<Rightarrow> SystemTime \<Rightarrow> Permissions \<Rightarrow> Database \<Rightarrow> string \<Rightarrow> (Entry, ReadError) result" where
  "get_entry_by_path re now permissions db path =
     (case map_of (path_to_id db) path of
        Some eid \<Rightarrow> get_entry_by_id re now permissions db eid
      | None \<Rightarrow> Err ReadNotFound)"

definition get_metadata_by_id :: "Database \<Rightarrow> i32 \<Rightarrow> Metadata option" where
  "get_metadata_by_id db eid = map_option e_metadata (map_of (entries db) eid)"

definition get_metadata_by_path :: "Database \<Rightarrow> string \<Rightarrow> Metadata option" where
  "get_metadata_by_path db path =
     Option.bind (map_of (path_to_id db) path) (get_metadata_by_id db)"

definition iter_entries ::
  "regex_engine \<Rightarrow> SystemTime \<Rightarrow> Permissions \<Rightarrow> Database \<Rightarrow> EntryReadAccess list" where
  "iter_entries re now permissions db =
     map (\<lambda>(_, entry). new_entry_read_access re now permissions entry) (entries db)"

section \<open>Writing\<close>

definition set_entry :: "Database \<Rightarrow> i32 \<Rightarrow> Entry \<Rightarrow> Database" where
  "set_entry db eid entry = db\<lparr>entries := AList.update eid entry (entries db)\<rparr>"

definition update ::
  "regex_engine \<Rightarrow> SystemTime \<Rightarrow> Permissions \<Rightarrow> Database \<Rightarrow> i32 \<Rightarrow> EntryUpdate \<Rightarrow>
   (Field set, UpdateError) result \<times> Database" where
  "update re now permissions db eid upd =
     (case map_of (entries db) eid of
        Some entry \<Rightarrow>
          if upd_path upd \<noteq> None \<or> upd_entry_type upd \<noteq> None \<or>
             upd_data_type upd \<noteq> None \<or> upd_description upd \<noteq> None
          then (Err PermissionDenied, db)
          else
            (case (upd_datapoint upd,
                   can_write_datapoint re now permissions (md_path (e_metadata entry))) of
               (Some _, Err Denied) \<Rightarrow> (Err PermissionDenied, db)
             | (Some _, Err Expired) \<Rightarrow> (Err PermissionExpired, db)
             | _ \<Rightarrow>
            (case (upd_actuator_target upd,
                   can_write_actuator_target re now permissions (md_path (e_metadata entry))) of
               (Some _, Err Denied) \<Rightarrow> (Err PermissionDenied, db)
             | (Some _, Err Expired) \<Rightarrow> (Err PermissionExpired, db)
             | _ \<Rightarrow>
               (let upd = diff entry upd in
                case validate entry upd of
                  Ok _ \<Rightarrow>
                    (let (entry', changed_fields) = apply_update entry upd
                     in (Ok changed_fields, set_entry db eid entry'))
                | Err err \<Rightarrow> (Err err, db))))
      | None \<Rightarrow> (Err NotFound, db))"

definition update_by_path ::
  "regex_engine \<Rightarrow> SystemTime \<Rightarrow> Permissions \<Rightarrow> Database \<Rightarrow> string \<Rightarrow> EntryUpdate \<Rightarrow>
   (Field set, UpdateError) result \<times> Database" where
  "update_by_path re now permissions db path upd =
     (case map_of (path_to_id db) path of
        Some eid \<Rightarrow> update re now permissions db eid upd
      | None \<Rightarrow> (Err NotFound, db))"

text \<open>
  \<open>add\<close>.  The id comes from \<open>AtomicI32::fetch_add\<close>, which wraps around.
\<close>

definition add ::
  "regex_engine \<Rightarrow> SystemTime \<Rightarrow> Permissions \<Rightarrow> Database \<Rightarrow> string \<Rightarrow> DataType \<Rightarrow> ChangeType \<Rightarrow>
   EntryType \<Rightarrow> string \<Rightarrow> DataValue option \<Rightarrow> Datapoint option \<Rightarrow> string option \<Rightarrow>
   (i32, RegistrationError) result \<times> Database" where
  "add re now permissions db name data_type change_type entry_type description allowed datapoint unit =
     (if \<not> is_valid_path re name then (Err ValidationError, db)
      else case can_create re now permissions name of
        Err Denied \<Rightarrow> (Err RegPermissionDenied, db)
      | Err Expired \<Rightarrow> (Err RegPermissionExpired, db)
      | Ok _ \<Rightarrow>
        (case map_of (path_to_id db) name of
           Some eid \<Rightarrow> (Ok eid, db)
         | None \<Rightarrow>
           (let new_entry =
              \<lparr>e_datapoint =
                 (case datapoint of Some d \<Rightarrow> d | None \<Rightarrow> \<lparr>dp_ts = now, dp_value = NotAvailable\<rparr>),
               e_actuator_target = None,
               e_metadata =
                 \<lparr>md_id = 0, md_path = name, md_data_type = data_type, md_entry_type = entry_type,
                  md_change_type = change_type, md_description = description,
                  md_allowed = allowed, md_unit = unit\<rparr>\<rparr>
            in case validate_allowed_type new_entry (md_allowed (e_metadata new_entry)) of
                 Err _ \<Rightarrow> (Err ValidationError, db)
               | Ok _ \<Rightarrow>
                 (let eid = next_id db;
                      new_entry = new_entry\<lparr>e_metadata := (e_metadata new_entry)\<lparr>md_id := eid\<rparr>\<rparr>
                  in (Ok eid,
                      \<lparr>next_id = eid + 1,
                       path_to_id = AList.update name eid (path_to_id db),
                       entries = AList.update eid new_entry (entries db)\<rparr>)))))"

section \<open>The outcome of an update\<close>

definition touches_metadata :: "EntryUpdate \<Rightarrow> bool" where
  "touches_metadata upd \<longleftrightarrow> upd_path upd \<noteq> None \<or> upd_entry_type upd \<noteq> None \<or>
     upd_data_type upd \<noteq> None \<or> upd_description upd \<noteq> None"

definition writes_value :: "EntryUpdate \<Rightarrow> bool" where
  "writes_value upd \<longleftrightarrow> upd_datapoint upd \<noteq> None \<or> upd_actuator_target upd \<noteq> None"

definition write_granted ::
  "regex_engine \<Rightarrow> Permissions \<Rightarrow> string \<Rightarrow> EntryUpdate \<Rightarrow> bool" where
  "write_granted re permissions path upd \<longleftrightarrow>
     (upd_datapoint upd \<noteq> None \<longrightarrow> is_match re (perm_provide permissions) path) \<and>
     (upd_actuator_target upd \<noteq> None \<longrightarrow> is_match re (perm_actuate permissions) path)"

text \<open>The entry after a successful update.\<close>

definition updated_entry :: "Entry \<Rightarrow> EntryUpdate \<Rightarrow> Entry" where
  "updated_entry entry upd = fst (apply_update entry (diff entry upd))"

definition changed_by :: "Entry \<Rightarrow> EntryUpdate \<Rightarrow> Field set" where
  "changed_by entry upd = snd (apply_update entry (diff entry upd))"

lemma update_eq:
  "update re now permissions db eid upd =
     (case map_of (entries db) eid of
        None \<Rightarrow> (Err NotFound, db)
      | Some entry \<Rightarrow>
          if touches_metadata upd then (Err PermissionDenied, db)
          else if writes_value upd \<and> has_expired now permissions then (Err PermissionExpired, db)
          else if \<not> write_granted re permissions (md_path (e_metadata entry)) upd
            then (Err PermissionDenied, db)
          else case validate entry (diff entry upd) of
            Ok _ \<Rightarrow> (Ok (changed_by entry upd), set_entry db eid (updated_entry entry upd))
          | Err err \<Rightarrow> (Err err, db))"
proof (cases "map_of (entries db) eid")
  case None
  then show ?thesis by (simp add: update_def)
next
  case (Some entry)
  then show ?thesis
    by (cases "upd_datapoint upd"; cases "upd_actuator_target upd")
      (auto simp: update_def touches_metadata_def writes_value_def write_granted_def check_eqs
        updated_entry_def changed_by_def Let_def split_beta split: result.splits)
qed

lemma update_Err: "update re now permissions db eid upd = (Err e, db') \<Longrightarrow> db' = db"
  by (auto simp: update_eq split: option.splits if_splits result.splits)

lemma update_Ok:
  "update re now permissions db eid upd = (Ok changed, db') \<longleftrightarrow>
     (\<exists>entry. map_of (entries db) eid = Some entry \<and> \<not> touches_metadata upd \<and>
        \<not> (writes_value upd \<and> has_expired now permissions) \<and>
        write_granted re permissions (md_path (e_metadata entry)) upd \<and>
        validate entry (diff entry upd) = Ok () \<and>
        changed = changed_by entry upd \<and> db' = set_entry db eid (updated_entry entry upd))"
  by (auto simp: update_eq split: option.splits if_splits result.splits)

lemma updated_entry_frame [simp]:
  "md_data_type (e_metadata (updated_entry e u)) = md_data_type (e_metadata e)"
  "md_path (e_metadata (updated_entry e u)) = md_path (e_metadata e)"
  "md_id (e_metadata (updated_entry e u)) = md_id (e_metadata e)"
  "md_entry_type (e_metadata (updated_entry e u)) = md_entry_type (e_metadata e)"
  "md_change_type (e_metadata (updated_entry e u)) = md_change_type (e_metadata e)"
  by (simp_all add: updated_entry_def)

lemma set_entry_simps [simp]:
  "next_id (set_entry db eid e) = next_id db"
  "path_to_id (set_entry db eid e) = path_to_id db"
  "map_of (entries (set_entry db eid e)) = (map_of (entries db))(eid \<mapsto> e)"
  by (simp_all add: set_entry_def update_conv')

text \<open>
  What an update should do: the values it writes, which of them suit the entry, and the error for one that
  does not.
\<close>

definition suits :: "Entry \<Rightarrow> DataValue \<Rightarrow> bool" where
  "suits e v \<longleftrightarrow> value_ok (md_data_type (e_metadata e)) v \<and>
     (\<forall>allowed. md_allowed (e_metadata e) = Some allowed \<longrightarrow> same_element_type allowed v \<and> all_allowed allowed v)"

definition misfit :: "Entry \<Rightarrow> DataValue \<Rightarrow> UpdateError" where
  "misfit e v =
     (if value_ok (md_data_type (e_metadata e)) v then
        (case md_allowed (e_metadata e) of
           Some allowed \<Rightarrow> if same_element_type allowed v then OutOfBounds else UnsupportedType
         | None \<Rightarrow> OutOfBounds)
      else if carried_by (md_data_type (e_metadata e)) v then OutOfBounds else WrongType)"

definition repeats :: "Entry \<Rightarrow> EntryUpdate \<Rightarrow> bool" where
  "repeats e upd \<longleftrightarrow> md_change_type (e_metadata e) \<noteq> Continuous \<and>
     (\<exists>d. upd_datapoint upd = Some d \<and> dv_eq (dp_value d) (dp_value (e_datapoint e)))"

definition written_values :: "Entry \<Rightarrow> EntryUpdate \<Rightarrow> DataValue list" where
  "written_values e upd =
     (case upd_datapoint upd of Some d \<Rightarrow> if repeats e upd then [] else [dp_value d] | None \<Rightarrow> []) @
     (case upd_actuator_target upd of Some (Some t) \<Rightarrow> [dp_value t] | _ \<Rightarrow> [])"

lemma diff_repeats: "diff e upd = (if repeats e upd then upd\<lparr>upd_datapoint := None\<rparr> else upd)"
  by (auto simp: diff_def repeats_def split: option.split)

lemma validate_one:
  "result_bind (validate_value e v) (\<lambda>_. validate_allowed e v) = (if suits e v then Ok () else Err (misfit e v))"
  by (auto simp: validate_value_eq validate_allowed_eq suits_def misfit_def split: option.split)

lemma validate_written:
  "upd_allowed upd = None \<Longrightarrow> validate e (diff e upd) =
     (case find (\<lambda>v. \<not> suits e v) (written_values e upd) of None \<Rightarrow> Ok () | Some v \<Rightarrow> Err (misfit e v))"
  by (auto simp: validate_def validate_one diff_repeats written_values_def split: option.split)

lemma updated_entry_fields:
  assumes "upd_allowed upd = None"
  shows "e_metadata (updated_entry e upd) = e_metadata e"
    "e_datapoint (updated_entry e upd) = (case upd_datapoint upd of Some d \<Rightarrow> if repeats e upd then e_datapoint e else d | None \<Rightarrow> e_datapoint e)"
    "e_actuator_target (updated_entry e upd) = (case upd_actuator_target upd of Some t \<Rightarrow> t | None \<Rightarrow> e_actuator_target e)"
  using assms by (auto simp: updated_entry_def apply_update_def diff_repeats split: option.split)

lemma changed_by_fields:
  "changed_by e upd = (if upd_datapoint upd \<noteq> None \<and> \<not> repeats e upd then {F_Datapoint} else {}) \<union>
     (if upd_actuator_target upd \<noteq> None then {F_ActuatorTarget} else {})"
  by (auto simp: changed_by_def apply_update_def diff_repeats split: option.split)

section \<open>The invariant\<close>

definition db_wf :: "Database \<Rightarrow> bool" where
  "db_wf db \<longleftrightarrow>
     distinct (map fst (path_to_id db)) \<and> distinct (map fst (entries db)) \<and>
     (\<forall>path eid. map_of (path_to_id db) path = Some eid \<longrightarrow>
        (\<exists>entry. map_of (entries db) eid = Some entry \<and> md_path (e_metadata entry) = path)) \<and>
     (\<forall>eid entry. map_of (entries db) eid = Some entry \<longrightarrow>
        md_id (e_metadata entry) = eid \<and>
        map_of (path_to_id db) (md_path (e_metadata entry)) = Some eid \<and>
        entry_wf entry \<and> unat eid < unat (next_id db))"

lemma db_wf_pathD:
  "db_wf db \<Longrightarrow> map_of (path_to_id db) path = Some eid \<Longrightarrow>
   \<exists>entry. map_of (entries db) eid = Some entry \<and> md_path (e_metadata entry) = path"
  unfolding db_wf_def by blast

lemma db_wf_entryD:
  assumes "db_wf db" and "map_of (entries db) eid = Some entry"
  shows "md_id (e_metadata entry) = eid" "entry_wf entry" "unat eid < unat (next_id db)"
    "map_of (path_to_id db) (md_path (e_metadata entry)) = Some eid"
  using assms by (auto simp: db_wf_def)

lemma new_database_wf: "db_wf new_database"
  by (simp add: db_wf_def new_database_def)

lemma set_entry_wf:
  assumes wf: "db_wf db" and e: "map_of (entries db) eid = Some entry"
    and e': "md_path (e_metadata entry') = md_path (e_metadata entry)"
      "md_id (e_metadata entry') = md_id (e_metadata entry)" "entry_wf entry'"
  shows "db_wf (set_entry db eid entry')"
proof -
  have "distinct (map fst (entries (set_entry db eid entry')))"
    using wf by (simp add: db_wf_def set_entry_def distinct_update)
  moreover have "\<exists>e. map_of (entries (set_entry db eid entry')) i = Some e \<and> md_path (e_metadata e) = path"
    if "map_of (path_to_id db) path = Some i" for path i
    using db_wf_pathD [OF wf that] e e'(1) by auto
  moreover have "md_id (e_metadata x) = i \<and> map_of (path_to_id db) (md_path (e_metadata x)) = Some i \<and>
      entry_wf x \<and> unat i < unat (next_id db)"
    if "map_of (entries (set_entry db eid entry')) i = Some x" for i x
    using that e' db_wf_entryD [OF wf e] db_wf_entryD [OF wf, of i x] by (auto split: if_splits)
  ultimately show ?thesis using wf by (simp add: db_wf_def)
qed

lemma updated_entry_wf:
  "entry_wf e \<Longrightarrow> validate e (diff e u) = Ok () \<Longrightarrow> entry_wf (updated_entry e u)"
  by (simp add: updated_entry_def apply_update_wf)

lemma update_wf: "db_wf db \<Longrightarrow> db_wf (snd (update re now permissions db eid upd))"
  by (auto simp: update_eq updated_entry_wf db_wf_entryD intro!: set_entry_wf
      split: option.split result.split)

section \<open>The entries as a keyed store\<close>

text \<open>
  What the batch update of the broker relies on: an update changes the entry under its own
  key and nothing else, a failed update changes nothing, and no update adds or removes a key.
  From these laws every property of a whole batch follows.
\<close>

locale keyed_store =
  fixes get :: "'s \<Rightarrow> 'k \<Rightarrow> 'v option"
    and upd :: "'s \<Rightarrow> 'k \<Rightarrow> 'u \<Rightarrow> ('r, 'e) result \<times> 's"
    and effect :: "'v \<Rightarrow> 'u \<Rightarrow> 'v"
    and inv :: "'s \<Rightarrow> bool"
  assumes upd_err: "upd s k u = (Err e, s') \<Longrightarrow> s' = s"
    and upd_ok: "upd s k u = (Ok r, s') \<Longrightarrow>
      \<exists>v. get s k = Some v \<and> get s' = (get s)(k \<mapsto> effect v u)"
    and upd_inv: "inv s \<Longrightarrow> inv (snd (upd s k u))"
begin

fun run :: "'s \<Rightarrow> ('k \<times> 'u) list \<Rightarrow> 's" where
  "run s [] = s"
| "run s ((k, u) # us) = run (snd (upd s k u)) us"

lemma upd_other:
  assumes "k' \<noteq> k"
  shows "get (snd (upd s k u)) k' = get s k'"
proof (cases "upd s k u")
  case (Pair r s')
  then show ?thesis using assms upd_err [of s k u _ s'] upd_ok [of s k u _ s']
    by (cases r) auto
qed

lemma upd_keys: "dom (get (snd (upd s k u))) = dom (get s)"
proof (cases "upd s k u")
  case (Pair r s')
  then show ?thesis using upd_err [of s k u _ s'] upd_ok [of s k u _ s']
    by (cases r) (auto simp: dom_def split: if_splits)
qed

lemma run_inv: "inv s \<Longrightarrow> inv (run s us)"
  by (induction s us rule: run.induct) (simp_all add: upd_inv)

lemma run_other: "k \<notin> fst ` set us \<Longrightarrow> get (run s us) k = get s k"
  by (induction s us rule: run.induct) (auto simp: upd_other)

lemma run_keys: "dom (get (run s us)) = dom (get s)"
  by (induction s us rule: run.induct) (simp_all add: upd_keys)

lemma run_append: "run s (us @ vs) = run (run s us) vs"
  by (induction s us rule: run.induct) simp_all

end

interpretation store: keyed_store
  "\<lambda>db. map_of (entries db)" "update re now permissions" updated_entry db_wf for re now permissions
proof unfold_locales
  show "s' = s" if "update re now permissions s k u = (Err e, s')" for s k u e s'
    using that by (rule update_Err)
  show "\<exists>v. map_of (entries s) k = Some v \<and>
      map_of (entries s') = (map_of (entries s))(k \<mapsto> updated_entry v u)"
    if "update re now permissions s k u = (Ok r, s')" for s k u r s'
    using that by (auto simp: update_Ok)
  show "db_wf (snd (update re now permissions s k u))" if "db_wf s" for s k u
    using that by (rule update_wf)
qed

text \<open>
  A store whose updates also answer from the entry under their own key alone: the updates of a
  batch with distinct keys do not influence each other, so each has the outcome it would have
  on its own.
\<close>

locale local_store = keyed_store +
  assumes upd_local: "get s k = get s' k \<Longrightarrow> fst (upd s k u) = fst (upd s' k u)"
begin

lemma upd_same:
  "get (snd (upd s k u)) k =
     (if is_ok (fst (upd s k u)) then map_option (\<lambda>v. effect v u) (get s k) else get s k)"
proof (cases "upd s k u")
  case (Pair r s')
  then show ?thesis using upd_err [of s k u _ s'] upd_ok [of s k u _ s'] by (cases r) auto
qed

lemma run_distinct:
  "distinct (map fst us) \<Longrightarrow>
   get (run s us) k = (case map_of us k of Some u \<Rightarrow> get (snd (upd s k u)) k | None \<Rightarrow> get s k)"
proof (induction s us rule: run.induct)
  case (2 s j w us)
  have other: "get (snd (upd (snd (upd s j w)) k u)) k = get (snd (upd s k u)) k" if "k \<noteq> j" for u
    using upd_other [OF that, of s w] upd_local [of "snd (upd s j w)" k s u] by (simp add: upd_same)
  show ?case
  proof (cases "k = j")
    case True
    then have "map_of us k = None" using 2 by (simp add: map_of_eq_None_iff)
    then show ?thesis using 2 True by simp
  next
    case False
    then show ?thesis using 2 by (simp add: upd_other other split: option.split)
  qed
qed simp

end

lemma update_local:
  "map_of (entries db) eid = map_of (entries db') eid \<Longrightarrow>
   fst (update re now ps db eid u) = fst (update re now ps db' eid u)"
  by (auto simp: update_eq split: option.split result.split)

interpretation store: local_store
  "\<lambda>db. map_of (entries db)" "update re now permissions" updated_entry db_wf for re now permissions
  by unfold_locales (rule update_local)

section \<open>The outcome of a registration\<close>

definition fresh_entry ::
  "SystemTime \<Rightarrow> i32 \<Rightarrow> string \<Rightarrow> DataType \<Rightarrow> ChangeType \<Rightarrow> EntryType \<Rightarrow> string \<Rightarrow>
   DataValue option \<Rightarrow> Datapoint option \<Rightarrow> string option \<Rightarrow> Entry" where
  "fresh_entry now eid name dt ct et descr allowed datapoint unit =
     \<lparr>e_datapoint =
        (case datapoint of Some d \<Rightarrow> d | None \<Rightarrow> \<lparr>dp_ts = now, dp_value = NotAvailable\<rparr>),
      e_actuator_target = None,
      e_metadata =
        \<lparr>md_id = eid, md_path = name, md_data_type = dt, md_entry_type = et, md_change_type = ct,
         md_description = descr, md_allowed = allowed, md_unit = unit\<rparr>\<rparr>"

definition insert_entry :: "Database \<Rightarrow> string \<Rightarrow> Entry \<Rightarrow> Database" where
  "insert_entry db name entry =
     \<lparr>next_id = next_id db + 1, path_to_id = AList.update name (next_id db) (path_to_id db),
      entries = AList.update (next_id db) entry (entries db)\<rparr>"

lemma add_eq:
  "add re now permissions db name dt ct et descr allowed datapoint unit =
     (if \<not> is_valid_path re name then (Err ValidationError, db)
      else if has_expired now permissions then (Err RegPermissionExpired, db)
      else if \<not> is_match re (perm_create permissions) name then (Err RegPermissionDenied, db)
      else case map_of (path_to_id db) name of
        Some eid \<Rightarrow> (Ok eid, db)
      | None \<Rightarrow>
          let entry = fresh_entry now (next_id db) name dt ct et descr allowed datapoint unit in
          if validate_allowed_type entry allowed = Ok ()
          then (Ok (next_id db), insert_entry db name entry) else (Err ValidationError, db))"
proof -
  let ?e = "\<lambda>i. fresh_entry now i name dt ct et descr allowed datapoint unit"
  have "validate_allowed_type (?e 0) allowed = validate_allowed_type (?e (next_id db)) allowed"
    by (rule validate_allowed_type_cong) (simp add: fresh_entry_def)
  then show ?thesis
    by (simp add: add_def can_create_eq fresh_entry_def insert_entry_def Let_def
        split: option.split result.split)
qed

lemma insert_entry_maps:
  "map_of (path_to_id (insert_entry db name entry)) = (map_of (path_to_id db))(name \<mapsto> next_id db)"
  "map_of (entries (insert_entry db name entry)) = (map_of (entries db))(next_id db \<mapsto> entry)"
  "next_id (insert_entry db name entry) = next_id db + 1"
  by (simp_all add: insert_entry_def update_conv')

lemma fresh_id:
  assumes "db_wf db"
  shows "map_of (entries db) (next_id db) = None"
  using db_wf_entryD(3) [OF assms, of "next_id db"] by (cases "map_of (entries db) (next_id db)") auto

lemma unat_next_id: "unat (x :: i32) + 1 < 2 ^ 32 \<Longrightarrow> unat (x + 1) = unat x + 1"
  by (simp add: unat_word_ariths)

lemma insert_entry_wf:
  assumes wf: "db_wf db" and room: "unat (next_id db) + 1 < 2 ^ 32"
    and new: "map_of (path_to_id db) name = None"
    and entry: "md_path (e_metadata entry) = name" "md_id (e_metadata entry) = next_id db" "entry_wf entry"
  shows "db_wf (insert_entry db name entry)"
proof -
  let ?db = "insert_entry db name entry"
  have "distinct (map fst (path_to_id ?db))" "distinct (map fst (entries ?db))"
    using wf by (simp_all add: db_wf_def insert_entry_def distinct_update)
  moreover have "\<exists>e. map_of (entries ?db) i = Some e \<and> md_path (e_metadata e) = path"
    if "map_of (path_to_id ?db) path = Some i" for path i
  proof (cases "path = name")
    case True
    then show ?thesis using that entry by (simp add: insert_entry_maps)
  next
    case False
    then have "map_of (path_to_id db) path = Some i" using that by (simp add: insert_entry_maps)
    then show ?thesis using db_wf_pathD [OF wf] fresh_id [OF wf] by (fastforce simp: insert_entry_maps)
  qed
  moreover have "md_id (e_metadata x) = i \<and> map_of (path_to_id ?db) (md_path (e_metadata x)) = Some i \<and>
      entry_wf x \<and> unat i < unat (next_id ?db)"
    if "map_of (entries ?db) i = Some x" for i x
  proof (cases "i = next_id db")
    case True
    then show ?thesis using that entry unat_next_id [OF room] by (simp add: insert_entry_maps)
  next
    case False
    then have i: "map_of (entries db) i = Some x" using that by (simp add: insert_entry_maps)
    then have "md_path (e_metadata x) \<noteq> name" using db_wf_entryD(4) [OF wf i] new by auto
    then show ?thesis using db_wf_entryD [OF wf i] unat_next_id [OF room] by (simp add: insert_entry_maps)
  qed
  ultimately show ?thesis by (simp add: db_wf_def)
qed

lemma fresh_entry_metadata [simp]:
  "md_path (e_metadata (fresh_entry now i name dt ct et descr allowed datapoint unit)) = name"
  "md_id (e_metadata (fresh_entry now i name dt ct et descr allowed datapoint unit)) = i"
  by (simp_all add: fresh_entry_def)

lemma fresh_entry_wf:
  assumes "validate_allowed_type (fresh_entry now i name dt ct et descr allowed datapoint unit) allowed = Ok ()"
    and "\<And>d. datapoint = Some d \<Longrightarrow> value_ok dt (dp_value d)"
  shows "entry_wf (fresh_entry now i name dt ct et descr allowed datapoint unit)"
  using assms by (auto simp: entry_wf_def fresh_entry_def value_ok_def split: option.split)

lemma add_wf:
  assumes "db_wf db" and "unat (next_id db) + 1 < 2 ^ 32"
    and "\<And>d. datapoint = Some d \<Longrightarrow> value_ok dt (dp_value d)"
  shows "db_wf (snd (add re now permissions db name dt ct et descr allowed datapoint unit))"
  using assms
  by (auto simp: add_eq Let_def split: option.split intro!: insert_entry_wf fresh_entry_wf)

section \<open>The abstract view: a map from paths to entries\<close>

definition abs_db :: "Database \<Rightarrow> string \<Rightarrow> Entry option" where
  "abs_db db path = Option.bind (map_of (path_to_id db) path) (map_of (entries db))"

lemma abs_db_wf_path:
  assumes wf: "db_wf db" and e: "abs_db db path = Some e"
  shows "md_path (e_metadata e) = path" and "map_of (path_to_id db) path = Some (md_id (e_metadata e))"
    and "map_of (entries db) (md_id (e_metadata e)) = Some e"
proof -
  obtain i where i: "map_of (path_to_id db) path = Some i" "map_of (entries db) i = Some e"
    using e by (auto simp: abs_db_def bind_eq_Some_conv)
  then show "md_path (e_metadata e) = path" using db_wf_pathD [OF wf i(1)] by simp
  show "map_of (path_to_id db) path = Some (md_id (e_metadata e))"
    and "map_of (entries db) (md_id (e_metadata e)) = Some e"
    using i db_wf_entryD(1) [OF wf i(2)] by simp_all
qed

lemma abs_db_dom: "db_wf db \<Longrightarrow> map_of (path_to_id db) path = None \<longleftrightarrow> abs_db db path = None"
  using db_wf_pathD [of db path] by (cases "map_of (path_to_id db) path") (auto simp: abs_db_def)

lemma abs_db_by_id:
  "db_wf db \<Longrightarrow> map_of (entries db) eid = Some e \<Longrightarrow> abs_db db (md_path (e_metadata e)) = Some e"
  by (simp add: abs_db_def db_wf_entryD)

lemma abs_db_set_entry:
  assumes wf: "db_wf db" and e: "map_of (entries db) eid = Some e"
  shows "abs_db (set_entry db eid e') = (abs_db db)(md_path (e_metadata e) \<mapsto> e')"
proof
  fix path
  show "abs_db (set_entry db eid e') path = ((abs_db db)(md_path (e_metadata e) \<mapsto> e')) path"
  proof (cases "map_of (path_to_id db) path = Some eid")
    case True
    then have "md_path (e_metadata e) = path" using db_wf_pathD [OF wf True] e by auto
    then show ?thesis using True by (simp add: abs_db_def)
  next
    case False
    then have "md_path (e_metadata e) \<noteq> path" using db_wf_entryD(4) [OF wf e] by auto
    then show ?thesis using False
      by (cases "map_of (path_to_id db) path") (auto simp: abs_db_def)
  qed
qed

lemma abs_db_insert_entry:
  assumes wf: "db_wf db"
  shows "abs_db (insert_entry db name e) = (abs_db db)(name \<mapsto> e)"
proof
  fix path
  show "abs_db (insert_entry db name e) path = ((abs_db db)(name \<mapsto> e)) path"
  proof (cases "map_of (path_to_id db) path")
    case None
    then show ?thesis by (simp add: abs_db_def insert_entry_maps)
  next
    case (Some i)
    then have "i \<noteq> next_id db" using db_wf_pathD [OF wf Some] fresh_id [OF wf] by auto
    then show ?thesis using Some by (simp add: abs_db_def insert_entry_maps)
  qed
qed

lemma get_entry_by_path_abs:
  assumes "db_wf db"
  shows "get_entry_by_path re now permissions db path =
     (case abs_db db path of
        None \<Rightarrow> Err ReadNotFound
      | Some e \<Rightarrow>
          if has_expired now permissions then Err ReadPermissionExpired
          else if can_read re now permissions path = Ok () then Ok e else Err ReadPermissionDenied)"
proof (cases "map_of (path_to_id db) path")
  case None
  then show ?thesis by (simp add: get_entry_by_path_def abs_db_def)
next
  case (Some eid)
  then obtain e where "map_of (entries db) eid = Some e" "md_path (e_metadata e) = path"
    using db_wf_pathD [OF assms Some] by blast
  then show ?thesis using Some
    by (simp add: get_entry_by_path_def get_entry_by_id_def abs_db_def can_read_eq)
qed

lemma get_entry_by_id_Ok:
  "get_entry_by_id re now ps db eid = Ok e \<longleftrightarrow>
     map_of (entries db) eid = Some e \<and> can_read re now ps (md_path (e_metadata e)) = Ok ()"
  by (auto simp: get_entry_by_id_def can_read_eq split: option.splits)

section \<open>An example database\<close>

text \<open>A regular expression engine that accepts every text, and one registered entry.\<close>

definition any_regex :: regex_engine where
  "any_regex p = Some (\<lambda>_. True)"

lemma is_valid_path_any [simp]: "is_valid_path any_regex path"
  by (simp add: is_valid_path_def static_match_def any_regex_def)

definition example_entry :: Entry where
  "example_entry = fresh_entry 1 0 ''A'' T_Int32 OnChange Actuator [] None None None"

definition example_db :: Database where
  "example_db = insert_entry new_database ''A'' example_entry"

lemma example_entry_simps [simp]:
  "e_datapoint example_entry = \<lparr>dp_ts = 1, dp_value = NotAvailable\<rparr>"
  "e_actuator_target example_entry = None"
  "e_metadata example_entry = \<lparr>md_id = 0, md_path = ''A'', md_data_type = T_Int32,
     md_entry_type = Actuator, md_change_type = OnChange, md_description = [], md_allowed = None, md_unit = None\<rparr>"
  by (simp_all add: example_entry_def fresh_entry_def)

lemma example_db_simps [simp]:
  "entries example_db = [(0, example_entry)]" "path_to_id example_db = [(''A'', 0)]"
  "next_id example_db = 1"
  by (simp_all add: example_db_def insert_entry_def new_database_def)

lemma example_db_wf [simp]: "db_wf example_db"
  by (auto simp: db_wf_def entry_wf_def value_ok_def validate_allowed_type_def split: if_splits)

lemma example_db_add:
  "add any_regex 1 ALLOW_ALL new_database ''A'' T_Int32 OnChange Actuator [] None None None = (Ok 0, example_db)"
  by (simp add: add_eq has_expired_def ALLOW_ALL_def new_database_def Let_def validate_allowed_type_def
      example_db_def example_entry_def)

definition set_value :: "i32 \<Rightarrow> EntryUpdate" where
  "set_value v = default_update\<lparr>upd_datapoint := Some \<lparr>dp_ts = 2, dp_value = Int32 v\<rparr>\<rparr>"

lemma example_updated_entry:
  "updated_entry example_entry (set_value v) = example_entry\<lparr>e_datapoint := \<lparr>dp_ts = 2, dp_value = Int32 v\<rparr>\<rparr>"
  by (simp add: updated_entry_def set_value_def diff_def apply_update_def default_update_def)

lemma example_update:
  "update any_regex now ALLOW_ALL example_db 0 (set_value v) =
     (Ok {F_Datapoint}, set_entry example_db 0 (updated_entry example_entry (set_value v)))"
  by (simp add: update_eq touches_metadata_def set_value_def default_update_def ALLOW_ALL_def
      has_expired_def write_granted_def validate_def validate_value_def validate_allowed_def diff_def
      changed_by_def updated_entry_def apply_update_def)

section \<open>Properties\<close>

text \<open>
  C12.  The database refines a map from paths to entries: a successful update of an entry replaces
  the entry at its path by the updated one and changes no other path, and a failed update, or
  one of an unknown id, changes nothing.
\<close>

theorem update_refines_map:
  assumes "db_wf db"
  shows "abs_db (snd (update re now permissions db eid upd)) =
    (case map_of (entries db) eid of
       Some e \<Rightarrow>
         if is_ok (fst (update re now permissions db eid upd))
         then (abs_db db)(md_path (e_metadata e) \<mapsto> updated_entry e upd) else abs_db db
     | None \<Rightarrow> abs_db db)"
  using abs_db_set_entry [OF assms]
  by (auto simp: update_eq split: option.split result.split)

theorem update_refines_map_witness:
  "abs_db (snd (update any_regex 2 ALLOW_ALL example_db 0 (set_value 7))) =
   (abs_db example_db)(''A'' \<mapsto> updated_entry example_entry (set_value 7))"
  using update_refines_map [of example_db any_regex 2 ALLOW_ALL 0 "set_value 7"]
  by (simp add: example_update)

text \<open>
  C13.  What an update does, against what it should do.  It succeeds exactly when it leaves path, entry type, data type
  and description alone, every value and every target it writes is granted by permissions that have not expired, and
  every value it writes suits the type, the bounds and the allowed values of the entry; a value that repeats
  the one stored in an entry that is not continuous is not written and need not suit.  Then the entry has
  the new value, unless it repeats the old one, and the new target, the rest of the
  entry and of the database is as it was, and the changed fields are those that were written.
  If it fails the database is as it was, and the error says why: no permission, expired permissions, or what is
  wrong with the first value that does not suit.  The update does not replace the list of allowed values, which no service does.
\<close>

theorem update_outcome:
  assumes "map_of (entries db) eid = Some e" and "upd_allowed upd = None"
    and "update re now permissions db eid upd = (r, db')"
  shows "(is_ok r \<longleftrightarrow> \<not> touches_metadata upd \<and>
      (upd_datapoint upd \<noteq> None \<longrightarrow> \<not> has_expired now permissions \<and> is_match re (perm_provide permissions) (md_path (e_metadata e))) \<and>
      (upd_actuator_target upd \<noteq> None \<longrightarrow> \<not> has_expired now permissions \<and> is_match re (perm_actuate permissions) (md_path (e_metadata e))) \<and>
      (\<forall>v\<in>set (written_values e upd). suits e v)) \<and>
    (\<forall>changed. r = Ok changed \<longrightarrow>
      changed = (if upd_datapoint upd \<noteq> None \<and> \<not> repeats e upd then {F_Datapoint} else {}) \<union>
        (if upd_actuator_target upd \<noteq> None then {F_ActuatorTarget} else {}) \<and>
      (\<exists>e'. map_of (entries db') = (map_of (entries db))(eid \<mapsto> e') \<and>
        e_datapoint e' = (case upd_datapoint upd of Some d \<Rightarrow> if repeats e upd then e_datapoint e else d | None \<Rightarrow> e_datapoint e) \<and>
        e_actuator_target e' = (case upd_actuator_target upd of Some t \<Rightarrow> t | None \<Rightarrow> e_actuator_target e) \<and>
        e_metadata e' = e_metadata e) \<and>
      path_to_id db' = path_to_id db \<and> next_id db' = next_id db) \<and>
    (\<forall>err. r = Err err \<longrightarrow> db' = db \<and>
      (err = PermissionExpired \<longleftrightarrow> \<not> touches_metadata upd \<and> writes_value upd \<and> has_expired now permissions) \<and>
      (err = PermissionDenied \<longleftrightarrow> touches_metadata upd \<or> \<not> (writes_value upd \<and> has_expired now permissions) \<and>
        (upd_datapoint upd \<noteq> None \<and> \<not> is_match re (perm_provide permissions) (md_path (e_metadata e)) \<or>
         upd_actuator_target upd \<noteq> None \<and> \<not> is_match re (perm_actuate permissions) (md_path (e_metadata e)))) \<and>
      (err \<notin> {PermissionExpired, PermissionDenied} \<longrightarrow>
        (\<exists>v. find (\<lambda>v. \<not> suits e v) (written_values e upd) = Some v \<and> err = misfit e v)))"
proof -
  have granted: "write_granted re permissions (md_path (e_metadata e)) upd \<longleftrightarrow>
      \<not> (upd_datapoint upd \<noteq> None \<and> \<not> is_match re (perm_provide permissions) (md_path (e_metadata e)) \<or>
         upd_actuator_target upd \<noteq> None \<and> \<not> is_match re (perm_actuate permissions) (md_path (e_metadata e)))"
    by (auto simp: write_granted_def)
  consider (touches) "touches_metadata upd" | (expired) "\<not> touches_metadata upd" "writes_value upd" "has_expired now permissions"
    | (denied) "\<not> touches_metadata upd" "\<not> (writes_value upd \<and> has_expired now permissions)"
        "\<not> write_granted re permissions (md_path (e_metadata e)) upd"
    | (refused) v where "\<not> touches_metadata upd" "\<not> (writes_value upd \<and> has_expired now permissions)"
        "write_granted re permissions (md_path (e_metadata e)) upd" "find (\<lambda>v. \<not> suits e v) (written_values e upd) = Some v"
    | (stored) "\<not> touches_metadata upd" "\<not> (writes_value upd \<and> has_expired now permissions)"
        "write_granted re permissions (md_path (e_metadata e)) upd" "find (\<lambda>v. \<not> suits e v) (written_values e upd) = None"
    by (cases "find (\<lambda>v. \<not> suits e v) (written_values e upd)") auto
  then show ?thesis
  proof cases
    case touches
    then have "r = Err PermissionDenied" "db' = db" using assms(1,3) by (simp_all add: update_eq)
    then show ?thesis using touches by simp
  next
    case expired
    then have "r = Err PermissionExpired" "db' = db" using assms(1,3) by (simp_all add: update_eq)
    then show ?thesis using expired by (auto simp: writes_value_def)
  next
    case denied
    then have "r = Err PermissionDenied" "db' = db" using assms(1,3) by (auto simp: update_eq)
    then show ?thesis using denied granted by auto
  next
    case refused
    then have "r = Err (misfit e v)" "db' = db" using assms(1,3) by (auto simp: update_eq validate_written [OF assms(2)])
    moreover have "v \<in> set (written_values e upd)" "\<not> suits e v" using refused(4) by (auto simp: find_Some_iff)
    moreover have "misfit e v \<notin> {PermissionExpired, PermissionDenied}" by (auto simp: misfit_def split: option.split)
    ultimately show ?thesis using refused granted by auto
  next
    case stored
    then have "r = Ok (changed_by e upd)" "db' = set_entry db eid (updated_entry e upd)"
      using assms(1,3) by (auto simp: update_eq validate_written [OF assms(2)])
    moreover have "\<forall>v\<in>set (written_values e upd). suits e v" using stored(4) by (simp add: find_None_iff)
    ultimately show ?thesis
      using stored updated_entry_fields [OF assms(2), of e] granted changed_by_fields [of e upd] by (auto simp: writes_value_def)
  qed
qed

theorem update_outcome_witness:
  "map_of (entries example_db) 0 = Some example_entry \<and>
   (\<exists>e'. map_of (entries (snd (update any_regex 2 ALLOW_ALL example_db 0 (set_value 7)))) = (map_of (entries example_db))(0 \<mapsto> e') \<and>
      e_datapoint e' = \<lparr>dp_ts = 2, dp_value = Int32 7\<rparr> \<and> e_metadata e' = e_metadata example_entry) \<and>
   \<not> is_ok (fst (update any_regex 2 ALLOW_NONE example_db 0 (set_value 7)))"
proof -
  have known: "map_of (entries example_db) 0 = Some example_entry" "upd_allowed (set_value 7) = None"
    by (simp_all add: set_value_def default_update_def)
  have "\<not> repeats example_entry (set_value 7)" by (simp add: repeats_def set_value_def)
  moreover have "update any_regex 2 ALLOW_ALL example_db 0 (set_value 7) =
      (Ok {F_Datapoint}, snd (update any_regex 2 ALLOW_ALL example_db 0 (set_value 7)))"
    by (simp add: example_update)
  ultimately have "\<exists>e'. map_of (entries (snd (update any_regex 2 ALLOW_ALL example_db 0 (set_value 7)))) = (map_of (entries example_db))(0 \<mapsto> e') \<and>
      e_datapoint e' = \<lparr>dp_ts = 2, dp_value = Int32 7\<rparr> \<and> e_metadata e' = e_metadata example_entry"
    using update_outcome [OF known] by (fastforce simp: set_value_def)
  moreover have "\<not> is_ok (fst (update any_regex 2 ALLOW_NONE example_db 0 (set_value 7)))"
    using update_outcome [OF known surjective_pairing, of any_regex 2 ALLOW_NONE, THEN conjunct1] by (simp add: set_value_def ALLOW_NONE_def)
  ultimately show ?thesis using known(1) by blast
qed

text \<open>
  Registration: when it succeeds the path is known under the returned id, a path that was
  known before keeps its id and its entry untouched, a new path gets a fresh entry without a
  value and no other path changes, and the database stays well-formed, as long as fewer than
  two to the power of 32 entries have been registered.
\<close>

theorem registration_outcome:
  assumes "db_wf db" and "unat (next_id db) + 1 < 2 ^ 32"
    and "add re now permissions db name dt ct et descr allowed None unit = (Ok eid, db')"
  shows "db_wf db' \<and> map_of (path_to_id db') name = Some eid \<and>
    (abs_db db name \<noteq> None \<longrightarrow> db' = db) \<and>
    (abs_db db name = None \<longrightarrow>
       abs_db db' = (abs_db db)(name \<mapsto> fresh_entry now eid name dt ct et descr allowed None unit))"
proof -
  have "db_wf db'" using add_wf [OF assms(1,2), of None] assms(3) by (metis option.distinct(1) snd_conv)
  then show ?thesis using assms(3) abs_db_dom [OF assms(1), of name] abs_db_insert_entry [OF assms(1), of name]
    by (auto simp: add_eq Let_def insert_entry_maps split: if_splits option.splits)
qed

theorem registration_outcome_witness:
  "db_wf example_db \<and> map_of (path_to_id example_db) ''A'' = Some 0"
  using registration_outcome [OF new_database_wf _ example_db_add] by (simp add: new_database_def)

end
