(* ===== verification/Parsing.thy ===== *)
theory Parsing
  imports Floats
begin

text \<open>
  Rust's \<open>str::parse\<close> for \<open>bool\<close>, the machine integers and the floating-point types, as
  the source uses it.  Integers: an optional sign (\<open>-\<close> for signed types only), at least
  one decimal digit, and a value in range.  Floating point: the grammar of \<open>f64::from_str\<close>,
  with the decimal value rounded to nearest.
\<close>

section \<open>Integers and booleans\<close>

definition is_digit :: "char \<Rightarrow> bool" where
  "is_digit c \<longleftrightarrow> 48 \<le> (of_char c :: nat) \<and> (of_char c :: nat) \<le> 57"

definition digit_val :: "char \<Rightarrow> nat" where
  "digit_val c = of_char c - 48"

fun digits_val :: "nat \<Rightarrow> string \<Rightarrow> nat" where
  "digits_val acc [] = acc"
| "digits_val acc (c # cs) = digits_val (10 * acc + digit_val c) cs"

definition parse_digits :: "string \<Rightarrow> nat option" where
  "parse_digits s = (if s \<noteq> [] \<and> list_all is_digit s then Some (digits_val 0 s) else None)"

text \<open>The value of a signed decimal literal.\<close>

definition parse_signed :: "string \<Rightarrow> int option" where
  "parse_signed s =
     (case s of
        [] \<Rightarrow> None
      | c # cs \<Rightarrow>
          if c = CHR ''+'' then map_option int (parse_digits cs)
          else if c = CHR ''-'' then map_option (\<lambda>n. - int n) (parse_digits cs)
          else map_option int (parse_digits s))"

definition parse_unsigned :: "string \<Rightarrow> int option" where
  "parse_unsigned s =
     (case s of
        [] \<Rightarrow> None
      | c # cs \<Rightarrow>
          if c = CHR ''+'' then map_option int (parse_digits cs) else map_option int (parse_digits s))"

definition parse_in :: "int \<Rightarrow> int \<Rightarrow> int option \<Rightarrow> 'a::len word option" where
  "parse_in lo hi r =
     (case r of Some n \<Rightarrow> if lo \<le> n \<and> n \<le> hi then Some (word_of_int n) else None | None \<Rightarrow> None)"

definition parse_i8 :: "string \<Rightarrow> i8 option" where
  "parse_i8 s = parse_in (- 128) 127 (parse_signed s)"

definition parse_i16 :: "string \<Rightarrow> i16 option" where
  "parse_i16 s = parse_in (- 32768) 32767 (parse_signed s)"

definition parse_i32 :: "string \<Rightarrow> i32 option" where
  "parse_i32 s = parse_in (- (2 ^ 31)) (2 ^ 31 - 1) (parse_signed s)"

definition parse_i64 :: "string \<Rightarrow> i64 option" where
  "parse_i64 s = parse_in (- (2 ^ 63)) (2 ^ 63 - 1) (parse_signed s)"

definition parse_u8 :: "string \<Rightarrow> u8 option" where
  "parse_u8 s = parse_in 0 255 (parse_unsigned s)"

definition parse_u16 :: "string \<Rightarrow> u16 option" where
  "parse_u16 s = parse_in 0 65535 (parse_unsigned s)"

definition parse_u32 :: "string \<Rightarrow> u32 option" where
  "parse_u32 s = parse_in 0 (2 ^ 32 - 1) (parse_unsigned s)"

definition parse_u64 :: "string \<Rightarrow> u64 option" where
  "parse_u64 s = parse_in 0 (2 ^ 64 - 1) (parse_unsigned s)"

definition parse_bool :: "string \<Rightarrow> bool option" where
  "parse_bool s = (if s = ''true'' then Some True else if s = ''false'' then Some False else None)"

section \<open>Floating point\<close>

text \<open>
  The bit pattern of a non-negative rational: \<open>mb\<close> mantissa bits and smallest quantum
  \<open>2 powi qmin\<close>; \<open>infty\<close> is the pattern of infinity.  For a value \<open>n * 2 powi k\<close> the
  pattern is \<open>(k - qmin) * 2 ^ mb + n\<close>, and a carry of \<open>n\<close> into the next binade is right.
\<close>

definition encode_mag :: "nat \<Rightarrow> int \<Rightarrow> int \<Rightarrow> rat \<Rightarrow> int" where
  "encode_mag mb qmin infty x =
     (if x = 0 then 0
      else let k = max (rat_ilog2 x - int mb) qmin;
               n = round_half_even (x / 2 powi k)
           in min infty ((k - qmin) * 2 ^ mb + n))"

definition f64_of_rat :: "bool \<Rightarrow> rat \<Rightarrow> f64" where
  "f64_of_rat neg x =
     word_of_int ((if neg then 2 ^ 63 else 0) + encode_mag 52 (- 1074) (2047 * 2 ^ 52) x)"

definition f32_of_rat :: "bool \<Rightarrow> rat \<Rightarrow> f32" where
  "f32_of_rat neg x =
     word_of_int ((if neg then 2 ^ 31 else 0) + encode_mag 23 (- 149) (255 * 2 ^ 23) x)"

definition to_ascii_lowercase :: "string \<Rightarrow> string" where
  "to_ascii_lowercase s =
     map (\<lambda>c. if 65 \<le> (of_char c :: nat) \<and> (of_char c :: nat) \<le> 90 then char_of (of_char c + 32 :: nat) else c) s"

definition split_sign :: "string \<Rightarrow> bool \<times> string" where
  "split_sign s =
     (case s of
        c # cs \<Rightarrow> if c = CHR ''-'' then (True, cs) else if c = CHR ''+'' then (False, cs) else (False, s)
      | [] \<Rightarrow> (False, s))"

definition is_exp_char :: "char \<Rightarrow> bool" where
  "is_exp_char c \<longleftrightarrow> c = CHR ''e'' \<or> c = CHR ''E''"

text \<open>\<open>Number\<close>: digits, an optional fraction and an optional exponent.\<close>

definition parse_number :: "string \<Rightarrow> rat option" where
  "parse_number s =
     (let mant = takeWhile (\<lambda>c. \<not> is_exp_char c) s;
          rest = dropWhile (\<lambda>c. \<not> is_exp_char c) s;
          ip = takeWhile (\<lambda>c. c \<noteq> CHR ''.'') mant;
          fp = drop 1 (dropWhile (\<lambda>c. c \<noteq> CHR ''.'') mant)
      in if \<not> list_all is_digit ip \<or> \<not> list_all is_digit fp \<or> (ip = [] \<and> fp = []) then None
         else
           (let m = of_nat (digits_val 0 (ip @ fp)) * 10 powi (- int (length fp)) in
            if rest = [] then Some m
            else map_option (\<lambda>x. m * 10 powi x) (parse_signed (drop 1 rest))))"

datatype parsed_float = PF_NaN | PF_Inf bool | PF_Num bool rat

definition parse_float :: "string \<Rightarrow> parsed_float option" where
  "parse_float s =
     (let (neg, t) = split_sign s; l = to_ascii_lowercase t in
      if l = ''inf'' \<or> l = ''infinity'' then Some (PF_Inf neg)
      else if l = ''nan'' then Some PF_NaN
      else map_option (PF_Num neg) (parse_number t))"

definition parse_f64 :: "string \<Rightarrow> f64 option" where
  "parse_f64 s =
     map_option (\<lambda>r. case r of
         PF_NaN \<Rightarrow> word_of_int (2047 * 2 ^ 52 + 2 ^ 51)
       | PF_Inf neg \<Rightarrow> word_of_int ((if neg then 2 ^ 63 else 0) + 2047 * 2 ^ 52)
       | PF_Num neg x \<Rightarrow> f64_of_rat neg x) (parse_float s)"

definition parse_f32 :: "string \<Rightarrow> f32 option" where
  "parse_f32 s =
     map_option (\<lambda>r. case r of
         PF_NaN \<Rightarrow> word_of_int (255 * 2 ^ 23 + 2 ^ 22)
       | PF_Inf neg \<Rightarrow> word_of_int ((if neg then 2 ^ 31 else 0) + 255 * 2 ^ 23)
       | PF_Num neg x \<Rightarrow> f32_of_rat neg x) (parse_float s)"

end
