(* ===== verification/Compiler.thy ===== *)
theory Compiler
  imports Entry Parsing
begin

text \<open>
  The query compiler (\<open>databroker/src/query/expr.rs\<close> and \<open>query/compiler.rs\<close>).  The SQL
  parser is the third-party crate \<open>sqlparser\<close>: its syntax tree is given here by the
  constructors the compiler matches on and one constructor for every other form, and
  \<open>Parser::parse_sql\<close> is the parameter \<open>parse_sql\<close> of \<open>compile\<close>.  The human-readable
  messages inside compilation errors are left out.
\<close>

section \<open>Expressions\<close>

datatype Operator = And | Or | Eq | NotEq | Gt | Ge | Lt | Le

datatype UnaryOperator = Not

datatype Expr =
    E_Datapoint string DataType
  | E_Alias Expr string
  | E_Cast Expr DataType
  | E_UnresolvedLiteral string
  | E_ResolvedLiteral DataValue DataType
  | E_BinaryOperation Expr Operator Expr
  | E_UnaryOperation Expr UnaryOperator
  | E_Between Expr bool Expr Expr

datatype UnresolvedLiteral = ULNumber string | ULError

fun get_type :: "Expr \<Rightarrow> (DataType, UnresolvedLiteral) result" where
  "get_type (E_Datapoint _ data_type) = Ok data_type"
| "get_type (E_Alias expr _) = get_type expr"
| "get_type (E_Cast _ data_type) = Ok data_type"
| "get_type (E_UnresolvedLiteral raw) = Err (ULNumber raw)"
| "get_type (E_ResolvedLiteral _ data_type) = Ok data_type"
| "get_type (E_BinaryOperation _ _ _) = Ok T_Bool"
| "get_type (E_UnaryOperation _ operator) = (case operator of Not \<Rightarrow> Ok T_Bool)"
| "get_type (E_Between _ _ _ _) = Ok T_Bool"

section \<open>The SQL syntax tree\<close>

datatype sql_binop =
  Sql_Gt | Sql_GtEq | Sql_Lt | Sql_LtEq | Sql_Eq | Sql_NotEq | Sql_And | Sql_Or | Sql_OtherOp

datatype sql_unop = Sql_Not | Sql_OtherUnop

datatype sql_expr =
    Sql_Number string
  | Sql_SingleQuotedString string
  | Sql_Boolean bool
  | Sql_DoubleQuotedString string
  | Sql_Identifier string
  | Sql_CompoundIdentifier "string list"
  | Sql_BinaryOp sql_expr sql_binop sql_expr
  | Sql_Nested sql_expr
  | Sql_UnaryOp sql_unop sql_expr
  | Sql_Between sql_expr bool sql_expr sql_expr
  | Sql_OtherExpr

datatype select_item = UnnamedExpr sql_expr | ExprWithAlias sql_expr string | OtherItem

text \<open>A statement is a query whose body is a plain \<open>SELECT\<close>, or anything else.\<close>

datatype sql_statement = SelectStatement "sql_expr option" "select_item list" | OtherStatement

section \<open>Compilation\<close>

datatype CompilationError =
    UnknownField string | MalformedNumber | UnsupportedOperator | UnsupportedOperation
  | TypeError | InvalidLogic | InvalidComparison | ParseError

text \<open>The trait \<open>CompilationInput\<close>: the declared type of a datapoint.\<close>

type_synonym compilation_input = "string \<Rightarrow> (DataType, CompilationError) result"

record CompiledQuery =
  q_selection :: "Expr option"
  q_projection :: "Expr list"
  q_input_spec :: "string list"

definition new_query :: CompiledQuery where
  "new_query = \<lparr>q_selection = None, q_projection = [], q_input_spec = []\<rparr>"

definition resolve_literal :: "UnresolvedLiteral \<Rightarrow> DataType \<Rightarrow> (Expr, UnresolvedLiteral) result" where
  "resolve_literal unresolved_literal wanted_type =
     (case (wanted_type, unresolved_literal) of
        (T_Int8, ULNumber raw) \<Rightarrow> (case parse_i8 raw of Some value \<Rightarrow> Ok (E_ResolvedLiteral (Int32 (scast value)) T_Int8) | None \<Rightarrow> Err ULError)
      | (T_Int16, ULNumber raw) \<Rightarrow> (case parse_i16 raw of Some value \<Rightarrow> Ok (E_ResolvedLiteral (Int32 (scast value)) T_Int16) | None \<Rightarrow> Err ULError)
      | (T_Int32, ULNumber raw) \<Rightarrow> (case parse_i32 raw of Some value \<Rightarrow> Ok (E_ResolvedLiteral (Int32 value) T_Int32) | None \<Rightarrow> Err ULError)
      | (T_Int64, ULNumber raw) \<Rightarrow> (case parse_i64 raw of Some value \<Rightarrow> Ok (E_ResolvedLiteral (Int64 value) T_Int64) | None \<Rightarrow> Err ULError)
      | (T_Uint8, ULNumber raw) \<Rightarrow> (case parse_u8 raw of Some value \<Rightarrow> Ok (E_ResolvedLiteral (Uint32 (ucast value)) T_Uint8) | None \<Rightarrow> Err ULError)
      | (T_Uint16, ULNumber raw) \<Rightarrow> (case parse_u16 raw of Some value \<Rightarrow> Ok (E_ResolvedLiteral (Uint32 (ucast value)) T_Uint16) | None \<Rightarrow> Err ULError)
      | (T_Uint32, ULNumber raw) \<Rightarrow> (case parse_u32 raw of Some value \<Rightarrow> Ok (E_ResolvedLiteral (Uint32 value) T_Uint32) | None \<Rightarrow> Err ULError)
      | (T_Uint64, ULNumber raw) \<Rightarrow> (case parse_u64 raw of Some value \<Rightarrow> Ok (E_ResolvedLiteral (Uint64 value) T_Uint64) | None \<Rightarrow> Err ULError)
      | (T_Float, ULNumber raw) \<Rightarrow> (case parse_f32 raw of Some value \<Rightarrow> Ok (E_ResolvedLiteral (Float value) T_Float) | None \<Rightarrow> Err ULError)
      | (T_Double, ULNumber raw) \<Rightarrow> (case parse_f64 raw of Some value \<Rightarrow> Ok (E_ResolvedLiteral (Double value) T_Double) | None \<Rightarrow> Err ULError)
      | _ \<Rightarrow> Err ULError)"

text \<open>Two number literals are given the first common type of \<open>i64\<close>, \<open>u64\<close>, \<open>f64\<close>.\<close>

definition resolve_both :: "string \<Rightarrow> string \<Rightarrow> (Expr \<times> Expr, CompilationError) result" where
  "resolve_both raw_left raw_right =
     (case (parse_i64 raw_left, parse_i64 raw_right) of
        (Some l, Some r) \<Rightarrow>
          Ok (E_ResolvedLiteral (Int64 l) T_Int64, E_ResolvedLiteral (Int64 r) T_Int64)
      | _ \<Rightarrow>
     (case (parse_u64 raw_left, parse_u64 raw_right) of
        (Some l, Some r) \<Rightarrow>
          Ok (E_ResolvedLiteral (Uint64 l) T_Uint64, E_ResolvedLiteral (Uint64 r) T_Uint64)
      | _ \<Rightarrow>
     (case (parse_f64 raw_left, parse_f64 raw_right) of
        (Some l, Some r) \<Rightarrow>
          Ok (E_ResolvedLiteral (Double l) T_Double, E_ResolvedLiteral (Double r) T_Double)
      | _ \<Rightarrow> Err TypeError)))"

text \<open>The first half of the \<open>BinaryOp\<close> arm: unresolved literals take the type of the other side.\<close>

definition resolve_operands :: "Expr \<Rightarrow> Expr \<Rightarrow> (Expr \<times> Expr, CompilationError) result" where
  "resolve_operands left_expr right_expr =
     (case (get_type left_expr, get_type right_expr) of
        (Err literal, Ok right_type) \<Rightarrow>
          (case resolve_literal literal right_type of
             Ok left_expr \<Rightarrow> Ok (left_expr, right_expr) | Err _ \<Rightarrow> Err TypeError)
      | (Ok left_type, Err literal) \<Rightarrow>
          (case resolve_literal literal left_type of
             Ok right_expr \<Rightarrow> Ok (left_expr, right_expr) | Err _ \<Rightarrow> Err TypeError)
      | (Err left_literal, Err right_literal) \<Rightarrow>
          (case (left_literal, right_literal) of
             (ULNumber raw_left, ULNumber raw_right) \<Rightarrow> resolve_both raw_left raw_right
           | _ \<Rightarrow> Err TypeError)
      | (Ok _, Ok _) \<Rightarrow> Ok (left_expr, right_expr))"

text \<open>The second half: the operator itself.\<close>

definition compile_operator :: "sql_binop \<Rightarrow> Expr \<Rightarrow> Expr \<Rightarrow> (Expr, CompilationError) result" where
  "compile_operator op left_expr right_expr =
     (case op of
        Sql_Gt \<Rightarrow> Ok (E_BinaryOperation left_expr Gt right_expr)
      | Sql_GtEq \<Rightarrow> Ok (E_BinaryOperation left_expr Ge right_expr)
      | Sql_Lt \<Rightarrow> Ok (E_BinaryOperation left_expr Lt right_expr)
      | Sql_LtEq \<Rightarrow> Ok (E_BinaryOperation left_expr Le right_expr)
      | Sql_Eq \<Rightarrow> Ok (E_BinaryOperation left_expr Eq right_expr)
      | Sql_NotEq \<Rightarrow> Ok (E_BinaryOperation left_expr NotEq right_expr)
      | Sql_And \<Rightarrow> (case (get_type left_expr, get_type right_expr) of
           (Ok T_Bool, Ok T_Bool) \<Rightarrow> Ok (E_BinaryOperation left_expr And right_expr)
         | _ \<Rightarrow> Err TypeError)
      | Sql_Or \<Rightarrow> (case (get_type left_expr, get_type right_expr) of
           (Ok T_Bool, Ok T_Bool) \<Rightarrow> Ok (E_BinaryOperation left_expr Or right_expr)
         | _ \<Rightarrow> Err TypeError)
      | Sql_OtherOp \<Rightarrow> Err UnsupportedOperator)"

text \<open>A \<open>HashSet<String>\<close> of names, kept as a list without repetitions.\<close>

definition spec_insert :: "string \<Rightarrow> string list \<Rightarrow> string list" where
  "spec_insert name spec = (if name \<in> set spec then spec else spec @ [name])"

fun join :: "string \<Rightarrow> string list \<Rightarrow> string" where
  "join sep [] = []"
| "join sep [s] = s"
| "join sep (s # ss) = s @ sep @ join sep ss"

definition compile_datapoint ::
  "compilation_input \<Rightarrow> string \<Rightarrow> string list \<Rightarrow> (Expr \<times> string list, CompilationError) result" where
  "compile_datapoint input name spec =
     result_bind (input name) (\<lambda>data_type. Ok (E_Datapoint name data_type, spec_insert name spec))"

text \<open>
  \<open>compile_expr\<close> threads the input specification of the query through the recursion.
\<close>

fun compile_expr ::
  "compilation_input \<Rightarrow> sql_expr \<Rightarrow> string list \<Rightarrow> (Expr \<times> string list, CompilationError) result" where
  "compile_expr input (Sql_Number n) spec = Ok (E_UnresolvedLiteral n, spec)"
| "compile_expr input (Sql_SingleQuotedString s) spec = Ok (E_ResolvedLiteral (String s) T_String, spec)"
| "compile_expr input (Sql_Boolean b) spec = Ok (E_ResolvedLiteral (Bool b) T_Bool, spec)"
| "compile_expr input (Sql_DoubleQuotedString s) spec = Ok (E_ResolvedLiteral (String s) T_String, spec)"
| "compile_expr input (Sql_Identifier name) spec = compile_datapoint input name spec"
| "compile_expr input (Sql_CompoundIdentifier ids) spec = compile_datapoint input (join ''.'' ids) spec"
| "compile_expr input (Sql_BinaryOp left op right) spec =
     result_bind (compile_expr input left spec) (\<lambda>(left_expr, spec).
     result_bind (compile_expr input right spec) (\<lambda>(right_expr, spec).
     result_bind (resolve_operands left_expr right_expr) (\<lambda>(left_expr, right_expr).
     result_bind (compile_operator op left_expr right_expr) (\<lambda>expr. Ok (expr, spec)))))"
| "compile_expr input (Sql_Nested e) spec = compile_expr input e spec"
| "compile_expr input (Sql_UnaryOp op expr) spec =
     (case op of
        Sql_Not \<Rightarrow>
          result_bind (compile_expr input expr spec) (\<lambda>(expr, spec). Ok (E_UnaryOperation expr Not, spec))
      | Sql_OtherUnop \<Rightarrow> Err UnsupportedOperator)"
| "compile_expr input (Sql_Between expr negated low high) spec =
     result_bind (compile_expr input expr spec) (\<lambda>(expr, spec).
     result_bind (compile_expr input low spec) (\<lambda>(low, spec).
     result_bind (compile_expr input high spec) (\<lambda>(high, spec).
       Ok (E_Between expr negated low high, spec))))"
| "compile_expr input Sql_OtherExpr spec = Err UnsupportedOperator"

definition compile_selection ::
  "compilation_input \<Rightarrow> sql_expr option \<Rightarrow> CompiledQuery \<Rightarrow> (CompiledQuery, CompilationError) result" where
  "compile_selection input selection query =
     (case selection of
        None \<Rightarrow> Ok query
      | Some expr \<Rightarrow>
          result_bind (compile_expr input expr (q_input_spec query)) (\<lambda>(condition, spec).
            case get_type condition of
              Ok data_type \<Rightarrow>
                if data_type \<noteq> T_Bool then Err TypeError
                else Ok (query\<lparr>q_selection := Some condition, q_input_spec := spec\<rparr>)
            | Err _ \<Rightarrow> Ok (query\<lparr>q_selection := Some condition, q_input_spec := spec\<rparr>)))"

fun compile_projection ::
  "compilation_input \<Rightarrow> select_item list \<Rightarrow> CompiledQuery \<Rightarrow> (CompiledQuery, CompilationError) result" where
  "compile_projection input [] query = Ok query"
| "compile_projection input (c # cs) query =
     (case c of
        UnnamedExpr expr \<Rightarrow>
          result_bind (compile_expr input expr (q_input_spec query)) (\<lambda>(expr, spec).
            compile_projection input cs
              (query\<lparr>q_projection := q_projection query @ [expr], q_input_spec := spec\<rparr>))
      | ExprWithAlias expr alias \<Rightarrow>
          result_bind (compile_expr input expr (q_input_spec query)) (\<lambda>(expr, spec).
            compile_projection input cs
              (query\<lparr>q_projection := q_projection query @ [E_Alias expr alias], q_input_spec := spec\<rparr>))
      | OtherItem \<Rightarrow> Err UnsupportedOperation)"

definition compile ::
  "(string \<Rightarrow> sql_statement list option) \<Rightarrow> string \<Rightarrow> compilation_input \<Rightarrow>
   (CompiledQuery, CompilationError) result" where
  "compile parse_sql sql input =
     (case parse_sql sql of
        Some ast \<Rightarrow>
          (case ast of
             SelectStatement selection projection # _ \<Rightarrow>
               result_bind (compile_selection input selection new_query)
                 (compile_projection input projection)
           | _ \<Rightarrow> Err UnsupportedOperation)
      | None \<Rightarrow> Err ParseError)"

text \<open>\<open>CompilationInputImpl\<close>: a schema of names and types.\<close>

definition schema_input :: "(string \<times> DataType) list \<Rightarrow> compilation_input" where
  "schema_input schema field =
     (case map_of schema field of Some v \<Rightarrow> Ok v | None \<Rightarrow> Err (UnknownField field))"

end
