(* ===== verification/Executor.thy ===== *)
theory Executor
  imports Compiler
begin

text \<open>
  The query executor (\<open>databroker/src/query/executor.rs\<close>).  The trait \<open>ExecutionInput\<close> is
  its one method \<open>lookup\<close>.  The macro \<open>todo!()\<close> in the \<open>Cast\<close> arm panics: it is the error
  value \<open>Exec_Panic\<close>, so that the absence of a panic is a statement about results.  The
  \<open>debug_assert!\<close> in front of the error of an unresolved literal is not part of a release
  build and not modelled.
\<close>

section \<open>Execution\<close>

datatype ExecutionError = Exec_GeneralError | Exec_TypeError | Exec_CastError | Exec_Panic

type_synonym execution_input = "string \<Rightarrow> DataValue"

definition cast_error :: "(bool, CastError) result \<Rightarrow> (DataValue, ExecutionError) result" where
  "cast_error r = (case r of Ok b \<Rightarrow> Ok (Bool b) | Err _ \<Rightarrow> Err Exec_CastError)"

text \<open>
  \<open>execute_binary_operation\<close>, given the outcomes of its two operands; the right one counts
  only when the left one is a value.
\<close>

definition execute_binary_operation ::
  "(DataValue, ExecutionError) result \<Rightarrow> Operator \<Rightarrow> (DataValue, ExecutionError) result \<Rightarrow>
   (DataValue, ExecutionError) result" where
  "execute_binary_operation left operator right =
     result_bind left (\<lambda>left_value.
     result_bind right (\<lambda>right_value.
       case operator of
         Or \<Rightarrow> (case (left_value, right_value) of
             (Bool left, Bool right) \<Rightarrow> Ok (Bool (left \<or> right))
           | _ \<Rightarrow> Err Exec_TypeError)
       | And \<Rightarrow> (case (left_value, right_value) of
             (Bool left, Bool right) \<Rightarrow> Ok (Bool (left \<and> right))
           | _ \<Rightarrow> Err Exec_TypeError)
       | Eq \<Rightarrow> (case equals left_value right_value of
             Ok eq \<Rightarrow> Ok (Bool eq)
           | Err _ \<Rightarrow> Err Exec_CastError)
       | NotEq \<Rightarrow> (case equals left_value right_value of
             Ok eq \<Rightarrow> Ok (Bool (\<not> eq))
           | Err _ \<Rightarrow> Err Exec_CastError)
       | Gt \<Rightarrow> (case greater_than left_value right_value of
             Ok gt \<Rightarrow> Ok (Bool gt)
           | Err _ \<Rightarrow> Err Exec_CastError)
       | Ge \<Rightarrow> (case greater_than left_value right_value of
             Ok gt \<Rightarrow>
               if gt then Ok (Bool gt)
               else (case equals left_value right_value of
                   Ok eq \<Rightarrow> Ok (Bool eq)
                 | Err _ \<Rightarrow> Err Exec_CastError)
           | Err _ \<Rightarrow> Err Exec_CastError)
       | Lt \<Rightarrow> (case less_than left_value right_value of
             Ok lt \<Rightarrow> Ok (Bool lt)
           | Err _ \<Rightarrow> Err Exec_CastError)
       | Le \<Rightarrow> (case less_than left_value right_value of
             Ok lt \<Rightarrow>
               if lt then Ok (Bool lt)
               else (case equals left_value right_value of
                   Ok eq \<Rightarrow> Ok (Bool eq)
                 | Err _ \<Rightarrow> Err Exec_CastError)
           | Err _ \<Rightarrow> Err Exec_CastError)))"

definition execute_unary_operation ::
  "(DataValue, ExecutionError) result \<Rightarrow> UnaryOperator \<Rightarrow> (DataValue, ExecutionError) result" where
  "execute_unary_operation expr operator =
     (case operator of
        Not \<Rightarrow> (case expr of
            Ok (Bool b) \<Rightarrow> Ok (Bool (\<not> b))
          | Ok _ \<Rightarrow> Err Exec_TypeError
          | Err e \<Rightarrow> Err e))"

definition execute_between_operation ::
  "(DataValue, ExecutionError) result \<Rightarrow> bool \<Rightarrow> (DataValue, ExecutionError) result \<Rightarrow>
   (DataValue, ExecutionError) result \<Rightarrow> (DataValue, ExecutionError) result" where
  "execute_between_operation expr negated low high =
     (case execute_binary_operation expr Ge low of
        Ok (Bool low_cond) \<Rightarrow>
          if low_cond \<and> negated then Ok (Bool False)
          else if \<not> low_cond \<and> \<not> negated then Ok (Bool False)
          else (case execute_binary_operation expr Le high of
              Ok (Bool high_cond) \<Rightarrow>
                if high_cond \<and> negated then Ok (Bool False)
                else if \<not> high_cond \<and> \<not> negated then Ok (Bool False)
                else Ok (Bool True)
            | Ok _ \<Rightarrow> Err Exec_TypeError
            | Err e \<Rightarrow> Err e)
      | Ok _ \<Rightarrow> Err Exec_TypeError
      | Err e \<Rightarrow> Err e)"

fun execute_expr :: "Expr \<Rightarrow> execution_input \<Rightarrow> (DataValue, ExecutionError) result" where
  "execute_expr (E_Datapoint name _) lookup = Ok (lookup name)"
| "execute_expr (E_Alias expr _) lookup = execute_expr expr lookup"
| "execute_expr (E_BinaryOperation left operator right) lookup =
     execute_binary_operation (execute_expr left lookup) operator (execute_expr right lookup)"
| "execute_expr (E_UnaryOperation expr operator) lookup =
     execute_unary_operation (execute_expr expr lookup) operator"
| "execute_expr (E_ResolvedLiteral v _) lookup = Ok v"
| "execute_expr (E_Between expr negated low high) lookup =
     execute_between_operation (execute_expr expr lookup) negated
       (execute_expr low lookup) (execute_expr high lookup)"
| "execute_expr (E_Cast _ _) lookup = Err Exec_Panic"
| "execute_expr (E_UnresolvedLiteral _) lookup = Err Exec_TypeError"

text \<open>The decimal digits of an index, as \<open>format!\<close> prints them.\<close>

fun show_nat :: "nat \<Rightarrow> string" where
  "show_nat n =
     (if n < 10 then [char_of (48 + n)] else show_nat (n div 10) @ [char_of (48 + n mod 10)])"

declare show_nat.simps [simp del]

definition field_name :: "nat \<Rightarrow> Expr \<Rightarrow> string" where
  "field_name index e =
     (case e of
        E_Datapoint name _ \<Rightarrow> name
      | E_Alias _ alias \<Rightarrow> alias
      | _ \<Rightarrow> ''field_'' @ show_nat index)"

text \<open>The loop over the projection, from a given index.\<close>

fun execute_projection ::
  "nat \<Rightarrow> Expr list \<Rightarrow> execution_input \<Rightarrow> ((string \<times> DataValue) list, ExecutionError) result" where
  "execute_projection index [] lookup = Ok []"
| "execute_projection index (e # es) lookup =
     result_bind (execute_expr e lookup) (\<lambda>v.
     result_bind (execute_projection (Suc index) es lookup) (\<lambda>fields.
       Ok ((field_name index e, v) # fields)))"

definition execute_query ::
  "CompiledQuery \<Rightarrow> execution_input \<Rightarrow> ((string \<times> DataValue) list option, ExecutionError) result" where
  "execute_query query lookup =
     result_bind
       (case q_selection query of
          Some condition \<Rightarrow>
            (case execute_expr condition lookup of
               Ok (Bool b) \<Rightarrow> Ok b
             | Ok _ \<Rightarrow> Err Exec_GeneralError
             | Err e \<Rightarrow> Err e)
        | None \<Rightarrow> Ok True)
       (\<lambda>condition_fulfilled.
          if condition_fulfilled
          then result_map Some (execute_projection 0 (q_projection query) lookup)
          else Ok None)"

text \<open>\<open>ExecutionInputImpl\<close>: a map of names to values, where a missing name is not available.\<close>

definition input_add :: "(string \<times> DataValue) list \<Rightarrow> string \<Rightarrow> DataValue \<Rightarrow> (string \<times> DataValue) list" where
  "input_add inputs name v = AList.update name v inputs"

definition input_lookup :: "(string \<times> DataValue) list \<Rightarrow> execution_input" where
  "input_lookup inputs field = (case map_of inputs field of Some v \<Rightarrow> v | None \<Rightarrow> NotAvailable)"

section \<open>Comparisons\<close>

text \<open>
  The six comparison operators through the interface \<open>cmp\<close>: \<open>>=\<close> and \<open><=\<close> are the
  derived operations of the locale.
\<close>

lemma execute_comparison_eqs:
  "execute_binary_operation (Ok v) Eq (Ok w) = cast_error (equals v w)"
  "execute_binary_operation (Ok v) NotEq (Ok w) = cast_error (result_map HOL.Not (equals v w))"
  "execute_binary_operation (Ok v) Gt (Ok w) = cast_error (greater_than v w)"
  "execute_binary_operation (Ok v) Ge (Ok w) = cast_error (cmp.ge v w)"
  "execute_binary_operation (Ok v) Lt (Ok w) = cast_error (less_than v w)"
  "execute_binary_operation (Ok v) Le (Ok w) = cast_error (cmp.le v w)"
  by (auto simp: execute_binary_operation_def cast_error_def cmp.ge_def cmp.le_def split: result.splits)

lemma execute_binary_operation_Err [simp]:
  "execute_binary_operation (Err e) op r = Err e"
  "execute_binary_operation (Ok v) op (Err e) = Err e"
  by (simp_all add: execute_binary_operation_def)

lemma cast_error_Ok [simp]: "cast_error r = Ok v \<longleftrightarrow> (\<exists>b. r = Ok b \<and> v = Bool b)"
  by (auto simp: cast_error_def split: result.splits)

lemma cast_error_Bool: "cast_error r = Ok (Bool b) \<longleftrightarrow> r = Ok b"
  by auto

lemma execute_logic_eqs:
  "execute_binary_operation (Ok (Bool a)) And (Ok (Bool b)) = Ok (Bool (a \<and> b))"
  "execute_binary_operation (Ok (Bool a)) Or (Ok (Bool b)) = Ok (Bool (a \<or> b))"
  "op = And \<or> op = Or \<Longrightarrow> \<not> (\<exists>a b. v = Bool a \<and> w = Bool b) \<Longrightarrow>
   execute_binary_operation (Ok v) op (Ok w) = Err Exec_TypeError"
  by (auto simp: execute_binary_operation_def split: DataValue.split)

lemma execute_binary_operation_outcome:
  "(\<exists>b. execute_binary_operation (Ok v) op (Ok w) = Ok (Bool b)) \<or>
   execute_binary_operation (Ok v) op (Ok w) = Err Exec_TypeError \<or>
   execute_binary_operation (Ok v) op (Ok w) = Err Exec_CastError"
proof (cases "op = And \<or> op = Or")
  case True
  then show ?thesis
    by (cases "\<exists>a b. v = Bool a \<and> w = Bool b") (auto simp: execute_logic_eqs)
next
  case False
  then show ?thesis by (cases op) (auto simp: execute_comparison_eqs cast_error_def split: result.splits)
qed

lemma execute_binary_operation_cases:
  obtains (bool) b where "execute_binary_operation l op r = Ok (Bool b)"
  | (type) "execute_binary_operation l op r = Err Exec_TypeError"
  | (cast) "execute_binary_operation l op r = Err Exec_CastError"
  | (operand) e where "execute_binary_operation l op r = Err e" "l = Err e \<or> r = Err e"
proof (cases l)
  case l: (Ok v)
  show ?thesis
  proof (cases r)
    case (Ok w)
    then show ?thesis using l that execute_binary_operation_outcome [of v op w] by auto
  qed (use l that in auto)
qed (use that in auto)

lemma execute_binary_operation_bool:
  "execute_binary_operation l op r = Ok v \<Longrightarrow> \<exists>b. v = Bool b"
  by (rule execute_binary_operation_cases [of l op r]) auto

lemma execute_unary_operation_bool:
  "execute_unary_operation r op = Ok v \<Longrightarrow> \<exists>b. v = Bool b"
  by (auto simp: execute_unary_operation_def split: result.splits DataValue.splits UnaryOperator.splits)

lemma execute_between_operation_bool:
  "execute_between_operation x n l h = Ok v \<Longrightarrow> \<exists>b. v = Bool b"
  by (auto simp: execute_between_operation_def split: result.splits DataValue.splits if_splits)

text \<open>Neither operation panics by itself.\<close>

lemma execute_binary_operation_Panic:
  "execute_binary_operation l op r = Err Exec_Panic \<Longrightarrow> l = Err Exec_Panic \<or> r = Err Exec_Panic"
  by (rule execute_binary_operation_cases [of l op r]) auto

lemma execute_unary_operation_Panic:
  "execute_unary_operation r op = Err Exec_Panic \<Longrightarrow> r = Err Exec_Panic"
  by (auto simp: execute_unary_operation_def split: result.splits DataValue.splits UnaryOperator.splits)

lemma execute_between_operation_Panic:
  "execute_between_operation x n l h = Err Exec_Panic \<Longrightarrow>
   x = Err Exec_Panic \<or> l = Err Exec_Panic \<or> h = Err Exec_Panic"
  by (auto simp: execute_between_operation_def dest!: execute_binary_operation_Panic
      split: result.splits DataValue.splits if_splits)

lemmas op_bool = execute_binary_operation_bool execute_unary_operation_bool
  execute_between_operation_bool
lemmas op_Panic = execute_binary_operation_Panic execute_unary_operation_Panic
  execute_between_operation_Panic

text \<open>\<open>BETWEEN\<close> on values: both comparisons hold; \<open>NOT BETWEEN\<close>: both fail.\<close>

lemma execute_between_eq:
  assumes "cmp.ge x low = Ok a" and "cmp.le x high = Ok b"
  shows "execute_between_operation (Ok x) negated (Ok low) (Ok high) =
    Ok (Bool (if negated then \<not> a \<and> \<not> b else a \<and> b))"
  using assms by (simp add: execute_between_operation_def execute_comparison_eqs cast_error_def)

section \<open>The names a query reads\<close>

fun expr_names :: "Expr \<Rightarrow> string set" where
  "expr_names (E_Datapoint name _) = {name}"
| "expr_names (E_Alias e _) = expr_names e"
| "expr_names (E_Cast e _) = expr_names e"
| "expr_names (E_UnresolvedLiteral _) = {}"
| "expr_names (E_ResolvedLiteral _ _) = {}"
| "expr_names (E_BinaryOperation l _ r) = expr_names l \<union> expr_names r"
| "expr_names (E_UnaryOperation e _) = expr_names e"
| "expr_names (E_Between e _ l h) = expr_names e \<union> expr_names l \<union> expr_names h"

definition query_names :: "CompiledQuery \<Rightarrow> string set" where
  "query_names q =
     (case q_selection q of Some e \<Rightarrow> expr_names e | None \<Rightarrow> {}) \<union>
     (\<Union>e\<in>set (q_projection q). expr_names e)"

lemma execute_expr_cong:
  "(\<And>n. n \<in> expr_names e \<Longrightarrow> f n = g n) \<Longrightarrow> execute_expr e f = execute_expr e g"
proof (induction e)
  case (E_BinaryOperation l op r)
  then have "execute_expr l f = execute_expr l g" "execute_expr r f = execute_expr r g" by auto
  then show ?case by simp
next
  case (E_Between e n l h)
  then have "execute_expr e f = execute_expr e g" "execute_expr l f = execute_expr l g"
    "execute_expr h f = execute_expr h g" by auto
  then show ?case by simp
qed auto

lemma execute_projection_cong:
  "(\<And>n. n \<in> (\<Union>e\<in>set es. expr_names e) \<Longrightarrow> f n = g n) \<Longrightarrow>
   execute_projection i es f = execute_projection i es g"
proof (induction es arbitrary: i)
  case (Cons e es)
  then have "execute_expr e f = execute_expr e g" "execute_projection (Suc i) es f = execute_projection (Suc i) es g"
    by (auto intro!: execute_expr_cong Cons.IH)
  then show ?case by simp
qed simp

lemma execute_query_cong:
  assumes "\<And>n. n \<in> query_names q \<Longrightarrow> f n = g n"
  shows "execute_query q f = execute_query q g"
proof -
  have "execute_projection 0 (q_projection q) f = execute_projection 0 (q_projection q) g"
    using assms by (auto simp: query_names_def intro!: execute_projection_cong)
  moreover have "execute_expr e f = execute_expr e g" if "q_selection q = Some e" for e
    using assms that by (auto simp: query_names_def intro!: execute_expr_cong)
  ultimately show ?thesis by (cases "q_selection q") (simp_all add: execute_query_def cong: if_cong)
qed

lemma resolve_literal_shape:
  "resolve_literal l t = Ok e \<Longrightarrow> \<exists>v. e = E_ResolvedLiteral v t \<and> conforms t v"
  by (cases t; cases l)
    (auto simp: resolve_literal_def conforms_def narrow_simps split: option.splits)

lemma resolve_both_shape:
  "resolve_both a b = Ok (l, r) \<Longrightarrow>
   \<exists>v w t. l = E_ResolvedLiteral v t \<and> r = E_ResolvedLiteral w t \<and> conforms t v \<and> conforms t w"
  by (auto simp: resolve_both_def conforms_def split: option.splits)

section \<open>Well-typed expressions\<close>

text \<open>
  The invariant of compiled expressions: a datapoint carries the type its schema declares, a
  resolved literal conforms to its type, there is no cast, the operands of a binary
  operation have a type, and those of a logical one the type \<open>Bool\<close>.
\<close>

fun typed :: "compilation_input \<Rightarrow> Expr \<Rightarrow> bool" where
  "typed input (E_Datapoint n t) \<longleftrightarrow> input n = Ok t"
| "typed input (E_Alias e _) \<longleftrightarrow> typed input e"
| "typed input (E_Cast _ _) \<longleftrightarrow> False"
| "typed input (E_UnresolvedLiteral _) \<longleftrightarrow> True"
| "typed input (E_ResolvedLiteral v t) \<longleftrightarrow> conforms t v"
| "typed input (E_BinaryOperation l op r) \<longleftrightarrow>
     typed input l \<and> typed input r \<and> is_ok (get_type l) \<and> is_ok (get_type r) \<and>
     (op = And \<or> op = Or \<longrightarrow> get_type l = Ok T_Bool \<and> get_type r = Ok T_Bool)"
| "typed input (E_UnaryOperation e _) \<longleftrightarrow> typed input e"
| "typed input (E_Between e _ l h) \<longleftrightarrow> typed input e \<and> typed input l \<and> typed input h"

lemma resolve_operands_typed:
  assumes "resolve_operands l r = Ok (l', r')" and "typed input l" and "typed input r"
  shows "typed input l' \<and> typed input r' \<and> is_ok (get_type l') \<and> is_ok (get_type r')"
  using assms
  by (auto simp: resolve_operands_def dest!: resolve_literal_shape resolve_both_shape
      split: result.splits UnresolvedLiteral.splits)

lemma unresolved_names: "get_type e = Err u \<Longrightarrow> expr_names e = {}"
  by (induction e) (auto split: UnaryOperator.splits)

lemma resolve_operands_names:
  assumes "resolve_operands l r = Ok (l', r')"
  shows "expr_names l' = expr_names l \<and> expr_names r' = expr_names r"
  using assms
  by (auto simp: resolve_operands_def unresolved_names dest!: resolve_literal_shape resolve_both_shape
      split: result.splits UnresolvedLiteral.splits)

lemma compile_operator_shape:
  "compile_operator op l r = Ok e \<Longrightarrow>
   \<exists>op'. e = E_BinaryOperation l op' r \<and>
     (op' = And \<or> op' = Or \<longrightarrow> get_type l = Ok T_Bool \<and> get_type r = Ok T_Bool)"
  by (auto simp: compile_operator_def split: sql_binop.splits result.splits DataType.splits)

lemma set_spec_insert [simp]: "set (spec_insert n spec) = insert n (set spec)"
  by (auto simp: spec_insert_def)

lemma distinct_spec_insert [simp]: "distinct (spec_insert n spec) = distinct spec"
  by (auto simp: spec_insert_def)

text \<open>What \<open>compile_expr\<close> promises.\<close>

definition compiled_ok :: "compilation_input \<Rightarrow> string list \<Rightarrow> Expr \<Rightarrow> string list \<Rightarrow> bool" where
  "compiled_ok input spec e spec' \<longleftrightarrow>
     typed input e \<and> set spec' = set spec \<union> expr_names e \<and> (distinct spec \<longrightarrow> distinct spec')"

lemma compile_expr_ok:
  "compile_expr input sql spec = Ok (e, spec') \<Longrightarrow> compiled_ok input spec e spec'"
proof (induction sql arbitrary: spec e spec')
  case (Sql_BinaryOp l op r)
  then obtain l1 s1 r1 s2 l2 r2 where
      l: "compile_expr input l spec = Ok (l1, s1)" and r: "compile_expr input r s1 = Ok (r1, s2)" and
      res: "resolve_operands l1 r1 = Ok (l2, r2)" and "compile_operator op l2 r2 = Ok e" "s2 = spec'"
    by (auto simp: result_bind_eq_Ok)
  then show ?case
    using Sql_BinaryOp.IH(1) [OF l] Sql_BinaryOp.IH(2) [OF r]
      resolve_operands_typed [OF res, of input] resolve_operands_names [OF res]
    by (auto simp: compiled_ok_def dest!: compile_operator_shape)
next
  case (Sql_Between x n l h)
  then obtain x1 s1 l1 s2 h1 where
      x: "compile_expr input x spec = Ok (x1, s1)" and l: "compile_expr input l s1 = Ok (l1, s2)" and
      h: "compile_expr input h s2 = Ok (h1, spec')" and "e = E_Between x1 n l1 h1"
    by (auto simp: result_bind_eq_Ok)
  then show ?case
    using Sql_Between.IH(1) [OF x] Sql_Between.IH(2) [OF l] Sql_Between.IH(3) [OF h]
    by (auto simp: compiled_ok_def)
next
  case (Sql_UnaryOp op x)
  then show ?case
    by (fastforce simp: result_bind_eq_Ok compiled_ok_def split: sql_unop.splits)
qed (auto simp: compiled_ok_def compile_datapoint_def result_bind_eq_Ok conforms_def)

text \<open>Execution of a well-typed expression never reaches a panic, and keeps the types.\<close>

lemma typed_no_panic: "typed input e \<Longrightarrow> execute_expr e lookup \<noteq> Err Exec_Panic"
  by (induction e) (auto dest!: op_Panic)

definition input_ok :: "compilation_input \<Rightarrow> execution_input \<Rightarrow> bool" where
  "input_ok input lookup \<longleftrightarrow> (\<forall>n t. input n = Ok t \<longrightarrow> value_ok t (lookup n))"

lemma typed_value:
  assumes "typed input e" and "input_ok input lookup"
    and "execute_expr e lookup = Ok v" and "get_type e = Ok t"
  shows "value_ok t v"
  using assms
  by (induction e arbitrary: v)
    (auto simp: input_ok_def value_ok_def conforms_def dest!: op_bool split: UnaryOperator.splits)

text \<open>The invariant of a whole compiled query.\<close>

definition query_ok :: "compilation_input \<Rightarrow> CompiledQuery \<Rightarrow> bool" where
  "query_ok input q \<longleftrightarrow>
     (\<forall>e. q_selection q = Some e \<longrightarrow> typed input e \<and> (\<forall>t. get_type e = Ok t \<longrightarrow> t = T_Bool)) \<and>
     (\<forall>e\<in>set (q_projection q). typed input e) \<and>
     set (q_input_spec q) = query_names q \<and> distinct (q_input_spec q)"

lemma new_query_spec [simp]: "q_input_spec new_query = []"
  by (simp add: new_query_def)

lemma compile_selection_ok:
  assumes "compile_selection input sel new_query = Ok q"
  shows "query_ok input q \<and> q_projection q = []"
proof (cases sel)
  case None
  then show ?thesis using assms
    by (auto simp: compile_selection_def query_ok_def query_names_def new_query_def)
next
  case (Some sql)
  with assms obtain e spec where c: "compile_expr input sql [] = Ok (e, spec)"
    and s: "(case get_type e of
          Ok data_type \<Rightarrow>
            if data_type \<noteq> T_Bool then Err TypeError
            else Ok (new_query\<lparr>q_selection := Some e, q_input_spec := spec\<rparr>)
        | Err _ \<Rightarrow> Ok (new_query\<lparr>q_selection := Some e, q_input_spec := spec\<rparr>)) = Ok q"
    by (auto simp: compile_selection_def result_bind_eq_Ok)
  from s have "q = new_query\<lparr>q_selection := Some e, q_input_spec := spec\<rparr>"
    and "\<forall>t. get_type e = Ok t \<longrightarrow> t = T_Bool"
    by (cases "get_type e"; auto split: if_splits)+
  then show ?thesis using compile_expr_ok [OF c]
    by (auto simp: query_ok_def query_names_def compiled_ok_def new_query_def)
qed

lemma query_ok_extend:
  assumes "query_ok input q" and "compiled_ok input (q_input_spec q) e spec"
    and "typed input e'" and "expr_names e' = expr_names e"
  shows "query_ok input (q\<lparr>q_projection := q_projection q @ [e'], q_input_spec := spec\<rparr>)"
  using assms by (auto simp: query_ok_def compiled_ok_def query_names_def)

lemma compile_projection_Cons:
  assumes "compile_projection input (c # cs) q = Ok q'"
  obtains sql e spec e' where "compile_expr input sql (q_input_spec q) = Ok (e, spec)"
    and "e' = e \<or> (\<exists>alias. e' = E_Alias e alias)"
    and "compile_projection input cs
           (q\<lparr>q_projection := q_projection q @ [e'], q_input_spec := spec\<rparr>) = Ok q'"
proof (cases c)
  case (UnnamedExpr sql)
  then show ?thesis using assms that [of sql] by (auto simp: result_bind_eq_Ok)
next
  case (ExprWithAlias sql nm)
  then obtain e spec where "compile_expr input sql (q_input_spec q) = Ok (e, spec)"
    "compile_projection input cs
       (q\<lparr>q_projection := q_projection q @ [E_Alias e nm], q_input_spec := spec\<rparr>) = Ok q'"
    using assms by (auto simp: result_bind_eq_Ok)
  then show ?thesis using that by blast
qed (use assms in auto)

lemma compile_projection_ok:
  "compile_projection input items q = Ok q' \<Longrightarrow> query_ok input q \<Longrightarrow>
   query_ok input q' \<and> length (q_projection q') = length (q_projection q) + length items"
proof (induction items arbitrary: q)
  case (Cons c cs)
  from Cons.prems(1) obtain sql e spec e' where c: "compile_expr input sql (q_input_spec q) = Ok (e, spec)"
    and e': "e' = e \<or> (\<exists>alias. e' = E_Alias e alias)"
    and rest: "compile_projection input cs
           (q\<lparr>q_projection := q_projection q @ [e'], q_input_spec := spec\<rparr>) = Ok q'"
    by (rule compile_projection_Cons)
  have ok: "compiled_ok input (q_input_spec q) e spec" by (rule compile_expr_ok [OF c])
  have "query_ok input (q\<lparr>q_projection := q_projection q @ [e'], q_input_spec := spec\<rparr>)"
    using e' ok by (intro query_ok_extend [OF Cons.prems(2) ok]) (auto simp: compiled_ok_def)
  from Cons.IH [OF rest this] show ?case by simp
qed simp

lemma compile_ok:
  "compile parse_sql sql input = Ok q \<Longrightarrow> query_ok input q"
  by (auto simp: compile_def result_bind_eq_Ok dest: compile_selection_ok compile_projection_ok
      split: option.splits list.splits sql_statement.splits)

section \<open>Progress\<close>

text \<open>
  Statically comparable types: numeric on both sides, and no 64-bit integer against a
  floating-point number; equality also on two booleans or two strings.
\<close>

definition fp_type :: "DataType \<Rightarrow> bool" where
  "fp_type t \<longleftrightarrow> t = T_Float \<or> t = T_Double"

definition wide_type :: "DataType \<Rightarrow> bool" where
  "wide_type t \<longleftrightarrow> t = T_Int64 \<or> t = T_Uint64"

definition int_type :: "DataType \<Rightarrow> bool" where
  "int_type t \<longleftrightarrow> t \<in> {T_Int8, T_Int16, T_Int32, T_Int64, T_Uint8, T_Uint16, T_Uint32, T_Uint64}"

definition ord_types :: "DataType \<Rightarrow> DataType \<Rightarrow> bool" where
  "ord_types t u \<longleftrightarrow> (int_type t \<or> fp_type t) \<and> (int_type u \<or> fp_type u) \<and>
     \<not> (fp_type t \<and> wide_type u) \<and> \<not> (wide_type t \<and> fp_type u)"

definition op_types :: "Operator \<Rightarrow> DataType \<Rightarrow> DataType \<Rightarrow> bool" where
  "op_types op t u \<longleftrightarrow>
     (if op = And \<or> op = Or then t = T_Bool \<and> u = T_Bool
      else ord_types t u \<or>
        (op = Eq \<or> op = NotEq) \<and> (t = u) \<and> (t = T_Bool \<or> t = T_String))"

fun supported :: "Expr \<Rightarrow> bool" where
  "supported (E_Datapoint _ _) \<longleftrightarrow> True"
| "supported (E_Alias e _) \<longleftrightarrow> supported e"
| "supported (E_Cast _ _) \<longleftrightarrow> False"
| "supported (E_UnresolvedLiteral _) \<longleftrightarrow> False"
| "supported (E_ResolvedLiteral _ _) \<longleftrightarrow> True"
| "supported (E_BinaryOperation l op r) \<longleftrightarrow> supported l \<and> supported r \<and>
     (case (get_type l, get_type r) of (Ok t, Ok u) \<Rightarrow> op_types op t u | _ \<Rightarrow> False)"
| "supported (E_UnaryOperation e _) \<longleftrightarrow> supported e \<and> get_type e = Ok T_Bool"
| "supported (E_Between e _ l h) \<longleftrightarrow> supported e \<and> supported l \<and> supported h \<and>
     (case (get_type e, get_type l, get_type h) of
        (Ok t, Ok u, Ok w) \<Rightarrow> ord_types t u \<and> ord_types t w | _ \<Rightarrow> False)"

lemma conforms_num:
  "conforms t v \<Longrightarrow> int_type t \<or> fp_type t \<Longrightarrow> num_val v \<noteq> None"
  "conforms t v \<Longrightarrow> int_type t \<or> fp_type t \<Longrightarrow> is_fp v \<longleftrightarrow> fp_type t"
  "conforms t v \<Longrightarrow> int_type t \<or> fp_type t \<Longrightarrow> \<not> wide_type t \<Longrightarrow> fits_f64 v"
  by (cases t; cases v; simp add: conforms_def int_type_def fp_type_def wide_type_def)+

lemma ord_types_comparable:
  "ord_types t u \<Longrightarrow> conforms t v \<Longrightarrow> conforms u w \<Longrightarrow> comparable v w"
  using conforms_num [of t v] conforms_num [of u w] by (auto simp: ord_types_def comparable_def)

lemma comparable_defined:
  assumes "comparable v w"
  shows "\<exists>a. less_than v w = Ok a" "\<exists>b. greater_than v w = Ok b" "\<exists>c. equals v w = Ok c"
    "\<exists>d. cmp.ge v w = Ok d" "\<exists>e. cmp.le v w = Ok e"
proof -
  show lt: "\<exists>a. less_than v w = Ok a" using assms by (simp add: less_than_num_less num_less_def)
  then show "\<exists>b. greater_than v w = Ok b"
    using assms by (simp add: greater_than_num_less num_less_def comparable_sym [of w v])
  show "\<exists>c. equals v w = Ok c" using lt cmp.eq_defined by blast
  show "\<exists>d. cmp.ge v w = Ok d" "\<exists>e. cmp.le v w = Ok e"
    using lt cmp.ge_defined_iff [of v w] cmp.le_defined_iff [of v w] by (auto simp: is_ok_iff)
qed

lemma conforms_Bool [simp]: "conforms T_Bool v \<longleftrightarrow> (\<exists>b. v = Bool b)"
  by (cases v) (simp_all add: conforms_def)

lemma conforms_String [simp]: "conforms T_String v \<longleftrightarrow> (\<exists>s. v = String s)"
  by (cases v) (simp_all add: conforms_def)

lemma op_types_progress:
  assumes "op_types op t u" and "conforms t v" and "conforms u w"
  shows "\<exists>b. execute_binary_operation (Ok v) op (Ok w) = Ok (Bool b)"
proof (cases "ord_types t u \<and> op \<noteq> And \<and> op \<noteq> Or")
  case True
  then have "comparable v w" using ord_types_comparable assms by blast
  from comparable_defined [OF this] show ?thesis
    using True by (cases op) (auto simp: execute_comparison_eqs cast_error_def)
next
  case False
  with assms show ?thesis
    by (cases op)
      (auto simp: op_types_def execute_logic_eqs execute_comparison_eqs cast_error_def
        equals_num_equal num_equal_def split: if_splits)
qed

lemma ord_types_between:
  assumes "ord_types t u" "ord_types t u'" "conforms t x" "conforms u l" "conforms u' h"
  shows "\<exists>b. execute_between_operation (Ok x) n (Ok l) (Ok h) = Ok (Bool b)"
proof -
  have "comparable x l" "comparable x h" using assms ord_types_comparable by blast+
  then obtain a b where "cmp.ge x l = Ok a" "cmp.le x h = Ok b" using comparable_defined by blast
  then show ?thesis by (auto simp: execute_between_eq)
qed

text \<open>A supported well-typed expression on available inputs has a value of its type.\<close>

lemma supported_progress:
  assumes "typed input e" and "supported e"
    and "\<And>n t. n \<in> expr_names e \<Longrightarrow> input n = Ok t \<Longrightarrow> conforms t (lookup n)"
  shows "\<exists>t v. get_type e = Ok t \<and> execute_expr e lookup = Ok v \<and> conforms t v"
  using assms
proof (induction e)
  case (E_BinaryOperation l op r)
  then obtain t v u w where "get_type l = Ok t" "execute_expr l lookup = Ok v" "conforms t v"
      "get_type r = Ok u" "execute_expr r lookup = Ok w" "conforms u w"
    by fastforce
  then show ?case using op_types_progress [of op t u v w] E_BinaryOperation.prems(2) by auto
next
  case (E_Between x n l h)
  then obtain t v u w u' w' where "get_type x = Ok t" "execute_expr x lookup = Ok v" "conforms t v"
      "get_type l = Ok u" "execute_expr l lookup = Ok w" "conforms u w"
      "get_type h = Ok u'" "execute_expr h lookup = Ok w'" "conforms u' w'"
    by fastforce
  then show ?case using ord_types_between [of t u u' v w w' n] E_Between.prems(2) by auto
next
  case (E_UnaryOperation e op)
  then obtain b where "execute_expr e lookup = Ok (Bool b)" by fastforce
  then show ?case by (cases op) (simp add: execute_unary_operation_def)
qed auto

section \<open>Query responses\<close>

text \<open>
  What a subscriber can rely on in a response: one field per selected column, named as the
  query says, with a value that suits the type of the column.
\<close>

definition response_ok :: "CompiledQuery \<Rightarrow> (string \<times> DataValue) list \<Rightarrow> bool" where
  "response_ok q r \<longleftrightarrow>
     map fst r = map (case_prod field_name) (List.enumerate 0 (q_projection q)) \<and>
     list_all2 (\<lambda>e v. \<forall>t. get_type e = Ok t \<longrightarrow> value_ok t v) (q_projection q) (map snd r)"

lemma execute_projection_Ok:
  "execute_projection i es lookup = Ok r \<Longrightarrow>
   map fst r = map (case_prod field_name) (List.enumerate i es) \<and>
   list_all2 (\<lambda>e v. execute_expr e lookup = Ok v) es (map snd r)"
  by (induction es arbitrary: i r) (auto simp: result_bind_eq_Ok)

lemma execute_query_response_ok:
  assumes q: "query_ok input q" and i: "input_ok input lookup" and r: "execute_query q lookup = Ok (Some r)"
  shows "response_ok q r"
proof -
  have "execute_projection 0 (q_projection q) lookup = Ok r"
    using r by (auto simp: execute_query_def result_eqs split: if_splits)
  then have names: "map fst r = map (case_prod field_name) (List.enumerate 0 (q_projection q))"
    and "list_all2 (\<lambda>e v. execute_expr e lookup = Ok v) (q_projection q) (map snd r)"
    by (auto dest: execute_projection_Ok)
  moreover have "typed input e" if "e \<in> set (q_projection q)" for e
    using q that by (simp add: query_ok_def)
  ultimately have "list_all2 (\<lambda>e v. \<forall>t. get_type e = Ok t \<longrightarrow> value_ok t v) (q_projection q) (map snd r)"
    by (elim list.rel_mono_strong) (auto intro: typed_value [OF _ i])
  then show ?thesis using names by (simp add: response_ok_def)
qed

text \<open>A larger schema keeps compiled queries well-typed.\<close>

definition input_le :: "compilation_input \<Rightarrow> compilation_input \<Rightarrow> bool" where
  "input_le i j \<longleftrightarrow> (\<forall>n t. i n = Ok t \<longrightarrow> j n = Ok t)"

lemma typed_mono: "input_le i j \<Longrightarrow> typed i e \<Longrightarrow> typed j e"
  by (induction e) (auto simp: input_le_def)

lemma query_ok_mono: "input_le i j \<Longrightarrow> query_ok i q \<Longrightarrow> query_ok j q"
  by (auto simp: query_ok_def intro: typed_mono)

lemma execute_projection_Panic:
  "\<forall>e\<in>set es. typed input e \<Longrightarrow> execute_projection i es lookup \<noteq> Err Exec_Panic"
  by (induction es arbitrary: i) (auto simp: result_bind_eq_Err dest: typed_no_panic)

lemma execute_query_no_panic:
  assumes "query_ok input q"
  shows "execute_query q lookup \<noteq> Err Exec_Panic"
proof (cases "q_selection q")
  case None
  then show ?thesis using assms execute_projection_Panic [of "q_projection q" input 0 lookup]
    by (auto simp: execute_query_def query_ok_def)
next
  case (Some e)
  then have "typed input e" using assms by (simp add: query_ok_def)
  then show ?thesis
    using Some assms execute_projection_Panic [of "q_projection q" input 0 lookup] typed_no_panic
    by (auto simp: execute_query_def query_ok_def result_eqs split: result.splits DataValue.splits)
qed

section \<open>Number literals\<close>

lemma digits_val_append: "digits_val acc (xs @ [c]) = 10 * digits_val acc xs + digit_val c"
  by (induction xs arbitrary: acc) simp_all

lemma digit_char:
  "n < 10 \<Longrightarrow> is_digit (char_of (48 + n)) \<and> digit_val (char_of (48 + n)) = n"
  by (simp add: is_digit_def digit_val_def)

lemma show_nat_digits: "list_all is_digit (show_nat n) \<and> show_nat n \<noteq> [] \<and> digits_val 0 (show_nat n) = n"
proof (induction n rule: show_nat.induct)
  case (1 n)
  show ?case
  proof (cases "n < 10")
    case True
    then show ?thesis using digit_char [OF True] by (simp add: show_nat.simps [of n])
  next
    case False
    then show ?thesis using 1 digit_char [of "n mod 10"]
      by (simp add: show_nat.simps [of n] digits_val_append)
  qed
qed

lemma parse_unsigned_show_nat: "parse_unsigned (show_nat n) = Some (int n)"
proof -
  obtain c cs where s: "show_nat n = c # cs" using show_nat_digits [of n] by (cases "show_nat n") auto
  have "c \<noteq> CHR ''+''" using show_nat_digits [of n] by (auto simp: s is_digit_def)
  then show ?thesis using show_nat_digits [of n] by (simp add: parse_unsigned_def parse_digits_def s)
qed

section \<open>Properties\<close>

text \<open>
  C19.  A query that compiles has an input specification that lists, without repetition, exactly
  the names of the datapoints its condition and its columns read; every datapoint carries the
  type the schema declares and every literal conforms to its type; the condition has the type
  \<open>Bool\<close> unless it is a bare number; and the outcome of an execution depends on the values
  of the listed names only.
\<close>

theorem compiled_query_contract:
  assumes "compile parse_sql sql input = Ok q"
  shows "set (q_input_spec q) = query_names q \<and> distinct (q_input_spec q) \<and>
    (\<forall>e. q_selection q = Some e \<longrightarrow> typed input e \<and> (\<forall>t. get_type e = Ok t \<longrightarrow> t = T_Bool)) \<and>
    (\<forall>e\<in>set (q_projection q). typed input e) \<and>
    (\<forall>f g. (\<forall>n\<in>set (q_input_spec q). f n = g n) \<longrightarrow> execute_query q f = execute_query q g)"
  using compile_ok [OF assms] execute_query_cong [of q] unfolding query_ok_def by metis

definition example_parse :: "string \<Rightarrow> sql_statement list option" where
  "example_parse sql =
     Some [SelectStatement
       (Some (Sql_BinaryOp (Sql_CompoundIdentifier [''Vehicle'', ''Speed'']) Sql_Gt (Sql_Number ''50'')))
       [UnnamedExpr (Sql_CompoundIdentifier [''Vehicle'', ''Speed''])]]"

definition example_query :: CompiledQuery where
  "example_query =
     \<lparr>q_selection = Some (E_BinaryOperation (E_Datapoint ''Vehicle.Speed'' T_Int32) Gt
        (E_ResolvedLiteral (Int32 50) T_Int32)),
      q_projection = [E_Datapoint ''Vehicle.Speed'' T_Int32], q_input_spec = [''Vehicle.Speed'']\<rparr>"

lemma example_compiles:
  "compile example_parse [] (schema_input [(''Vehicle.Speed'', T_Int32)]) = Ok example_query"
  by (simp add: compile_def example_parse_def compile_selection_def new_query_def compile_datapoint_def
      schema_input_def spec_insert_def resolve_operands_def resolve_literal_def compile_operator_def
      parse_i32_def parse_signed_def parse_digits_def is_digit_def digit_val_def parse_in_def
      example_query_def)

theorem compiled_query_contract_witness:
  "set (q_input_spec example_query) = query_names example_query \<and>
   compile example_parse [] (schema_input [(''Vehicle.Speed'', T_Int32)]) = Ok example_query"
  using compiled_query_contract [OF example_compiles] example_compiles by blast

text \<open>
  C20.  Progress: a well-typed expression whose operators are applied to comparable types
  (numbers with numbers, no 64-bit integer against a floating-point number, booleans and
  strings with their own kind under equality, booleans under the connectives) and which
  contains no unresolved literal executes, on inputs that are all available and of their
  declared types, to a value of its type.
\<close>

theorem supported_queries_execute:
  assumes "typed input e" and "supported e"
    and "\<forall>n\<in>expr_names e. \<forall>t. input n = Ok t \<longrightarrow> conforms t (lookup n)"
  shows "\<exists>t v. get_type e = Ok t \<and> execute_expr e lookup = Ok v \<and> conforms t v"
  using supported_progress [of input e lookup] assms by blast

theorem supported_queries_execute_witness:
  "\<exists>t v. get_type (E_BinaryOperation (E_Datapoint ''Speed'' T_Uint8) Gt (E_ResolvedLiteral (Uint32 50) T_Uint8)) = Ok t \<and>
     execute_expr (E_BinaryOperation (E_Datapoint ''Speed'' T_Uint8) Gt (E_ResolvedLiteral (Uint32 50) T_Uint8))
       (\<lambda>_. Uint32 70) = Ok v \<and> conforms t v"
  using supported_queries_execute [of "schema_input [(''Speed'', T_Uint8)]"
    "E_BinaryOperation (E_Datapoint ''Speed'' T_Uint8) Gt (E_ResolvedLiteral (Uint32 50) T_Uint8)" "\<lambda>_. Uint32 70"]
  by (simp add: schema_input_def conforms_def op_types_def ord_types_def int_type_def fp_type_def wide_type_def)

text \<open>
  \<open>BETWEEN\<close> on values: wherever both comparisons are defined it is the conjunction of
  \<open>x >= low\<close> and \<open>x <= high\<close>, and where the first one is not, it is its error.
\<close>

theorem between_semantics:
  "execute_between_operation (Ok x) False (Ok low) (Ok high) =
     (case execute_binary_operation (Ok x) Ge (Ok low) of
        Ok (Bool True) \<Rightarrow> execute_binary_operation (Ok x) Le (Ok high)
      | r \<Rightarrow> r)"
  by (auto simp: execute_between_operation_def split: result.splits DataValue.splits bool.splits
      dest: execute_binary_operation_bool)

text \<open>
  The order operators fit together on all values, also across types: \<open>>=\<close> is the
  converse of \<open><=\<close>, \<open>>\<close> that of \<open><\<close>, the four are defined on the same pairs, and two values
  that are \<open><=\<close> each other are equal.
\<close>

theorem order_operators:
  "execute_binary_operation (Ok v) Ge (Ok w) = execute_binary_operation (Ok w) Le (Ok v) \<and>
   execute_binary_operation (Ok v) Gt (Ok w) = execute_binary_operation (Ok w) Lt (Ok v) \<and>
   is_ok (execute_binary_operation (Ok v) Le (Ok w)) = is_ok (execute_binary_operation (Ok v) Lt (Ok w)) \<and>
   is_ok (execute_binary_operation (Ok v) Ge (Ok w)) = is_ok (execute_binary_operation (Ok v) Lt (Ok w)) \<and>
   (execute_binary_operation (Ok v) Le (Ok w) = Ok (Bool True) \<longrightarrow>
    execute_binary_operation (Ok w) Le (Ok v) = Ok (Bool True) \<longrightarrow>
    execute_binary_operation (Ok v) Eq (Ok w) = Ok (Bool True))"
proof (intro conjI impI)
  have ok: "is_ok (cast_error r) = is_ok r" for r by (cases r) (simp_all add: cast_error_def)
  show "execute_binary_operation (Ok v) Ge (Ok w) = execute_binary_operation (Ok w) Le (Ok v)"
    by (simp only: execute_comparison_eqs cmp.ge_le_converse)
  show "execute_binary_operation (Ok v) Gt (Ok w) = execute_binary_operation (Ok w) Lt (Ok v)"
    by (simp only: execute_comparison_eqs cmp.gt_lt)
  show "is_ok (execute_binary_operation (Ok v) Le (Ok w)) = is_ok (execute_binary_operation (Ok v) Lt (Ok w))"
    by (simp only: execute_comparison_eqs ok cmp.le_defined_iff)
  show "is_ok (execute_binary_operation (Ok v) Ge (Ok w)) = is_ok (execute_binary_operation (Ok v) Lt (Ok w))"
    by (simp only: execute_comparison_eqs ok cmp.ge_defined_iff)
  assume "execute_binary_operation (Ok v) Le (Ok w) = Ok (Bool True)"
    and "execute_binary_operation (Ok w) Le (Ok v) = Ok (Bool True)"
  then show "execute_binary_operation (Ok v) Eq (Ok w) = Ok (Bool True)"
    using cmp.le_and_ge_imp_eq [of v w] by (simp add: execute_comparison_eqs cmp.ge_le_converse cast_error_Bool del: cast_error_Ok)
qed

theorem order_operators_witness:
  "execute_binary_operation (Ok (Int32 3)) Le (Ok (Int64 3)) = Ok (Bool True) \<and>
   execute_binary_operation (Ok (Int64 3)) Le (Ok (Int32 3)) = Ok (Bool True) \<and>
   execute_binary_operation (Ok (Int32 3)) Eq (Ok (Int64 3)) = Ok (Bool True)"
  using order_operators [of "Int32 3" "Int64 3"]
  by (simp add: execute_comparison_eqs cmp.le_def less_than_def equals_def i64_from_i32_def
      cast_error_def del: cast_error_Ok)

text \<open>
  A number literal compared with a datapoint is given the type of the datapoint: the
  compiled comparison holds a value that conforms to that type, bounds of the narrow integers
  included, and the literal of a comparison that compiles is never left unresolved.
\<close>

theorem literal_takes_datapoint_type:
  assumes "compile_expr input (Sql_BinaryOp (Sql_Identifier name) op (Sql_Number raw)) spec = Ok (e, spec')"
  shows "\<exists>t v op'. input name = Ok t \<and> conforms t v \<and>
    e = E_BinaryOperation (E_Datapoint name t) op' (E_ResolvedLiteral v t)"
proof -
  obtain t l r where "input name = Ok t"
    and res: "resolve_operands (E_Datapoint name t) (E_UnresolvedLiteral raw) = Ok (l, r)"
    and op: "compile_operator op l r = Ok e"
    using assms by (auto simp: compile_datapoint_def result_bind_eq_Ok)
  moreover have "l = E_Datapoint name t \<and> (\<exists>v. r = E_ResolvedLiteral v t \<and> conforms t v)"
    using res by (auto simp: resolve_operands_def dest!: resolve_literal_shape split: result.splits)
  ultimately show ?thesis using compile_operator_shape [OF op] by auto
qed

lemma example_literal:
  "compile_expr (schema_input [(''Speed'', T_Uint8)]) (Sql_BinaryOp (Sql_Identifier ''Speed'') Sql_Gt (Sql_Number ''50'')) [] =
     Ok (E_BinaryOperation (E_Datapoint ''Speed'' T_Uint8) Gt (E_ResolvedLiteral (Uint32 50) T_Uint8), [''Speed''])"
  by (simp add: compile_datapoint_def schema_input_def spec_insert_def resolve_operands_def
      resolve_literal_def compile_operator_def parse_u8_def parse_unsigned_def parse_digits_def
      is_digit_def digit_val_def parse_in_def)

theorem literal_takes_datapoint_type_witness:
  "\<exists>t v op'. schema_input [(''Speed'', T_Uint8)] ''Speed'' = Ok t \<and> conforms t v \<and>
     E_BinaryOperation (E_Datapoint ''Speed'' T_Uint8) Gt (E_ResolvedLiteral (Uint32 50) T_Uint8) =
     E_BinaryOperation (E_Datapoint ''Speed'' t) op' (E_ResolvedLiteral v t)"
  using literal_takes_datapoint_type [OF example_literal] .

text \<open>
  Executing a compiled query never panics, whatever the values of its inputs: the
  \<open>todo!()\<close> in the arm of a cast is unreachable because no cast is ever compiled.
\<close>

theorem compiled_queries_do_not_panic:
  assumes "compile parse_sql sql input = Ok q"
  shows "execute_query q lookup \<noteq> Err Exec_Panic"
  using execute_query_no_panic [OF compile_ok [OF assms]] .

theorem compiled_queries_do_not_panic_witness:
  "execute_query example_query (\<lambda>_. NotAvailable) \<noteq> Err Exec_Panic"
  using compiled_queries_do_not_panic [OF example_compiles] .

text \<open>
  Parsing the decimal digits of a number gives the number back when it fits the type and
  fails when it does not, for a wide and for a narrow type.
\<close>

theorem decimal_round_trip:
  "parse_u64 (show_nat k) = (if k < 2 ^ 64 then Some (of_nat k) else None) \<and>
   parse_u8 (show_nat k) = (if k < 2 ^ 8 then Some (of_nat k) else None)"
  by (auto simp: parse_u64_def parse_u8_def parse_unsigned_show_nat parse_in_def)

text \<open>
  \<open>NOT BETWEEN\<close> asks for both comparisons to fail instead of one of them: on 32-bit
  integers it is false for every value whenever the lower bound is at most the upper one.
\<close>

lemma not_between_is_never_true:
  assumes "sint low \<le> sint high"
  shows "execute_between_operation (Ok (Int32 x)) True (Ok (Int32 low)) (Ok (Int32 high)) = Ok (Bool False)"
proof -
  have ge: "cmp.ge (Int32 x) (Int32 low) = Ok (sint low \<le> sint x)"
    by (auto simp: cmp.ge_def greater_than_def equals_def sint_eq_iff [symmetric])
  have le: "cmp.le (Int32 x) (Int32 high) = Ok (sint x \<le> sint high)"
    by (auto simp: cmp.le_def less_than_def equals_def sint_eq_iff [symmetric])
  show ?thesis using assms by (auto simp: execute_between_eq [OF ge le])
qed

text \<open>
  A \<open>BETWEEN\<close> whose lower bound is a number literal compiles, but the literal stays
  unresolved, so that every execution is an error.
\<close>

lemma between_literal_never_executes:
  assumes "compile_expr input (Sql_Between x negated (Sql_Number raw) high) spec = Ok (e, spec')"
  shows "\<exists>err. execute_expr e lookup = Err err"
proof -
  obtain x' h' where e: "e = E_Between x' negated (E_UnresolvedLiteral raw) h'"
    using assms by (auto simp: result_bind_eq_Ok)
  show ?thesis
    by (cases "execute_expr x' lookup") (simp_all add: e execute_between_operation_def)
qed

lemma example_between:
  "compile_expr (schema_input [(''Speed'', T_Uint8)])
     (Sql_Between (Sql_Identifier ''Speed'') False (Sql_Number ''10'') (Sql_Number ''20'')) [] =
   Ok (E_Between (E_Datapoint ''Speed'' T_Uint8) False (E_UnresolvedLiteral ''10'') (E_UnresolvedLiteral ''20''), [''Speed''])"
  by (simp add: compile_datapoint_def schema_input_def spec_insert_def)

text \<open>
  C40.  Two ways in which \<open>BETWEEN\<close> falls short of SQL.  Negated, it asks for both comparisons to
  fail instead of one: on 32-bit integers \<open>NOT BETWEEN\<close> is false for every value whenever the lower
  bound is at most the upper one.  And a \<open>BETWEEN\<close> whose lower bound is a number literal
  compiles, but the literal stays unresolved, so that every execution is an error.
\<close>

theorem between_defects:
  assumes "sint low \<le> sint high"
    and "compile_expr input (Sql_Between x negated (Sql_Number raw) bound) spec = Ok (e, spec')"
  shows "execute_between_operation (Ok (Int32 v)) True (Ok (Int32 low)) (Ok (Int32 high)) = Ok (Bool False) \<and>
    (\<exists>err. execute_expr e lookup = Err err)"
  using not_between_is_never_true [OF assms(1)] between_literal_never_executes [OF assms(2)] by blast

theorem between_defects_witness:
  "execute_between_operation (Ok (Int32 5)) True (Ok (Int32 10)) (Ok (Int32 20)) = Ok (Bool False) \<and>
   (\<exists>err. execute_expr (E_Between (E_Datapoint ''Speed'' T_Uint8) False (E_UnresolvedLiteral ''10'')
      (E_UnresolvedLiteral ''20'')) (\<lambda>_. Uint32 15) = Err err)"
  using between_defects [OF _ example_between, of 10 20 5 "\<lambda>_. Uint32 15"] by simp

end
