(* ===== verification/Subscriptions.thy ===== *)
theory Subscriptions
  imports Database Executor
begin

text \<open>
  Subscriptions and their notification (\<open>databroker/src/broker.rs\<close>: \<open>Subscriptions\<close>,
  \<open>ChangeSubscription\<close>, \<open>QuerySubscription\<close>).  A \<open>tokio::sync::mpsc\<close> sender is the log of
  the messages it has accepted and the flag \<open>ch_closed\<close>, set when the receiver is gone;
  \<open>send\<close> on a closed channel is an error.  The capacity of the channel only delays a
  sender, so the log does not mention it.  A notification keeps the receiver of \<open>&self\<close>
  unchanged but for the log, hence each operation returns the subscription with its new log.
\<close>

section \<open>Channels\<close>

record 'm channel =
  ch_closed :: bool
  ch_sent :: "'m list"

definition new_channel :: "'m channel" where
  "new_channel = \<lparr>ch_closed = False, ch_sent = []\<rparr>"

datatype NotificationError = NotificationError

definition send :: "'m channel \<Rightarrow> 'm \<Rightarrow> (unit, NotificationError) result \<times> 'm channel" where
  "send ch m =
     (if ch_closed ch then (Err NotificationError, ch)
      else (Ok (), ch\<lparr>ch_sent := ch_sent ch @ [m]\<rparr>))"

section \<open>Data\<close>

record ChangeNotification =
  cn_update :: EntryUpdate
  cn_fields :: "Field set"

type_synonym EntryUpdates = "ChangeNotification list"

type_synonym QueryResponse = "(string \<times> DataValue) list"

text \<open>The changed fields by entry id, \<open>HashMap<i32, HashSet<Field>>\<close>.\<close>

type_synonym changes = "(i32 \<times> Field set) list"

record ChangeSubscription =
  cs_entries :: changes
  cs_sender :: "EntryUpdates channel"
  cs_permissions :: Permissions

record QuerySubscription =
  qs_query :: CompiledQuery
  qs_sender :: "QueryResponse channel"
  qs_permissions :: Permissions

record Subscriptions =
  query_subscriptions :: "QuerySubscription list"
  change_subscriptions :: "ChangeSubscription list"

definition new_subscriptions :: Subscriptions where
  "new_subscriptions = \<lparr>query_subscriptions = [], change_subscriptions = []\<rparr>"

definition is_disjoint :: "Field set \<Rightarrow> Field set \<Rightarrow> bool" where
  "is_disjoint A B \<longleftrightarrow> A \<inter> B = {}"

section \<open>Change subscriptions\<close>

text \<open>The scan for a change the subscription is about.\<close>

fun matches_change :: "changes \<Rightarrow> changes \<Rightarrow> bool" where
  "matches_change subscribed [] = False"
| "matches_change subscribed ((eid, changed_fields) # rest) =
     (case map_of subscribed eid of
        Some flds \<Rightarrow>
          if \<not> is_disjoint flds changed_fields then True else matches_change subscribed rest
      | None \<Rightarrow> matches_change subscribed rest)"

definition changed_notification :: "Entry \<Rightarrow> Field set \<Rightarrow> Field set \<Rightarrow> ChangeNotification" where
  "changed_notification entry flds changed_fields =
     (let upd = default_update\<lparr>upd_path := Some (md_path (e_metadata entry))\<rparr>;
          notify_fields = {};
          (upd, notify_fields) =
            (if F_Datapoint \<in> changed_fields \<and> F_Datapoint \<in> flds
             then (upd\<lparr>upd_datapoint := Some (e_datapoint entry)\<rparr>, insert F_Datapoint notify_fields)
             else (upd, notify_fields));
          (upd, notify_fields) =
            (if F_ActuatorTarget \<in> changed_fields \<and> F_ActuatorTarget \<in> flds
             then (upd\<lparr>upd_actuator_target := Some (e_actuator_target entry)\<rparr>,
                   insert F_ActuatorTarget notify_fields)
             else (upd, notify_fields))
      in \<lparr>cn_update = upd\<lparr>upd_unit := md_unit (e_metadata entry)\<rparr>, cn_fields = notify_fields\<rparr>)"

fun changed_notifications ::
  "regex_engine \<Rightarrow> SystemTime \<Rightarrow> Permissions \<Rightarrow> Database \<Rightarrow> changes \<Rightarrow> changes \<Rightarrow> EntryUpdates" where
  "changed_notifications re now permissions db subscribed [] = []"
| "changed_notifications re now permissions db subscribed ((eid, changed_fields) # rest) =
     (case map_of subscribed eid of
        Some flds \<Rightarrow>
          if \<not> is_disjoint flds changed_fields then
            (case get_entry_by_id re now permissions db eid of
               Ok entry \<Rightarrow>
                 changed_notification entry flds changed_fields #
                 changed_notifications re now permissions db subscribed rest
             | Err _ \<Rightarrow> changed_notifications re now permissions db subscribed rest)
          else changed_notifications re now permissions db subscribed rest
      | None \<Rightarrow> changed_notifications re now permissions db subscribed rest)"

definition initial_notification :: "Entry \<Rightarrow> Field set \<Rightarrow> ChangeNotification" where
  "initial_notification entry flds =
     (let upd = default_update\<lparr>upd_path := Some (md_path (e_metadata entry))\<rparr>;
          notify_fields = {};
          (upd, notify_fields) =
            (if F_Datapoint \<in> flds
             then (upd\<lparr>upd_datapoint := Some (e_datapoint entry)\<rparr>, insert F_Datapoint notify_fields)
             else (upd, notify_fields));
          (upd, notify_fields) =
            (if F_ActuatorTarget \<in> flds
             then (upd\<lparr>upd_actuator_target := Some (e_actuator_target entry)\<rparr>,
                   insert F_ActuatorTarget notify_fields)
             else (upd, notify_fields))
      in \<lparr>cn_update = upd, cn_fields = notify_fields\<rparr>)"

fun initial_notifications ::
  "regex_engine \<Rightarrow> SystemTime \<Rightarrow> Permissions \<Rightarrow> Database \<Rightarrow> changes \<Rightarrow> EntryUpdates" where
  "initial_notifications re now permissions db [] = []"
| "initial_notifications re now permissions db ((eid, flds) # rest) =
     (case get_entry_by_id re now permissions db eid of
        Ok entry \<Rightarrow>
          initial_notification entry flds # initial_notifications re now permissions db rest
      | Err _ \<Rightarrow> initial_notifications re now permissions db rest)"

definition change_notify ::
  "regex_engine \<Rightarrow> SystemTime \<Rightarrow> changes option \<Rightarrow> Database \<Rightarrow> ChangeSubscription \<Rightarrow>
   (unit, NotificationError) result \<times> ChangeSubscription" where
  "change_notify re now changed db sub =
     (case changed of
        Some changed \<Rightarrow>
          if matches_change (cs_entries sub) changed then
            (let notifications =
               changed_notifications re now (cs_permissions sub) db (cs_entries sub) changed
             in if notifications = [] then (Ok (), sub)
                else (case send (cs_sender sub) notifications of
                    (r, ch) \<Rightarrow> (r, sub\<lparr>cs_sender := ch\<rparr>)))
          else (Ok (), sub)
      | None \<Rightarrow>
          (let notifications = initial_notifications re now (cs_permissions sub) db (cs_entries sub)
           in case send (cs_sender sub) notifications of (r, ch) \<Rightarrow> (r, sub\<lparr>cs_sender := ch\<rparr>)))"

section \<open>Query subscriptions\<close>

definition get_datapoint_type :: "Database \<Rightarrow> compilation_input" where
  "get_datapoint_type db path =
     (case get_metadata_by_path db path of
        Some metadata \<Rightarrow> Ok (md_data_type metadata)
      | None \<Rightarrow> Err (UnknownField path))"

fun query_uses_id :: "Database \<Rightarrow> string list \<Rightarrow> changes \<Rightarrow> bool" where
  "query_uses_id db input_spec [] = False"
| "query_uses_id db input_spec ((eid, flds) # rest) =
     (case get_metadata_by_id db eid of
        Some metadata \<Rightarrow>
          if md_path metadata \<in> set input_spec \<and> F_Datapoint \<in> flds then True
          else query_uses_id db input_spec rest
      | None \<Rightarrow> query_uses_id db input_spec rest)"

fun collect_input ::
  "regex_engine \<Rightarrow> SystemTime \<Rightarrow> Permissions \<Rightarrow> Database \<Rightarrow> string list \<Rightarrow>
   (string \<times> DataValue) list \<Rightarrow> (string \<times> DataValue) list" where
  "collect_input re now permissions db [] input = input"
| "collect_input re now permissions db (name # names) input =
     collect_input re now permissions db names
       (case get_entry_by_path re now permissions db name of
          Ok entry \<Rightarrow> input_add input name (dp_value (e_datapoint entry))
        | Err _ \<Rightarrow> input_add input name NotAvailable)"

definition generate_input ::
  "regex_engine \<Rightarrow> SystemTime \<Rightarrow> changes option \<Rightarrow> Database \<Rightarrow> QuerySubscription \<Rightarrow>
   (string \<times> DataValue) list option" where
  "generate_input re now changed db sub =
     (let id_used_in_query =
        (case changed of
           Some changed \<Rightarrow> query_uses_id db (q_input_spec (qs_query sub)) changed
         | None \<Rightarrow> True)
      in if id_used_in_query
         then Some (collect_input re now (qs_permissions sub) db (q_input_spec (qs_query sub)) [])
         else None)"

definition query_notify ::
  "regex_engine \<Rightarrow> SystemTime \<Rightarrow> changes option \<Rightarrow> Database \<Rightarrow> QuerySubscription \<Rightarrow>
   (unit, NotificationError) result \<times> QuerySubscription" where
  "query_notify re now changed db sub =
     (case generate_input re now changed db sub of
        Some input \<Rightarrow>
          (case execute_query (qs_query sub) (input_lookup input) of
             Ok (Some flds) \<Rightarrow>
               (case send (qs_sender sub) flds of (r, ch) \<Rightarrow> (r, sub\<lparr>qs_sender := ch\<rparr>))
           | Ok None \<Rightarrow> (Ok (), sub)
           | Err _ \<Rightarrow> (Ok (), sub))
      | None \<Rightarrow> (Ok (), sub))"

section \<open>All subscriptions\<close>

definition add_query_subscription :: "Subscriptions \<Rightarrow> QuerySubscription \<Rightarrow> Subscriptions" where
  "add_query_subscription subs sub =
     subs\<lparr>query_subscriptions := query_subscriptions subs @ [sub]\<rparr>"

definition add_change_subscription :: "Subscriptions \<Rightarrow> ChangeSubscription \<Rightarrow> Subscriptions" where
  "add_change_subscription subs sub =
     subs\<lparr>change_subscriptions := change_subscriptions subs @ [sub]\<rparr>"

text \<open>One loop of \<open>notify\<close>: every subscription in turn, keeping the last error.\<close>

fun notify_each ::
  "('s \<Rightarrow> (unit, NotificationError) result \<times> 's) \<Rightarrow> NotificationError option \<Rightarrow> 's list \<Rightarrow>
   NotificationError option \<times> 's list" where
  "notify_each f err [] = (err, [])"
| "notify_each f err (sub # subs) =
     (case f sub of
        (r, sub') \<Rightarrow>
          (case notify_each f (case r of Ok _ \<Rightarrow> err | Err e \<Rightarrow> Some e) subs of
             (err', subs') \<Rightarrow> (err', sub' # subs')))"

definition notify ::
  "regex_engine \<Rightarrow> SystemTime \<Rightarrow> changes option \<Rightarrow> Database \<Rightarrow> Subscriptions \<Rightarrow>
   (unit, NotificationError) result \<times> Subscriptions" where
  "notify re now changed db subs =
     (case notify_each (query_notify re now changed db) None (query_subscriptions subs) of
        (err, qs) \<Rightarrow>
          (case notify_each (change_notify re now changed db) err (change_subscriptions subs) of
             (err, cs) \<Rightarrow>
               ((case err of Some e \<Rightarrow> Err e | None \<Rightarrow> Ok ()),
                \<lparr>query_subscriptions = qs, change_subscriptions = cs\<rparr>)))"

definition clear :: "Subscriptions \<Rightarrow> Subscriptions" where
  "clear subs = subs\<lparr>query_subscriptions := [], change_subscriptions := []\<rparr>"

definition cleanup :: "Subscriptions \<Rightarrow> Subscriptions" where
  "cleanup subs =
     \<lparr>query_subscriptions = filter (\<lambda>sub. \<not> ch_closed (qs_sender sub)) (query_subscriptions subs),
      change_subscriptions = filter (\<lambda>sub. \<not> ch_closed (cs_sender sub)) (change_subscriptions subs)\<rparr>"

section \<open>The content of a notification\<close>

lemma changed_notification_fields:
  "cn_fields (changed_notification e flds cf) = flds \<inter> cf \<inter> {F_Datapoint, F_ActuatorTarget}"
  "upd_path (cn_update (changed_notification e flds cf)) = Some (md_path (e_metadata e))"
  "upd_datapoint (cn_update (changed_notification e flds cf)) =
     (if F_Datapoint \<in> flds \<inter> cf then Some (e_datapoint e) else None)"
  "upd_actuator_target (cn_update (changed_notification e flds cf)) =
     (if F_ActuatorTarget \<in> flds \<inter> cf then Some (e_actuator_target e) else None)"
  "upd_unit (cn_update (changed_notification e flds cf)) = md_unit (e_metadata e)"
  by (auto simp: changed_notification_def default_update_def Let_def)

lemma initial_notification_fields:
  "cn_fields (initial_notification e flds) = flds \<inter> {F_Datapoint, F_ActuatorTarget}"
  "upd_path (cn_update (initial_notification e flds)) = Some (md_path (e_metadata e))"
  "upd_datapoint (cn_update (initial_notification e flds)) =
     (if F_Datapoint \<in> flds then Some (e_datapoint e) else None)"
  "upd_actuator_target (cn_update (initial_notification e flds)) =
     (if F_ActuatorTarget \<in> flds then Some (e_actuator_target e) else None)"
  "upd_unit (cn_update (initial_notification e flds)) = None"
  by (auto simp: initial_notification_def default_update_def Let_def)

text \<open>Both loops visit their entries one by one, so they are concatenations.\<close>

definition change_of ::
  "regex_engine \<Rightarrow> SystemTime \<Rightarrow> Permissions \<Rightarrow> Database \<Rightarrow> changes \<Rightarrow> i32 \<times> Field set \<Rightarrow> EntryUpdates" where
  "change_of re now ps db subscribed c =
     (case (map_of subscribed (fst c), get_entry_by_id re now ps db (fst c)) of
        (Some flds, Ok e) \<Rightarrow>
          if flds \<inter> snd c = {} then [] else [changed_notification e flds (snd c)]
      | _ \<Rightarrow> [])"

lemma changed_notifications_concat:
  "changed_notifications re now ps db subscribed changed =
     concat (map (change_of re now ps db subscribed) changed)"
proof (induction changed)
  case (Cons c changed)
  then show ?case
    by (cases c) (auto simp: change_of_def [of _ _ _ _ _ "(_, _)"] is_disjoint_def split: option.split result.split)
qed simp

lemma initial_notifications_concat:
  "initial_notifications re now ps db subscribed =
     concat (map (\<lambda>(eid, flds). case get_entry_by_id re now ps db eid of
       Ok e \<Rightarrow> [initial_notification e flds] | Err _ \<Rightarrow> []) subscribed)"
  by (induction subscribed) (auto split: result.split)

lemma in_change_of:
  "n \<in> set (change_of re now ps db subscribed (eid, cf)) \<longleftrightarrow>
     (\<exists>flds e. map_of subscribed eid = Some flds \<and> flds \<inter> cf \<noteq> {} \<and>
        get_entry_by_id re now ps db eid = Ok e \<and> n = changed_notification e flds cf)"
  by (cases "map_of subscribed eid"; cases "get_entry_by_id re now ps db eid") (auto simp: change_of_def)

lemma in_changed_notifications:
  "n \<in> set (changed_notifications re now ps db subscribed changed) \<longleftrightarrow>
     (\<exists>eid cf flds e. (eid, cf) \<in> set changed \<and> map_of subscribed eid = Some flds \<and>
        flds \<inter> cf \<noteq> {} \<and> get_entry_by_id re now ps db eid = Ok e \<and>
        n = changed_notification e flds cf)"
  by (simp add: changed_notifications_concat Bex_def split_paired_Ex in_change_of)

lemma in_initial_notifications:
  "n \<in> set (initial_notifications re now ps db subscribed) \<longleftrightarrow>
     (\<exists>eid flds e. (eid, flds) \<in> set subscribed \<and> get_entry_by_id re now ps db eid = Ok e \<and>
        n = initial_notification e flds)"
  by (force simp: initial_notifications_concat split: result.splits)

text \<open>The scan in front of the notification is only a short cut.\<close>

lemma matches_change_iff:
  "matches_change subscribed changed \<longleftrightarrow>
     (\<exists>(eid, cf)\<in>set changed. \<exists>flds. map_of subscribed eid = Some flds \<and> flds \<inter> cf \<noteq> {})"
  by (induction subscribed changed rule: matches_change.induct)
    (auto simp: is_disjoint_def split: option.splits)

lemma no_match_no_notifications:
  "\<not> matches_change subscribed changed \<Longrightarrow>
   changed_notifications re now ps db subscribed changed = []"
  by (induction subscribed changed rule: matches_change.induct)
    (auto split: option.splits if_splits)

lemma query_uses_id_iff:
  "query_uses_id db spec changed \<longleftrightarrow>
     (\<exists>(eid, cf)\<in>set changed. F_Datapoint \<in> cf \<and>
        (\<exists>md. get_metadata_by_id db eid = Some md \<and> md_path md \<in> set spec))"
  by (induction db spec changed rule: query_uses_id.induct) (auto split: option.splits)

text \<open>The value a subscriber may read, with \<open>NotAvailable\<close> for everything else.\<close>

definition readable_value ::
  "regex_engine \<Rightarrow> SystemTime \<Rightarrow> Permissions \<Rightarrow> Database \<Rightarrow> execution_input" where
  "readable_value re now permissions db name =
     (case get_entry_by_path re now permissions db name of
        Ok entry \<Rightarrow> dp_value (e_datapoint entry)
      | Err _ \<Rightarrow> NotAvailable)"

lemma input_lookup_add:
  "input_lookup (input_add inputs n v) m = (if m = n then v else input_lookup inputs m)"
  by (simp add: input_lookup_def input_add_def update_conv')

lemma collect_input_lookup:
  "input_lookup (collect_input re now ps db names inputs) n =
     (if n \<in> set names then readable_value re now ps db n else input_lookup inputs n)"
proof (induction names arbitrary: inputs)
  case (Cons m names)
  have "input_lookup (case get_entry_by_path re now ps db m of
        Ok entry \<Rightarrow> input_add inputs m (dp_value (e_datapoint entry))
      | Err _ \<Rightarrow> input_add inputs m NotAvailable) n =
    (if n = m then readable_value re now ps db m else input_lookup inputs n)"
    by (simp add: readable_value_def input_lookup_add split: result.split)
  then show ?case by (simp only: collect_input.simps Cons.IH) auto
qed simp

section \<open>What is sent\<close>

definition change_message ::
  "regex_engine \<Rightarrow> SystemTime \<Rightarrow> changes option \<Rightarrow> Database \<Rightarrow> ChangeSubscription \<Rightarrow>
   EntryUpdates option" where
  "change_message re now changed db sub =
     (case changed of
        Some changed \<Rightarrow>
          (case changed_notifications re now (cs_permissions sub) db (cs_entries sub) changed of
             [] \<Rightarrow> None
           | ns \<Rightarrow> Some ns)
      | None \<Rightarrow> Some (initial_notifications re now (cs_permissions sub) db (cs_entries sub)))"

definition query_due :: "changes option \<Rightarrow> Database \<Rightarrow> QuerySubscription \<Rightarrow> bool" where
  "query_due changed db sub =
     (case changed of
        Some changed \<Rightarrow> query_uses_id db (q_input_spec (qs_query sub)) changed
      | None \<Rightarrow> True)"

definition query_message ::
  "regex_engine \<Rightarrow> SystemTime \<Rightarrow> changes option \<Rightarrow> Database \<Rightarrow> QuerySubscription \<Rightarrow>
   QueryResponse option" where
  "query_message re now changed db sub =
     (if query_due changed db sub then
        (case execute_query (qs_query sub)
           (input_lookup (collect_input re now (qs_permissions sub) db (q_input_spec (qs_query sub)) [])) of
           Ok r \<Rightarrow> r
         | Err _ \<Rightarrow> None)
      else None)"

text \<open>
  The interface the broker uses of a subscription: a notification delivers the message that is
  due, if any, to the end of the log, and fails exactly when there is one and the channel is
  closed.
\<close>

locale subscriber =
  fixes nf :: "'s \<Rightarrow> (unit, NotificationError) result \<times> 's"
    and closed :: "'s \<Rightarrow> bool"
    and sent :: "'s \<Rightarrow> 'm list"
    and message :: "'s \<Rightarrow> 'm option"
    and push :: "'s \<Rightarrow> 'm \<Rightarrow> 's"
  assumes nf_eq: "nf s =
      (case message s of
         None \<Rightarrow> (Ok (), s)
       | Some m \<Rightarrow> if closed s then (Err NotificationError, s) else (Ok (), push s m))"
    and sent_push: "sent (push s m) = sent s @ [m]"
    and closed_push: "closed (push s m) = closed s"
begin

definition deliver :: "'s \<Rightarrow> 's" where
  "deliver s = snd (nf s)"

lemma deliver_sent:
  "sent (deliver s) =
     sent s @ (case message s of Some m \<Rightarrow> if closed s then [] else [m] | None \<Rightarrow> [])"
  by (simp add: deliver_def nf_eq sent_push split: option.split)

lemma deliver_closed [simp]: "closed (deliver s) = closed s"
  by (simp add: deliver_def nf_eq closed_push split: option.split)

lemma nf_fails: "fst (nf s) = Err NotificationError \<longleftrightarrow> message s \<noteq> None \<and> closed s"
  by (simp add: nf_eq split: option.split)

lemma notify_each_eq:
  "notify_each nf err ss =
     (if \<exists>s\<in>set ss. message s \<noteq> None \<and> closed s then Some NotificationError else err,
      map deliver ss)"
proof (induction ss arbitrary: err)
  case (Cons s ss)
  then show ?case
    by (cases "message s") (auto simp: deliver_def nf_eq [of s] split: prod.splits)
qed simp

end

interpretation change: subscriber
  "change_notify re now changed db" "\<lambda>sub. ch_closed (cs_sender sub)" "\<lambda>sub. ch_sent (cs_sender sub)"
  "change_message re now changed db"
  "\<lambda>sub m. sub\<lparr>cs_sender := (cs_sender sub)\<lparr>ch_sent := ch_sent (cs_sender sub) @ [m]\<rparr>\<rparr>"
  for re now changed db
  by unfold_locales
    (auto simp: change_notify_def change_message_def send_def no_match_no_notifications Let_def
      split: option.split list.split)

interpretation query: subscriber
  "query_notify re now changed db" "\<lambda>sub. ch_closed (qs_sender sub)" "\<lambda>sub. ch_sent (qs_sender sub)"
  "query_message re now changed db"
  "\<lambda>sub m. sub\<lparr>qs_sender := (qs_sender sub)\<lparr>ch_sent := ch_sent (qs_sender sub) @ [m]\<rparr>\<rparr>"
  for re now changed db
  by unfold_locales
    (auto simp: query_notify_def query_message_def query_due_def generate_input_def send_def Let_def
      split: option.split result.split)

text \<open>A whole notification, as the delivery to every subscription.\<close>

definition undeliverable ::
  "regex_engine \<Rightarrow> SystemTime \<Rightarrow> changes option \<Rightarrow> Database \<Rightarrow> Subscriptions \<Rightarrow> bool" where
  "undeliverable re now changed db subs \<longleftrightarrow>
     (\<exists>s\<in>set (query_subscriptions subs).
        query_message re now changed db s \<noteq> None \<and> ch_closed (qs_sender s)) \<or>
     (\<exists>s\<in>set (change_subscriptions subs).
        change_message re now changed db s \<noteq> None \<and> ch_closed (cs_sender s))"

lemma notify_eq:
  "notify re now changed db subs =
     (if undeliverable re now changed db subs then Err NotificationError else Ok (),
      \<lparr>query_subscriptions = map (query.deliver re now changed db) (query_subscriptions subs),
       change_subscriptions = map (change.deliver re now changed db) (change_subscriptions subs)\<rparr>)"
  by (simp add: notify_def query.notify_each_eq change.notify_each_eq undeliverable_def)

lemma query_deliver_frame [simp]:
  "qs_query (query.deliver re now changed db s) = qs_query s"
  "qs_permissions (query.deliver re now changed db s) = qs_permissions s"
  by (simp_all add: query.deliver_def query.nf_eq split: option.split)

lemma change_deliver_frame [simp]:
  "cs_entries (change.deliver re now changed db s) = cs_entries s"
  "cs_permissions (change.deliver re now changed db s) = cs_permissions s"
  by (simp_all add: change.deliver_def change.nf_eq split: option.split)

lemma cleanup_clear [simp]: "cleanup (clear subs) = clear subs"
  by (simp add: cleanup_def clear_def)

text \<open>A compiled query sees exactly the readable values.\<close>

lemma query_message_readable:
  assumes "query_ok input (qs_query sub)"
  shows "query_message re now changed db sub =
    (if query_due changed db sub then
       (case execute_query (qs_query sub) (readable_value re now (qs_permissions sub) db) of
          Ok r \<Rightarrow> r
        | Err _ \<Rightarrow> None)
     else None)"
proof -
  have "execute_query (qs_query sub)
      (input_lookup (collect_input re now (qs_permissions sub) db (q_input_spec (qs_query sub)) [])) =
    execute_query (qs_query sub) (readable_value re now (qs_permissions sub) db)"
    using assms by (intro execute_query_cong) (simp add: query_ok_def collect_input_lookup)
  then show ?thesis by (simp add: query_message_def)
qed

text \<open>The values of a well-formed database suit the types its schema declares.\<close>

lemma db_wf_input_ok: "db_wf db \<Longrightarrow> input_ok (get_datapoint_type db) (readable_value re now ps db)"
  unfolding input_ok_def readable_value_def get_datapoint_type_def get_metadata_by_path_def
    get_metadata_by_id_def get_entry_by_path_def get_entry_by_id_def
  by (auto simp: value_ok_def check_eqs entry_wf_def dest!: db_wf_entryD(2)
      split: option.splits result.splits PermissionError.splits)

text \<open>Whether a query is executed: a look at the paths of the changed entries, whatever the permissions.\<close>

lemma query_due_Some:
  "query_due (Some ch) db sub \<longleftrightarrow>
     (\<exists>eid flds e. (eid, flds) \<in> set ch \<and> F_Datapoint \<in> flds \<and> map_of (entries db) eid = Some e \<and>
        md_path (e_metadata e) \<in> set (q_input_spec (qs_query sub)))"
proof -
  have "(\<exists>md. get_metadata_by_id db eid = Some md \<and> md_path md \<in> N) \<longleftrightarrow>
      (\<exists>e. map_of (entries db) eid = Some e \<and> md_path (e_metadata e) \<in> N)" for eid N
    by (auto simp: get_metadata_by_id_def split: option.splits)
  then show ?thesis by (auto simp: query_due_def query_uses_id_iff)
qed

lemma query_due_cong:
  assumes "\<And>eid. map_option (\<lambda>e. md_path (e_metadata e)) (map_of (entries db) eid) =
    map_option (\<lambda>e. md_path (e_metadata e)) (map_of (entries db') eid)"
  shows "query_due changed db sub = query_due changed db' sub"
proof -
  have at: "(\<exists>e. map_of (entries db) eid = Some e \<and> P (md_path (e_metadata e))) \<longleftrightarrow>
      (\<exists>e. map_of (entries db') eid = Some e \<and> P (md_path (e_metadata e)))" for eid P
    using assms [of eid] by (cases "map_of (entries db) eid"; cases "map_of (entries db') eid") auto
  show ?thesis
  proof (cases changed)
    case (Some ch)
    then show ?thesis using at unfolding Some query_due_Some by meson
  qed (simp add: query_due_def)
qed

section \<open>Properties\<close>

text \<open>
  C15.  A change subscription learns only what its permissions let it read: a notification adds
  messages to the end of the channel, and each part of them is about an entry the subscription
  names, whose path the subscriber may read at that time, with the datapoint and the target
  stored at that time or none at all.
\<close>

theorem notifications_are_authorized:
  "\<exists>ms. ch_sent (cs_sender (snd (change_notify re now changed db sub))) = ch_sent (cs_sender sub) @ ms \<and>
     (\<forall>n\<in>set (concat ms). \<exists>eid flds e. (eid, flds) \<in> set (cs_entries sub) \<and>
        map_of (entries db) eid = Some e \<and>
        can_read re now (cs_permissions sub) (md_path (e_metadata e)) = Ok () \<and>
        upd_path (cn_update n) = Some (md_path (e_metadata e)) \<and>
        upd_datapoint (cn_update n) \<in> {None, Some (e_datapoint e)} \<and>
        upd_actuator_target (cn_update n) \<in> {None, Some (e_actuator_target e)})"
proof -
  have about: "\<exists>eid flds e. (eid, flds) \<in> set (cs_entries sub) \<and> map_of (entries db) eid = Some e \<and>
        can_read re now (cs_permissions sub) (md_path (e_metadata e)) = Ok () \<and>
        upd_path (cn_update n) = Some (md_path (e_metadata e)) \<and>
        upd_datapoint (cn_update n) \<in> {None, Some (e_datapoint e)} \<and>
        upd_actuator_target (cn_update n) \<in> {None, Some (e_actuator_target e)}"
    if msg: "change_message re now changed db sub = Some m" "n \<in> set m" for m n
  proof (cases changed)
    case None
    then obtain eid flds e where "(eid, flds) \<in> set (cs_entries sub)" "n = initial_notification e flds"
        "get_entry_by_id re now (cs_permissions sub) db eid = Ok e"
      using msg by (auto simp: change_message_def in_initial_notifications)
    then show ?thesis
      by (intro exI [of _ eid] exI [of _ flds] exI [of _ e])
        (simp add: get_entry_by_id_Ok initial_notification_fields)
  next
    case (Some ch)
    then have "n \<in> set (changed_notifications re now (cs_permissions sub) db (cs_entries sub) ch)"
      using msg by (auto simp: change_message_def split: list.splits)
    then obtain eid cf flds e where "map_of (cs_entries sub) eid = Some flds"
        "n = changed_notification e flds cf" "get_entry_by_id re now (cs_permissions sub) db eid = Ok e"
      by (auto simp: in_changed_notifications)
    then show ?thesis
      by (intro exI [of _ eid] exI [of _ flds] exI [of _ e])
        (simp add: get_entry_by_id_Ok changed_notification_fields map_of_SomeD)
  qed
  show ?thesis
  proof (cases "change_message re now changed db sub")
    case None
    then show ?thesis by (intro exI [of _ "[]"]) (simp add: change.nf_eq)
  next
    case (Some m)
    then show ?thesis using about [OF Some]
      by (intro exI [of _ "if ch_closed (cs_sender sub) then [] else [m]"]) (simp add: change.nf_eq)
  qed
qed

theorem notifications_are_authorized_witness:
  "\<exists>n. ch_sent (cs_sender (snd (change_notify any_regex 1 None example_db
        \<lparr>cs_entries = [(0, {F_Datapoint})], cs_sender = new_channel, cs_permissions = ALLOW_ALL\<rparr>))) = [[n]] \<and>
     can_read any_regex 1 ALLOW_ALL ''A'' = Ok () \<and> upd_path (cn_update n) = Some ''A'' \<and>
     upd_datapoint (cn_update n) \<in> {None, Some (e_datapoint example_entry)}"
proof -
  let ?sub = "\<lparr>cs_entries = [(0, {F_Datapoint})], cs_sender = new_channel, cs_permissions = ALLOW_ALL\<rparr>"
  have "ch_sent (cs_sender (snd (change_notify any_regex 1 None example_db ?sub))) =
      [[initial_notification example_entry {F_Datapoint}]]"
    by (simp add: change_notify_def send_def new_channel_def get_entry_by_id_def Let_def)
  then show ?thesis
    using notifications_are_authorized [of any_regex 1 None example_db ?sub]
    by (simp add: new_channel_def)
qed


definition example_select :: CompiledQuery where
  "example_select = \<lparr>q_selection = None, q_projection = [E_Datapoint ''A'' T_Int32], q_input_spec = [''A'']\<rparr>"

definition select_sub :: "Permissions \<Rightarrow> QuerySubscription" where
  "select_sub permissions = \<lparr>qs_query = example_select, qs_sender = new_channel, qs_permissions = permissions\<rparr>"

lemma example_select_ok: "query_ok (get_datapoint_type example_db) example_select"
  by (simp add: query_ok_def example_select_def query_names_def get_datapoint_type_def get_metadata_by_path_def
      get_metadata_by_id_def)


end
