(* ===== verification/Broker.thy ===== *)
theory Broker
  imports Subscriptions
begin

text \<open>
  The data broker (\<open>databroker/src/broker.rs\<close>: \<open>DataBroker\<close>, \<open>AuthorizedAccess\<close>).  The two
  \<open>RwLock\<close>s make the database and the subscriptions shared state: an operation that holds
  the database lock throughout is one atomic function on the broker, and \<open>subscribe\<close>, which
  lets go of it between the initial notification and the registration, is the composition of
  two.  The second half of the theory is the transition system of all these steps in any
  order, with its invariants.
\<close>

section \<open>State\<close>

datatype QueryError = QueryCompilationError | QueryInternalError

datatype SubscriptionError = SubNotFound | SubInvalidInput | SubInternalError

record DataBroker =
  database :: Database
  subscriptions :: Subscriptions
  version :: string
  shutdown_signals :: nat

definition new_broker :: "string \<Rightarrow> DataBroker" where
  "new_broker ver =
     \<lparr>database = new_database, subscriptions = new_subscriptions, version = ver, shutdown_signals = 0\<rparr>"

section \<open>Registration and reading\<close>

definition add_entry ::
  "regex_engine \<Rightarrow> SystemTime \<Rightarrow> Permissions \<Rightarrow> DataBroker \<Rightarrow> string \<Rightarrow> DataType \<Rightarrow> ChangeType \<Rightarrow>
   EntryType \<Rightarrow> string \<Rightarrow> DataValue option \<Rightarrow> string option \<Rightarrow>
   (i32, RegistrationError) result \<times> DataBroker" where
  "add_entry re now permissions broker name data_type change_type entry_type description allowed unit =
     (case add re now permissions (database broker) name data_type change_type entry_type
             description allowed None unit of
        (r, db) \<Rightarrow> (r, broker\<lparr>database := db\<rparr>))"

definition get_id_by_path :: "DataBroker \<Rightarrow> string \<Rightarrow> i32 option" where
  "get_id_by_path broker name = map_option md_id (get_metadata_by_path (database broker) name)"

definition get_datapoint ::
  "regex_engine \<Rightarrow> SystemTime \<Rightarrow> Permissions \<Rightarrow> DataBroker \<Rightarrow> i32 \<Rightarrow> (Datapoint, ReadError) result" where
  "get_datapoint re now permissions broker eid =
     result_map e_datapoint (get_entry_by_id re now permissions (database broker) eid)"

definition get_datapoint_by_path ::
  "regex_engine \<Rightarrow> SystemTime \<Rightarrow> Permissions \<Rightarrow> DataBroker \<Rightarrow> string \<Rightarrow> (Datapoint, ReadError) result" where
  "get_datapoint_by_path re now permissions broker name =
     result_map e_datapoint (get_entry_by_path re now permissions (database broker) name)"

definition get_metadata :: "DataBroker \<Rightarrow> i32 \<Rightarrow> Metadata option" where
  "get_metadata broker eid = get_metadata_by_id (database broker) eid"

definition map_entries ::
  "regex_engine \<Rightarrow> SystemTime \<Rightarrow> Permissions \<Rightarrow> DataBroker \<Rightarrow> (EntryReadAccess \<Rightarrow> 'a) \<Rightarrow> 'a list" where
  "map_entries re now permissions broker f =
     map f (iter_entries re now permissions (database broker))"

definition filter_map_entries ::
  "regex_engine \<Rightarrow> SystemTime \<Rightarrow> Permissions \<Rightarrow> DataBroker \<Rightarrow> (EntryReadAccess \<Rightarrow> 'a option) \<Rightarrow> 'a list" where
  "filter_map_entries re now permissions broker f =
     List.map_filter f (iter_entries re now permissions (database broker))"

section \<open>Updating\<close>

text \<open>The loop of \<open>update_entries\<close> over the batch.\<close>

fun apply_updates ::
  "regex_engine \<Rightarrow> SystemTime \<Rightarrow> Permissions \<Rightarrow> (i32 \<times> EntryUpdate) list \<Rightarrow> Database \<Rightarrow> changes \<Rightarrow>
   (i32 \<times> UpdateError) list \<Rightarrow> Database \<times> changes \<times> (i32 \<times> UpdateError) list" where
  "apply_updates re now permissions [] db changed errors = (db, changed, errors)"
| "apply_updates re now permissions ((eid, upd) # updates) db changed errors =
     (case update re now permissions db eid upd of
        (Ok changed_fields, db') \<Rightarrow>
          apply_updates re now permissions updates db'
            (if changed_fields \<noteq> {} then AList.update eid changed_fields changed else changed) errors
      | (Err err, db') \<Rightarrow>
          apply_updates re now permissions updates db' changed (errors @ [(eid, err)]))"

definition update_entries ::
  "regex_engine \<Rightarrow> SystemTime \<Rightarrow> Permissions \<Rightarrow> DataBroker \<Rightarrow> (i32 \<times> EntryUpdate) list \<Rightarrow>
   (unit, (i32 \<times> UpdateError) list) result \<times> DataBroker" where
  "update_entries re now permissions broker updates =
     (case apply_updates re now permissions updates (database broker) [] [] of
        (db, changed, errors) \<Rightarrow>
          (case notify re now (Some changed) db (subscriptions broker) of
             (r, subs) \<Rightarrow>
               (let cleanup_needed = (case r of Ok _ \<Rightarrow> False | Err _ \<Rightarrow> True);
                    subs = (if cleanup_needed then cleanup subs else subs)
                in (if errors \<noteq> [] then Err errors else Ok (),
                    broker\<lparr>database := db, subscriptions := subs\<rparr>))))"

section \<open>Subscribing\<close>

text \<open>Up to and including the initial notification, whose failure is only logged.\<close>

definition subscribe_open ::
  "regex_engine \<Rightarrow> SystemTime \<Rightarrow> Permissions \<Rightarrow> DataBroker \<Rightarrow> changes \<Rightarrow>
   (ChangeSubscription, SubscriptionError) result" where
  "subscribe_open re now permissions broker valid_entries =
     (if valid_entries = [] then Err SubInvalidInput
      else
        (let subscription =
           \<lparr>cs_entries = valid_entries, cs_sender = new_channel, cs_permissions = permissions\<rparr>
         in Ok (snd (change_notify re now None (database broker) subscription))))"

definition subscribe_register :: "DataBroker \<Rightarrow> ChangeSubscription \<Rightarrow> DataBroker" where
  "subscribe_register broker subscription =
     broker\<lparr>subscriptions := add_change_subscription (subscriptions broker) subscription\<rparr>"

definition subscribe ::
  "regex_engine \<Rightarrow> SystemTime \<Rightarrow> Permissions \<Rightarrow> DataBroker \<Rightarrow> changes \<Rightarrow>
   (ChangeSubscription, SubscriptionError) result \<times> DataBroker" where
  "subscribe re now permissions broker valid_entries =
     (case subscribe_open re now permissions broker valid_entries of
        Err e \<Rightarrow> (Err e, broker)
      | Ok subscription \<Rightarrow> (Ok subscription, subscribe_register broker subscription))"

definition subscribe_query ::
  "(string \<Rightarrow> sql_statement list option) \<Rightarrow> regex_engine \<Rightarrow> SystemTime \<Rightarrow> Permissions \<Rightarrow>
   DataBroker \<Rightarrow> string \<Rightarrow> (QuerySubscription, QueryError) result \<times> DataBroker" where
  "subscribe_query parse_sql re now permissions broker sql =
     (case compile parse_sql sql (get_datapoint_type (database broker)) of
        Ok compiled_query \<Rightarrow>
          (let subscription =
             \<lparr>qs_query = compiled_query, qs_sender = new_channel, qs_permissions = permissions\<rparr>
           in case query_notify re now None (database broker) subscription of
                (Ok _, subscription) \<Rightarrow>
                  (Ok subscription,
                   broker\<lparr>subscriptions := add_query_subscription (subscriptions broker) subscription\<rparr>)
              | (Err _, _) \<Rightarrow> (Err QueryInternalError, broker))
      | Err _ \<Rightarrow> (Err QueryCompilationError, broker))"

section \<open>Housekeeping and shutdown\<close>

definition housekeeping :: "DataBroker \<Rightarrow> DataBroker" where
  "housekeeping broker = broker\<lparr>subscriptions := cleanup (subscriptions broker)\<rparr>"

definition shutdown :: "DataBroker \<Rightarrow> DataBroker" where
  "shutdown broker =
     broker\<lparr>subscriptions := clear (subscriptions broker),
            shutdown_signals := Suc (shutdown_signals broker)\<rparr>"

section \<open>A batch of updates\<close>

lemma apply_updates_db:
  "fst (apply_updates re now ps us db changed errs) = store.run re now ps db us"
proof (induction us arbitrary: db changed errs)
  case (Cons u us)
  then show ?case by (cases u) (auto split: prod.splits result.splits)
qed simp

lemma update_entries_database:
  "database (snd (update_entries re now ps broker us)) = store.run re now ps (database broker) us"
  using apply_updates_db [of re now ps us "database broker" "[]" "[]"]
  by (auto simp: update_entries_def Let_def split: prod.splits)

text \<open>The errors of a batch: one for every update that fails when its turn comes.\<close>

fun update_errors ::
  "regex_engine \<Rightarrow> SystemTime \<Rightarrow> Permissions \<Rightarrow> Database \<Rightarrow> (i32 \<times> EntryUpdate) list \<Rightarrow>
   (i32 \<times> UpdateError) list" where
  "update_errors re now ps db [] = []"
| "update_errors re now ps db ((eid, upd) # us) =
     (case update re now ps db eid upd of
        (Ok _, db') \<Rightarrow> update_errors re now ps db' us
      | (Err e, _) \<Rightarrow> (eid, e) # update_errors re now ps db us)"

lemma apply_updates_errors:
  "snd (snd (apply_updates re now ps us db changed errs)) = errs @ update_errors re now ps db us"
proof (induction us arbitrary: db changed errs)
  case (Cons u us)
  then show ?case by (cases u) (auto split: prod.splits result.splits dest: update_Err)
qed simp

text \<open>What a batch reports as changed when no entry occurs twice in it.\<close>

definition fields_changed ::
  "regex_engine \<Rightarrow> SystemTime \<Rightarrow> Permissions \<Rightarrow> Database \<Rightarrow> (i32 \<times> EntryUpdate) list \<Rightarrow>
   i32 \<Rightarrow> Field set option" where
  "fields_changed re now ps db us eid =
     (case map_of us eid of
        Some u \<Rightarrow>
          (case fst (update re now ps db eid u) of
             Ok flds \<Rightarrow> if flds \<noteq> {} then Some flds else None
           | Err _ \<Rightarrow> None)
      | None \<Rightarrow> None)"

lemma fields_changed_Cons:
  assumes "k \<notin> fst ` set us" and "update re now ps db k u = (r, db')"
  shows "fields_changed re now ps db ((k, u) # us) =
    (fields_changed re now ps db' us)
      (k := (case r of Ok flds \<Rightarrow> if flds \<noteq> {} then Some flds else None | Err _ \<Rightarrow> None))"
proof
  fix eid
  show "fields_changed re now ps db ((k, u) # us) eid =
    ((fields_changed re now ps db' us)
      (k := (case r of Ok flds \<Rightarrow> if flds \<noteq> {} then Some flds else None | Err _ \<Rightarrow> None))) eid"
  proof (cases "eid = k")
    case True
    then show ?thesis using assms(2) by (simp add: fields_changed_def split: result.split)
  next
    case False
    then have "fst (update re now ps db' eid w) = fst (update re now ps db eid w)" for w
      using store.upd_other [OF False, of re now ps db u] assms(2) by (auto intro: update_local)
    then show ?thesis using False by (simp add: fields_changed_def split: option.split)
  qed
qed

lemma apply_updates_changed:
  "distinct (map fst us) \<Longrightarrow>
   map_of (fst (snd (apply_updates re now ps us db changed errs))) =
     map_of changed ++ fields_changed re now ps db us"
proof (induction us arbitrary: db changed errs)
  case Nil
  then show ?case by (simp add: fields_changed_def map_add_def)
next
  case (Cons ku us)
  obtain k u where ku: "ku = (k, u)" by (cases ku)
  obtain r db' where upd: "update re now ps db k u = (r, db')" by (cases "update re now ps db k u")
  have k: "k \<notin> fst ` set us" and d: "distinct (map fst us)" using Cons.prems ku by auto
  have "fields_changed re now ps db' us k = None"
    using k by (simp add: fields_changed_def map_of_eq_None_iff [THEN iffD2])
  then show ?case
    using ku upd Cons.IH [OF d] fields_changed_Cons [OF k upd]
    by (cases r) (auto simp: update_conv' map_add_def fun_eq_iff split: option.split)
qed

lemma apply_updates_changed_distinct:
  "distinct (map fst changed) \<Longrightarrow>
   distinct (map fst (fst (snd (apply_updates re now ps us db changed errs))))"
proof (induction us arbitrary: db changed errs)
  case (Cons u us)
  then show ?case by (cases u) (auto simp: distinct_update split: prod.splits result.splits)
qed simp

section \<open>Subscribers in step with the database\<close>

text \<open>
  One reported field of an entry: how it is read from the entry and from a notification.  The
  laws say that a notification carries the field exactly when it is asked for and has changed,
  and that an update which does not report the field leaves it alone.
\<close>

locale reported_field =
  fixes fld :: Field
    and proj :: "EntryUpdate \<Rightarrow> 'a option"
    and read_field :: "Entry \<Rightarrow> 'a"
  assumes proj_changed: "proj (cn_update (changed_notification e flds cf)) =
      (if fld \<in> flds \<inter> cf then Some (read_field e) else None)"
    and proj_initial: "proj (cn_update (initial_notification e flds)) =
      (if fld \<in> flds then Some (read_field e) else None)"
    and unchanged: "fld \<notin> changed_by e u \<Longrightarrow> read_field (updated_entry e u) = read_field e"
begin

text \<open>What a client that replays its messages knows about a path.\<close>

definition learn :: "string \<Rightarrow> 'a option \<Rightarrow> ChangeNotification \<Rightarrow> 'a option" where
  "learn path known n =
     (if upd_path (cn_update n) = Some path
      then (case proj (cn_update n) of Some x \<Rightarrow> Some x | None \<Rightarrow> known) else known)"

definition view :: "EntryUpdates list \<Rightarrow> string \<Rightarrow> 'a option" where
  "view msgs path = foldl (learn path) None (concat msgs)"

lemma foldl_learn:
  assumes "\<forall>n\<in>set ns. upd_path (cn_update n) = Some path \<longrightarrow> proj (cn_update n) \<in> {None, Some x}"
  shows "foldl (learn path) known ns =
    (if \<exists>n\<in>set ns. upd_path (cn_update n) = Some path \<and> proj (cn_update n) = Some x
     then Some x else known)"
  using assms by (induction ns arbitrary: known) (auto simp: learn_def)

definition in_step :: "Database \<Rightarrow> ChangeSubscription \<Rightarrow> i32 \<Rightarrow> bool" where
  "in_step db sub eid \<longleftrightarrow>
     (\<exists>e. map_of (entries db) eid = Some e \<and>
        view (ch_sent (cs_sender sub)) (md_path (e_metadata e)) = Some (read_field e))"

end

interpretation datapoint_field: reported_field F_Datapoint upd_datapoint e_datapoint
  by unfold_locales
    (auto simp: changed_notification_fields initial_notification_fields changed_by_def
      updated_entry_def apply_update_fields split: option.split)

interpretation target_field: reported_field F_ActuatorTarget upd_actuator_target e_actuator_target
  by unfold_locales
    (auto simp: changed_notification_fields initial_notification_fields changed_by_def
      updated_entry_def apply_update_fields split: option.split)

lemma db_wf_path_unique:
  "db_wf db \<Longrightarrow> map_of (entries db) i = Some e \<Longrightarrow> map_of (entries db) j = Some e' \<Longrightarrow>
   md_path (e_metadata e) = md_path (e_metadata e') \<Longrightarrow> i = j"
  using db_wf_entryD(4) [of db i e] db_wf_entryD(4) [of db j e'] by simp

context reported_field
begin

lemma view_deliver:
  assumes "\<not> ch_closed (cs_sender sub)"
  shows "view (ch_sent (cs_sender (change.deliver re now (Some changed) db sub))) path =
    foldl (learn path) (view (ch_sent (cs_sender sub)) path)
      (changed_notifications re now (cs_permissions sub) db (cs_entries sub) changed)"
  using assms
  by (cases "changed_notifications re now (cs_permissions sub) db (cs_entries sub) changed")
    (auto simp: change.deliver_sent change_message_def view_def)

lemma in_step_deliver:
  assumes wf: "db_wf db" and e: "map_of (entries db) eid = Some e"
    and readable: "can_read re now (cs_permissions sub) (md_path (e_metadata e)) = Ok ()"
    and sub: "map_of (cs_entries sub) eid = Some flds" "fld \<in> flds" "\<not> ch_closed (cs_sender sub)"
    and known: "\<not> (\<exists>cf. (eid, cf) \<in> set changed \<and> fld \<in> cf) \<Longrightarrow>
      view (ch_sent (cs_sender sub)) (md_path (e_metadata e)) = Some (read_field e)"
  shows "in_step db (change.deliver re now (Some changed) db sub) eid"
proof -
  let ?p = "md_path (e_metadata e)"
  let ?ns = "changed_notifications re now (cs_permissions sub) db (cs_entries sub) changed"
  have about: "\<exists>cf. (eid, cf) \<in> set changed \<and> n = changed_notification e flds cf"
    if n: "n \<in> set ?ns" "upd_path (cn_update n) = Some ?p" for n
  proof -
    obtain i cf flds' e' where i: "(i, cf) \<in> set changed" "map_of (cs_entries sub) i = Some flds'"
        "map_of (entries db) i = Some e'" "n = changed_notification e' flds' cf"
      using n(1) by (auto simp: in_changed_notifications get_entry_by_id_Ok)
    moreover have "i = eid"
      using n(2) i db_wf_path_unique [OF wf i(3) e] by (simp add: changed_notification_fields)
    ultimately show ?thesis using e sub by auto
  qed
  have "\<exists>n\<in>set ?ns. upd_path (cn_update n) = Some ?p \<and> proj (cn_update n) = Some (read_field e)"
    if c: "(eid, cf) \<in> set changed" "fld \<in> cf" for cf
  proof
    show "changed_notification e flds cf \<in> set ?ns"
      using c e readable sub by (auto simp: in_changed_notifications get_entry_by_id_Ok)
    show "upd_path (cn_update (changed_notification e flds cf)) = Some ?p \<and>
        proj (cn_update (changed_notification e flds cf)) = Some (read_field e)"
      using c sub by (simp add: changed_notification_fields proj_changed)
  qed
  moreover have "foldl (learn ?p) (view (ch_sent (cs_sender sub)) ?p) ?ns =
      (if \<exists>n\<in>set ?ns. upd_path (cn_update n) = Some ?p \<and> proj (cn_update n) = Some (read_field e)
       then Some (read_field e) else view (ch_sent (cs_sender sub)) ?p)"
    by (rule foldl_learn) (auto simp: proj_changed dest!: about)
  ultimately have "view (ch_sent (cs_sender (change.deliver re now (Some changed) db sub))) ?p =
      Some (read_field e)"
    using known unfolding view_deliver [OF sub(3)] by (metis (no_types, lifting))
  then show ?thesis using e by (auto simp: in_step_def)
qed

text \<open>A batch without repeated entries keeps an open subscriber in step.\<close>

lemma in_step_update:
  assumes wf: "db_wf db" and d: "distinct (map fst us)" and step: "in_step db sub eid"
    and upd: "apply_updates re now ps us db [] [] = (db', changed, errs)"
    and e: "map_of (entries db) eid = Some e"
    and readable: "can_read re now (cs_permissions sub) (md_path (e_metadata e)) = Ok ()"
    and sub: "map_of (cs_entries sub) eid = Some flds" "fld \<in> flds" "\<not> ch_closed (cs_sender sub)"
  shows "in_step db' (change.deliver re now (Some changed) db' sub) eid"
proof -
  have db': "db' = store.run re now ps db us" using apply_updates_db [of re now ps us db "[]" "[]"] upd by simp
  have ch: "map_of changed = fields_changed re now ps db us"
    using apply_updates_changed [OF d, of re now ps db "[]" "[]"] upd by simp
  have wf': "db_wf db'" using wf db' store.run_inv by simp
  define e' where "e' = (case map_of us eid of
      Some u \<Rightarrow> if is_ok (fst (update re now ps db eid u)) then updated_entry e u else e | None \<Rightarrow> e)"
  have e': "map_of (entries db') eid = Some e'"
    using store.run_distinct [OF d, of re now ps db eid] e
    by (simp add: db' e'_def store.upd_same split: option.split)
  have path: "md_path (e_metadata e') = md_path (e_metadata e)"
    by (simp add: e'_def split: option.split)
  have "read_field e' = read_field e" if "\<not> (\<exists>cf. (eid, cf) \<in> set changed \<and> fld \<in> cf)"
  proof (cases "map_of us eid")
    case (Some u)
    have "fld \<notin> changed_by e u" if ok: "fst (update re now ps db eid u) = Ok cf" for cf
    proof
      assume f: "fld \<in> changed_by e u"
      have "cf = changed_by e u" using ok e update_Ok [of re now ps db eid u cf] by (metis prod.collapse option.inject)
      then have "map_of changed eid = Some cf" using f Some ok by (auto simp: ch fields_changed_def)
      then show False using \<open>\<not> (\<exists>cf. (eid, cf) \<in> set changed \<and> fld \<in> cf)\<close> f \<open>cf = changed_by e u\<close>
        by (auto dest: map_of_SomeD)
    qed
    then show ?thesis using Some unchanged [of e u] by (auto simp: e'_def is_ok_iff)
  qed (simp add: e'_def)
  then show ?thesis
    using step e path by (intro in_step_deliver [OF wf' e' _ sub]) (auto simp: readable in_step_def)
qed

end

section \<open>The running system\<close>

text \<open>
  The broker under any interleaving of its operations.  A pending subscription has sent its
  initial notification and is not registered yet.  Events name the kind of a step, with the ids
  of a batch and of a subscription.  The receiver of a subscription can hang up at any time.
\<close>

record system =
  sys_broker :: DataBroker
  sys_pending :: "ChangeSubscription list"

datatype event =
    Ev_Add | Ev_Update "i32 list" | Ev_Open "i32 list" | Ev_Register | Ev_Subscribe "i32 list"
  | Ev_Query | Ev_Housekeeping | Ev_Shutdown | Ev_HangUp

definition close :: "'m channel \<Rightarrow> 'm channel" where
  "close ch = ch\<lparr>ch_closed := True\<rparr>"

definition hang_up_change :: "DataBroker \<Rightarrow> nat \<Rightarrow> DataBroker" where
  "hang_up_change broker i =
     (let subs = subscriptions broker; cs = change_subscriptions subs
      in broker\<lparr>subscriptions := subs\<lparr>change_subscriptions :=
           cs[i := (cs ! i)\<lparr>cs_sender := close (cs_sender (cs ! i))\<rparr>]\<rparr>\<rparr>)"

definition hang_up_query :: "DataBroker \<Rightarrow> nat \<Rightarrow> DataBroker" where
  "hang_up_query broker i =
     (let subs = subscriptions broker; qs = query_subscriptions subs
      in broker\<lparr>subscriptions := subs\<lparr>query_subscriptions :=
           qs[i := (qs ! i)\<lparr>qs_sender := close (qs_sender (qs ! i))\<rparr>]\<rparr>\<rparr>)"

text \<open>
  The argument of \<open>subscribe\<close> is a \<open>HashMap\<close>, so its keys are distinct, and its callers fill it
  with ids they have looked up in the database.
\<close>

definition valid_entries :: "DataBroker \<Rightarrow> changes \<Rightarrow> bool" where
  "valid_entries broker valid \<longleftrightarrow>
     distinct (map fst valid) \<and> (\<forall>eid\<in>fst ` set valid. map_of (entries (database broker)) eid \<noteq> None)"

inductive system_step ::
  "regex_engine \<Rightarrow> (string \<Rightarrow> sql_statement list option) \<Rightarrow> system \<Rightarrow> event \<Rightarrow> system \<Rightarrow> bool"
  for re parse_sql where
  step_add: "system_step re parse_sql s Ev_Add
     (s\<lparr>sys_broker := snd (add_entry re now ps (sys_broker s) name dt ct et descr allowed unit)\<rparr>)"
| step_update: "system_step re parse_sql s (Ev_Update (map fst us))
     (s\<lparr>sys_broker := snd (update_entries re now ps (sys_broker s) us)\<rparr>)"
| step_open: "subscribe_open re now ps (sys_broker s) valid = Ok sub \<Longrightarrow>
     valid_entries (sys_broker s) valid \<Longrightarrow>
     system_step re parse_sql s (Ev_Open (map fst valid)) (s\<lparr>sys_pending := sys_pending s @ [sub]\<rparr>)"
| step_register: "sub \<in> set (sys_pending s) \<Longrightarrow>
     system_step re parse_sql s Ev_Register
       (s\<lparr>sys_broker := subscribe_register (sys_broker s) sub,
          sys_pending := remove1 sub (sys_pending s)\<rparr>)"
| step_subscribe: "valid_entries (sys_broker s) valid \<Longrightarrow>
     system_step re parse_sql s (Ev_Subscribe (map fst valid))
     (s\<lparr>sys_broker := snd (subscribe re now ps (sys_broker s) valid)\<rparr>)"
| step_query: "system_step re parse_sql s Ev_Query
     (s\<lparr>sys_broker := snd (subscribe_query parse_sql re now ps (sys_broker s) sql)\<rparr>)"
| step_housekeeping: "system_step re parse_sql s Ev_Housekeeping
     (s\<lparr>sys_broker := housekeeping (sys_broker s)\<rparr>)"
| step_shutdown: "system_step re parse_sql s Ev_Shutdown (s\<lparr>sys_broker := shutdown (sys_broker s)\<rparr>)"
| step_hang_up_change: "i < length (change_subscriptions (subscriptions (sys_broker s))) \<Longrightarrow>
     system_step re parse_sql s Ev_HangUp (s\<lparr>sys_broker := hang_up_change (sys_broker s) i\<rparr>)"
| step_hang_up_query: "i < length (query_subscriptions (subscriptions (sys_broker s))) \<Longrightarrow>
     system_step re parse_sql s Ev_HangUp (s\<lparr>sys_broker := hang_up_query (sys_broker s) i\<rparr>)"

inductive_cases system_stepE: "system_step re parse_sql s ev s'"

definition initial_system :: "string \<Rightarrow> system" where
  "initial_system ver = \<lparr>sys_broker = new_broker ver, sys_pending = []\<rparr>"

inductive execution ::
  "regex_engine \<Rightarrow> (string \<Rightarrow> sql_statement list option) \<Rightarrow> event list \<Rightarrow> system \<Rightarrow> bool"
  for re parse_sql where
  execution_start: "execution re parse_sql [] (initial_system ver)"
| execution_step: "execution re parse_sql evs s \<Longrightarrow> system_step re parse_sql s ev s' \<Longrightarrow>
     execution re parse_sql (evs @ [ev]) s'"

inductive_simps execution_snoc: "execution re parse_sql (evs @ [ev]) s"

section \<open>The invariant of the broker\<close>

definition query_sub_ok :: "Database \<Rightarrow> QuerySubscription \<Rightarrow> bool" where
  "query_sub_ok db sub \<longleftrightarrow>
     query_ok (get_datapoint_type db) (qs_query sub) \<and>
     (\<forall>r\<in>set (ch_sent (qs_sender sub)). response_ok (qs_query sub) r)"

definition broker_inv :: "DataBroker \<Rightarrow> bool" where
  "broker_inv broker \<longleftrightarrow>
     db_wf (database broker) \<and>
     (\<forall>sub\<in>set (query_subscriptions (subscriptions broker)). query_sub_ok (database broker) sub)"

lemma get_datapoint_type_abs:
  "get_datapoint_type db path =
     (case abs_db db path of
        Some e \<Rightarrow> Ok (md_data_type (e_metadata e)) | None \<Rightarrow> Err (UnknownField path))"
  by (auto simp: get_datapoint_type_def get_metadata_by_path_def get_metadata_by_id_def abs_db_def
      split: option.split bind_split)

lemma update_types:
  "get_datapoint_type (snd (update re now ps db eid u)) = get_datapoint_type db"
  by (rule ext, cases "map_of (entries db) eid")
    (auto simp: update_eq get_datapoint_type_abs abs_db_def split: option.split result.split bind_split)

lemma run_types: "get_datapoint_type (store.run re now ps db us) = get_datapoint_type db"
  by (induction us arbitrary: db) (auto simp: update_types)

lemma add_types:
  assumes "db_wf db"
  shows "input_le (get_datapoint_type db)
    (get_datapoint_type (snd (add re now ps db name dt ct et descr allowed datapoint unit)))"
  using assms
  by (auto simp: input_le_def add_eq Let_def get_datapoint_type_abs abs_db_insert_entry abs_db_dom
      split: option.splits)

lemma query_sub_ok_mono:
  "input_le (get_datapoint_type db) (get_datapoint_type db') \<Longrightarrow> query_sub_ok db sub \<Longrightarrow> query_sub_ok db' sub"
  by (auto simp: query_sub_ok_def intro: query_ok_mono)

lemma query_sub_ok_deliver:
  assumes wf: "db_wf db" and ok: "query_sub_ok db sub"
  shows "query_sub_ok db (query.deliver re now changed db sub)"
proof -
  have q: "query_ok (get_datapoint_type db) (qs_query sub)" using ok by (simp add: query_sub_ok_def)
  have "response_ok (qs_query sub) r" if "query_message re now changed db sub = Some r" for r
    using that execute_query_response_ok [OF q db_wf_input_ok [OF wf]]
    by (auto simp: query_message_readable [OF q] split: if_splits result.splits)
  then show ?thesis using ok
    by (auto simp: query_sub_ok_def query.deliver_sent split: option.splits if_splits)
qed

text \<open>The subscriptions after a batch: notified, and without the closed ones when one failed.\<close>

definition delivered ::
  "regex_engine \<Rightarrow> SystemTime \<Rightarrow> changes option \<Rightarrow> Database \<Rightarrow> Subscriptions \<Rightarrow> Subscriptions" where
  "delivered re now changed db subs =
     \<lparr>query_subscriptions = map (query.deliver re now changed db) (query_subscriptions subs),
      change_subscriptions = map (change.deliver re now changed db) (change_subscriptions subs)\<rparr>"

lemma update_entries_eq:
  assumes "apply_updates re now ps us (database broker) [] [] = (db, changed, errs)"
  shows "update_entries re now ps broker us =
    (if errs = [] then Ok () else Err errs,
     broker\<lparr>database := db,
       subscriptions :=
         (if undeliverable re now (Some changed) db (subscriptions broker)
          then cleanup (delivered re now (Some changed) db (subscriptions broker))
          else delivered re now (Some changed) db (subscriptions broker))\<rparr>)"
  using assms by (simp add: update_entries_def notify_eq delivered_def Let_def)

lemma update_entries_subs:
  assumes "apply_updates re now ps us (database broker) [] [] = (db, changed, errs)"
  shows "database (snd (update_entries re now ps broker us)) = db"
    and "set (query_subscriptions (subscriptions (snd (update_entries re now ps broker us))))
      \<subseteq> query.deliver re now (Some changed) db ` set (query_subscriptions (subscriptions broker))"
    and "set (change_subscriptions (subscriptions (snd (update_entries re now ps broker us))))
      \<subseteq> change.deliver re now (Some changed) db ` set (change_subscriptions (subscriptions broker))"
  by (auto simp: update_entries_eq [OF assms] delivered_def cleanup_def)

lemma add_entry_database:
  "database (snd (add_entry re now ps broker name dt ct et descr allowed unit)) =
     snd (add re now ps (database broker) name dt ct et descr allowed None unit)"
  "subscriptions (snd (add_entry re now ps broker name dt ct et descr allowed unit)) = subscriptions broker"
  by (simp_all add: add_entry_def split: prod.split)

lemma broker_inv_add:
  assumes "broker_inv broker" and "unat (next_id (database broker)) + 1 < 2 ^ 32"
  shows "broker_inv (snd (add_entry re now ps broker name dt ct et descr allowed unit))"
proof -
  have wf: "db_wf (database broker)" using assms by (simp add: broker_inv_def)
  show ?thesis
    using assms add_wf [OF wf assms(2), of None] query_sub_ok_mono [OF add_types [OF wf]]
    by (simp add: broker_inv_def add_entry_database)
qed

lemma broker_inv_update:
  assumes "broker_inv broker"
  shows "broker_inv (snd (update_entries re now ps broker us))"
proof -
  obtain db changed errs where u: "apply_updates re now ps us (database broker) [] [] = (db, changed, errs)"
    by (rule prod_cases3)
  have db: "db = store.run re now ps (database broker) us"
    using apply_updates_db [of re now ps us "database broker" "[]" "[]"] u by simp
  have wf: "db_wf db" using assms db store.run_inv by (simp add: broker_inv_def)
  have "query_sub_ok db sub" if "sub \<in> set (query_subscriptions (subscriptions broker))" for sub
    using assms that db by (simp add: broker_inv_def query_sub_ok_def run_types)
  then show ?thesis
    using wf update_entries_subs [OF u] query_sub_ok_deliver [OF wf]
    by (auto simp: broker_inv_def)
qed

lemma broker_inv_query:
  assumes "broker_inv broker"
  shows "broker_inv (snd (subscribe_query parse_sql re now ps broker sql))"
proof (cases "compile parse_sql sql (get_datapoint_type (database broker))")
  case (Ok q)
  let ?sub = "\<lparr>qs_query = q, qs_sender = new_channel, qs_permissions = ps\<rparr>"
  have "query_sub_ok (database broker) ?sub"
    using compile_ok [OF Ok] by (simp add: query_sub_ok_def new_channel_def)
  then have "query_sub_ok (database broker) (query.deliver re now None (database broker) ?sub)"
    using assms query_sub_ok_deliver by (simp add: broker_inv_def)
  then show ?thesis using assms Ok
    by (auto simp: subscribe_query_def query.deliver_def broker_inv_def add_query_subscription_def
        split: prod.splits result.splits)
qed (use assms in \<open>simp add: subscribe_query_def\<close>)

lemma query_sub_ok_close [simp]:
  "query_sub_ok db (sub\<lparr>qs_sender := close (qs_sender sub)\<rparr>) = query_sub_ok db sub"
  by (simp add: query_sub_ok_def close_def)

lemma broker_inv_other:
  assumes "broker_inv broker"
  shows "broker_inv (subscribe_register broker sub)"
    "broker_inv (snd (subscribe re now ps broker valid))"
    "broker_inv (housekeeping broker)" "broker_inv (shutdown broker)"
    "broker_inv (hang_up_change broker i)"
    "i < length (query_subscriptions (subscriptions broker)) \<Longrightarrow> broker_inv (hang_up_query broker i)"
  using assms
  by (auto simp: broker_inv_def subscribe_register_def subscribe_def add_change_subscription_def
      housekeeping_def cleanup_def shutdown_def clear_def hang_up_change_def hang_up_query_def Let_def
      dest!: set_update_subset_insert [THEN subsetD] split: result.split)

lemmas broker_inv_intros = broker_inv_add broker_inv_update broker_inv_query broker_inv_other

lemma add_next_id:
  "unat (next_id db) + 1 < 2 ^ 32 \<Longrightarrow>
   unat (next_id (snd (add re now ps db name dt ct et descr allowed datapoint unit))) \<le>
     unat (next_id db) + 1"
  by (auto simp: add_eq Let_def insert_entry_maps unat_next_id split: option.split)

lemma run_next_id: "next_id (store.run re now ps db us) = next_id db"
proof (induction us arbitrary: db)
  case (Cons u us)
  have "next_id (snd (update re now ps db k w)) = next_id db" for k w
    by (simp add: update_eq split: option.split result.split)
  then show ?case using Cons by (cases u) simp
qed simp

text \<open>Only a registration uses up an id.\<close>

definition registrations :: "event list \<Rightarrow> nat" where
  "registrations evs = length (filter (\<lambda>ev. ev = Ev_Add) evs)"

lemma registrations_simps [simp]:
  "registrations [] = 0" "registrations (ev # evs) = (if ev = Ev_Add then 1 else 0) + registrations evs"
  "registrations (evs @ evs') = registrations evs + registrations evs'"
  by (simp_all add: registrations_def)

lemma step_next_id:
  assumes "system_step re parse_sql s ev s'"
    and "ev = Ev_Add \<Longrightarrow> unat (next_id (database (sys_broker s))) + 1 < 2 ^ 32"
  shows "unat (next_id (database (sys_broker s'))) \<le>
    unat (next_id (database (sys_broker s))) + (if ev = Ev_Add then 1 else 0)"
  using assms
  by (cases rule: system_step.cases)
    (auto simp: add_entry_database add_next_id [simplified] update_entries_database run_next_id
      subscribe_register_def subscribe_def subscribe_query_def housekeeping_def shutdown_def
      hang_up_change_def hang_up_query_def Let_def split: result.split prod.split)

lemma step_inv:
  assumes "system_step re parse_sql s ev s'" and "broker_inv (sys_broker s)"
    and "ev = Ev_Add \<Longrightarrow> unat (next_id (database (sys_broker s))) + 1 < 2 ^ 32"
  shows "broker_inv (sys_broker s')"
  using assms by (cases rule: system_step.cases) (auto intro: broker_inv_intros)

lemma execution_inv:
  "execution re parse_sql evs s \<Longrightarrow> registrations evs < 2 ^ 32 \<Longrightarrow>
   broker_inv (sys_broker s) \<and> unat (next_id (database (sys_broker s))) \<le> registrations evs"
proof (induction rule: execution.induct)
  case (execution_start ver)
  then show ?case
    by (simp add: initial_system_def new_broker_def broker_inv_def new_database_wf
        new_subscriptions_def) (simp add: new_database_def)
next
  case (execution_step evs s ev s')
  then have inv: "broker_inv (sys_broker s)" "unat (next_id (database (sys_broker s))) \<le> registrations evs"
    by auto
  then have room: "ev = Ev_Add \<Longrightarrow> unat (next_id (database (sys_broker s))) + 1 < 2 ^ 32"
    using execution_step.prems by simp
  show ?case
    using step_inv [OF execution_step.hyps(2) inv(1) room] step_next_id [OF execution_step.hyps(2) room] inv(2)
    by (simp split: if_splits)
qed

section \<open>Subscribers in step in every execution\<close>

text \<open>
  A subscriber that can read an entry at any time: its permissions do not expire and cover the
  path.
\<close>

definition reads_always :: "regex_engine \<Rightarrow> Permissions \<Rightarrow> string \<Rightarrow> bool" where
  "reads_always re ps path \<longleftrightarrow> expires_at ps = None \<and> can_read re 0 ps path = Ok ()"

lemma reads_always_can_read: "reads_always re ps path \<Longrightarrow> can_read re now ps path = Ok ()"
  by (auto simp: reads_always_def can_read_eq has_expired_def split: if_splits)

lemma update_entries_open_sub:
  assumes "sub' \<in> set (change_subscriptions (subscriptions (snd (update_entries re now ps broker us))))"
    and "apply_updates re now ps us (database broker) [] [] = (db, changed, errs)"
  obtains sub where "sub \<in> set (change_subscriptions (subscriptions broker))"
    and "sub' = change.deliver re now (Some changed) db sub"
  using assms update_entries_subs(3) by blast

context reported_field
begin

definition sub_in_step :: "regex_engine \<Rightarrow> Database \<Rightarrow> ChangeSubscription \<Rightarrow> bool" where
  "sub_in_step re db sub \<longleftrightarrow>
     (\<forall>eid flds. map_of (cs_entries sub) eid = Some flds \<longrightarrow>
        (\<exists>e. map_of (entries db) eid = Some e \<and>
           (\<not> ch_closed (cs_sender sub) \<and> fld \<in> flds \<and>
            reads_always re (cs_permissions sub) (md_path (e_metadata e)) \<longrightarrow> in_step db sub eid)))"

definition all_in_step :: "regex_engine \<Rightarrow> DataBroker \<Rightarrow> bool" where
  "all_in_step re broker \<longleftrightarrow>
     (\<forall>sub\<in>set (change_subscriptions (subscriptions broker)). sub_in_step re (database broker) sub)"

lemma sub_in_step_deliver:
  assumes wf: "db_wf db" and d: "distinct (map fst us)" and sub: "sub_in_step re db sub"
    and upd: "apply_updates re now ps us db [] [] = (db', changed, errs)"
  shows "sub_in_step re db' (change.deliver re now (Some changed) db' sub)"
  unfolding sub_in_step_def
proof (intro allI impI)
  fix eid flds assume "map_of (cs_entries (change.deliver re now (Some changed) db' sub)) eid = Some flds"
  then have f: "map_of (cs_entries sub) eid = Some flds" by simp
  then obtain e where e: "map_of (entries db) eid = Some e"
    and step: "\<not> ch_closed (cs_sender sub) \<Longrightarrow> fld \<in> flds \<Longrightarrow>
      reads_always re (cs_permissions sub) (md_path (e_metadata e)) \<Longrightarrow> in_step db sub eid"
    using sub by (auto simp: sub_in_step_def)
  have db': "db' = store.run re now ps db us"
    using apply_updates_db [of re now ps us db "[]" "[]"] upd by simp
  obtain e' where e': "map_of (entries db') eid = Some e'" "md_path (e_metadata e') = md_path (e_metadata e)"
    using store.run_distinct [OF d, of re now ps db eid] e
    by (auto simp: db' store.upd_same split: option.splits if_splits)
  have "in_step db' (change.deliver re now (Some changed) db' sub) eid"
    if "\<not> ch_closed (cs_sender sub)" "fld \<in> flds" "reads_always re (cs_permissions sub) (md_path (e_metadata e))"
    using in_step_update [OF wf d step upd e _ f] that reads_always_can_read by blast
  then show "\<exists>e. map_of (entries db') eid = Some e \<and>
      (\<not> ch_closed (cs_sender (change.deliver re now (Some changed) db' sub)) \<and> fld \<in> flds \<and>
       reads_always re (cs_permissions (change.deliver re now (Some changed) db' sub)) (md_path (e_metadata e)) \<longrightarrow>
       in_step db' (change.deliver re now (Some changed) db' sub) eid)"
    using e' by auto
qed

lemma all_in_step_update:
  assumes wf: "db_wf (database broker)" and d: "distinct (map fst us)" and all: "all_in_step re broker"
  shows "all_in_step re (snd (update_entries re now ps broker us))"
proof -
  obtain db changed errs where u: "apply_updates re now ps us (database broker) [] [] = (db, changed, errs)"
    by (rule prod_cases3)
  have "sub_in_step re db sub'"
    if "sub' \<in> set (change_subscriptions (subscriptions (snd (update_entries re now ps broker us))))" for sub'
    using that u all
    by (elim update_entries_open_sub) (auto simp: all_in_step_def intro: sub_in_step_deliver [OF wf d _ u])
  then show ?thesis by (simp add: all_in_step_def update_entries_subs(1) [OF u])
qed

lemma sub_in_step_mono:
  assumes "\<And>eid e. map_of (entries db) eid = Some e \<Longrightarrow> map_of (entries db') eid = Some e"
    and "sub_in_step re db sub"
  shows "sub_in_step re db' sub"
  using assms unfolding sub_in_step_def in_step_def by metis

lemma all_in_step_add:
  assumes wf: "db_wf (database broker)" and all: "all_in_step re broker"
  shows "all_in_step re (snd (add_entry re now ps broker name dt ct et descr allowed unit))"
proof -
  let ?db = "snd (add re now ps (database broker) name dt ct et descr allowed None unit)"
  have "map_of (entries ?db) eid = Some e" if "map_of (entries (database broker)) eid = Some e" for eid e
    using that fresh_id [OF wf] by (auto simp: add_eq Let_def insert_entry_maps split: option.split)
  then show ?thesis using all sub_in_step_mono [of "database broker" ?db]
    by (simp add: all_in_step_def add_entry_database)
qed

lemma view_initial:
  assumes wf: "db_wf db" and e: "map_of (entries db) eid = Some e"
    and readable: "can_read re now ps (md_path (e_metadata e)) = Ok ()"
    and valid: "distinct (map fst valid)" "map_of valid eid = Some flds" "fld \<in> flds"
  shows "view [initial_notifications re now ps db valid] (md_path (e_metadata e)) = Some (read_field e)"
proof -
  let ?p = "md_path (e_metadata e)" and ?ns = "initial_notifications re now ps db valid"
  have about: "n = initial_notification e flds"
    if n: "n \<in> set ?ns" "upd_path (cn_update n) = Some ?p" for n
  proof -
    obtain i flds' e' where i: "(i, flds') \<in> set valid" "map_of (entries db) i = Some e'"
        "n = initial_notification e' flds'"
      using n(1) by (auto simp: in_initial_notifications get_entry_by_id_Ok)
    moreover have "i = eid"
      using n(2) i db_wf_path_unique [OF wf i(2) e] by (simp add: initial_notification_fields)
    ultimately show ?thesis using e valid by (auto simp: map_of_is_SomeI)
  qed
  have hit: "initial_notification e flds \<in> set ?ns"
    using e readable valid by (auto simp: in_initial_notifications get_entry_by_id_Ok dest: map_of_SomeD)
  have "foldl (learn ?p) None ?ns =
      (if \<exists>n\<in>set ?ns. upd_path (cn_update n) = Some ?p \<and> proj (cn_update n) = Some (read_field e)
       then Some (read_field e) else None)"
    by (rule foldl_learn) (auto simp: proj_initial dest!: about)
  moreover have "\<exists>n\<in>set ?ns. upd_path (cn_update n) = Some ?p \<and> proj (cn_update n) = Some (read_field e)"
    using hit valid by (intro bexI [OF _ hit]) (simp add: initial_notification_fields proj_initial)
  ultimately show ?thesis by (simp add: view_def)
qed

lemma subscribe_open_in_step:
  assumes wf: "db_wf (database broker)" and valid: "valid_entries broker valid"
    and sub: "subscribe_open re now ps broker valid = Ok sub"
  shows "sub_in_step re (database broker) sub"
proof -
  let ?db = "database broker"
  have s: "cs_entries sub = valid" "cs_permissions sub = ps"
      "ch_sent (cs_sender sub) = [initial_notifications re now ps ?db valid]"
    using sub by (auto simp: subscribe_open_def Let_def change_notify_def send_def new_channel_def split: if_splits)
  have "\<exists>e. map_of (entries ?db) eid = Some e" if "map_of valid eid = Some flds" for eid flds
    using valid that by (force simp: valid_entries_def dest: map_of_SomeD)
  then show ?thesis
    using view_initial [OF wf _ reads_always_can_read] valid
    by (fastforce simp: sub_in_step_def in_step_def s valid_entries_def)
qed

lemma all_in_step_subscribe:
  assumes "db_wf (database broker)" and "valid_entries broker valid" and "all_in_step re broker"
  shows "all_in_step re (snd (subscribe re now ps broker valid))"
  using assms subscribe_open_in_step [of broker valid re now ps]
  by (auto simp: subscribe_def all_in_step_def subscribe_register_def add_change_subscription_def
      split: result.split)

lemma all_in_step_other:
  assumes "all_in_step re broker"
  shows "all_in_step re (snd (subscribe_query parse_sql re now ps broker sql))"
    "all_in_step re (housekeeping broker)" "all_in_step re (shutdown broker)"
    "all_in_step re (hang_up_query broker i)"
    "i < length (change_subscriptions (subscriptions broker)) \<Longrightarrow> all_in_step re (hang_up_change broker i)"
proof -
  have "sub_in_step re db (sub\<lparr>cs_sender := close (cs_sender sub)\<rparr>)" if "sub_in_step re db sub" for db sub
    using that by (auto simp: sub_in_step_def close_def)
  then show "i < length (change_subscriptions (subscriptions broker)) \<Longrightarrow> all_in_step re (hang_up_change broker i)"
    using assms by (auto simp: all_in_step_def hang_up_change_def Let_def
        dest!: set_update_subset_insert [THEN subsetD])
qed (use assms in \<open>auto simp: all_in_step_def subscribe_query_def add_query_subscription_def Let_def
      housekeeping_def cleanup_def shutdown_def clear_def hang_up_query_def split: result.split prod.split\<close>)

end

text \<open>
  The executions in which every subscriber stays in step: no batch names an entry twice, and no
  update slips between the two halves of a subscription.
\<close>

fun tame :: "event \<Rightarrow> bool" where
  "tame (Ev_Update ids) \<longleftrightarrow> distinct ids"
| "tame (Ev_Open _) \<longleftrightarrow> False"
| "tame Ev_Register \<longleftrightarrow> False"
| "tame _ \<longleftrightarrow> True"

context reported_field
begin

lemmas all_in_step_intros = all_in_step_add all_in_step_update all_in_step_subscribe all_in_step_other

lemma step_in_step:
  assumes "system_step re parse_sql s ev s'" and "tame ev"
    and "db_wf (database (sys_broker s))" and "all_in_step re (sys_broker s)"
  shows "all_in_step re (sys_broker s')"
  using assms by (cases rule: system_step.cases) (auto intro: all_in_step_intros)

lemma execution_in_step:
  "execution re parse_sql evs s \<Longrightarrow> registrations evs < 2 ^ 32 \<Longrightarrow> list_all tame evs \<Longrightarrow>
   all_in_step re (sys_broker s)"
proof (induction rule: execution.induct)
  case (execution_start ver)
  then show ?case by (simp add: initial_system_def new_broker_def new_subscriptions_def all_in_step_def)
next
  case (execution_step evs s ev s')
  then have "db_wf (database (sys_broker s))"
    using execution_inv [OF execution_step.hyps(1)] by (simp add: broker_inv_def)
  then show ?case using execution_step step_in_step [OF execution_step.hyps(2)] by simp
qed

end

section \<open>Single updates\<close>

text \<open>The last datapoint a client has been told about for a path.\<close>

definition last_datapoint :: "EntryUpdates list \<Rightarrow> string \<Rightarrow> Datapoint option" where
  "last_datapoint msgs path =
     foldl (\<lambda>known n.
         if upd_path (cn_update n) = Some path
         then (case upd_datapoint (cn_update n) of Some d \<Rightarrow> Some d | None \<Rightarrow> known) else known)
       None (concat msgs)"

lemma last_datapoint_view: "last_datapoint msgs path = datapoint_field.view msgs path"
  by (simp add: last_datapoint_def datapoint_field.view_def datapoint_field.learn_def [abs_def])

lemma run_foldl: "store.run re now ps db us = foldl (\<lambda>db (k, u). snd (update re now ps db k u)) db us"
  by (induction us arbitrary: db) auto

lemma apply_update_default: "apply_update e default_update = (e, {})"
  by (simp add: apply_update_def default_update_def)

lemma repeated_value:
  assumes "md_change_type (e_metadata e) \<noteq> Continuous"
    and "dv_eq (dp_value d) (dp_value (e_datapoint e))"
  shows "updated_entry e (default_update\<lparr>upd_datapoint := Some d\<rparr>) = e"
    and "changed_by e (default_update\<lparr>upd_datapoint := Some d\<rparr>) = {}"
proof -
  have "diff e (default_update\<lparr>upd_datapoint := Some d\<rparr>) = default_update"
    using assms by (simp add: diff_def default_update_def)
  then show "updated_entry e (default_update\<lparr>upd_datapoint := Some d\<rparr>) = e"
    and "changed_by e (default_update\<lparr>upd_datapoint := Some d\<rparr>) = {}"
    by (simp_all add: updated_entry_def changed_by_def apply_update_default)
qed

lemma notify_nothing:
  "delivered re now (Some []) db subs = subs" "\<not> undeliverable re now (Some []) db subs"
proof -
  have "change_message re now (Some []) db s = None" for s by (simp add: change_message_def)
  moreover have "query_message re now (Some []) db s = None" for s
    by (simp add: query_message_def query_due_def)
  ultimately have "change.deliver re now (Some []) db s = s" "query.deliver re now (Some []) db q = q" for s q
    by (simp_all add: change.deliver_def query.deliver_def change.nf_eq query.nf_eq)
  then show "delivered re now (Some []) db subs = subs"
    by (simp add: delivered_def map_idI)
qed (auto simp: undeliverable_def change_message_def query_message_def query_due_def)

section \<open>Properties\<close>

text \<open>
  C14.  A batch: the updates are applied one after the other, the errors returned are exactly
  those of the updates that fail in their turn, in the order of the batch, and when no entry
  occurs twice every entry ends as if its own update had been the only one.  So a batch with errors is
  applied in part, although the comment on \<open>UpdateDatapoints\<close> in \<open>collector.proto\<close> promises all or nothing.
\<close>

theorem batch_outcome:
  "fst (update_entries re now ps broker us) =
     (if update_errors re now ps (database broker) us = [] then Ok ()
      else Err (update_errors re now ps (database broker) us)) \<and>
   database (snd (update_entries re now ps broker us)) =
     foldl (\<lambda>db (k, u). snd (update re now ps db k u)) (database broker) us \<and>
   (distinct (map fst us) \<longrightarrow>
     map_of (entries (database (snd (update_entries re now ps broker us)))) eid =
       (case map_of us eid of
          Some u \<Rightarrow> map_of (entries (snd (update re now ps (database broker) eid u))) eid
        | None \<Rightarrow> map_of (entries (database broker)) eid))"
proof -
  obtain db changed errs where u: "apply_updates re now ps us (database broker) [] [] = (db, changed, errs)"
    by (rule prod_cases3)
  have "errs = update_errors re now ps (database broker) us"
    using apply_updates_errors [of re now ps us "database broker" "[]" "[]"] u by simp
  moreover have "db = store.run re now ps (database broker) us"
    using apply_updates_db [of re now ps us "database broker" "[]" "[]"] u by simp
  ultimately show ?thesis
    using store.run_distinct [of us re now ps "database broker" eid]
    by (simp add: update_entries_eq [OF u] run_foldl)
qed

definition example_broker :: DataBroker where
  "example_broker = (new_broker [])\<lparr>database := example_db\<rparr>"

lemma example_broker_simps [simp]:
  "database example_broker = example_db" "subscriptions example_broker = new_subscriptions"
  by (simp_all add: example_broker_def new_broker_def)

theorem batch_outcome_witness:
  "distinct (map fst [(0 :: i32, set_value 7)]) \<and>
   map_of (entries (database (snd (update_entries any_regex 2 ALLOW_ALL example_broker [(0, set_value 7)])))) 0 =
     Some (updated_entry example_entry (set_value 7))"
  using batch_outcome [of any_regex 2 ALLOW_ALL example_broker "[(0, set_value 7)]" 0]
  by (simp add: example_update)

text \<open>
  Read after write: once the update of a value has been accepted, a client that may read
  the path gets exactly the datapoint written, unless the entry is not continuous and the value
  equals the stored one.
\<close>

theorem read_after_write:
  assumes "db_wf (database broker)" and "map_of (entries (database broker)) eid = Some e"
    and "fst (update_entries re now ps broker [(eid, default_update\<lparr>upd_datapoint := Some d\<rparr>)]) = Ok ()"
    and "can_read re now' ps' (md_path (e_metadata e)) = Ok ()"
    and "md_change_type (e_metadata e) = Continuous \<or> \<not> dv_eq (dp_value d) (dp_value (e_datapoint e))"
  shows "get_datapoint_by_path re now' ps'
    (snd (update_entries re now ps broker [(eid, default_update\<lparr>upd_datapoint := Some d\<rparr>)]))
    (md_path (e_metadata e)) = Ok d"
proof -
  let ?u = "default_update\<lparr>upd_datapoint := Some d\<rparr>" and ?db = "database broker"
  obtain db changed errs where u: "apply_updates re now ps [(eid, ?u)] ?db [] [] = (db, changed, errs)"
    by (rule prod_cases3)
  obtain flds where upd: "update re now ps ?db eid ?u = (Ok flds, db)"
    using u assms(3) by (auto simp: update_entries_eq [OF u] split: prod.splits result.splits if_splits)
  then have db: "db = set_entry ?db eid (updated_entry e ?u)" using assms(2) by (simp add: update_Ok)
  have wf: "db_wf db" using update_wf [OF assms(1), of re now ps eid ?u] upd by simp
  have "abs_db db (md_path (e_metadata e)) = Some (updated_entry e ?u)"
    using abs_db_by_id [OF wf, of eid "updated_entry e ?u"] db by simp
  moreover have "e_datapoint (updated_entry e ?u) = d"
    using assms(5) by (auto simp: updated_entry_def apply_update_fields diff_fields)
  ultimately show ?thesis using assms(4)
    by (simp add: get_datapoint_by_path_def update_entries_subs(1) [OF u] get_entry_by_path_abs [OF wf]
        can_read_eq split: if_splits)
qed

theorem read_after_write_witness:
  "get_datapoint_by_path any_regex 3 ALLOW_ALL
     (snd (update_entries any_regex 2 ALLOW_ALL example_broker
        [(0, default_update\<lparr>upd_datapoint := Some \<lparr>dp_ts = 2, dp_value = Int32 7\<rparr>\<rparr>)])) ''A'' =
   Ok \<lparr>dp_ts = 2, dp_value = Int32 7\<rparr>"
proof -
  have "fst (update_entries any_regex 2 ALLOW_ALL example_broker
      [(0, default_update\<lparr>upd_datapoint := Some \<lparr>dp_ts = 2, dp_value = Int32 7\<rparr>\<rparr>)]) = Ok ()"
    using example_update [of 2 7]
    by (simp add: update_entries_def notify_eq Let_def set_value_def)
  then show ?thesis
    using read_after_write [of example_broker 0 example_entry any_regex 2 ALLOW_ALL
        "\<lparr>dp_ts = 2, dp_value = Int32 7\<rparr>" 3 ALLOW_ALL]
    by simp
qed

text \<open>
  Writing a value an entry already has, when the entry is not continuous, changes nothing
  at all: the broker, with its database, its time stamps and the channels of all subscribers,
  is the same afterwards, whether or not the writer had the permission.
\<close>

theorem repeated_value_is_silent:
  assumes "map_of (entries (database broker)) eid = Some e"
    and "md_change_type (e_metadata e) \<noteq> Continuous"
    and "dv_eq (dp_value d) (dp_value (e_datapoint e))"
  shows "snd (update_entries re now ps broker [(eid, default_update\<lparr>upd_datapoint := Some d\<rparr>)]) = broker"
proof -
  let ?u = "default_update\<lparr>upd_datapoint := Some d\<rparr>" and ?db = "database broker"
  have "set_entry ?db eid e = ?db"
    using assms(1) by (simp add: set_entry_def update_triv)
  then have "update re now ps ?db eid ?u = (Ok {}, ?db) \<or> (\<exists>err. update re now ps ?db eid ?u = (Err err, ?db))"
    using assms(1) repeated_value [OF assms(2,3)]
    by (auto simp: update_eq split: result.split)
  then obtain errs where u: "apply_updates re now ps [(eid, ?u)] ?db [] [] = (?db, [], errs)" by fastforce
  show ?thesis by (simp add: update_entries_eq [OF u] notify_nothing)
qed

theorem repeated_value_is_silent_witness:
  "snd (update_entries any_regex 5 ALLOW_NONE example_broker
     [(0, default_update\<lparr>upd_datapoint := Some \<lparr>dp_ts = 5, dp_value = NotAvailable\<rparr>\<rparr>)]) = example_broker"
  using repeated_value_is_silent [of example_broker 0 example_entry "\<lparr>dp_ts = 5, dp_value = NotAvailable\<rparr>"]
  by simp

text \<open>
  A batch keeps every subscription whose receiver is still there, with the message due to
  it delivered; and when a message could not be delivered, every subscription whose receiver
  is gone has been removed.
\<close>

theorem failed_delivery_cleans_up:
  assumes "apply_updates re now ps us (database broker) [] [] = (db, changed, errs)"
    and "subs' = change_subscriptions (subscriptions (snd (update_entries re now ps broker us)))"
    and "subs = change_subscriptions (subscriptions broker)"
  shows "filter (\<lambda>s. \<not> ch_closed (cs_sender s)) subs' =
      map (\<lambda>s. snd (change_notify re now (Some changed) db s)) (filter (\<lambda>s. \<not> ch_closed (cs_sender s)) subs) \<and>
    ((\<exists>s\<in>set subs. fst (change_notify re now (Some changed) db s) = Err NotificationError) \<longrightarrow>
      (\<forall>s\<in>set subs'. \<not> ch_closed (cs_sender s)))"
proof -
  have "undeliverable re now (Some changed) db (subscriptions broker)"
    if "s \<in> set subs" "fst (change_notify re now (Some changed) db s) = Err NotificationError" for s
    using that change.nf_fails [of re now "Some changed" db s] by (auto simp: undeliverable_def assms(3))
  then show ?thesis
    by (auto simp: assms(2,3) update_entries_eq [OF assms(1)] delivered_def cleanup_def filter_map o_def
        change.deliver_def [symmetric])
qed

theorem failed_delivery_cleans_up_witness:
  "filter (\<lambda>s. \<not> ch_closed (cs_sender s))
     (change_subscriptions (subscriptions (snd (update_entries any_regex 2 ALLOW_ALL example_broker [])))) = []"
  using failed_delivery_cleans_up [of any_regex 2 ALLOW_ALL "[]" example_broker example_db "[]" "[]"]
  by (simp add: new_subscriptions_def)

text \<open>A subscriber to the datapoint of the example entry, right after its initial notification.\<close>

definition example_sub :: ChangeSubscription where
  "example_sub =
     \<lparr>cs_entries = [(0, {F_Datapoint})],
      cs_sender = \<lparr>ch_closed = False, ch_sent = [[initial_notification example_entry {F_Datapoint}]]\<rparr>,
      cs_permissions = ALLOW_ALL\<rparr>"

definition set_target :: "i32 \<Rightarrow> EntryUpdate" where
  "set_target v = default_update\<lparr>upd_actuator_target := Some (Some \<lparr>dp_ts = 2, dp_value = Int32 v\<rparr>)\<rparr>"

lemma example_sub_simps [simp]:
  "cs_entries example_sub = [(0, {F_Datapoint})]" "\<not> ch_closed (cs_sender example_sub)"
  "cs_permissions example_sub = ALLOW_ALL"
  by (simp_all add: example_sub_def)

lemma example_subscribe_open:
  "subscribe_open any_regex 1 ALLOW_ALL example_broker [(0, {F_Datapoint})] = Ok example_sub"
  by (simp add: subscribe_open_def change_notify_def send_def new_channel_def example_sub_def
      get_entry_by_id_def Let_def)

lemma example_last_datapoint:
  "last_datapoint (ch_sent (cs_sender example_sub)) ''A'' = Some \<lparr>dp_ts = 1, dp_value = NotAvailable\<rparr>"
  by (simp add: last_datapoint_def example_sub_def initial_notification_fields)

lemma example_update_target:
  "update any_regex now ALLOW_ALL (set_entry example_db 0 (updated_entry example_entry (set_value v))) 0 (set_target w) =
     (Ok {F_ActuatorTarget},
      set_entry example_db 0 (updated_entry (updated_entry example_entry (set_value v)) (set_target w)))"
  by (simp add: update_eq touches_metadata_def set_target_def default_update_def ALLOW_ALL_def
      has_expired_def write_granted_def validate_def validate_value_def validate_allowed_def diff_def
      changed_by_def updated_entry_def apply_update_def set_entry_def set_value_def)

lemma example_target_entry:
  "e_datapoint (updated_entry (updated_entry example_entry (set_value v)) (set_target w)) =
     \<lparr>dp_ts = 2, dp_value = Int32 v\<rparr>"
  by (simp add: updated_entry_def apply_update_fields diff_fields set_target_def set_value_def
      default_update_def)

text \<open>
  A batch that names an entry twice loses notifications, because the fields changed by the
  second update replace those of the first: setting the value and then the target of one
  actuator stores the value, but a subscriber to the value is told nothing.
\<close>

theorem batch_loses_notification:
  "\<exists>re now ps broker us sub path d.
     fst (update_entries re now ps broker us) = Ok () \<and>
     sub \<in> set (change_subscriptions (subscriptions broker)) \<and>
     sub \<in> set (change_subscriptions (subscriptions (snd (update_entries re now ps broker us)))) \<and>
     \<not> ch_closed (cs_sender sub) \<and> cs_permissions sub = ALLOW_ALL \<and>
     get_datapoint_by_path re now ALLOW_ALL (snd (update_entries re now ps broker us)) path = Ok d \<and>
     last_datapoint (ch_sent (cs_sender sub)) path \<noteq> Some d"
proof -
  let ?b = "subscribe_register example_broker example_sub"
  let ?us = "[(0, set_value 7), (0, set_target 9)]"
  let ?e = "updated_entry (updated_entry example_entry (set_value 7)) (set_target 9)"
  let ?db = "set_entry example_db 0 ?e"
  have db: "database ?b = example_db" and subs: "subscriptions ?b = \<lparr>query_subscriptions = [], change_subscriptions = [example_sub]\<rparr>"
    by (simp_all add: subscribe_register_def add_change_subscription_def new_subscriptions_def)
  have u: "apply_updates any_regex 2 ALLOW_ALL ?us (database ?b) [] [] = (?db, [(0, {F_ActuatorTarget})], [])"
    by (simp add: db example_update example_update_target)
  have "change_message any_regex 2 (Some [(0, {F_ActuatorTarget})]) ?db example_sub = None"
    by (simp add: change_message_def example_sub_def is_disjoint_def)
  then have same: "subscriptions (snd (update_entries any_regex 2 ALLOW_ALL ?b ?us)) = subscriptions ?b"
    by (simp add: update_entries_eq [OF u] subs delivered_def undeliverable_def change.deliver_def change.nf_eq)
  have "get_datapoint_by_path any_regex 2 ALLOW_ALL (snd (update_entries any_regex 2 ALLOW_ALL ?b ?us)) ''A'' =
      Ok \<lparr>dp_ts = 2, dp_value = Int32 7\<rparr>"
    by (simp add: get_datapoint_by_path_def update_entries_subs(1) [OF u] get_entry_by_path_def get_entry_by_id_def
        example_target_entry)
  moreover have "fst (update_entries any_regex 2 ALLOW_ALL ?b ?us) = Ok ()" by (simp add: update_entries_eq [OF u])
  moreover have "last_datapoint (ch_sent (cs_sender example_sub)) ''A'' \<noteq> Some \<lparr>dp_ts = 2, dp_value = Int32 7\<rparr>"
    by (simp add: example_last_datapoint)
  ultimately show ?thesis using same subs
    by (intro exI [of _ any_regex] exI [of _ 2] exI [of _ ALLOW_ALL] exI [of _ ?b] exI [of _ ?us]
        exI [of _ example_sub] exI [of _ "''A''"] exI [of _ "\<lparr>dp_ts = 2, dp_value = Int32 7\<rparr>"])
      simp
qed

text \<open>The steps of an execution in which an update slips into a subscription.\<close>

lemma example_add_entry:
  "snd (add_entry any_regex 1 ALLOW_ALL (new_broker []) ''A'' T_Int32 OnChange Actuator [] None None) = example_broker"
  using example_db_add by (simp add: add_entry_def example_broker_def new_broker_def)

lemma example_update_entries:
  "snd (update_entries any_regex 2 ALLOW_ALL example_broker [(0, set_value 7)]) =
     example_broker\<lparr>database := set_entry example_db 0 (updated_entry example_entry (set_value 7))\<rparr>"
proof -
  have u: "apply_updates any_regex 2 ALLOW_ALL [(0, set_value 7)] (database example_broker) [] [] =
      (set_entry example_db 0 (updated_entry example_entry (set_value 7)), [(0, {F_Datapoint})], [])"
    by (simp add: example_update)
  show ?thesis
    unfolding update_entries_eq [OF u]
    by (simp add: delivered_def undeliverable_def new_subscriptions_def example_broker_def new_broker_def)
qed

text \<open>
  An update that comes between the initial notification of a subscription and its
  registration is lost: there is an execution in which no batch names an entry twice and at
  whose end a registered, open subscriber with all permissions has been told a value of the
  entry that is not the stored one.
\<close>

theorem subscription_race:
  "\<exists>re parse_sql evs s sub path d.
     execution re parse_sql evs s \<and> list_all (\<lambda>ev. case ev of Ev_Update ids \<Rightarrow> distinct ids | _ \<Rightarrow> True) evs \<and>
     sub \<in> set (change_subscriptions (subscriptions (sys_broker s))) \<and>
     \<not> ch_closed (cs_sender sub) \<and> cs_permissions sub = ALLOW_ALL \<and>
     cs_entries sub = [(0, {F_Datapoint})] \<and>
     get_datapoint re 3 ALLOW_ALL (sys_broker s) 0 = Ok d \<and> path = ''A'' \<and>
     last_datapoint (ch_sent (cs_sender sub)) path \<noteq> Some d"
proof -
  let ?s1 = "\<lparr>sys_broker = example_broker, sys_pending = []\<rparr>"
  let ?s2 = "\<lparr>sys_broker = example_broker, sys_pending = [example_sub]\<rparr>"
  let ?b3 = "example_broker\<lparr>database := set_entry example_db 0 (updated_entry example_entry (set_value 7))\<rparr>"
  let ?s3 = "\<lparr>sys_broker = ?b3, sys_pending = [example_sub]\<rparr>"
  let ?s4 = "\<lparr>sys_broker = subscribe_register ?b3 example_sub, sys_pending = []\<rparr>"
  let ?step = "system_step any_regex (\<lambda>_. None)"
  have 1: "?step (initial_system []) Ev_Add ?s1"
    using step_add [of any_regex "\<lambda>_. None" "initial_system []" 1 ALLOW_ALL "''A''" T_Int32 OnChange Actuator "[]" None None]
    by (simp add: initial_system_def example_add_entry)
  have 2: "?step ?s1 (Ev_Open [0]) ?s2"
    using step_open [of any_regex 1 ALLOW_ALL ?s1 "[(0, {F_Datapoint})]" example_sub]
    by (simp add: example_subscribe_open valid_entries_def)
  have 3: "?step ?s2 (Ev_Update [0]) ?s3"
    using step_update [of any_regex "\<lambda>_. None" ?s2 "[(0, set_value 7)]" 2 ALLOW_ALL]
    by (simp add: example_update_entries)
  have 4: "?step ?s3 Ev_Register ?s4"
    using step_register [of example_sub ?s3 any_regex "\<lambda>_. None"] by simp
  have "execution any_regex (\<lambda>_. None) ([] @ [Ev_Add] @ [Ev_Open [0]] @ [Ev_Update [0]] @ [Ev_Register]) ?s4"
    unfolding append_assoc [symmetric]
    by (intro execution_step [OF _ 4] execution_step [OF _ 3] execution_step [OF _ 2] execution_step [OF _ 1]
        execution_start)
  moreover have "get_datapoint any_regex 3 ALLOW_ALL (sys_broker ?s4) 0 = Ok \<lparr>dp_ts = 2, dp_value = Int32 7\<rparr>"
    by (simp add: subscribe_register_def get_datapoint_def get_entry_by_id_def example_updated_entry)
  moreover have "example_sub \<in> set (change_subscriptions (subscriptions (sys_broker ?s4)))"
    by (simp add: subscribe_register_def add_change_subscription_def)
  ultimately show ?thesis
    by (intro exI [of _ any_regex] exI [of _ "\<lambda>_. None"]
        exI [of _ "[Ev_Add, Ev_Open [0], Ev_Update [0], Ev_Register]"] exI [of _ ?s4]
        exI [of _ example_sub] exI [of _ "''A''"] exI [of _ "\<lparr>dp_ts = 2, dp_value = Int32 7\<rparr>"])
      (simp add: example_last_datapoint)
qed

end
