(* ===== verification/KuksaTypes.thy ===== *)
theory KuksaTypes
  imports Entry
begin

text \<open>
  The messages of \<open>kuksa.val.v1\<close> and their conversions
  (\<open>grpc/kuksa_val_v1/conversions.rs\<close>).  The message types are those of
  \<open>proto/kuksa/val/v1/types.proto\<close>; an enumeration is the datatype of its names, and
  \<open>from_i32\<close> takes a number to the name it stands for.  The conversions between
  \<open>prost_types::Timestamp\<close> and \<open>SystemTime\<close> belong to the crate \<open>prost\<close> and are the
  parameters \<open>ts_from\<close> and \<open>ts_into\<close>.
\<close>

section \<open>Messages\<close>

record Timestamp =
  ts_seconds :: i64
  ts_nanos :: i32

datatype KValue =
    KV_Bool bool
  | KV_String string
  | KV_Int32 i32
  | KV_Int64 i64
  | KV_Uint32 u32
  | KV_Uint64 u64
  | KV_Float f32
  | KV_Double f64
  | KV_BoolArray "bool list"
  | KV_StringArray "string list"
  | KV_Int32Array "i32 list"
  | KV_Int64Array "i64 list"
  | KV_Uint32Array "u32 list"
  | KV_Uint64Array "u64 list"
  | KV_FloatArray "f32 list"
  | KV_DoubleArray "f64 list"

record ProtoDatapoint =
  pd_timestamp :: "Timestamp option"
  pd_value :: "KValue option"

datatype ProtoDataType =
    KT_Unspecified
  | KT_String
  | KT_Boolean
  | KT_Int8
  | KT_Int16
  | KT_Int32
  | KT_Int64
  | KT_Uint8
  | KT_Uint16
  | KT_Uint32
  | KT_Uint64
  | KT_Float
  | KT_Double
  | KT_StringArray
  | KT_BooleanArray
  | KT_Int8Array
  | KT_Int16Array
  | KT_Int32Array
  | KT_Int64Array
  | KT_Uint8Array
  | KT_Uint16Array
  | KT_Uint32Array
  | KT_Uint64Array
  | KT_FloatArray
  | KT_DoubleArray
  | KT_Timestamp
  | KT_TimestampArray

datatype ProtoEntryType = KE_Unspecified | KE_Attribute | KE_Sensor | KE_Actuator

datatype ProtoField =
    PF_Unspecified | PF_Path | PF_Value | PF_ActuatorTarget | PF_Metadata | PF_MetadataDataType
  | PF_MetadataDescription | PF_MetadataEntryType | PF_MetadataComment | PF_MetadataDeprecation
  | PF_MetadataUnit | PF_MetadataValueRestriction | PF_MetadataActuator | PF_MetadataSensor
  | PF_MetadataAttribute

definition field_from_i32 :: "int \<Rightarrow> ProtoField option" where
  "field_from_i32 n =
     map_of
       [(0, PF_Unspecified), (1, PF_Path), (2, PF_Value), (3, PF_ActuatorTarget), (10, PF_Metadata),
        (11, PF_MetadataDataType), (12, PF_MetadataDescription), (13, PF_MetadataEntryType),
        (14, PF_MetadataComment), (15, PF_MetadataDeprecation), (16, PF_MetadataUnit),
        (17, PF_MetadataValueRestriction), (20, PF_MetadataActuator), (30, PF_MetadataSensor),
        (40, PF_MetadataAttribute)] n"

text \<open>The fields of \<open>Metadata\<close> that the server fills in; the others keep their default.\<close>

record ProtoMetadata =
  pm_data_type :: ProtoDataType
  pm_entry_type :: ProtoEntryType
  pm_description :: "string option"
  pm_unit :: "string option"

definition default_metadata :: ProtoMetadata where
  "default_metadata =
     \<lparr>pm_data_type = KT_Unspecified, pm_entry_type = KE_Unspecified, pm_description = None, pm_unit = None\<rparr>"

record DataEntry =
  de_path :: string
  de_value :: "ProtoDatapoint option"
  de_actuator_target :: "ProtoDatapoint option"
  de_metadata :: "ProtoMetadata option"

section \<open>Conversions\<close>

definition proto_entry_type :: "EntryType \<Rightarrow> ProtoEntryType" where
  "proto_entry_type t =
     (case t of Sensor \<Rightarrow> KE_Sensor | Attribute \<Rightarrow> KE_Attribute | Actuator \<Rightarrow> KE_Actuator)"

definition proto_data_type :: "DataType \<Rightarrow> ProtoDataType" where
  "proto_data_type t =
     (case t of
        T_String \<Rightarrow> KT_String
      | T_Bool \<Rightarrow> KT_Boolean
      | T_Int8 \<Rightarrow> KT_Int8
      | T_Int16 \<Rightarrow> KT_Int16
      | T_Int32 \<Rightarrow> KT_Int32
      | T_Int64 \<Rightarrow> KT_Int64
      | T_Uint8 \<Rightarrow> KT_Uint8
      | T_Uint16 \<Rightarrow> KT_Uint16
      | T_Uint32 \<Rightarrow> KT_Uint32
      | T_Uint64 \<Rightarrow> KT_Uint64
      | T_Float \<Rightarrow> KT_Float
      | T_Double \<Rightarrow> KT_Double
      | T_StringArray \<Rightarrow> KT_StringArray
      | T_BoolArray \<Rightarrow> KT_BooleanArray
      | T_Int8Array \<Rightarrow> KT_Int8Array
      | T_Int16Array \<Rightarrow> KT_Int16Array
      | T_Int32Array \<Rightarrow> KT_Int32Array
      | T_Int64Array \<Rightarrow> KT_Int64Array
      | T_Uint8Array \<Rightarrow> KT_Uint8Array
      | T_Uint16Array \<Rightarrow> KT_Uint16Array
      | T_Uint32Array \<Rightarrow> KT_Uint32Array
      | T_Uint64Array \<Rightarrow> KT_Uint64Array
      | T_FloatArray \<Rightarrow> KT_FloatArray
      | T_DoubleArray \<Rightarrow> KT_DoubleArray)"

definition proto_datapoint :: "(SystemTime \<Rightarrow> Timestamp) \<Rightarrow> Datapoint \<Rightarrow> ProtoDatapoint option" where
  "proto_datapoint ts_from from =
     (case dp_value from of
        NotAvailable \<Rightarrow> None
      | Bool v \<Rightarrow> Some \<lparr>pd_timestamp = Some (ts_from (dp_ts from)), pd_value = Some (KV_Bool v)\<rparr>
      | String v \<Rightarrow> Some \<lparr>pd_timestamp = Some (ts_from (dp_ts from)), pd_value = Some (KV_String v)\<rparr>
      | Int32 v \<Rightarrow> Some \<lparr>pd_timestamp = Some (ts_from (dp_ts from)), pd_value = Some (KV_Int32 v)\<rparr>
      | Int64 v \<Rightarrow> Some \<lparr>pd_timestamp = Some (ts_from (dp_ts from)), pd_value = Some (KV_Int64 v)\<rparr>
      | Uint32 v \<Rightarrow> Some \<lparr>pd_timestamp = Some (ts_from (dp_ts from)), pd_value = Some (KV_Uint32 v)\<rparr>
      | Uint64 v \<Rightarrow> Some \<lparr>pd_timestamp = Some (ts_from (dp_ts from)), pd_value = Some (KV_Uint64 v)\<rparr>
      | Float v \<Rightarrow> Some \<lparr>pd_timestamp = Some (ts_from (dp_ts from)), pd_value = Some (KV_Float v)\<rparr>
      | Double v \<Rightarrow> Some \<lparr>pd_timestamp = Some (ts_from (dp_ts from)), pd_value = Some (KV_Double v)\<rparr>
      | BoolArray v \<Rightarrow> Some \<lparr>pd_timestamp = Some (ts_from (dp_ts from)), pd_value = Some (KV_BoolArray v)\<rparr>
      | StringArray v \<Rightarrow> Some \<lparr>pd_timestamp = Some (ts_from (dp_ts from)), pd_value = Some (KV_StringArray v)\<rparr>
      | Int32Array v \<Rightarrow> Some \<lparr>pd_timestamp = Some (ts_from (dp_ts from)), pd_value = Some (KV_Int32Array v)\<rparr>
      | Int64Array v \<Rightarrow> Some \<lparr>pd_timestamp = Some (ts_from (dp_ts from)), pd_value = Some (KV_Int64Array v)\<rparr>
      | Uint32Array v \<Rightarrow> Some \<lparr>pd_timestamp = Some (ts_from (dp_ts from)), pd_value = Some (KV_Uint32Array v)\<rparr>
      | Uint64Array v \<Rightarrow> Some \<lparr>pd_timestamp = Some (ts_from (dp_ts from)), pd_value = Some (KV_Uint64Array v)\<rparr>
      | FloatArray v \<Rightarrow> Some \<lparr>pd_timestamp = Some (ts_from (dp_ts from)), pd_value = Some (KV_FloatArray v)\<rparr>
      | DoubleArray v \<Rightarrow> Some \<lparr>pd_timestamp = Some (ts_from (dp_ts from)), pd_value = Some (KV_DoubleArray v)\<rparr>)"

definition proto_datapoint_of_value :: "DataValue \<Rightarrow> ProtoDatapoint option" where
  "proto_datapoint_of_value from =
     (case from of
        NotAvailable \<Rightarrow> None
      | Bool v \<Rightarrow> Some \<lparr>pd_timestamp = None, pd_value = Some (KV_Bool v)\<rparr>
      | String v \<Rightarrow> Some \<lparr>pd_timestamp = None, pd_value = Some (KV_String v)\<rparr>
      | Int32 v \<Rightarrow> Some \<lparr>pd_timestamp = None, pd_value = Some (KV_Int32 v)\<rparr>
      | Int64 v \<Rightarrow> Some \<lparr>pd_timestamp = None, pd_value = Some (KV_Int64 v)\<rparr>
      | Uint32 v \<Rightarrow> Some \<lparr>pd_timestamp = None, pd_value = Some (KV_Uint32 v)\<rparr>
      | Uint64 v \<Rightarrow> Some \<lparr>pd_timestamp = None, pd_value = Some (KV_Uint64 v)\<rparr>
      | Float v \<Rightarrow> Some \<lparr>pd_timestamp = None, pd_value = Some (KV_Float v)\<rparr>
      | Double v \<Rightarrow> Some \<lparr>pd_timestamp = None, pd_value = Some (KV_Double v)\<rparr>
      | BoolArray v \<Rightarrow> Some \<lparr>pd_timestamp = None, pd_value = Some (KV_BoolArray v)\<rparr>
      | StringArray v \<Rightarrow> Some \<lparr>pd_timestamp = None, pd_value = Some (KV_StringArray v)\<rparr>
      | Int32Array v \<Rightarrow> Some \<lparr>pd_timestamp = None, pd_value = Some (KV_Int32Array v)\<rparr>
      | Int64Array v \<Rightarrow> Some \<lparr>pd_timestamp = None, pd_value = Some (KV_Int64Array v)\<rparr>
      | Uint32Array v \<Rightarrow> Some \<lparr>pd_timestamp = None, pd_value = Some (KV_Uint32Array v)\<rparr>
      | Uint64Array v \<Rightarrow> Some \<lparr>pd_timestamp = None, pd_value = Some (KV_Uint64Array v)\<rparr>
      | FloatArray v \<Rightarrow> Some \<lparr>pd_timestamp = None, pd_value = Some (KV_FloatArray v)\<rparr>
      | DoubleArray v \<Rightarrow> Some \<lparr>pd_timestamp = None, pd_value = Some (KV_DoubleArray v)\<rparr>)"

definition data_value_of_proto :: "KValue option \<Rightarrow> DataValue" where
  "data_value_of_proto from =
     (case from of
        Some k \<Rightarrow>
          (case k of
             KV_Bool v \<Rightarrow> Bool v
           | KV_String v \<Rightarrow> String v
           | KV_Int32 v \<Rightarrow> Int32 v
           | KV_Int64 v \<Rightarrow> Int64 v
           | KV_Uint32 v \<Rightarrow> Uint32 v
           | KV_Uint64 v \<Rightarrow> Uint64 v
           | KV_Float v \<Rightarrow> Float v
           | KV_Double v \<Rightarrow> Double v
           | KV_BoolArray v \<Rightarrow> BoolArray v
           | KV_StringArray v \<Rightarrow> StringArray v
           | KV_Int32Array v \<Rightarrow> Int32Array v
           | KV_Int64Array v \<Rightarrow> Int64Array v
           | KV_Uint32Array v \<Rightarrow> Uint32Array v
           | KV_Uint64Array v \<Rightarrow> Uint64Array v
           | KV_FloatArray v \<Rightarrow> FloatArray v
           | KV_DoubleArray v \<Rightarrow> DoubleArray v)
      | None \<Rightarrow> NotAvailable)"

definition proto_field :: "Field \<Rightarrow> ProtoField" where
  "proto_field from =
     (case from of
        F_Datapoint \<Rightarrow> PF_Value
      | F_ActuatorTarget \<Rightarrow> PF_ActuatorTarget
      | F_MetadataUnit \<Rightarrow> PF_MetadataUnit)"

definition field_try_from :: "ProtoField \<Rightarrow> Field option" where
  "field_try_from from =
     (case from of
        PF_Value \<Rightarrow> Some F_Datapoint
      | PF_ActuatorTarget \<Rightarrow> Some F_ActuatorTarget
      | _ \<Rightarrow> None)"

definition datapoint_of_proto :: "(Timestamp \<Rightarrow> SystemTime option) \<Rightarrow> SystemTime \<Rightarrow> ProtoDatapoint \<Rightarrow> Datapoint" where
  "datapoint_of_proto ts_into now from =
     \<lparr>dp_ts =
        (case pd_timestamp from of
           Some ts \<Rightarrow> (case ts_into ts of Some ts \<Rightarrow> ts | None \<Rightarrow> now)
         | None \<Rightarrow> now),
      dp_value = data_value_of_proto (pd_value from)\<rparr>"

definition data_entry_of_update :: "(SystemTime \<Rightarrow> Timestamp) \<Rightarrow> EntryUpdate \<Rightarrow> DataEntry" where
  "data_entry_of_update ts_from from =
     \<lparr>de_path = (case upd_path from of Some p \<Rightarrow> p | None \<Rightarrow> []),
      de_value =
        (case upd_datapoint from of Some datapoint \<Rightarrow> proto_datapoint ts_from datapoint | None \<Rightarrow> None),
      de_actuator_target =
        (case upd_actuator_target from of
           Some (Some actuator_target) \<Rightarrow> proto_datapoint ts_from actuator_target
         | Some None \<Rightarrow> None
         | None \<Rightarrow> None),
      de_metadata = Some (default_metadata\<lparr>pm_unit := upd_unit from\<rparr>)\<rparr>"

section \<open>Round trips\<close>

text \<open>
  What a client relies on when it writes back what it has read: decoding an encoded datapoint
  gives the datapoint, for those whose time stamp survives the trip.
\<close>

locale datapoint_codec =
  fixes enc :: "Datapoint \<Rightarrow> 'p option"
    and dec :: "'p \<Rightarrow> Datapoint"
    and carried :: "Datapoint \<Rightarrow> bool"
  assumes dec_enc: "carried d \<Longrightarrow> enc d = Some p \<Longrightarrow> dec p = d"
begin

lemma enc_inj: "carried d \<Longrightarrow> carried d' \<Longrightarrow> enc d = Some p \<Longrightarrow> enc d' = Some p \<Longrightarrow> d = d'"
  using dec_enc by metis

lemma no_change_after_echo:
  assumes "carried (e_datapoint e)" and "enc (e_datapoint e) = Some p"
    and "md_change_type (e_metadata e) \<noteq> Continuous"
    and "dv_eq (dp_value (e_datapoint e)) (dp_value (e_datapoint e))"
  shows "upd_datapoint (diff e (default_update\<lparr>upd_datapoint := Some (dec p)\<rparr>)) = None"
  using assms dec_enc by (simp add: diff_fields)

end

definition timestamp_carried ::
  "(SystemTime \<Rightarrow> Timestamp) \<Rightarrow> (Timestamp \<Rightarrow> SystemTime option) \<Rightarrow> Datapoint \<Rightarrow> bool" where
  "timestamp_carried ts_from ts_into d \<longleftrightarrow> ts_into (ts_from (dp_ts d)) = Some (dp_ts d)"

lemma proto_datapoint_eq:
  "proto_datapoint ts_from d =
     map_option (\<lambda>p. p\<lparr>pd_timestamp := Some (ts_from (dp_ts d))\<rparr>) (proto_datapoint_of_value (dp_value d))"
  by (cases "dp_value d") (simp_all add: proto_datapoint_def proto_datapoint_of_value_def)

lemma data_value_round_trip:
  "proto_datapoint_of_value v = Some p \<Longrightarrow> data_value_of_proto (pd_value p) = v"
  by (cases v) (auto simp: proto_datapoint_of_value_def data_value_of_proto_def)

lemma proto_datapoint_None [simp]: "proto_datapoint ts_from d = None \<longleftrightarrow> dp_value d = NotAvailable"
  by (cases "dp_value d") (simp_all add: proto_datapoint_def)

interpretation kuksa_codec: datapoint_codec
  "proto_datapoint ts_from" "datapoint_of_proto ts_into now" "timestamp_carried ts_from ts_into"
  for ts_from ts_into now
  by unfold_locales
    (auto simp: proto_datapoint_eq datapoint_of_proto_def timestamp_carried_def
      data_value_round_trip intro!: Datapoint.equality)

lemma proto_data_type_inj: "proto_data_type t = proto_data_type u \<Longrightarrow> t = u"
  by (cases t; cases u) (simp_all add: proto_data_type_def)

text \<open>
  A datapoint that the server sends and a client sends back is the datapoint itself,
  value and time stamp, whenever the value is available and the time stamp survives the
  conversion to a protobuf time stamp; only an unavailable value is not sent.
\<close>

lemma datapoint_round_trip:
  assumes "ts_into (ts_from (dp_ts d)) = Some (dp_ts d)" and "dp_value d \<noteq> NotAvailable"
  shows "\<exists>p. proto_datapoint ts_from d = Some p \<and> datapoint_of_proto ts_into now p = d"
  using assms kuksa_codec.dec_enc [of ts_from ts_into d _ now] proto_datapoint_None [of ts_from d]
  by (cases "proto_datapoint ts_from d") (auto simp: timestamp_carried_def)

end
