(* ===== verification/Val.thy ===== *)
theory Val
  imports Broker KuksaTypes
begin

text \<open>
  The service \<open>kuksa.val.v1.VAL\<close> (\<open>grpc/kuksa_val_v1/val.rs\<close>): the handlers \<open>get\<close>,
  \<open>set\<close> and \<open>subscribe\<close>, and the functions that build their messages.  The permissions
  come from the extensions of the request, where the interceptor has put them; a request
  without them is refused.  A \<open>tonic::Status\<close> is its code, a \<open>proto::Error\<close> its number and
  reason.  A compiled \<open>Regex\<close> is the function \<open>is_match\<close> it gives.
\<close>

section \<open>Messages\<close>

datatype Status =
  St_Unauthenticated | St_InvalidArgument | St_NotFound | St_PermissionDenied | St_Internal

datatype View = V_Unspecified | V_CurrentValue | V_TargetValue | V_Metadata | V_Fields | V_All

definition view_from_i32 :: "int \<Rightarrow> View option" where
  "view_from_i32 n =
     map_of [(0, V_Unspecified), (1, V_CurrentValue), (2, V_TargetValue), (3, V_Metadata),
             (10, V_Fields), (20, V_All)] n"

record DataEntryError =
  err_path :: string
  err_code :: nat
  err_reason :: string

record EntryRequest =
  er_path :: string
  er_view :: int
  er_fields :: "int list"

record GetResponse =
  gr_entries :: "DataEntry list"
  gr_errors :: "DataEntryError list"
  gr_error :: "DataEntryError option"

record SetEntry =
  se_entry :: "DataEntry option"
  se_fields :: "int list"

record SubscribeEntry =
  sub_path :: string
  sub_fields :: "int list"

definition known_fields :: "int list \<Rightarrow> ProtoField set" where
  "known_fields ids = set (List.map_filter field_from_i32 ids)"

section \<open>Building messages\<close>

definition combine_view_and_fields :: "View \<Rightarrow> ProtoField set \<Rightarrow> ProtoField set" where
  "combine_view_and_fields view flds =
     (case view of
        V_Unspecified \<Rightarrow> if flds = {} then {PF_Path, PF_Value} else flds
      | V_CurrentValue \<Rightarrow> insert PF_Path (insert PF_Value flds)
      | V_TargetValue \<Rightarrow> insert PF_Path (insert PF_ActuatorTarget flds)
      | V_Metadata \<Rightarrow> insert PF_Path (insert PF_Metadata flds)
      | V_Fields \<Rightarrow> flds
      | V_All \<Rightarrow> insert PF_Path (insert PF_Value (insert PF_ActuatorTarget (insert PF_Metadata flds))))"

definition proto_metadata :: "Metadata \<Rightarrow> ProtoField set \<Rightarrow> ProtoMetadata option" where
  "proto_metadata md flds =
     (let all = PF_Metadata \<in> flds;
          m = default_metadata;
          is_set = False;
          (m, is_set) = (if all \<or> PF_MetadataDataType \<in> flds
            then (m\<lparr>pm_data_type := proto_data_type (md_data_type md)\<rparr>, True) else (m, is_set));
          (m, is_set) = (if all \<or> PF_MetadataDescription \<in> flds
            then (m\<lparr>pm_description := Some (md_description md)\<rparr>, True) else (m, is_set));
          (m, is_set) = (if all \<or> PF_MetadataEntryType \<in> flds
            then (m\<lparr>pm_entry_type := proto_entry_type (md_entry_type md)\<rparr>, True) else (m, is_set));
          is_set = (is_set \<or> all \<or> PF_MetadataComment \<in> flds \<or> PF_MetadataDeprecation \<in> flds);
          (m, is_set) = (if all \<or> PF_MetadataUnit \<in> flds
            then (m\<lparr>pm_unit := md_unit md\<rparr>, True) else (m, is_set));
          is_set = (is_set \<or> all \<or> PF_MetadataValueRestriction \<in> flds \<or> PF_MetadataActuator \<in> flds \<or>
            PF_MetadataSensor \<in> flds \<or> PF_MetadataAttribute \<in> flds)
      in if is_set then Some m else None)"

definition proto_entry_from_entry_and_fields ::
  "(SystemTime \<Rightarrow> Timestamp) \<Rightarrow> EntryReadAccess \<Rightarrow> ProtoField set \<Rightarrow> DataEntry" where
  "proto_entry_from_entry_and_fields ts_from entry flds =
     \<lparr>de_path = md_path (era_metadata entry),
      de_value =
        (if PF_Value \<in> flds then
           (case era_datapoint entry of Ok d \<Rightarrow> proto_datapoint ts_from d | Err _ \<Rightarrow> None)
         else None),
      de_actuator_target =
        (if PF_ActuatorTarget \<in> flds then
           (case era_actuator_target entry of
              Ok (Some d) \<Rightarrow> proto_datapoint ts_from d
            | Ok None \<Rightarrow> None
            | Err _ \<Rightarrow> None)
         else None),
      de_metadata = proto_metadata (era_metadata entry) flds\<rparr>"

definition from_proto_entry_and_fields ::
  "(Timestamp \<Rightarrow> SystemTime option) \<Rightarrow> SystemTime \<Rightarrow> DataEntry \<Rightarrow> ProtoField set \<Rightarrow> EntryUpdate" where
  "from_proto_entry_and_fields ts_into now entry flds =
     \<lparr>upd_path = None,
      upd_datapoint =
        (if PF_Value \<in> flds then map_option (datapoint_of_proto ts_into now) (de_value entry) else None),
      upd_actuator_target =
        (if PF_ActuatorTarget \<in> flds then
           (case de_actuator_target entry of
              Some datapoint \<Rightarrow> Some (Some (datapoint_of_proto ts_into now datapoint))
            | None \<Rightarrow> Some None)
         else None),
      upd_entry_type = None, upd_data_type = None, upd_description = None, upd_allowed = None,
      upd_unit = None\<rparr>"

section \<open>The handler of get\<close>

record ValidRequest =
  vr_regex :: "string \<Rightarrow> bool"
  vr_fields :: "ProtoField set"
  vr_path :: string
  vr_is_match :: bool
  vr_error :: "ReadError option"

fun fill_valid_requests ::
  "regex_engine \<Rightarrow> EntryRequest list \<Rightarrow> ValidRequest list \<Rightarrow> DataEntryError list \<Rightarrow>
   (ValidRequest list \<times> DataEntryError list, Status) result" where
  "fill_valid_requests re [] valid errors = Ok (valid, errors)"
| "fill_valid_requests re (request # requests) valid errors =
     (if CHR ''*'' \<in> set (er_path request) \<and> \<not> is_valid_pattern re (er_path request) then
        fill_valid_requests re requests valid
          (errors @ [\<lparr>err_path = er_path request, err_code = 400, err_reason = ''bad_request''\<rparr>])
      else
        (case view_from_i32 (er_view request) of
           None \<Rightarrow> Err St_InvalidArgument
         | Some view \<Rightarrow>
             (let view_fields = combine_view_and_fields view (known_fields (er_fields request))
              in case to_regex re (er_path request) of
                   Ok regex \<Rightarrow>
                     fill_valid_requests re requests
                       (valid @ [\<lparr>vr_regex = regex, vr_fields = view_fields, vr_path = er_path request,
                                  vr_is_match = False, vr_error = None\<rparr>]) errors
                 | Err _ \<Rightarrow>
                     fill_valid_requests re requests valid
                       (errors @ [\<lparr>err_path = er_path request, err_code = 400, err_reason = ''bad regex''\<rparr>]))))"

text \<open>One entry against one request, with the result fields gathered so far.\<close>

definition visit_request ::
  "EntryReadAccess \<Rightarrow> ValidRequest \<Rightarrow> ProtoField set \<Rightarrow> ValidRequest \<times> ProtoField set" where
  "visit_request entry req result_fields =
     (if vr_regex req (md_path (era_metadata entry)) then
        (let req = req\<lparr>vr_is_match := True\<rparr>;
             result_fields =
               (if PF_Metadata \<in> vr_fields req then result_fields \<union> vr_fields req else result_fields)
         in if PF_ActuatorTarget \<in> vr_fields req \<or> PF_Value \<in> vr_fields req then
              (case era_datapoint entry of
                 Ok _ \<Rightarrow> (req, result_fields \<union> vr_fields req)
               | Err err \<Rightarrow> (req\<lparr>vr_error := Some err\<rparr>, result_fields))
            else (req, result_fields))
      else (req, result_fields))"

fun visit_requests ::
  "EntryReadAccess \<Rightarrow> ValidRequest list \<Rightarrow> ProtoField set \<Rightarrow> ValidRequest list \<times> ProtoField set" where
  "visit_requests entry [] result_fields = ([], result_fields)"
| "visit_requests entry (req # reqs) result_fields =
     (case visit_request entry req result_fields of
        (req', result_fields) \<Rightarrow>
          (case visit_requests entry reqs result_fields of
             (reqs', result_fields) \<Rightarrow> (req' # reqs', result_fields)))"

fun visit_entries ::
  "(SystemTime \<Rightarrow> Timestamp) \<Rightarrow> EntryReadAccess list \<Rightarrow> ValidRequest list \<Rightarrow> DataEntry list \<Rightarrow>
   ValidRequest list \<times> DataEntry list" where
  "visit_entries ts_from [] reqs out = (reqs, out)"
| "visit_entries ts_from (entry # rest) reqs out =
     (case visit_requests entry reqs {} of
        (reqs, result_fields) \<Rightarrow>
          visit_entries ts_from rest reqs
            (if result_fields \<noteq> {}
             then out @ [proto_entry_from_entry_and_fields ts_from entry result_fields] else out))"

fun report_requests ::
  "ValidRequest list \<Rightarrow> DataEntry list \<Rightarrow> DataEntryError list \<Rightarrow> DataEntry list \<times> DataEntryError list" where
  "report_requests [] out errors = (out, errors)"
| "report_requests (req # reqs) out errors =
     (if \<not> vr_is_match req then
        report_requests reqs out
          (errors @ [\<lparr>err_path = vr_path req, err_code = 404, err_reason = ''not_found''\<rparr>])
      else if vr_error req \<noteq> None then
        report_requests reqs []
          (errors @ [\<lparr>err_path = vr_path req, err_code = 403, err_reason = ''forbidden''\<rparr>])
      else report_requests reqs out errors)"

definition val_get ::
  "regex_engine \<Rightarrow> (SystemTime \<Rightarrow> Timestamp) \<Rightarrow> SystemTime \<Rightarrow> Permissions option \<Rightarrow> DataBroker \<Rightarrow>
   EntryRequest list \<Rightarrow> (GetResponse, Status) result" where
  "val_get re ts_from now permissions broker requested =
     (case permissions of
        None \<Rightarrow> Err St_Unauthenticated
      | Some permissions \<Rightarrow>
          if requested = [] then Err St_InvalidArgument
          else
            result_bind (fill_valid_requests re requested [] []) (\<lambda>(valid_requests, errors).
              let (valid_requests, out) =
                    (if valid_requests \<noteq> []
                     then visit_entries ts_from (iter_entries re now permissions (database broker))
                            valid_requests []
                     else (valid_requests, []));
                  (out, errors) = report_requests valid_requests out errors
              in Ok \<lparr>gr_entries = out, gr_errors = errors,
                     gr_error = (case errors of [] \<Rightarrow> None | e # _ \<Rightarrow> Some e)\<rparr>))"

section \<open>The handler of set\<close>

fun collect_updates ::
  "(Timestamp \<Rightarrow> SystemTime option) \<Rightarrow> SystemTime \<Rightarrow> DataBroker \<Rightarrow> SetEntry list \<Rightarrow>
   (i32 \<times> EntryUpdate) list \<Rightarrow> DataEntryError list \<Rightarrow>
   ((i32 \<times> EntryUpdate) list \<times> DataEntryError list, Status) result" where
  "collect_updates ts_into now broker [] updates errors = Ok (updates, errors)"
| "collect_updates ts_into now broker (request # requests) updates errors =
     (case se_entry request of
        Some entry \<Rightarrow>
          (case get_id_by_path broker (de_path entry) of
             Some eid \<Rightarrow>
               (let flds = known_fields (se_fields request)
                in if de_actuator_target entry \<noteq> None \<and>
                      (case get_metadata broker eid of
                         Some metadata \<Rightarrow> md_entry_type metadata \<noteq> Actuator
                       | None \<Rightarrow> False)
                   then Err St_InvalidArgument
                   else
                     collect_updates ts_into now broker requests
                       (updates @ [(eid, from_proto_entry_and_fields ts_into now entry flds)]) errors)
           | None \<Rightarrow>
               collect_updates ts_into now broker requests updates
                 (errors @ [\<lparr>err_path = de_path entry, err_code = 404, err_reason = ''not_found''\<rparr>]))
      | None \<Rightarrow> Err St_InvalidArgument)"

definition update_error :: "string \<Rightarrow> UpdateError \<Rightarrow> DataEntryError" where
  "update_error path err =
     (case err of
        NotFound \<Rightarrow> \<lparr>err_path = path, err_code = 404, err_reason = ''not found''\<rparr>
      | WrongType \<Rightarrow> \<lparr>err_path = path, err_code = 400, err_reason = ''type mismatch''\<rparr>
      | UnsupportedType \<Rightarrow> \<lparr>err_path = path, err_code = 400, err_reason = ''unsupported type''\<rparr>
      | OutOfBounds \<Rightarrow> \<lparr>err_path = path, err_code = 400, err_reason = ''value out of bounds''\<rparr>
      | PermissionDenied \<Rightarrow> \<lparr>err_path = path, err_code = 403, err_reason = ''forbidden''\<rparr>
      | PermissionExpired \<Rightarrow> \<lparr>err_path = path, err_code = 401, err_reason = ''unauthorized''\<rparr>)"

fun report_update_errors ::
  "DataBroker \<Rightarrow> (i32 \<times> UpdateError) list \<Rightarrow> DataEntryError list \<Rightarrow> DataEntryError list" where
  "report_update_errors broker [] errors = errors"
| "report_update_errors broker ((eid, err) # rest) errors =
     report_update_errors broker rest
       (case get_metadata broker eid of
          Some metadata \<Rightarrow> errors @ [update_error (md_path metadata) err]
        | None \<Rightarrow> errors)"

text \<open>
  The look-ups of \<open>set\<close> and its batch take the database lock one after the other; the model
  runs them on one state, which is enough because an entry is never removed and its id, path
  and entry type never change.
\<close>

definition val_set ::
  "regex_engine \<Rightarrow> (Timestamp \<Rightarrow> SystemTime option) \<Rightarrow> SystemTime \<Rightarrow> Permissions option \<Rightarrow> DataBroker \<Rightarrow>
   SetEntry list \<Rightarrow> (DataEntryError list, Status) result \<times> DataBroker" where
  "val_set re ts_into now permissions broker requests =
     (case permissions of
        None \<Rightarrow> (Err St_Unauthenticated, broker)
      | Some permissions \<Rightarrow>
          (case collect_updates ts_into now broker requests [] [] of
             Err status \<Rightarrow> (Err status, broker)
           | Ok (updates, errors) \<Rightarrow>
               (case update_entries re now permissions broker updates of
                  (Ok _, broker') \<Rightarrow> (Ok errors, broker')
                | (Err err, broker') \<Rightarrow> (Ok (report_update_errors broker' err errors), broker'))))"

section \<open>The handler of subscribe\<close>

fun subscribe_fields :: "int list \<Rightarrow> Field set" where
  "subscribe_fields [] = {}"
| "subscribe_fields (n # ns) =
     (case field_from_i32 n of
        Some field \<Rightarrow>
          (case field of
             PF_Value \<Rightarrow> insert F_Datapoint (subscribe_fields ns)
           | PF_ActuatorTarget \<Rightarrow> insert F_ActuatorTarget (subscribe_fields ns)
           | PF_MetadataUnit \<Rightarrow> insert F_MetadataUnit (subscribe_fields ns)
           | _ \<Rightarrow> subscribe_fields ns)
      | None \<Rightarrow> subscribe_fields ns)"

fun subscribe_requests ::
  "regex_engine \<Rightarrow> SubscribeEntry list \<Rightarrow> (string \<times> (string \<Rightarrow> bool) \<times> Field set) list \<Rightarrow>
   (string \<times> (string \<Rightarrow> bool) \<times> Field set) list" where
  "subscribe_requests re [] valid = valid"
| "subscribe_requests re (entry # rest) valid =
     (if CHR ''*'' \<in> set (sub_path entry) \<and> \<not> is_valid_pattern re (sub_path entry)
      then subscribe_requests re rest valid
      else
        (case to_regex re (sub_path entry) of
           Ok regex \<Rightarrow>
             subscribe_requests re rest
               (AList.update (sub_path entry) (regex, subscribe_fields (sub_fields entry)) valid)
         | Err _ \<Rightarrow> subscribe_requests re rest valid))"

text \<open>The closure run on each entry for one request.\<close>

fun subscribe_scan ::
  "(string \<Rightarrow> bool) \<Rightarrow> Field set \<Rightarrow> EntryReadAccess list \<Rightarrow> changes \<Rightarrow> bool \<Rightarrow> bool \<Rightarrow>
   changes \<times> bool \<times> bool" where
  "subscribe_scan regex flds [] subscribed found permission_error = (subscribed, found, permission_error)"
| "subscribe_scan regex flds (entry # rest) subscribed found permission_error =
     (if regex (md_path (era_metadata entry)) then
        (let eid = md_id (era_metadata entry);
             subscribed =
               (case map_of subscribed eid of
                  Some existing \<Rightarrow> AList.update eid (existing \<union> flds) subscribed
                | None \<Rightarrow> AList.update eid flds subscribed)
         in subscribe_scan regex flds rest subscribed True
              (permission_error \<or> \<not> is_ok (era_datapoint entry)))
      else subscribe_scan regex flds rest subscribed found permission_error)"

fun subscribe_collect ::
  "EntryReadAccess list \<Rightarrow> (string \<times> (string \<Rightarrow> bool) \<times> Field set) list \<Rightarrow> changes \<Rightarrow>
   (changes, Status) result" where
  "subscribe_collect accesses [] subscribed = Ok subscribed"
| "subscribe_collect accesses ((path, regex, flds) # rest) subscribed =
     (case subscribe_scan regex flds accesses subscribed False False of
        (subscribed, found, permission_error) \<Rightarrow>
          if \<not> found then Err St_NotFound
          else if permission_error then Err St_PermissionDenied
          else subscribe_collect accesses rest subscribed)"

definition val_subscribe ::
  "regex_engine \<Rightarrow> SystemTime \<Rightarrow> Permissions option \<Rightarrow> DataBroker \<Rightarrow> SubscribeEntry list \<Rightarrow>
   (ChangeSubscription, Status) result \<times> DataBroker" where
  "val_subscribe re now permissions broker requests =
     (case permissions of
        None \<Rightarrow> (Err St_Unauthenticated, broker)
      | Some permissions \<Rightarrow>
          if requests = [] then (Err St_InvalidArgument, broker)
          else
            (case subscribe_collect (iter_entries re now permissions (database broker))
                    (subscribe_requests re requests []) [] of
               Err status \<Rightarrow> (Err status, broker)
             | Ok subscribed \<Rightarrow>
                 (case subscribe re now permissions broker subscribed of
                    (Ok sub, broker') \<Rightarrow> (Ok sub, broker')
                  | (Err SubNotFound, broker') \<Rightarrow> (Err St_NotFound, broker')
                  | (Err SubInvalidInput, broker') \<Rightarrow> (Err St_InvalidArgument, broker')
                  | (Err SubInternalError, broker') \<Rightarrow> (Err St_Internal, broker'))))"

text \<open>The stream of responses, one per message of the channel.\<close>

definition convert_to_proto_stream ::
  "(SystemTime \<Rightarrow> Timestamp) \<Rightarrow> EntryUpdates list \<Rightarrow> (DataEntry \<times> ProtoField set) list list" where
  "convert_to_proto_stream ts_from msgs =
     map (map (\<lambda>n. (data_entry_of_update ts_from (cn_update n), proto_field ` cn_fields n))) msgs"

section \<open>What get answers\<close>

definition wants_value :: "ValidRequest \<Rightarrow> bool" where
  "wants_value req \<longleftrightarrow> PF_ActuatorTarget \<in> vr_fields req \<or> PF_Value \<in> vr_fields req"

definition selects :: "ValidRequest \<Rightarrow> EntryReadAccess \<Rightarrow> bool" where
  "selects req entry \<longleftrightarrow> vr_regex req (md_path (era_metadata entry))"

definition denied :: "ValidRequest \<Rightarrow> EntryReadAccess \<Rightarrow> bool" where
  "denied req entry \<longleftrightarrow> selects req entry \<and> wants_value req \<and> \<not> is_ok (era_datapoint entry)"

text \<open>The fields one request asks for of one entry, and all requests together.\<close>

definition granted_fields :: "EntryReadAccess \<Rightarrow> ValidRequest \<Rightarrow> ProtoField set" where
  "granted_fields entry req =
     (if selects req entry \<and>
         (PF_Metadata \<in> vr_fields req \<or> wants_value req \<and> is_ok (era_datapoint entry))
      then vr_fields req else {})"

definition entry_fields :: "ValidRequest list \<Rightarrow> EntryReadAccess \<Rightarrow> ProtoField set" where
  "entry_fields reqs entry = (\<Union>req\<in>set reqs. granted_fields entry req)"

definition answer ::
  "(SystemTime \<Rightarrow> Timestamp) \<Rightarrow> ValidRequest list \<Rightarrow> EntryReadAccess list \<Rightarrow> DataEntry list" where
  "answer ts_from reqs accesses =
     map (\<lambda>a. proto_entry_from_entry_and_fields ts_from a (entry_fields reqs a))
       (filter (\<lambda>a. entry_fields reqs a \<noteq> {}) accesses)"

text \<open>The marks a request carries after some entries have been visited.\<close>

definition marked :: "EntryReadAccess \<Rightarrow> ValidRequest \<Rightarrow> ValidRequest" where
  "marked entry req = fst (visit_request entry req {})"

lemma marked_simps [simp]:
  "vr_regex (marked a req) = vr_regex req" "vr_fields (marked a req) = vr_fields req"
  "vr_path (marked a req) = vr_path req"
  "vr_is_match (marked a req) \<longleftrightarrow> vr_is_match req \<or> selects req a"
  "vr_error (marked a req) = None \<longleftrightarrow> vr_error req = None \<and> \<not> denied req a"
  by (auto simp: marked_def visit_request_def denied_def selects_def wants_value_def Let_def
      split: result.splits)

lemma visit_request_eq:
  "visit_request a req fs = (marked a req, fs \<union> granted_fields a req)"
  by (auto simp: marked_def visit_request_def granted_fields_def selects_def wants_value_def Let_def
      split: result.splits)

lemma visit_requests_eq:
  "visit_requests a reqs fs = (map (marked a) reqs, fs \<union> entry_fields reqs a)"
  by (induction reqs arbitrary: fs) (auto simp: visit_request_eq entry_fields_def)

lemma marked_same [simp]:
  "selects (marked b req) = selects req" "denied (marked b req) = denied req"
  "granted_fields a (marked b req) = granted_fields a req"
  by (auto simp: selects_def denied_def wants_value_def granted_fields_def fun_eq_iff)

lemma entry_fields_marked [simp]: "entry_fields (map (marked b) reqs) a = entry_fields reqs a"
  by (simp add: entry_fields_def)

lemma answer_marked [simp]: "answer ts_from (map (marked b) reqs) = answer ts_from reqs"
  by (simp add: answer_def fun_eq_iff)

lemma visit_entries_eq:
  "visit_entries ts_from accesses reqs out =
     (map (\<lambda>req. foldl (\<lambda>r a. marked a r) req accesses) reqs, out @ answer ts_from reqs accesses)"
proof (induction accesses arbitrary: reqs out)
  case Nil
  then show ?case by (simp add: answer_def)
next
  case (Cons a accesses)
  then show ?case by (simp add: visit_requests_eq) (simp add: answer_def)
qed

lemma foldl_marked:
  "vr_is_match (foldl (\<lambda>r a. marked a r) req accesses) \<longleftrightarrow> vr_is_match req \<or> (\<exists>a\<in>set accesses. selects req a)"
  "vr_error (foldl (\<lambda>r a. marked a r) req accesses) = None \<longleftrightarrow>
     vr_error req = None \<and> \<not> (\<exists>a\<in>set accesses. denied req a)"
  "vr_path (foldl (\<lambda>r a. marked a r) req accesses) = vr_path req"
  by (induction accesses arbitrary: req) auto

lemma report_requests_eq:
  "report_requests reqs out errors =
     (if \<exists>r\<in>set reqs. vr_is_match r \<and> vr_error r \<noteq> None then [] else out,
      errors @ concat (map (\<lambda>r.
        if \<not> vr_is_match r then [\<lparr>err_path = vr_path r, err_code = 404, err_reason = ''not_found''\<rparr>]
        else if vr_error r \<noteq> None then [\<lparr>err_path = vr_path r, err_code = 403, err_reason = ''forbidden''\<rparr>]
        else []) reqs))"
  by (induction reqs arbitrary: out errors) auto

text \<open>The error one request leads to, from the entries alone.\<close>

definition request_error :: "EntryReadAccess list \<Rightarrow> ValidRequest \<Rightarrow> DataEntryError list" where
  "request_error accesses req =
     (if \<not> (\<exists>a\<in>set accesses. selects req a)
      then [\<lparr>err_path = vr_path req, err_code = 404, err_reason = ''not_found''\<rparr>]
      else if \<exists>a\<in>set accesses. denied req a
      then [\<lparr>err_path = vr_path req, err_code = 403, err_reason = ''forbidden''\<rparr>]
      else [])"

lemma fill_valid_requests_fresh:
  "fill_valid_requests re requested valid errors = Ok (reqs, errs) \<Longrightarrow>
   (\<And>r. r \<in> set valid \<Longrightarrow> \<not> vr_is_match r \<and> vr_error r = None) \<Longrightarrow>
   r \<in> set reqs \<Longrightarrow> \<not> vr_is_match r \<and> vr_error r = None"
  by (induction re requested valid errors rule: fill_valid_requests.induct)
    (fastforce simp: Let_def split: if_splits option.splits result.splits)+

lemma denied_selects: "denied req a \<Longrightarrow> selects req a"
  by (simp add: denied_def)

lemma val_get_eq:
  assumes "requested \<noteq> []" and fill: "fill_valid_requests re requested [] [] = Ok (reqs, errs)"
    and acc: "accesses = iter_entries re now ps (database broker)"
  shows "\<exists>resp. val_get re ts_from now (Some ps) broker requested = Ok resp \<and>
    gr_entries resp =
      (if \<exists>r\<in>set reqs. \<exists>a\<in>set accesses. denied r a then [] else answer ts_from reqs accesses) \<and>
    gr_errors resp = errs @ concat (map (request_error accesses) reqs)"
proof -
  let ?reqs = "map (\<lambda>req. foldl (\<lambda>r a. marked a r) req accesses) reqs"
  have fresh: "\<not> vr_is_match r \<and> vr_error r = None" if "r \<in> set reqs" for r
    using fill_valid_requests_fresh [OF fill] that by simp
  have none: "answer ts_from [] accesses = []" by (simp add: answer_def entry_fields_def)
  have "(\<exists>r\<in>set ?reqs. vr_is_match r \<and> vr_error r \<noteq> None) \<longleftrightarrow>
      (\<exists>r\<in>set reqs. \<exists>a\<in>set accesses. denied r a)"
    using fresh by (auto simp: foldl_marked simp del: not_None_eq dest: denied_selects)
  moreover have "concat (map (\<lambda>r.
        if \<not> vr_is_match r then [\<lparr>err_path = vr_path r, err_code = 404, err_reason = ''not_found''\<rparr>]
        else if vr_error r \<noteq> None then [\<lparr>err_path = vr_path r, err_code = 403, err_reason = ''forbidden''\<rparr>]
        else []) ?reqs) = concat (map (request_error accesses) reqs)"
    using fresh by (auto simp: foldl_marked request_error_def simp del: not_None_eq intro!: arg_cong [of _ _ concat])
  ultimately have report: "report_requests ?reqs (answer ts_from reqs accesses) errs =
      (if \<exists>r\<in>set reqs. \<exists>a\<in>set accesses. denied r a then [] else answer ts_from reqs accesses,
       errs @ concat (map (request_error accesses) reqs))"
    by (simp only: report_requests_eq)
  show ?thesis
    using report none
    by (cases "reqs = []") (simp_all add: val_get_def fill assms(1) acc [symmetric] visit_entries_eq)
qed

text \<open>An answer shows values of readable entries only, and shows them as stored.\<close>

lemma iter_entries_cases:
  assumes "a \<in> set (iter_entries re now ps db)" and "db_wf db"
  obtains e where "abs_db db (md_path (e_metadata e)) = Some e" "era_metadata a = e_metadata e"
    "can_read re now ps (md_path (e_metadata e)) = Ok () \<Longrightarrow> a = ReadEntry e"
    "can_read re now ps (md_path (e_metadata e)) \<noteq> Ok () \<Longrightarrow> \<exists>err. a = ReadErr (e_metadata e) err"
proof -
  obtain eid e where e: "(eid, e) \<in> set (entries db)" "a = new_entry_read_access re now ps e"
    using assms(1) by (auto simp: iter_entries_def)
  then have "map_of (entries db) eid = Some e" using assms(2) by (auto simp: db_wf_def)
  then have "abs_db db (md_path (e_metadata e)) = Some e" using abs_db_by_id [OF assms(2)] by blast
  then show ?thesis
    by (rule that) (simp_all add: e(2) new_entry_read_access_def can_read_eq split: if_splits)
qed

lemma answer_safe:
  assumes wf: "db_wf db" and d: "d \<in> set (answer ts_from reqs (iter_entries re now ps db))"
    and v: "de_value d \<noteq> None \<or> de_actuator_target d \<noteq> None"
  shows "can_read re now ps (de_path d) = Ok ()"
    and "\<exists>e. abs_db db (de_path d) = Some e \<and>
      (de_value d \<noteq> None \<longrightarrow> de_value d = proto_datapoint ts_from (e_datapoint e)) \<and>
      (de_actuator_target d \<noteq> None \<longrightarrow>
         (\<exists>t. e_actuator_target e = Some t \<and> de_actuator_target d = proto_datapoint ts_from t))"
proof -
  obtain a flds where a: "a \<in> set (iter_entries re now ps db)"
    and d: "d = proto_entry_from_entry_and_fields ts_from a flds"
    using d by (auto simp: answer_def)
  obtain e where e: "abs_db db (md_path (e_metadata e)) = Some e" "era_metadata a = e_metadata e"
    "can_read re now ps (md_path (e_metadata e)) = Ok () \<Longrightarrow> a = ReadEntry e"
    "can_read re now ps (md_path (e_metadata e)) \<noteq> Ok () \<Longrightarrow> \<exists>err. a = ReadErr (e_metadata e) err"
    using iter_entries_cases [OF a wf] by metis
  show c: "can_read re now ps (de_path d) = Ok ()"
  proof (rule ccontr)
    assume "can_read re now ps (de_path d) \<noteq> Ok ()"
    then obtain err where "a = ReadErr (e_metadata e) err"
      using e by (auto simp: d proto_entry_from_entry_and_fields_def)
    then show False using v by (simp add: d proto_entry_from_entry_and_fields_def split: if_splits)
  qed
  then have "a = ReadEntry e" using e by (simp add: d proto_entry_from_entry_and_fields_def)
  then show "\<exists>e. abs_db db (de_path d) = Some e \<and>
      (de_value d \<noteq> None \<longrightarrow> de_value d = proto_datapoint ts_from (e_datapoint e)) \<and>
      (de_actuator_target d \<noteq> None \<longrightarrow>
         (\<exists>t. e_actuator_target e = Some t \<and> de_actuator_target d = proto_datapoint ts_from t))"
    using e by (auto simp: d proto_entry_from_entry_and_fields_def split: if_splits option.splits)
qed

section \<open>What set can change\<close>

text \<open>The updates \<open>set\<close> builds carry values and nothing else.\<close>

definition values_only :: "EntryUpdate \<Rightarrow> bool" where
  "values_only u \<longleftrightarrow> \<not> touches_metadata u \<and> upd_allowed u = None \<and> upd_unit u = None"

lemma collect_updates_values_only:
  "collect_updates ts_into now broker requests updates errors = Ok (us, errs) \<Longrightarrow>
   (\<And>k u. (k, u) \<in> set updates \<Longrightarrow> values_only u) \<Longrightarrow> (k, u) \<in> set us \<Longrightarrow> values_only u"
proof (induction ts_into now broker requests updates errors rule: collect_updates.induct)
  case (2 ts_into now broker request requests updates errors)
  have "values_only (from_proto_entry_and_fields ts_into now entry flds)" for entry flds
    by (simp add: values_only_def from_proto_entry_and_fields_def touches_metadata_def)
  with 2 show ?case
    by (fastforce simp: Let_def split: option.splits if_splits)
qed auto

lemma values_only_metadata: "values_only u \<Longrightarrow> e_metadata (updated_entry e u) = e_metadata e"
  by (simp add: values_only_def updated_entry_def apply_update_fields diff_fields)

text \<open>A batch as a whole: a relation between an entry and its update holds along the batch.\<close>

lemma run_entry_rel:
  assumes "\<And>e. R e e" and "\<And>a b c. R a b \<Longrightarrow> R b c \<Longrightarrow> R a c"
    and "\<And>k u e db flds. (k, u) \<in> set us \<Longrightarrow> fst (update re now ps db k u) = Ok flds \<Longrightarrow>
      map_of (entries db) k = Some e \<Longrightarrow> R e (updated_entry e u)"
    and "map_of (entries db) eid = Some e"
  shows "\<exists>e'. map_of (entries (store.run re now ps db us)) eid = Some e' \<and> R e e'"
  using assms(3,4)
proof (induction us arbitrary: db e)
  case Nil
  then show ?case using assms(1) by simp
next
  case (Cons ku us)
  obtain k u where ku: "ku = (k, u)" by (cases ku)
  obtain e' where e': "map_of (entries (snd (update re now ps db k u))) eid = Some e'" "R e e'"
  proof (cases "eid = k \<and> is_ok (fst (update re now ps db k u))")
    case True
    then obtain flds where "fst (update re now ps db k u) = Ok flds" by (auto simp: is_ok_iff)
    then have "R e (updated_entry e u)" using Cons.prems(1) [of k u db flds e] Cons.prems(2) True ku by simp
    then show ?thesis using that Cons.prems(2) True by (simp add: store.upd_same)
  next
    case False
    then have "map_of (entries (snd (update re now ps db k u))) eid = Some e"
      using Cons.prems(2) by (cases "eid = k") (auto simp: store.upd_same store.upd_other)
    then show ?thesis using that assms(1) by blast
  qed
  have "\<exists>e''. map_of (entries (store.run re now ps (snd (update re now ps db k u)) us)) eid = Some e'' \<and> R e' e''"
    using Cons.prems(1) ku by (intro Cons.IH [OF _ e'(1)]) (metis list.set_intros(2))
  then show ?case using ku assms(2) [OF e'(2)] by auto
qed

lemma readonly_update_same:
  assumes "\<not> is_match re (perm_provide ps) (md_path (e_metadata e))"
    and "\<not> is_match re (perm_actuate ps) (md_path (e_metadata e))"
    and "values_only u" and "map_of (entries db) k = Some e" and "fst (update re now ps db k u) = Ok flds"
  shows "updated_entry e u = e"
proof -
  have "write_granted re ps (md_path (e_metadata e)) u"
    using assms(4,5) update_Ok [of re now ps db k u flds] by (metis prod.collapse option.inject)
  then have "upd_datapoint u = None" "upd_actuator_target u = None"
    using assms(1,2) by (auto simp: write_granted_def)
  then have "e_datapoint (updated_entry e u) = e_datapoint e"
    and "e_actuator_target (updated_entry e u) = e_actuator_target e"
    by (simp_all add: updated_entry_def apply_update_fields diff_fields)
  then show ?thesis using values_only_metadata [OF assms(3), of e]
    by (cases e; cases "updated_entry e u") simp
qed

lemma val_set_database:
  assumes "val_set re ts_into now perms broker reqs = (r, broker')"
  obtains "database broker' = database broker"
  | ps us where "perms = Some ps" "database broker' = store.run re now ps (database broker) us"
      "\<And>k u. (k, u) \<in> set us \<Longrightarrow> values_only u"
proof (cases perms)
  case (Some ps)
  show ?thesis
  proof (cases "collect_updates ts_into now broker reqs [] []")
    case (Ok p)
    obtain us errs where p: "p = (us, errs)" by (cases p)
    have "broker' = snd (update_entries re now ps broker us)"
      using assms Some Ok p by (auto simp: val_set_def split: prod.splits result.splits)
    then show ?thesis using that Some collect_updates_values_only [OF Ok [unfolded p]]
      by (metis update_entries_database empty_iff list.set(1))
  qed (use assms that Some in \<open>simp add: val_set_def\<close>)
qed (use assms that in \<open>simp add: val_set_def\<close>)

section \<open>What subscribe accepts\<close>

text \<open>A subscription under construction: distinct ids of entries that may be read.\<close>

definition readable_ids :: "EntryReadAccess list \<Rightarrow> i32 set" where
  "readable_ids accesses = {md_id (era_metadata a) |a. a \<in> set accesses \<and> is_ok (era_datapoint a)}"

lemma subscribe_scan_flags:
  "subscribe_scan regex flds accs sub found perr = (sub', found', perr') \<Longrightarrow> perr \<longrightarrow> perr'"
  by (induction regex flds accs sub found perr rule: subscribe_scan.induct)
    (auto simp: Let_def split: if_splits)

lemma subscribe_scan_ids:
  "subscribe_scan regex flds accs sub found perr = (sub', found', False) \<Longrightarrow>
   distinct (map fst sub) \<Longrightarrow>
   distinct (map fst sub') \<and> fst ` set sub' \<subseteq> fst ` set sub \<union> readable_ids accs"
proof (induction regex flds accs sub found perr rule: subscribe_scan.induct)
  case (2 regex flds a rest sub found perr)
  show ?case
  proof (cases "regex (md_path (era_metadata a))")
    case True
    let ?eid = "md_id (era_metadata a)"
    let ?sub = "case map_of sub ?eid of Some existing \<Rightarrow> AList.update ?eid (existing \<union> flds) sub
                 | None \<Rightarrow> AList.update ?eid flds sub"
    have scan: "subscribe_scan regex flds rest ?sub True (perr \<or> \<not> is_ok (era_datapoint a)) = (sub', found', False)"
      using 2(3) True by (simp add: Let_def)
    have d: "distinct (map fst ?sub)" and keys: "fst ` set ?sub = insert ?eid (fst ` set sub)"
      using 2(4) by (auto simp: distinct_update dom_update split: option.split)
    have "is_ok (era_datapoint a)" using subscribe_scan_flags [OF scan] by simp
    moreover have "distinct (map fst sub') \<and> fst ` set sub' \<subseteq> fst ` set ?sub \<union> readable_ids rest"
      using 2(1) [OF True refl refl scan d] .
    ultimately show ?thesis by (auto simp: keys readable_ids_def)
  next
    case False
    then show ?thesis using 2 by (auto simp: readable_ids_def)
  qed
qed auto

lemma subscribe_collect_ids:
  "subscribe_collect accs reqs sub = Ok sub' \<Longrightarrow> distinct (map fst sub) \<Longrightarrow>
   distinct (map fst sub') \<and> fst ` set sub' \<subseteq> fst ` set sub \<union> readable_ids accs"
proof (induction accs reqs sub rule: subscribe_collect.induct)
  case (2 accs path regex flds rest sub)
  obtain sub1 found perr where scan: "subscribe_scan regex flds accs sub False False = (sub1, found, perr)"
    by (rule prod_cases3)
  with 2(2) have flags: "perr = False" "found = True" and rest: "subscribe_collect accs rest sub1 = Ok sub'"
    by (auto split: if_splits)
  note one = subscribe_scan_ids [OF scan [unfolded flags] 2(3)]
  have "distinct (map fst sub') \<and> fst ` set sub' \<subseteq> fst ` set sub1 \<union> readable_ids accs"
    using 2(1) [OF scan [symmetric, unfolded flags] refl] rest one by simp
  with one show ?case by blast
qed auto

lemma readable_ids_iter:
  assumes "db_wf db" and "eid \<in> readable_ids (iter_entries re now ps db)"
  shows "\<exists>e. get_entry_by_id re now ps db eid = Ok e"
proof -
  obtain a where a: "a \<in> set (iter_entries re now ps db)" "is_ok (era_datapoint a)" "eid = md_id (era_metadata a)"
    using assms(2) by (auto simp: readable_ids_def)
  obtain e where e: "abs_db db (md_path (e_metadata e)) = Some e" "era_metadata a = e_metadata e"
    "can_read re now ps (md_path (e_metadata e)) \<noteq> Ok () \<Longrightarrow> \<exists>err. a = ReadErr (e_metadata e) err"
    using iter_entries_cases [OF a(1) assms(1)] by metis
  have "can_read re now ps (md_path (e_metadata e)) = Ok ()" using e a(2) by fastforce
  then show ?thesis using e a(3) abs_db_wf_path(3) [OF assms(1) e(1)]
    by (auto simp: get_entry_by_id_Ok)
qed

section \<open>Properties\<close>

text \<open>
  C36.  What \<open>get\<close> answers, in terms of the entries alone.  A request selects the entries its
  glob matches; an entry is answered with the fields of all the requests that select it and
  either ask for metadata or ask for a value the client may read; a request that selects
  nothing is a not-found error and one that selects an entry whose value is asked for but may
  not be read is a forbidden error, in which case no entry at all is answered.
\<close>

theorem get_answers:
  assumes "requested \<noteq> []" and "fill_valid_requests re requested [] [] = Ok (reqs, errs)"
  shows "\<exists>resp. val_get re ts_from now (Some ps) broker requested = Ok resp \<and>
    gr_entries resp =
      (if \<exists>r\<in>set reqs. \<exists>a\<in>set (iter_entries re now ps (database broker)). denied r a then []
       else answer ts_from reqs (iter_entries re now ps (database broker))) \<and>
    gr_errors resp = errs @ concat (map (request_error (iter_entries re now ps (database broker))) reqs)"
  using val_get_eq [OF assms refl] .

definition zero_ts :: "SystemTime \<Rightarrow> Timestamp" where
  "zero_ts t = \<lparr>ts_seconds = 0, ts_nanos = 0\<rparr>"

definition value_request :: EntryRequest where
  "value_request = \<lparr>er_path = ''A'', er_view = 1, er_fields = []\<rparr>"

lemma fill_value_request:
  "fill_valid_requests any_regex [value_request] [] [] =
     Ok ([\<lparr>vr_regex = (\<lambda>_. True), vr_fields = {PF_Path, PF_Value}, vr_path = ''A'', vr_is_match = False,
           vr_error = None\<rparr>], [])"
  by (simp add: value_request_def view_from_i32_def known_fields_def map_filter_simps
      combine_view_and_fields_def to_regex_def any_regex_def)

lemma iter_example [simp]: "iter_entries any_regex now ALLOW_ALL example_db = [ReadEntry example_entry]"
  by (simp add: iter_entries_def new_entry_read_access_def)

theorem get_answers_witness:
  "\<exists>resp. val_get any_regex zero_ts 1 (Some ALLOW_ALL) example_broker [value_request] = Ok resp \<and>
     map de_path (gr_entries resp) = [''A''] \<and> gr_errors resp = []"
  using get_answers [OF _ fill_value_request, where ts_from = zero_ts and now = 1 and ps = ALLOW_ALL
      and broker = example_broker]
  by (auto simp: answer_def entry_fields_def granted_fields_def selects_def wants_value_def denied_def
      request_error_def proto_entry_from_entry_and_fields_def)

text \<open>
  C37.  \<open>get\<close> shows the value or the target of an entry only to a client that may read its path,
  and shows what is stored.
\<close>

theorem get_is_authorized:
  assumes "db_wf (database broker)"
    and "val_get re ts_from now (Some ps) broker requested = Ok resp"
    and "d \<in> set (gr_entries resp)" and "de_value d \<noteq> None \<or> de_actuator_target d \<noteq> None"
  shows "can_read re now ps (de_path d) = Ok () \<and>
    (\<exists>e. abs_db (database broker) (de_path d) = Some e \<and>
       (de_value d \<noteq> None \<longrightarrow> de_value d = proto_datapoint ts_from (e_datapoint e)) \<and>
       (de_actuator_target d \<noteq> None \<longrightarrow>
          (\<exists>t. e_actuator_target e = Some t \<and> de_actuator_target d = proto_datapoint ts_from t)))"
proof -
  obtain reqs errs where "requested \<noteq> []" "fill_valid_requests re requested [] [] = Ok (reqs, errs)"
    using assms(2) by (auto simp: val_get_def result_bind_eq_Ok split: if_splits)
  then have "d \<in> set (answer ts_from reqs (iter_entries re now ps (database broker)))"
    using val_get_eq [of requested re reqs errs _ now ps broker ts_from, OF _ _ refl] assms(2,3)
    by (auto split: if_splits)
  then show ?thesis using answer_safe [OF assms(1) _ assms(4)] by blast
qed

definition written_broker :: DataBroker where
  "written_broker =
     example_broker\<lparr>database := set_entry example_db 0 (updated_entry example_entry (set_value 7))\<rparr>"

lemma written_db_wf: "db_wf (database written_broker)"
  using update_wf [OF example_db_wf, of any_regex 2 ALLOW_ALL 0 "set_value 7"]
  by (simp add: written_broker_def example_update)

lemma written_get:
  "\<exists>resp d. val_get any_regex zero_ts 3 (Some ALLOW_ALL) written_broker [value_request] = Ok resp \<and>
     d \<in> set (gr_entries resp) \<and> de_value d \<noteq> None \<and> de_path d = ''A''"
  using val_get_eq [OF _ fill_value_request refl, where ts_from = zero_ts and now = 3 and ps = ALLOW_ALL
      and broker = written_broker]
  by (auto simp: written_broker_def iter_entries_def new_entry_read_access_def set_entry_def
      example_updated_entry answer_def entry_fields_def granted_fields_def selects_def wants_value_def
      denied_def proto_entry_from_entry_and_fields_def proto_datapoint_def)

theorem get_is_authorized_witness:
  "can_read any_regex 3 ALLOW_ALL ''A'' = Ok ()"
  using written_get get_is_authorized [OF written_db_wf]
  by metis

text \<open>
  \<open>set\<close> never changes the metadata of an entry, whoever calls it and whatever the message
  contains, and it never removes an entry.
\<close>

theorem set_keeps_metadata:
  assumes "val_set re ts_into now perms broker requests = (r, broker')"
    and "map_of (entries (database broker)) eid = Some e"
  shows "\<exists>e'. map_of (entries (database broker')) eid = Some e' \<and> e_metadata e' = e_metadata e"
  using assms(1)
proof (cases rule: val_set_database)
  case (2 ps us)
  have "\<exists>e'. map_of (entries (store.run re now ps (database broker) us)) eid = Some e' \<and>
      e_metadata e = e_metadata e'"
    using 2(3) assms(2)
    by (intro run_entry_rel [where R = "\<lambda>a b. e_metadata a = e_metadata b"])
      (auto simp: values_only_metadata)
  then show ?thesis by (auto simp: 2(2))
qed (use assms(2) in simp)

theorem set_keeps_metadata_witness:
  "\<exists>e'. map_of (entries (database (snd (val_set any_regex (\<lambda>_. None) 1 (Some ALLOW_ALL) example_broker [])))) 0 = Some e' \<and>
     e_metadata e' = e_metadata example_entry"
  using set_keeps_metadata [of any_regex "\<lambda>_. None" 1 "Some ALLOW_ALL" example_broker "[]"
    "fst (val_set any_regex (\<lambda>_. None) 1 (Some ALLOW_ALL) example_broker [])"
    "snd (val_set any_regex (\<lambda>_. None) 1 (Some ALLOW_ALL) example_broker [])" 0 example_entry]
  by simp

text \<open>
  A client whose permissions cover neither providing nor actuating a path cannot change the
  entry at that path with \<open>set\<close>.
\<close>

theorem readonly_clients_change_nothing:
  assumes "val_set re ts_into now (Some ps) broker requests = (r, broker')"
    and "map_of (entries (database broker)) eid = Some e"
    and "\<not> is_match re (perm_provide ps) (md_path (e_metadata e))"
    and "\<not> is_match re (perm_actuate ps) (md_path (e_metadata e))"
  shows "map_of (entries (database broker')) eid = Some e"
  using assms(1)
proof (cases rule: val_set_database)
  case (2 ps' us)
  define R where "R a b \<longleftrightarrow> e_metadata a = e_metadata b \<and> (md_path (e_metadata a) = md_path (e_metadata e) \<longrightarrow> a = b)" for a b :: Entry
  have "\<exists>e'. map_of (entries (store.run re now ps (database broker) us)) eid = Some e' \<and> R e e'"
  proof (rule run_entry_rel [OF _ _ _ assms(2)])
    show "R e (updated_entry e u)"
      if "(k, u) \<in> set us" "fst (update re now ps db k u) = Ok flds" "map_of (entries db) k = Some e" for k u e db flds
      using that 2(3) readonly_update_same [of re ps e u db k now flds] assms(3,4)
      by (auto simp: R_def values_only_metadata)
    show "R a a" for a by (simp add: R_def)
    show "R a c" if "R a b" "R b c" for a b c using that unfolding R_def by metis
  qed
  then show ?thesis using 2(1,2) by (auto simp: R_def)
qed (use assms(2) in simp)

definition write_request :: SetEntry where
  "write_request =
     \<lparr>se_entry = Some \<lparr>de_path = ''A'',
        de_value = Some \<lparr>pd_timestamp = None, pd_value = Some (KV_Int32 7)\<rparr>,
        de_actuator_target = None, de_metadata = None\<rparr>,
      se_fields = [2]\<rparr>"

theorem readonly_clients_change_nothing_witness:
  "map_of (entries (database (snd (val_set any_regex (\<lambda>_. None) 1 (Some ALLOW_NONE) example_broker [write_request])))) 0 =
   Some example_entry"
  using readonly_clients_change_nothing [of any_regex "\<lambda>_. None" 1 ALLOW_NONE example_broker "[write_request]"
    "fst (val_set any_regex (\<lambda>_. None) 1 (Some ALLOW_NONE) example_broker [write_request])"
    "snd (val_set any_regex (\<lambda>_. None) 1 (Some ALLOW_NONE) example_broker [write_request])" 0 example_entry]
  by (simp add: ALLOW_NONE_def)

text \<open>
  A subscription that is accepted has at least one entry, no entry twice, and names only
  registered entries the client may read at that time; it has sent exactly one message, the
  initial notification, and it is registered with the broker, whose database is unchanged.
\<close>

theorem accepted_subscriptions:
  assumes "db_wf (database broker)" and "val_subscribe re now (Some ps) broker requests = (Ok sub, broker')"
  shows "cs_entries sub \<noteq> [] \<and> distinct (map fst (cs_entries sub)) \<and>
    (\<forall>eid\<in>fst ` set (cs_entries sub). \<exists>e. get_entry_by_id re now ps (database broker) eid = Ok e) \<and>
    ch_sent (cs_sender sub) = [initial_notifications re now ps (database broker) (cs_entries sub)] \<and>
    database broker' = database broker \<and>
    change_subscriptions (subscriptions broker') = change_subscriptions (subscriptions broker) @ [sub]"
proof -
  obtain valid where collect: "subscribe_collect (iter_entries re now ps (database broker))
      (subscribe_requests re requests []) [] = Ok valid"
    and s: "subscribe re now ps broker valid = (Ok sub, broker')"
    using assms(2)
    by (auto simp: val_subscribe_def split: if_splits result.splits prod.splits SubscriptionError.splits)
  then have o: "subscribe_open re now ps broker valid = Ok sub"
    and r: "broker' = subscribe_register broker sub"
    by (auto simp: subscribe_def split: result.splits)
  have sub: "valid \<noteq> []" "cs_entries sub = valid"
      "ch_sent (cs_sender sub) = [initial_notifications re now ps (database broker) valid]"
    using o by (auto simp: subscribe_open_def Let_def change_notify_def send_def new_channel_def split: if_splits)
  show ?thesis
    using sub subscribe_collect_ids [OF collect] readable_ids_iter [OF assms(1)]
    by (auto simp: r subscribe_register_def add_change_subscription_def)
qed

definition subscribe_request :: SubscribeEntry where
  "subscribe_request = \<lparr>sub_path = ''A'', sub_fields = [2]\<rparr>"

lemma example_subscribe:
  "val_subscribe any_regex 1 (Some ALLOW_ALL) example_broker [subscribe_request] =
     (Ok example_sub, subscribe_register example_broker example_sub)"
  by (simp add: val_subscribe_def subscribe_request_def to_regex_def any_regex_def [of "to_regex_string _"]
      field_from_i32_def subscribe_def example_subscribe_open)

theorem accepted_subscriptions_witness:
  "ch_sent (cs_sender example_sub) = [initial_notifications any_regex 1 ALLOW_ALL example_db (cs_entries example_sub)]"
  using accepted_subscriptions [OF _ example_subscribe] by simp

text \<open>
  A \<open>get\<close> for single metadata fields is answered with nothing: a request with the view
  \<open>VIEW_FIELDS\<close> and the field \<open>FIELD_METADATA_UNIT\<close> yields no entry, although the message
  builder would fill in the metadata of such a request.
\<close>

theorem metadata_fields_are_ignored:
  assumes "val_get re ts_from now (Some ps) broker [\<lparr>er_path = path, er_view = 10, er_fields = [16]\<rparr>] = Ok resp"
  shows "gr_entries resp = [] \<and>
    de_metadata (proto_entry_from_entry_and_fields ts_from a {PF_MetadataUnit}) \<noteq> None"
proof -
  obtain reqs errs where fill: "fill_valid_requests re [\<lparr>er_path = path, er_view = 10, er_fields = [16]\<rparr>] [] [] = Ok (reqs, errs)"
    using assms by (auto simp: val_get_def result_bind_eq_Ok split: if_splits)
  then have "\<forall>r\<in>set reqs. vr_fields r = {PF_MetadataUnit}"
    by (auto simp: view_from_i32_def known_fields_def map_filter_simps field_from_i32_def
        combine_view_and_fields_def split: if_splits result.splits)
  then have "entry_fields reqs a = {}" for a
    by (auto simp: entry_fields_def granted_fields_def wants_value_def)
  then have "answer ts_from reqs accesses = []" for accesses by (simp add: answer_def)
  then show ?thesis using val_get_eq [OF _ fill refl, where ts_from = ts_from and now = now and ps = ps and broker = broker] assms
    by (auto simp: proto_entry_from_entry_and_fields_def proto_metadata_def Let_def split: if_splits)
qed

lemma example_get_unit:
  "\<exists>resp. val_get any_regex zero_ts 1 (Some ALLOW_ALL) example_broker
     [\<lparr>er_path = ''A'', er_view = 10, er_fields = [16]\<rparr>] = Ok resp"
  by (simp add: val_get_def view_from_i32_def to_regex_def any_regex_def [of "to_regex_string _"] split_beta Let_def)

theorem metadata_fields_are_ignored_witness:
  "\<exists>resp. val_get any_regex zero_ts 1 (Some ALLOW_ALL) example_broker
     [\<lparr>er_path = ''A'', er_view = 10, er_fields = [16]\<rparr>] = Ok resp \<and> gr_entries resp = []"
  using example_get_unit metadata_fields_are_ignored by blast

text \<open>
  Two entries of a subscription request with the same path do not add up: the fields of
  the last one replace those of the one before.
\<close>

theorem repeated_paths_replace_fields:
  "val_subscribe re now perms broker [\<lparr>sub_path = path, sub_fields = fs\<rparr>, \<lparr>sub_path = path, sub_fields = gs\<rparr>] =
   val_subscribe re now perms broker [\<lparr>sub_path = path, sub_fields = gs\<rparr>]"
proof -
  have "subscribe_requests re [\<lparr>sub_path = path, sub_fields = fs\<rparr>, \<lparr>sub_path = path, sub_fields = gs\<rparr>] [] =
      subscribe_requests re [\<lparr>sub_path = path, sub_fields = gs\<rparr>] []"
    by (simp split: result.split)
  then show ?thesis by (simp only: val_subscribe_def list.distinct)
qed

end
