(* ===== verification/Batches.thy ===== *)
theory Batches
  imports Broker
begin

text \<open>
  What the services rely on when they turn a request into one batch of updates: the errors and
  the effect of a batch without repeated ids, path by path, and what a batch and a
  registration keep of the entries that are there.
\<close>

section \<open>Errors of a batch\<close>

lemma update_errors_distinct:
  assumes "distinct (map fst us)"
  shows "map_of (update_errors re now ps db us) eid =
    (case map_of us eid of
       Some u \<Rightarrow> (case fst (update re now ps db eid u) of Err e \<Rightarrow> Some e | Ok _ \<Rightarrow> None)
     | None \<Rightarrow> None)"
  using assms
proof (induction us arbitrary: db)
  case (Cons x us)
  obtain k w where x: "x = (k, w)" by (cases x)
  have other: "fst (update re now ps (snd (update re now ps db k w)) j u) = fst (update re now ps db j u)"
    if "j \<noteq> k" for j u
    by (rule update_local) (use store.upd_other [OF that, of re now ps db w] in simp)
  have none: "map_of us k = None" using Cons.prems by (simp add: x map_of_eq_None_iff)
  obtain r db' where u: "update re now ps db k w = (r, db')" by (cases "update re now ps db k w")
  then have "map_of (update_errors re now ps db' us) eid = (if eid = k then None else
      (case map_of us eid of
         Some u \<Rightarrow> (case fst (update re now ps db eid u) of Err e \<Rightarrow> Some e | Ok _ \<Rightarrow> None)
       | None \<Rightarrow> None))"
    using Cons.IH [of db'] Cons.prems none other [of eid] by (auto simp: x split: option.split)
  then show ?case using u update_Err [of re now ps db k w _ db']
    by (cases r) (auto simp: x)
qed simp

lemma update_errors_keys: "fst ` set (update_errors re now ps db us) \<subseteq> fst ` set us"
proof (induction us arbitrary: db)
  case (Cons x us)
  obtain k w r db' where "x = (k, w)" "update re now ps db k w = (r, db')" by (metis surj_pair)
  then show ?case using Cons.IH [of db] Cons.IH [of db'] by (cases r) auto
qed simp

lemma update_entries_result:
  "fst (update_entries re now ps broker us) =
     (if update_errors re now ps (database broker) us = [] then Ok ()
      else Err (update_errors re now ps (database broker) us))"
proof -
  obtain db changed errs where u: "apply_updates re now ps us (database broker) [] [] = (db, changed, errs)"
    by (rule prod_cases3)
  have "errs = update_errors re now ps (database broker) us"
    using apply_updates_errors [of re now ps us "database broker" "[]" "[]"] u by simp
  then show ?thesis by (simp add: update_entries_eq [OF u])
qed

section \<open>Effect of a batch\<close>

text \<open>What one update makes of an entry, whether it is accepted or not.\<close>

definition after_update ::
  "regex_engine \<Rightarrow> SystemTime \<Rightarrow> Permissions \<Rightarrow> Database \<Rightarrow> Entry \<Rightarrow> EntryUpdate \<Rightarrow> Entry" where
  "after_update re now ps db e u =
     (if is_ok (fst (update re now ps db (md_id (e_metadata e)) u)) then updated_entry e u else e)"

lemma run_paths: "path_to_id (store.run re now ps db us) = path_to_id db"
proof (induction us arbitrary: db)
  case (Cons x us)
  have "path_to_id (snd (update re now ps db (fst x) (snd x))) = path_to_id db"
    by (auto simp: update_eq split: option.split result.split)
  then show ?case using Cons by (cases x) simp
qed simp

lemmas update_entries_frame = update_entries_database run_paths run_next_id

lemma update_entries_wf:
  "db_wf (database broker) \<Longrightarrow> db_wf (database (snd (update_entries re now ps broker us)))"
  by (simp add: update_entries_database store.run_inv)

lemma batch_abs:
  assumes wf: "db_wf (database broker)" and d: "distinct (map fst us)"
  shows "abs_db (database (snd (update_entries re now ps broker us))) path =
    (case abs_db (database broker) path of
       Some e \<Rightarrow>
         Some (case map_of us (md_id (e_metadata e)) of
                 Some u \<Rightarrow> after_update re now ps (database broker) e u
               | None \<Rightarrow> e)
     | None \<Rightarrow> None)"
proof (cases "abs_db (database broker) path")
  case None
  then have "map_of (path_to_id (database broker)) path = None" using abs_db_dom [OF wf] by simp
  then show ?thesis using None by (simp add: abs_db_def update_entries_frame)
next
  case (Some e)
  note id = abs_db_wf_path [OF wf Some]
  have "map_of (entries (snd (update re now ps (database broker) (md_id (e_metadata e)) u))) (md_id (e_metadata e)) =
      Some (after_update re now ps (database broker) e u)" for u
    using store.upd_same [of re now ps "database broker" "md_id (e_metadata e)" u] id(3)
    by (simp add: after_update_def)
  then show ?thesis
    using Some id store.run_distinct [OF d, of re now ps "database broker" "md_id (e_metadata e)"]
    by (simp add: abs_db_def update_entries_frame split: option.split)
qed

section \<open>Looking up metadata\<close>

lemma get_metadata_by_path_abs:
  "get_metadata_by_path db path = map_option e_metadata (abs_db db path)"
  by (cases "map_of (path_to_id db) path") (auto simp: get_metadata_by_path_def abs_db_def get_metadata_by_id_def)

lemma get_datapoint_by_path_abs:
  assumes "db_wf (database broker)"
  shows "get_datapoint_by_path re now ps broker name =
    (case abs_db (database broker) name of
       None \<Rightarrow> Err ReadNotFound
     | Some e \<Rightarrow>
         (case can_read re now ps name of
            Ok _ \<Rightarrow> Ok (e_datapoint e)
          | Err Denied \<Rightarrow> Err ReadPermissionDenied
          | Err Expired \<Rightarrow> Err ReadPermissionExpired))"
  using assms
  by (auto simp: get_datapoint_by_path_def get_entry_by_path_abs check_eqs split: option.split)

lemma abs_db_id_inj:
  assumes "db_wf db" "abs_db db p = Some e" "abs_db db q = Some e'"
    and "md_id (e_metadata e) = md_id (e_metadata e')"
  shows "p = q"
  using abs_db_wf_path(1,3) [OF assms(1,2)] abs_db_wf_path(1,3) [OF assms(1,3)] assms(4) by (metis option.inject)

lemma get_id_by_path_abs:
  "get_id_by_path broker path = map_option (\<lambda>e. md_id (e_metadata e)) (abs_db (database broker) path)"
  by (simp add: get_id_by_path_def get_metadata_by_path_abs option.map_comp comp_def)

section \<open>Batches of one\<close>

lemma update_single:
  "fst (update_entries re now ps broker [(eid, u)]) =
     (case fst (update re now ps (database broker) eid u) of Ok _ \<Rightarrow> Ok () | Err err \<Rightarrow> Err [(eid, err)])"
  "database (snd (update_entries re now ps broker [(eid, u)])) = snd (update re now ps (database broker) eid u)"
  by (cases "update re now ps (database broker) eid u"; cases "fst (update re now ps (database broker) eid u)";
      simp add: update_entries_result update_entries_database)+

lemma write_one:
  assumes wf: "db_wf (database broker)" and e: "abs_db (database broker) path = Some e"
  shows "abs_db (database (snd (update_entries re now ps broker [(md_id (e_metadata e), u)]))) =
    (abs_db (database broker))(path \<mapsto> after_update re now ps (database broker) e u)"
proof
  fix q
  show "abs_db (database (snd (update_entries re now ps broker [(md_id (e_metadata e), u)]))) q =
    ((abs_db (database broker))(path \<mapsto> after_update re now ps (database broker) e u)) q"
    using batch_abs [OF wf, of "[(md_id (e_metadata e), u)]" re now ps q] e abs_db_id_inj [OF wf e, of q]
    by (cases "abs_db (database broker) q") auto
qed

section \<open>Filling a map in a loop\<close>

lemma map_of_foldl_update:
  "distinct (map fst kvs) \<Longrightarrow>
   map_of (foldl (\<lambda>m (k, v). AList.update k v m) acc kvs) j =
     (case map_of kvs j of Some v \<Rightarrow> Some v | None \<Rightarrow> map_of acc j)"
proof (induction kvs arbitrary: acc)
  case (Cons x kvs)
  then have "map_of kvs (fst x) = None" by (simp add: map_of_eq_None_iff)
  then show ?case using Cons by (cases x) (auto simp: update_conv' split: option.split)
qed simp

lemma map_of_map_inj:
  assumes "inj_on f (insert k (fst ` set xs))"
  shows "map_of (map (\<lambda>(k, v). (f k, g v)) xs) (f k) = map_option g (map_of xs k)"
  using assms by (induction xs) (auto simp: inj_on_def)

lemma update_errors_distinct_keys:
  "distinct (map fst us) \<Longrightarrow> distinct (map fst (update_errors re now ps db us))"
proof (induction us arbitrary: db)
  case (Cons x us)
  obtain k w r db' where x: "x = (k, w)" "update re now ps db k w = (r, db')" by (metis surj_pair)
  then show ?case
    using Cons.IH [of db] Cons.IH [of db'] Cons.prems update_errors_keys [of re now ps db us]
    by (cases r) (auto simp: image_iff)
qed simp

section \<open>Registrations\<close>

lemma add_entry_cases:
  assumes "add_entry re now ps broker name dt ct et descr allowed unit = (r, broker')"
    and wf: "db_wf (database broker)" and "unat (next_id (database broker)) + 1 < 2 ^ 32"
  shows "db_wf (database broker')"
    and "unat (next_id (database broker')) \<le> unat (next_id (database broker)) + 1"
    and "r = Ok eid \<Longrightarrow> map_of (path_to_id (database broker')) name = Some eid"
    and "r = Ok eid \<Longrightarrow> abs_db (database broker') =
      (if abs_db (database broker) name = None
       then (abs_db (database broker))(name \<mapsto> fresh_entry now eid name dt ct et descr allowed None unit)
       else abs_db (database broker))"
    and "r = Err err \<Longrightarrow> broker' = broker"
proof -
  obtain db' where a: "add re now ps (database broker) name dt ct et descr allowed None unit = (r, db')"
    and b: "broker' = broker\<lparr>database := db'\<rparr>"
    using assms(1) by (auto simp: add_entry_def split: prod.splits)
  show "db_wf (database broker')" using add_wf [OF wf assms(3), of None] a b by (metis DataBroker.select_convs(1)
      DataBroker.surjective DataBroker.update_convs(1) option.distinct(1) snd_conv)
  show "unat (next_id (database broker')) \<le> unat (next_id (database broker)) + 1"
    using add_next_id [OF assms(3), of re now ps name dt ct et descr allowed None unit] a b by simp
  show "r = Ok eid \<Longrightarrow> map_of (path_to_id (database broker')) name = Some eid"
    using a b by (auto simp: add_eq Let_def insert_entry_maps split: if_splits option.splits)
  show "r = Ok eid \<Longrightarrow> abs_db (database broker') =
      (if abs_db (database broker) name = None
       then (abs_db (database broker))(name \<mapsto> fresh_entry now eid name dt ct et descr allowed None unit)
       else abs_db (database broker))"
    using a b abs_db_dom [OF wf, of name] abs_db_insert_entry [OF wf, of name]
    by (auto simp: add_eq Let_def split: if_splits option.splits)
  show "r = Err err \<Longrightarrow> broker' = broker"
    using a b by (auto simp: add_eq Let_def split: if_splits option.splits)
qed

end
