(* ===== verification/SdvTypes.thy ===== *)
theory SdvTypes
  imports KuksaTypes
begin

text \<open>
  The messages of \<open>sdv.databroker.v1\<close> and their conversions
  (\<open>grpc/sdv_databroker_v1/conversions.rs\<close>).  The message types are those of
  \<open>proto/sdv/databroker/v1/types.proto\<close>.  A field of an enumeration type is the number it has
  on the wire; the functions \<open>..._code\<close> are the numbering of the proto file and
  \<open>..._from_i32\<close> its inverse.  Unlike \<open>kuksa.val.v1\<close>, the protocol has
  an encoding for an unavailable value, a failure.
\<close>

section \<open>Messages\<close>

datatype SdvFailure = SF_InvalidValue | SF_NotAvailable | SF_UnknownDatapoint | SF_AccessDenied | SF_InternalError

definition failure_code :: "SdvFailure \<Rightarrow> int" where
  "failure_code f =
     (case f of
        SF_InvalidValue \<Rightarrow> 0 | SF_NotAvailable \<Rightarrow> 1 | SF_UnknownDatapoint \<Rightarrow> 2
      | SF_AccessDenied \<Rightarrow> 3 | SF_InternalError \<Rightarrow> 4)"

datatype SdvValue =
    SV_Failure int
  | SV_Bool bool
  | SV_String string
  | SV_Int32 i32
  | SV_Int64 i64
  | SV_Uint32 u32
  | SV_Uint64 u64
  | SV_Float f32
  | SV_Double f64
  | SV_BoolArray "bool list"
  | SV_StringArray "string list"
  | SV_Int32Array "i32 list"
  | SV_Int64Array "i64 list"
  | SV_Uint32Array "u32 list"
  | SV_Uint64Array "u64 list"
  | SV_FloatArray "f32 list"
  | SV_DoubleArray "f64 list"

record SdvDatapoint =
  sd_timestamp :: "Timestamp option"
  sd_value :: "SdvValue option"

datatype SdvDataType =
    ST_String
  | ST_Bool
  | ST_Int8
  | ST_Int16
  | ST_Int32
  | ST_Int64
  | ST_Uint8
  | ST_Uint16
  | ST_Uint32
  | ST_Uint64
  | ST_Float
  | ST_Double
  | ST_StringArray
  | ST_BoolArray
  | ST_Int8Array
  | ST_Int16Array
  | ST_Int32Array
  | ST_Int64Array
  | ST_Uint8Array
  | ST_Uint16Array
  | ST_Uint32Array
  | ST_Uint64Array
  | ST_FloatArray
  | ST_DoubleArray

definition sdv_data_type_code :: "SdvDataType \<Rightarrow> int" where
  "sdv_data_type_code t =
     (case t of
        ST_String \<Rightarrow> 0
      | ST_Bool \<Rightarrow> 1
      | ST_Int8 \<Rightarrow> 2
      | ST_Int16 \<Rightarrow> 3
      | ST_Int32 \<Rightarrow> 4
      | ST_Int64 \<Rightarrow> 5
      | ST_Uint8 \<Rightarrow> 6
      | ST_Uint16 \<Rightarrow> 7
      | ST_Uint32 \<Rightarrow> 8
      | ST_Uint64 \<Rightarrow> 9
      | ST_Float \<Rightarrow> 10
      | ST_Double \<Rightarrow> 11
      | ST_StringArray \<Rightarrow> 20
      | ST_BoolArray \<Rightarrow> 21
      | ST_Int8Array \<Rightarrow> 22
      | ST_Int16Array \<Rightarrow> 23
      | ST_Int32Array \<Rightarrow> 24
      | ST_Int64Array \<Rightarrow> 25
      | ST_Uint8Array \<Rightarrow> 26
      | ST_Uint16Array \<Rightarrow> 27
      | ST_Uint32Array \<Rightarrow> 28
      | ST_Uint64Array \<Rightarrow> 29
      | ST_FloatArray \<Rightarrow> 30
      | ST_DoubleArray \<Rightarrow> 31)"

definition sdv_data_type_from_i32 :: "int \<Rightarrow> SdvDataType option" where
  "sdv_data_type_from_i32 n =
     map_of
       [(0, ST_String), (1, ST_Bool), (2, ST_Int8), (3, ST_Int16),
        (4, ST_Int32), (5, ST_Int64), (6, ST_Uint8), (7, ST_Uint16),
        (8, ST_Uint32), (9, ST_Uint64), (10, ST_Float), (11, ST_Double),
        (20, ST_StringArray), (21, ST_BoolArray), (22, ST_Int8Array), (23, ST_Int16Array),
        (24, ST_Int32Array), (25, ST_Int64Array), (26, ST_Uint8Array), (27, ST_Uint16Array),
        (28, ST_Uint32Array), (29, ST_Uint64Array), (30, ST_FloatArray), (31, ST_DoubleArray)] n"

datatype SdvEntryType = SE_Unspecified | SE_Sensor | SE_Actuator | SE_Attribute

definition sdv_entry_type_code :: "SdvEntryType \<Rightarrow> int" where
  "sdv_entry_type_code t =
     (case t of SE_Unspecified \<Rightarrow> 0 | SE_Sensor \<Rightarrow> 1 | SE_Actuator \<Rightarrow> 2 | SE_Attribute \<Rightarrow> 3)"

datatype SdvChangeType = SC_Static | SC_OnChange | SC_Continuous

definition sdv_change_type_code :: "SdvChangeType \<Rightarrow> int" where
  "sdv_change_type_code t = (case t of SC_Static \<Rightarrow> 0 | SC_OnChange \<Rightarrow> 1 | SC_Continuous \<Rightarrow> 2)"

definition sdv_change_type_from_i32 :: "int \<Rightarrow> SdvChangeType option" where
  "sdv_change_type_from_i32 n = map_of [(0, SC_Static), (1, SC_OnChange), (2, SC_Continuous)] n"

datatype SdvDatapointError =
  DE_UnknownDatapoint | DE_InvalidType | DE_AccessDenied | DE_InternalError | DE_OutOfBounds

definition datapoint_error_code :: "SdvDatapointError \<Rightarrow> int" where
  "datapoint_error_code e =
     (case e of
        DE_UnknownDatapoint \<Rightarrow> 0 | DE_InvalidType \<Rightarrow> 1 | DE_AccessDenied \<Rightarrow> 2
      | DE_InternalError \<Rightarrow> 3 | DE_OutOfBounds \<Rightarrow> 4)"

record SdvMetadata =
  sm_id :: i32
  sm_entry_type :: int
  sm_name :: string
  sm_data_type :: int
  sm_change_type :: int
  sm_description :: string

section \<open>Conversions\<close>

definition sdv_datapoint :: "(SystemTime \<Rightarrow> Timestamp) \<Rightarrow> Datapoint \<Rightarrow> SdvDatapoint" where
  "sdv_datapoint ts_from datapoint =
     (let value =
        (case dp_value datapoint of
           Bool v \<Rightarrow> SV_Bool v
         | String v \<Rightarrow> SV_String v
         | Int32 v \<Rightarrow> SV_Int32 v
         | Int64 v \<Rightarrow> SV_Int64 v
         | Uint32 v \<Rightarrow> SV_Uint32 v
         | Uint64 v \<Rightarrow> SV_Uint64 v
         | Float v \<Rightarrow> SV_Float v
         | Double v \<Rightarrow> SV_Double v
         | BoolArray v \<Rightarrow> SV_BoolArray v
         | StringArray v \<Rightarrow> SV_StringArray v
         | Int32Array v \<Rightarrow> SV_Int32Array v
         | Int64Array v \<Rightarrow> SV_Int64Array v
         | Uint32Array v \<Rightarrow> SV_Uint32Array v
         | Uint64Array v \<Rightarrow> SV_Uint64Array v
         | FloatArray v \<Rightarrow> SV_FloatArray v
         | DoubleArray v \<Rightarrow> SV_DoubleArray v
         | NotAvailable \<Rightarrow> SV_Failure (failure_code SF_NotAvailable))
      in \<lparr>sd_timestamp = Some (ts_from (dp_ts datapoint)), sd_value = Some value\<rparr>)"

text \<open>A column of a query response carries no time of its own, so the time of sending is used.\<close>

definition sdv_datapoint_of_field :: "(SystemTime \<Rightarrow> Timestamp) \<Rightarrow> SystemTime \<Rightarrow> string \<times> DataValue \<Rightarrow> SdvDatapoint" where
  "sdv_datapoint_of_field ts_from now query_field =
     (let value =
        (case snd query_field of
           Bool v \<Rightarrow> SV_Bool v
         | String v \<Rightarrow> SV_String v
         | Int32 v \<Rightarrow> SV_Int32 v
         | Int64 v \<Rightarrow> SV_Int64 v
         | Uint32 v \<Rightarrow> SV_Uint32 v
         | Uint64 v \<Rightarrow> SV_Uint64 v
         | Float v \<Rightarrow> SV_Float v
         | Double v \<Rightarrow> SV_Double v
         | BoolArray v \<Rightarrow> SV_BoolArray v
         | StringArray v \<Rightarrow> SV_StringArray v
         | Int32Array v \<Rightarrow> SV_Int32Array v
         | Int64Array v \<Rightarrow> SV_Int64Array v
         | Uint32Array v \<Rightarrow> SV_Uint32Array v
         | Uint64Array v \<Rightarrow> SV_Uint64Array v
         | FloatArray v \<Rightarrow> SV_FloatArray v
         | DoubleArray v \<Rightarrow> SV_DoubleArray v
         | NotAvailable \<Rightarrow> SV_Failure (failure_code SF_NotAvailable))
      in \<lparr>sd_timestamp = Some (ts_from now), sd_value = Some value\<rparr>)"

definition data_value_of_sdv :: "SdvDatapoint \<Rightarrow> DataValue" where
  "data_value_of_sdv datapoint =
     (case sd_value datapoint of
        Some value \<Rightarrow>
          (case value of
             SV_Bool v \<Rightarrow> Bool v
           | SV_String v \<Rightarrow> String v
           | SV_Int32 v \<Rightarrow> Int32 v
           | SV_Int64 v \<Rightarrow> Int64 v
           | SV_Uint32 v \<Rightarrow> Uint32 v
           | SV_Uint64 v \<Rightarrow> Uint64 v
           | SV_Float v \<Rightarrow> Float v
           | SV_Double v \<Rightarrow> Double v
           | SV_BoolArray v \<Rightarrow> BoolArray v
           | SV_StringArray v \<Rightarrow> StringArray v
           | SV_Int32Array v \<Rightarrow> Int32Array v
           | SV_Int64Array v \<Rightarrow> Int64Array v
           | SV_Uint32Array v \<Rightarrow> Uint32Array v
           | SV_Uint64Array v \<Rightarrow> Uint64Array v
           | SV_FloatArray v \<Rightarrow> FloatArray v
           | SV_DoubleArray v \<Rightarrow> DoubleArray v
           | SV_Failure _ \<Rightarrow> NotAvailable)
      | None \<Rightarrow> NotAvailable)"

definition datapoint_of_sdv :: "(Timestamp \<Rightarrow> SystemTime option) \<Rightarrow> SystemTime \<Rightarrow> SdvDatapoint \<Rightarrow> Datapoint" where
  "datapoint_of_sdv ts_into now datapoint =
     (let v = data_value_of_sdv datapoint;
          ts = (case sd_timestamp datapoint of
                  Some ts \<Rightarrow> (case ts_into ts of Some ts \<Rightarrow> ts | None \<Rightarrow> now)
                | None \<Rightarrow> now)
      in \<lparr>dp_ts = ts, dp_value = v\<rparr>)"

definition data_type_of_sdv :: "SdvDataType \<Rightarrow> DataType" where
  "data_type_of_sdv data_type =
     (case data_type of
        ST_String \<Rightarrow> T_String
      | ST_Bool \<Rightarrow> T_Bool
      | ST_Int8 \<Rightarrow> T_Int8
      | ST_Int16 \<Rightarrow> T_Int16
      | ST_Int32 \<Rightarrow> T_Int32
      | ST_Int64 \<Rightarrow> T_Int64
      | ST_Uint8 \<Rightarrow> T_Uint8
      | ST_Uint16 \<Rightarrow> T_Uint16
      | ST_Uint32 \<Rightarrow> T_Uint32
      | ST_Uint64 \<Rightarrow> T_Uint64
      | ST_Float \<Rightarrow> T_Float
      | ST_Double \<Rightarrow> T_Double
      | ST_StringArray \<Rightarrow> T_StringArray
      | ST_BoolArray \<Rightarrow> T_BoolArray
      | ST_Int8Array \<Rightarrow> T_Int8Array
      | ST_Int16Array \<Rightarrow> T_Int16Array
      | ST_Int32Array \<Rightarrow> T_Int32Array
      | ST_Int64Array \<Rightarrow> T_Int64Array
      | ST_Uint8Array \<Rightarrow> T_Uint8Array
      | ST_Uint16Array \<Rightarrow> T_Uint16Array
      | ST_Uint32Array \<Rightarrow> T_Uint32Array
      | ST_Uint64Array \<Rightarrow> T_Uint64Array
      | ST_FloatArray \<Rightarrow> T_FloatArray
      | ST_DoubleArray \<Rightarrow> T_DoubleArray)"

definition sdv_data_type :: "DataType \<Rightarrow> SdvDataType" where
  "sdv_data_type value_type =
     (case value_type of
        T_String \<Rightarrow> ST_String
      | T_Bool \<Rightarrow> ST_Bool
      | T_Int8 \<Rightarrow> ST_Int8
      | T_Int16 \<Rightarrow> ST_Int16
      | T_Int32 \<Rightarrow> ST_Int32
      | T_Int64 \<Rightarrow> ST_Int64
      | T_Uint8 \<Rightarrow> ST_Uint8
      | T_Uint16 \<Rightarrow> ST_Uint16
      | T_Uint32 \<Rightarrow> ST_Uint32
      | T_Uint64 \<Rightarrow> ST_Uint64
      | T_Float \<Rightarrow> ST_Float
      | T_Double \<Rightarrow> ST_Double
      | T_StringArray \<Rightarrow> ST_StringArray
      | T_BoolArray \<Rightarrow> ST_BoolArray
      | T_Int8Array \<Rightarrow> ST_Int8Array
      | T_Int16Array \<Rightarrow> ST_Int16Array
      | T_Int32Array \<Rightarrow> ST_Int32Array
      | T_Int64Array \<Rightarrow> ST_Int64Array
      | T_Uint8Array \<Rightarrow> ST_Uint8Array
      | T_Uint16Array \<Rightarrow> ST_Uint16Array
      | T_Uint32Array \<Rightarrow> ST_Uint32Array
      | T_Uint64Array \<Rightarrow> ST_Uint64Array
      | T_FloatArray \<Rightarrow> ST_FloatArray
      | T_DoubleArray \<Rightarrow> ST_DoubleArray)"

definition sdv_entry_type :: "EntryType \<Rightarrow> SdvEntryType" where
  "sdv_entry_type entry_type =
     (case entry_type of Sensor \<Rightarrow> SE_Sensor | Attribute \<Rightarrow> SE_Attribute | Actuator \<Rightarrow> SE_Actuator)"

definition change_type_of_sdv :: "SdvChangeType \<Rightarrow> ChangeType" where
  "change_type_of_sdv change_type =
     (case change_type of SC_OnChange \<Rightarrow> OnChange | SC_Continuous \<Rightarrow> Continuous | SC_Static \<Rightarrow> Static)"

definition sdv_metadata :: "Metadata \<Rightarrow> SdvMetadata" where
  "sdv_metadata metadata =
     \<lparr>sm_id = md_id metadata,
      sm_entry_type = sdv_entry_type_code (sdv_entry_type (md_entry_type metadata)),
      sm_name = md_path metadata,
      sm_data_type = sdv_data_type_code (sdv_data_type (md_data_type metadata)),
      sm_change_type = sdv_change_type_code SC_Continuous,
      sm_description = md_description metadata\<rparr>"

definition datapoint_error :: "UpdateError \<Rightarrow> SdvDatapointError" where
  "datapoint_error error =
     (case error of
        NotFound \<Rightarrow> DE_UnknownDatapoint
      | WrongType \<Rightarrow> DE_InvalidType
      | UnsupportedType \<Rightarrow> DE_InvalidType
      | OutOfBounds \<Rightarrow> DE_OutOfBounds
      | PermissionDenied \<Rightarrow> DE_AccessDenied
      | PermissionExpired \<Rightarrow> DE_AccessDenied)"

section \<open>Round trips\<close>

lemma sdv_value_round_trip: "data_value_of_sdv (sdv_datapoint ts_from d) = dp_value d"
  by (cases "dp_value d") (simp_all add: sdv_datapoint_def data_value_of_sdv_def)

lemma sdv_field_round_trip: "data_value_of_sdv (sdv_datapoint_of_field ts_from now (name, v)) = v"
  by (cases v) (simp_all add: sdv_datapoint_of_field_def data_value_of_sdv_def)

lemma sdv_datapoint_timestamp [simp]: "sd_timestamp (sdv_datapoint ts_from d) = Some (ts_from (dp_ts d))"
  by (simp add: sdv_datapoint_def)

interpretation sdv_codec: datapoint_codec
  "\<lambda>d. Some (sdv_datapoint ts_from d)" "datapoint_of_sdv ts_into now" "timestamp_carried ts_from ts_into"
  for ts_from ts_into now
  by unfold_locales
    (auto simp: datapoint_of_sdv_def timestamp_carried_def sdv_value_round_trip)

lemma sdv_data_type_round_trip:
  "map_option data_type_of_sdv (sdv_data_type_from_i32 (sdv_data_type_code (sdv_data_type t))) = Some t"
  by (cases t)
    (simp_all add: sdv_data_type_from_i32_def sdv_data_type_code_def sdv_data_type_def data_type_of_sdv_def)

section \<open>Properties\<close>

text \<open>
  C39.  Both protocols carry datapoints and data types faithfully.  A datapoint whose time stamp
  survives the conversion to a protobuf time stamp comes back from \<open>sdv.databroker.v1\<close> as
  itself, an unavailable one included, and from \<open>kuksa.val.v1\<close> whenever its value is
  available; only an unavailable value has no message there.  The number on the wire determines
  the data type in the first and different types have different messages in the second.
\<close>

theorem codec_round_trips:
  assumes "ts_into (ts_from (dp_ts d)) = Some (dp_ts d)"
  shows "datapoint_of_sdv ts_into now (sdv_datapoint ts_from d) = d \<and>
    data_value_of_sdv (sdv_datapoint_of_field ts_from now (name, dp_value d)) = dp_value d \<and>
    (case proto_datapoint ts_from d of
       Some p \<Rightarrow> datapoint_of_proto ts_into now p = d
     | None \<Rightarrow> dp_value d = NotAvailable) \<and>
    map_option data_type_of_sdv (sdv_data_type_from_i32 (sdv_data_type_code (sdv_data_type t))) = Some t \<and>
    (proto_data_type t = proto_data_type u \<longleftrightarrow> t = u)"
  using assms sdv_codec.dec_enc [of ts_from ts_into d _ now] kuksa_codec.dec_enc [of ts_from ts_into d _ now]
    sdv_field_round_trip sdv_data_type_round_trip proto_data_type_inj
  by (auto simp: timestamp_carried_def split: option.split)

theorem codec_round_trips_witness:
  "datapoint_of_sdv (\<lambda>t. Some (uint (ts_seconds t))) 8
     (sdv_datapoint (\<lambda>t. \<lparr>ts_seconds = word_of_int t, ts_nanos = 0\<rparr>) \<lparr>dp_ts = 3, dp_value = NotAvailable\<rparr>) =
   \<lparr>dp_ts = 3, dp_value = NotAvailable\<rparr>"
  using codec_round_trips [of "\<lambda>t. Some (uint (ts_seconds t))"
    "\<lambda>t. \<lparr>ts_seconds = word_of_int t, ts_nanos = 0\<rparr>" "\<lparr>dp_ts = 3, dp_value = NotAvailable\<rparr>" 8]
  by simp

end
