(* ===== verification/Sdv.thy ===== *)
theory Sdv
  imports Batches SdvTypes Val
begin

text \<open>
  The services \<open>sdv.databroker.v1.Broker\<close> and \<open>Collector\<close>
  (\<open>grpc/sdv_databroker_v1/broker.rs\<close> and \<open>collector.rs\<close>).  A map in a message is the
  association list of one iteration order, with distinct keys.  Indexing a \<open>HashMap\<close> with a
  missing key panics; \<open>H_Panic\<close> is the value of a handler that would, so that it can be shown
  never to.
\<close>

datatype handler_error = H_Status Status | H_Panic

section \<open>The broker service: get and set\<close>

definition read_failure :: "ReadError \<Rightarrow> SdvDatapoint" where
  "read_failure err =
     \<lparr>sd_timestamp = None,
      sd_value = Some (SV_Failure (failure_code
        (case err of
           ReadNotFound \<Rightarrow> SF_UnknownDatapoint
         | ReadPermissionDenied \<Rightarrow> SF_AccessDenied
         | ReadPermissionExpired \<Rightarrow> SF_AccessDenied)))\<rparr>"

fun get_each ::
  "regex_engine \<Rightarrow> (SystemTime \<Rightarrow> Timestamp) \<Rightarrow> SystemTime \<Rightarrow> Permissions \<Rightarrow> DataBroker \<Rightarrow>
   string list \<Rightarrow> (string \<times> SdvDatapoint) list \<Rightarrow> (string \<times> SdvDatapoint) list" where
  "get_each re ts_from now permissions broker [] datapoints = datapoints"
| "get_each re ts_from now permissions broker (name # names) datapoints =
     get_each re ts_from now permissions broker names
       (case get_datapoint_by_path re now permissions broker name of
          Ok datapoint \<Rightarrow> AList.update name (sdv_datapoint ts_from datapoint) datapoints
        | Err err \<Rightarrow> AList.update name (read_failure err) datapoints)"

definition sdv_get_datapoints ::
  "regex_engine \<Rightarrow> (SystemTime \<Rightarrow> Timestamp) \<Rightarrow> SystemTime \<Rightarrow> Permissions option \<Rightarrow> DataBroker \<Rightarrow>
   string list \<Rightarrow> ((string \<times> SdvDatapoint) list, Status) result" where
  "sdv_get_datapoints re ts_from now permissions broker names =
     (case permissions of
        None \<Rightarrow> Err St_Unauthenticated
      | Some permissions \<Rightarrow>
          if names = [] then Err St_InvalidArgument
          else Ok (get_each re ts_from now permissions broker names []))"

text \<open>The loop of \<open>set_datapoints\<close> that looks the paths up.\<close>

fun set_collect ::
  "(Timestamp \<Rightarrow> SystemTime option) \<Rightarrow> SystemTime \<Rightarrow> DataBroker \<Rightarrow> (string \<times> SdvDatapoint) list \<Rightarrow>
   (i32 \<times> EntryUpdate) list \<Rightarrow> (i32 \<times> string) list \<Rightarrow> (string \<times> int) list \<Rightarrow>
   (i32 \<times> EntryUpdate) list \<times> (i32 \<times> string) list \<times> (string \<times> int) list" where
  "set_collect ts_into now broker [] ids id_to_path errors = (ids, id_to_path, errors)"
| "set_collect ts_into now broker ((path, datapoint) # rest) ids id_to_path errors =
     (case get_metadata_by_path (database broker) path of
        Some metadata \<Rightarrow>
          (case md_entry_type metadata of
             Actuator \<Rightarrow>
               set_collect ts_into now broker rest
                 (ids @ [(md_id metadata, default_update\<lparr>upd_actuator_target :=
                    Some (Some (datapoint_of_sdv ts_into now datapoint))\<rparr>)])
                 (AList.update (md_id metadata) path id_to_path) errors
           | _ \<Rightarrow>
               set_collect ts_into now broker rest ids (AList.update (md_id metadata) path id_to_path)
                 (AList.update path (datapoint_error_code DE_AccessDenied) errors))
      | None \<Rightarrow>
          set_collect ts_into now broker rest ids id_to_path
            (AList.update path (datapoint_error_code DE_UnknownDatapoint) errors))"

fun extend_errors ::
  "(i32 \<times> string) list \<Rightarrow> (i32 \<times> UpdateError) list \<Rightarrow> (string \<times> int) list \<Rightarrow> (string \<times> int) list option" where
  "extend_errors id_to_path [] errors = Some errors"
| "extend_errors id_to_path ((eid, error) # rest) errors =
     (case map_of id_to_path eid of
        Some path \<Rightarrow>
          extend_errors id_to_path rest
            (AList.update path (datapoint_error_code (datapoint_error error)) errors)
      | None \<Rightarrow> None)"

definition sdv_set_datapoints ::
  "regex_engine \<Rightarrow> (Timestamp \<Rightarrow> SystemTime option) \<Rightarrow> SystemTime \<Rightarrow> Permissions option \<Rightarrow> DataBroker \<Rightarrow>
   (string \<times> SdvDatapoint) list \<Rightarrow> ((string \<times> int) list, handler_error) result \<times> DataBroker" where
  "sdv_set_datapoints re ts_into now permissions broker datapoints =
     (case permissions of
        None \<Rightarrow> (Err (H_Status St_Unauthenticated), broker)
      | Some permissions \<Rightarrow>
          (case set_collect ts_into now broker datapoints [] [] [] of
             (ids, id_to_path, errors) \<Rightarrow>
               (case update_entries re now permissions broker ids of
                  (Ok _, broker') \<Rightarrow> (Ok errors, broker')
                | (Err err, broker') \<Rightarrow>
                    (case extend_errors id_to_path err errors of
                       Some errors \<Rightarrow> (Ok errors, broker')
                     | None \<Rightarrow> (Err H_Panic, broker')))))"

section \<open>The broker service: subscribe and metadata\<close>

definition sdv_stream_item ::
  "(SystemTime \<Rightarrow> Timestamp) \<Rightarrow> SystemTime \<Rightarrow> QueryResponse \<Rightarrow> (string \<times> SdvDatapoint) list" where
  "sdv_stream_item ts_from now item =
     foldl (\<lambda>datapoints field. AList.update (fst field) (sdv_datapoint_of_field ts_from now field) datapoints)
       [] item"

definition sdv_subscribe ::
  "(string \<Rightarrow> sql_statement list option) \<Rightarrow> regex_engine \<Rightarrow> SystemTime \<Rightarrow> Permissions option \<Rightarrow>
   DataBroker \<Rightarrow> string \<Rightarrow> (QuerySubscription, Status) result \<times> DataBroker" where
  "sdv_subscribe parse_sql re now permissions broker query =
     (case permissions of
        None \<Rightarrow> (Err St_Unauthenticated, broker)
      | Some permissions \<Rightarrow>
          (case subscribe_query parse_sql re now permissions broker query of
             (Ok stream, broker') \<Rightarrow> (Ok stream, broker')
           | (Err _, broker') \<Rightarrow> (Err St_InvalidArgument, broker')))"

definition sdv_get_metadata ::
  "regex_engine \<Rightarrow> SystemTime \<Rightarrow> Permissions option \<Rightarrow> DataBroker \<Rightarrow> string list \<Rightarrow>
   (SdvMetadata list, Status) result" where
  "sdv_get_metadata re now permissions broker names =
     (case permissions of
        None \<Rightarrow> Err St_Unauthenticated
      | Some permissions \<Rightarrow>
          Ok (if names = [] then
                map_entries re now permissions broker (\<lambda>entry. sdv_metadata (era_metadata entry))
              else
                map sdv_metadata (List.map_filter (get_metadata_by_path (database broker)) names)))"

section \<open>The collector service\<close>

definition datapoint_updates ::
  "(Timestamp \<Rightarrow> SystemTime option) \<Rightarrow> SystemTime \<Rightarrow> (i32 \<times> SdvDatapoint) list \<Rightarrow> (i32 \<times> EntryUpdate) list" where
  "datapoint_updates ts_into now datapoints =
     map (\<lambda>(eid, datapoint).
       (eid, default_update\<lparr>upd_datapoint := Some (datapoint_of_sdv ts_into now datapoint)\<rparr>)) datapoints"

definition error_map :: "(i32 \<times> UpdateError) list \<Rightarrow> (i32 \<times> int) list" where
  "error_map err =
     foldl (\<lambda>errors (eid, error). AList.update eid (datapoint_error_code (datapoint_error error)) errors) [] err"

definition sdv_update_datapoints ::
  "regex_engine \<Rightarrow> (Timestamp \<Rightarrow> SystemTime option) \<Rightarrow> SystemTime \<Rightarrow> Permissions option \<Rightarrow> DataBroker \<Rightarrow>
   (i32 \<times> SdvDatapoint) list \<Rightarrow> ((i32 \<times> int) list, Status) result \<times> DataBroker" where
  "sdv_update_datapoints re ts_into now permissions broker datapoints =
     (case permissions of
        None \<Rightarrow> (Err St_Unauthenticated, broker)
      | Some permissions \<Rightarrow>
          (case update_entries re now permissions broker (datapoint_updates ts_into now datapoints) of
             (Ok _, broker') \<Rightarrow> (Ok [], broker')
           | (Err err, broker') \<Rightarrow> (Ok (error_map err), broker')))"

text \<open>
  The task behind \<open>stream_datapoints\<close>: what it selects in each round of its loop, the arrival of
  a message (with the time it is handled), the end of the stream, a broken connection or the
  shutdown signal.  Errors go back over a channel whose failure is only logged.
\<close>

datatype stream_input =
  SI_Message SystemTime "(i32 \<times> SdvDatapoint) list" | SI_End | SI_Broken | SI_Shutdown

definition stream_message ::
  "regex_engine \<Rightarrow> (Timestamp \<Rightarrow> SystemTime option) \<Rightarrow> Permissions \<Rightarrow> SystemTime \<Rightarrow> (i32 \<times> SdvDatapoint) list \<Rightarrow>
   DataBroker \<Rightarrow> (i32 \<times> int) list channel \<Rightarrow> DataBroker \<times> (i32 \<times> int) list channel" where
  "stream_message re ts_into permissions now datapoints broker error_sender =
     (case update_entries re now permissions broker (datapoint_updates ts_into now datapoints) of
        (Ok _, broker') \<Rightarrow> (broker', error_sender)
      | (Err err, broker') \<Rightarrow> (broker', snd (send error_sender (error_map err))))"

fun stream_loop ::
  "regex_engine \<Rightarrow> (Timestamp \<Rightarrow> SystemTime option) \<Rightarrow> Permissions \<Rightarrow> stream_input list \<Rightarrow>
   DataBroker \<Rightarrow> (i32 \<times> int) list channel \<Rightarrow> DataBroker \<times> (i32 \<times> int) list channel" where
  "stream_loop re ts_into permissions [] broker error_sender = (broker, error_sender)"
| "stream_loop re ts_into permissions (SI_Message now datapoints # rest) broker error_sender =
     (case stream_message re ts_into permissions now datapoints broker error_sender of
        (broker, error_sender) \<Rightarrow> stream_loop re ts_into permissions rest broker error_sender)"
| "stream_loop re ts_into permissions (SI_End # rest) broker error_sender = (broker, error_sender)"
| "stream_loop re ts_into permissions (SI_Broken # rest) broker error_sender = (broker, error_sender)"
| "stream_loop re ts_into permissions (SI_Shutdown # rest) broker error_sender = (broker, error_sender)"

definition sdv_stream_datapoints ::
  "regex_engine \<Rightarrow> (Timestamp \<Rightarrow> SystemTime option) \<Rightarrow> Permissions option \<Rightarrow> stream_input list \<Rightarrow>
   DataBroker \<Rightarrow> ((i32 \<times> int) list channel, Status) result \<times> DataBroker" where
  "sdv_stream_datapoints re ts_into permissions inputs broker =
     (case permissions of
        None \<Rightarrow> (Err St_Unauthenticated, broker)
      | Some permissions \<Rightarrow>
          (case stream_loop re ts_into permissions inputs broker new_channel of
             (broker', error_sender) \<Rightarrow> (Ok error_sender, broker')))"

record RegistrationMetadata =
  rm_name :: string
  rm_data_type :: int
  rm_description :: string
  rm_change_type :: int

fun register_each ::
  "regex_engine \<Rightarrow> SystemTime \<Rightarrow> Permissions \<Rightarrow> RegistrationMetadata list \<Rightarrow> DataBroker \<Rightarrow>
   (string \<times> i32) list \<Rightarrow> ((string \<times> i32) list, Status) result \<times> DataBroker" where
  "register_each re now permissions [] broker results = (Ok results, broker)"
| "register_each re now permissions (metadata # rest) broker results =
     (case (sdv_data_type_from_i32 (rm_data_type metadata),
            sdv_change_type_from_i32 (rm_change_type metadata)) of
        (Some value_type, Some change_type) \<Rightarrow>
          (case add_entry re now permissions broker (rm_name metadata) (data_type_of_sdv value_type)
                  (change_type_of_sdv change_type) Sensor (rm_description metadata) None None of
             (Ok eid, broker') \<Rightarrow>
               register_each re now permissions rest broker' (AList.update (rm_name metadata) eid results)
           | (Err RegPermissionDenied, broker') \<Rightarrow> (Err St_PermissionDenied, broker')
           | (Err RegPermissionExpired, broker') \<Rightarrow> (Err St_Unauthenticated, broker')
           | (Err ValidationError, broker') \<Rightarrow> (Err St_InvalidArgument, broker'))
      | _ \<Rightarrow> (Err St_InvalidArgument, broker))"

definition sdv_register_datapoints ::
  "regex_engine \<Rightarrow> SystemTime \<Rightarrow> Permissions option \<Rightarrow> DataBroker \<Rightarrow> RegistrationMetadata list \<Rightarrow>
   ((string \<times> i32) list, Status) result \<times> DataBroker" where
  "sdv_register_datapoints re now permissions broker metadata =
     (case permissions of
        None \<Rightarrow> (Err St_Unauthenticated, broker)
      | Some permissions \<Rightarrow> register_each re now permissions metadata broker [])"

section \<open>Reading\<close>

lemma get_each_lookup:
  "map_of (get_each re ts_from now ps broker names acc) name =
     (if name \<in> set names then
        Some (case get_datapoint_by_path re now ps broker name of
                Ok d \<Rightarrow> sdv_datapoint ts_from d | Err err \<Rightarrow> read_failure err)
      else map_of acc name)"
  by (induction names arbitrary: acc) (auto simp: update_conv' split: result.splits)

section \<open>Setting targets\<close>

text \<open>The update that \<open>set_datapoints\<close> makes for a path, if it makes one.\<close>

definition target_update ::
  "(Timestamp \<Rightarrow> SystemTime option) \<Rightarrow> SystemTime \<Rightarrow> SdvDatapoint \<Rightarrow> EntryUpdate" where
  "target_update ts_into now d =
     default_update\<lparr>upd_actuator_target := Some (Some (datapoint_of_sdv ts_into now d))\<rparr>"

definition settable :: "Database \<Rightarrow> string \<Rightarrow> Entry option" where
  "settable db path =
     (case abs_db db path of
        Some e \<Rightarrow> if md_entry_type (e_metadata e) = Actuator then Some e else None
      | None \<Rightarrow> None)"

definition refusal :: "Database \<Rightarrow> string \<Rightarrow> int option" where
  "refusal db path =
     (case abs_db db path of
        Some e \<Rightarrow>
          if md_entry_type (e_metadata e) = Actuator then None
          else Some (datapoint_error_code DE_AccessDenied)
      | None \<Rightarrow> Some (datapoint_error_code DE_UnknownDatapoint))"

lemma set_collect_errors:
  "distinct (map fst dps) \<Longrightarrow> set_collect ts_into now broker dps ids itp errors = (ids', itp', errors') \<Longrightarrow>
   map_of errors' path =
     (if path \<in> fst ` set dps \<and> refusal (database broker) path \<noteq> None
      then refusal (database broker) path else map_of errors path)"
  by (induction ts_into now broker dps ids itp errors rule: set_collect.induct)
    (auto simp: get_metadata_by_path_abs refusal_def update_conv' split: option.splits EntryType.splits if_splits)

lemma set_collect_ids:
  "set_collect ts_into now broker dps ids itp errors = (ids', itp', errors') \<Longrightarrow>
   ids' = ids @ List.map_filter (\<lambda>(path, d).
     map_option (\<lambda>e. (md_id (e_metadata e), target_update ts_into now d)) (settable (database broker) path)) dps"
  by (induction ts_into now broker dps ids itp errors rule: set_collect.induct)
    (auto simp: get_metadata_by_path_abs settable_def target_update_def map_filter_simps
      split: option.splits EntryType.splits if_splits)

lemma set_collect_paths:
  "set_collect ts_into now broker dps ids itp errors = (ids', itp', errors') \<Longrightarrow>
   db_wf (database broker) \<Longrightarrow> abs_db (database broker) path = Some e \<Longrightarrow>
   path \<in> fst ` set dps \<or> map_of itp (md_id (e_metadata e)) = Some path \<Longrightarrow>
   map_of itp' (md_id (e_metadata e)) = Some path"
proof (induction dps arbitrary: ids itp errors)
  case (Cons x dps)
  obtain p d where x: "x = (p, d)" by (cases x)
  show ?case
  proof (cases "abs_db (database broker) p")
    case None
    then show ?thesis using Cons by (auto simp: x get_metadata_by_path_abs)
  next
    case (Some e')
    have same: "p = path" if "md_id (e_metadata e') = md_id (e_metadata e)"
      using abs_db_id_inj [OF Cons.prems(2) Some Cons.prems(3) that] .
    obtain ids2 errors2 where "set_collect ts_into now broker dps ids2
        (AList.update (md_id (e_metadata e')) p itp) errors2 = (ids', itp', errors')"
      using Cons.prems(1) Some by (auto simp: x get_metadata_by_path_abs split: EntryType.splits)
    then show ?thesis
      by (rule Cons.IH) (use Cons.prems same Some in \<open>auto simp: x update_conv'\<close>)
  qed
qed simp

lemma extend_errors_eq:
  "fst ` set errs \<subseteq> dom (map_of itp) \<Longrightarrow>
   extend_errors itp errs errors =
     Some (foldl (\<lambda>m (k, v). AList.update k v m) errors
       (map (\<lambda>(eid, err). (the (map_of itp eid), datapoint_error_code (datapoint_error err))) errs))"
  by (induction itp errs errors rule: extend_errors.induct) auto

lemma map_filter_keys:
  "k \<in> fst ` set (List.map_filter (\<lambda>(p, d). map_option (\<lambda>e. (g e, h d)) (f p)) dps) \<Longrightarrow>
   \<exists>p e. p \<in> fst ` set dps \<and> f p = Some e \<and> k = g e"
  by (induction dps) (auto simp: map_filter_simps split: option.splits)

lemma map_filter_lookup:
  assumes "\<And>p q e e'. f p = Some e \<Longrightarrow> f q = Some e' \<Longrightarrow> g e = g e' \<Longrightarrow> p = q" and "f p = Some e"
  shows "map_of (List.map_filter (\<lambda>(p, d). map_option (\<lambda>e. (g e, h d)) (f p)) dps) (g e) =
    map_option h (map_of dps p)"
  using assms by (induction dps) (auto simp: map_filter_simps split: option.splits)

lemma map_filter_distinct:
  assumes "\<And>p q e e'. f p = Some e \<Longrightarrow> f q = Some e' \<Longrightarrow> g e = g e' \<Longrightarrow> p = q" and "distinct (map fst dps)"
  shows "distinct (map fst (List.map_filter (\<lambda>(p, d). map_option (\<lambda>e. (g e, h d)) (f p)) dps))"
  using assms(2)
proof (induction dps)
  case (Cons x dps)
  have "g e \<notin> fst ` set (List.map_filter (\<lambda>(p, d). map_option (\<lambda>e. (g e, h d)) (f p)) dps)"
    if "f (fst x) = Some e" for e
    using Cons.prems assms(1) [OF that] map_filter_keys [of "g e" g h f dps] by auto
  then show ?case using Cons by (cases x) (simp add: map_filter_simps split: option.splits)
qed (simp add: map_filter_simps)

lemma settable_inj:
  "db_wf db \<Longrightarrow> settable db p = Some e \<Longrightarrow> settable db q = Some e' \<Longrightarrow>
   md_id (e_metadata e) = md_id (e_metadata e') \<Longrightarrow> p = q"
  by (auto simp: settable_def intro: abs_db_id_inj split: option.splits if_splits)

lemma settable_SomeD: "settable db p = Some e \<Longrightarrow> abs_db db p = Some e"
  by (auto simp: settable_def split: option.splits if_splits)

text \<open>What \<open>set_datapoints\<close> reports for a path of the request.\<close>

definition set_report ::
  "regex_engine \<Rightarrow> (Timestamp \<Rightarrow> SystemTime option) \<Rightarrow> SystemTime \<Rightarrow> Permissions \<Rightarrow> Database \<Rightarrow> string \<Rightarrow>
   SdvDatapoint \<Rightarrow> int option" where
  "set_report re ts_into now ps db path d =
     (case abs_db db path of
        None \<Rightarrow> Some (datapoint_error_code DE_UnknownDatapoint)
      | Some e \<Rightarrow>
          if md_entry_type (e_metadata e) \<noteq> Actuator then Some (datapoint_error_code DE_AccessDenied)
          else (case fst (update re now ps db (md_id (e_metadata e)) (target_update ts_into now d)) of
              Ok _ \<Rightarrow> None
            | Err err \<Rightarrow> Some (datapoint_error_code (datapoint_error err))))"

lemma set_report_eq:
  "set_report re ts_into now ps db path d =
     (case settable db path of
        Some e \<Rightarrow>
          (case fst (update re now ps db (md_id (e_metadata e)) (target_update ts_into now d)) of
             Ok _ \<Rightarrow> None | Err err \<Rightarrow> Some (datapoint_error_code (datapoint_error err)))
      | None \<Rightarrow> refusal db path)"
  "settable db path = Some e \<Longrightarrow> refusal db path = None"
  by (cases "abs_db db path"; auto simp: set_report_def settable_def refusal_def split: if_splits)+

lemma set_errors_lookup:
  assumes wf: "db_wf (database broker)" and d: "distinct (map fst dps)"
    and c: "set_collect ts_into now broker dps [] [] [] = (ids, itp, errors)"
    and errs: "errs = update_errors re now ps (database broker) ids"
  shows "\<exists>errors'. extend_errors itp errs errors = Some errors' \<and>
    (\<forall>path. map_of errors' path =
       Option.bind (map_of dps path) (set_report re ts_into now ps (database broker) path))"
proof -
  let ?db = "database broker"
  let ?key = "\<lambda>eid. the (map_of itp eid)"
  note ids = set_collect_ids [OF c, simplified]
  note inj = settable_inj [OF wf]
  have dist: "distinct (map fst ids)"
    unfolding ids by (rule map_filter_distinct [OF inj d])
  have keys: "\<exists>p e. p \<in> fst ` set dps \<and> settable ?db p = Some e \<and> eid = md_id (e_metadata e) \<and>
      map_of itp eid = Some p" if "eid \<in> fst ` set errs" for eid
  proof -
    have "eid \<in> fst ` set ids" using that update_errors_keys unfolding errs by blast
    from map_filter_keys [OF this [unfolded ids]]
    obtain p e where "p \<in> fst ` set dps" "settable ?db p = Some e" "eid = md_id (e_metadata e)"
      by blast
    moreover have "map_of itp eid = Some p"
      using set_collect_paths [OF c wf settable_SomeD] calculation by blast
    ultimately show ?thesis by blast
  qed
  then have "fst ` set errs \<subseteq> dom (map_of itp)" by blast
  note ext = extend_errors_eq [OF this, of errors]
  let ?K = "{eid. \<exists>p e. settable ?db p = Some e \<and> eid = md_id (e_metadata e) \<and> map_of itp eid = Some p}"
  have inj_K: "inj_on ?key ?K" by (rule inj_onI) auto
  have sub_K: "fst ` set errs \<subseteq> ?K" using keys by blast
  let ?kvs = "map (\<lambda>(eid, err). (?key eid, datapoint_error_code (datapoint_error err))) errs"
  have "distinct (map fst errs)" unfolding errs by (rule update_errors_distinct_keys [OF dist])
  moreover have "map fst ?kvs = map ?key (map fst errs)" by auto
  ultimately have "distinct (map fst ?kvs)" using inj_on_subset [OF inj_K sub_K] by (simp only: distinct_map set_map simp_thms)
  note lookup = map_of_foldl_update [OF this, of errors]
  have "(case map_of ?kvs path of Some v \<Rightarrow> Some v | None \<Rightarrow> map_of errors path) =
      Option.bind (map_of dps path) (set_report re ts_into now ps ?db path)" for path
  proof (cases "path \<in> fst ` set dps \<and> settable ?db path \<noteq> None")
    case True
    then obtain e dp where e: "settable ?db path = Some e" and dp: "map_of dps path = Some dp"
      by (metis map_of_eq_None_iff option.exhaust)
    let ?eid = "md_id (e_metadata e)"
    have itp: "map_of itp ?eid = Some path" using set_collect_paths [OF c wf settable_SomeD [OF e]] True by blast
    then have key: "?key ?eid = path" by simp
    have "insert ?eid (fst ` set errs) \<subseteq> ?K" using sub_K e itp by blast
    then have "inj_on ?key (insert ?eid (fst ` set errs))" by (rule inj_on_subset [OF inj_K])
    from map_of_map_inj [OF this, of "\<lambda>err. datapoint_error_code (datapoint_error err)"]
    have "map_of ?kvs path = map_option (\<lambda>err. datapoint_error_code (datapoint_error err)) (map_of errs ?eid)"
      by (simp add: key)
    moreover have "map_of ids ?eid = map_option (target_update ts_into now) (map_of dps path)"
      unfolding ids by (rule map_filter_lookup [of "settable ?db", OF inj e])
    ultimately show ?thesis
      using set_collect_errors [OF d c, of path] e dp
      by (auto simp: errs update_errors_distinct [OF dist] set_report_eq split: result.split)
  next
    case False
    have "path \<notin> fst ` set ?kvs" using keys False by force
    then have "map_of ?kvs path = None" by (simp only: map_of_eq_None_iff simp_thms)
    moreover have "map_of dps path = None \<longleftrightarrow> path \<notin> fst ` set dps" by (rule map_of_eq_None_iff)
    ultimately show ?thesis
      using set_collect_errors [OF d c, of path] False
      by (cases "map_of dps path") (auto simp: set_report_eq)
  qed
  then show ?thesis using ext lookup by auto
qed

lemma sdv_set_eq:
  assumes wf: "db_wf (database broker)" and d: "distinct (map fst dps)"
    and c: "set_collect ts_into now broker dps [] [] [] = (ids, itp, errors)"
  shows "snd (sdv_set_datapoints re ts_into now (Some ps) broker dps) =
      snd (update_entries re now ps broker ids)"
    and "\<exists>errors'. fst (sdv_set_datapoints re ts_into now (Some ps) broker dps) = Ok errors' \<and>
      (\<forall>path. map_of errors' path =
         Option.bind (map_of dps path) (set_report re ts_into now ps (database broker) path))"
proof -
  obtain errors' where "extend_errors itp (update_errors re now ps (database broker) ids) errors = Some errors'"
    and *: "\<forall>path. map_of errors' path =
         Option.bind (map_of dps path) (set_report re ts_into now ps (database broker) path)"
    using set_errors_lookup [OF wf d c refl] by blast
  moreover obtain r broker' where "update_entries re now ps broker ids = (r, broker')" by fastforce
  moreover have "r = (if update_errors re now ps (database broker) ids = [] then Ok ()
      else Err (update_errors re now ps (database broker) ids))"
    using update_entries_result [of re now ps broker ids] calculation by simp
  ultimately have "sdv_set_datapoints re ts_into now (Some ps) broker dps = (Ok errors', broker')"
    using c by (auto simp: sdv_set_datapoints_def split: if_splits)
  then show "snd (sdv_set_datapoints re ts_into now (Some ps) broker dps) =
      snd (update_entries re now ps broker ids)"
    and "\<exists>errors'. fst (sdv_set_datapoints re ts_into now (Some ps) broker dps) = Ok errors' \<and>
      (\<forall>path. map_of errors' path =
         Option.bind (map_of dps path) (set_report re ts_into now ps (database broker) path))"
    using * \<open>update_entries re now ps broker ids = (r, broker')\<close> by auto
qed

lemma sdv_set_effect:
  assumes wf: "db_wf (database broker)" and d: "distinct (map fst dps)"
  shows "abs_db (database (snd (sdv_set_datapoints re ts_into now (Some ps) broker dps))) path =
    (case (settable (database broker) path, map_of dps path) of
       (Some e, Some dp) \<Rightarrow> Some (after_update re now ps (database broker) e (target_update ts_into now dp))
     | _ \<Rightarrow> abs_db (database broker) path)"
proof -
  obtain ids itp errors where c: "set_collect ts_into now broker dps [] [] [] = (ids, itp, errors)"
    by (rule prod_cases3)
  note ids = set_collect_ids [OF c, simplified]
  note inj = settable_inj [OF wf]
  have "distinct (map fst ids)" unfolding ids by (rule map_filter_distinct [OF inj d])
  note batch = batch_abs [OF wf this, of re now ps path]
  show ?thesis
  proof (cases "settable (database broker) path")
    case None
    have "map_of ids (md_id (e_metadata e)) = None" if "abs_db (database broker) path = Some e" for e
    proof (rule ccontr)
      assume "map_of ids (md_id (e_metadata e)) \<noteq> None"
      then have "md_id (e_metadata e) \<in> fst ` set ids" by (simp only: map_of_eq_None_iff not_not)
      from map_filter_keys [OF this [unfolded ids]]
      obtain p e' where "settable (database broker) p = Some e'" "md_id (e_metadata e) = md_id (e_metadata e')"
        by blast
      then show False using abs_db_id_inj [OF wf that settable_SomeD] None by force
    qed
    then show ?thesis using batch None
      by (simp add: sdv_set_eq(1) [OF wf d c] split: option.splits)
  next
    case (Some e)
    have "map_of ids (md_id (e_metadata e)) = map_option (target_update ts_into now) (map_of dps path)"
      unfolding ids by (rule map_filter_lookup [of "settable (database broker)", OF inj Some])
    then show ?thesis using batch settable_SomeD [OF Some] Some
      by (simp add: sdv_set_eq(1) [OF wf d c] split: option.splits)
  qed
qed

section \<open>Registering\<close>

text \<open>A registration only adds entries: what it makes of the database is told from the old one.\<close>

definition registered_from :: "RegistrationMetadata list \<Rightarrow> Entry \<Rightarrow> bool" where
  "registered_from ms e \<longleftrightarrow>
     (\<exists>m\<in>set ms. md_path (e_metadata e) = rm_name m \<and>
        map_option data_type_of_sdv (sdv_data_type_from_i32 (rm_data_type m)) = Some (md_data_type (e_metadata e)) \<and>
        map_option change_type_of_sdv (sdv_change_type_from_i32 (rm_change_type m)) = Some (md_change_type (e_metadata e)) \<and>
        md_entry_type (e_metadata e) = Sensor \<and> dp_value (e_datapoint e) = NotAvailable)"

lemma register_each_grows:
  assumes "register_each re now ps ms broker results = (r, broker')"
    and "db_wf (database broker)" and "unat (next_id (database broker)) + length ms < 2 ^ 32"
  shows "db_wf (database broker') \<and>
    (\<forall>path e. abs_db (database broker) path = Some e \<longrightarrow> abs_db (database broker') path = Some e) \<and>
    (\<forall>path e. abs_db (database broker') path = Some e \<longrightarrow>
       abs_db (database broker) path = Some e \<or> registered_from ms e)"
  using assms
proof (induction ms arbitrary: broker results)
  case (Cons m ms)
  show ?case
  proof (cases "sdv_data_type_from_i32 (rm_data_type m) = None \<or> sdv_change_type_from_i32 (rm_change_type m) = None")
    case True
    then show ?thesis using Cons.prems by (auto split: option.splits)
  next
    case False
    then obtain dt ct where t: "sdv_data_type_from_i32 (rm_data_type m) = Some dt"
      "sdv_change_type_from_i32 (rm_change_type m) = Some ct" by auto
    obtain q b where a: "add_entry re now ps broker (rm_name m) (data_type_of_sdv dt)
        (change_type_of_sdv ct) Sensor (rm_description m) None None = (q, b)" by fastforce
    note c = add_entry_cases [OF a Cons.prems(2)]
    have bound: "unat (next_id (database broker)) + 1 < 2 ^ 32" using Cons.prems(3) by simp
    show ?thesis
    proof (cases q)
      case (Err err)
      then have "broker' = b" "b = broker"
        using Cons.prems(1) a t c(5) [OF bound] by (cases err; simp)+
      then show ?thesis using Cons.prems(2) by simp
    next
      case (Ok eid)
      have *: "register_each re now ps ms b (AList.update (rm_name m) eid results) = (r, broker')"
        using Cons.prems(1) a t Ok by simp
      have "unat (next_id (database b)) + length ms < 2 ^ 32" using c(2) [OF bound] Cons.prems(3) by simp
      note ih = Cons.IH [OF * c(1) [OF bound] this]
      have fresh: "registered_from (m # ms) (fresh_entry now eid (rm_name m) (data_type_of_sdv dt)
          (change_type_of_sdv ct) Sensor (rm_description m) None None None)"
        using t by (simp add: registered_from_def fresh_entry_def)
      have old: "abs_db (database b) path = Some e" if "abs_db (database broker) path = Some e" for path e
        using that c(4) [OF bound Ok] by (auto split: if_splits)
      have new: "abs_db (database broker) path = Some e \<or> registered_from (m # ms) e"
        if "abs_db (database b) path = Some e" for path e
        using that c(4) [OF bound Ok] fresh by (auto split: if_splits)
      have "registered_from ms e \<Longrightarrow> registered_from (m # ms) e" for e
        by (auto simp: registered_from_def)
      then show ?thesis using ih old new by blast
    qed
  qed
qed simp

lemma register_each_Ok_Cons:
  "register_each re now ps (m # ms) broker results = (Ok results', broker') \<longleftrightarrow>
     (\<exists>dt ct eid b. sdv_data_type_from_i32 (rm_data_type m) = Some dt \<and>
        sdv_change_type_from_i32 (rm_change_type m) = Some ct \<and>
        add_entry re now ps broker (rm_name m) (data_type_of_sdv dt) (change_type_of_sdv ct) Sensor
          (rm_description m) None None = (Ok eid, b) \<and>
        register_each re now ps ms b (AList.update (rm_name m) eid results) = (Ok results', broker'))"
  by (auto split: option.splits prod.splits result.splits RegistrationError.splits)

lemma register_each_results:
  assumes "register_each re now ps ms broker results = (Ok results', broker')"
    and "db_wf (database broker)" and "unat (next_id (database broker)) + length ms < 2 ^ 32"
  shows "map_of results' name =
      (if name \<in> rm_name ` set ms then map_of (path_to_id (database broker')) name else map_of results name) \<and>
    (name \<in> rm_name ` set ms \<longrightarrow> abs_db (database broker') name \<noteq> None)"
  using assms
proof (induction ms arbitrary: broker results)
  case (Cons m ms)
  then obtain dt ct eid b where
    a: "add_entry re now ps broker (rm_name m) (data_type_of_sdv dt) (change_type_of_sdv ct) Sensor
        (rm_description m) None None = (Ok eid, b)"
    and r: "register_each re now ps ms b (AList.update (rm_name m) eid results) = (Ok results', broker')"
    by (auto simp only: register_each_Ok_Cons)
  have bound: "unat (next_id (database broker)) + 1 < 2 ^ 32" using Cons.prems(3) by simp
  note c = add_entry_cases [OF a Cons.prems(2) bound]
  have b: "unat (next_id (database b)) + length ms < 2 ^ 32" using c(2) Cons.prems(3) by simp
  note ih = Cons.IH [OF r c(1) b]
  note grows = register_each_grows [OF r c(1) b]
  obtain e where e: "abs_db (database b) (rm_name m) = Some e"
    using c(4) [of eid] by (auto split: if_splits)
  then have e': "abs_db (database broker') (rm_name m) = Some e" using grows by blast
  then have "map_of (path_to_id (database broker')) (rm_name m) = Some eid"
    using abs_db_wf_path(2) [OF c(1) e] abs_db_wf_path(2) grows c(3) [of eid] by fastforce
  then show ?case using ih e' by (auto simp: update_conv')
qed simp

lemma register_each_prefix:
  "register_each re now ps ms broker results = (Err st, broker') \<Longrightarrow>
   \<exists>k<length ms. \<exists>results'. register_each re now ps (take k ms) broker results = (Ok results', broker')"
proof (induction ms arbitrary: broker results)
  case (Cons m ms)
  show ?case
  proof (cases "\<exists>dt ct eid b. sdv_data_type_from_i32 (rm_data_type m) = Some dt \<and>
        sdv_change_type_from_i32 (rm_change_type m) = Some ct \<and>
        add_entry re now ps broker (rm_name m) (data_type_of_sdv dt) (change_type_of_sdv ct) Sensor
          (rm_description m) None None = (Ok eid, b)")
    case True
    then obtain dt ct eid b where *: "sdv_data_type_from_i32 (rm_data_type m) = Some dt"
      "sdv_change_type_from_i32 (rm_change_type m) = Some ct"
      "add_entry re now ps broker (rm_name m) (data_type_of_sdv dt) (change_type_of_sdv ct) Sensor
          (rm_description m) None None = (Ok eid, b)" by blast
    then have "register_each re now ps ms b (AList.update (rm_name m) eid results) = (Err st, broker')"
      using Cons.prems by simp
    from Cons.IH [OF this] obtain k results' where "k < length ms"
      "register_each re now ps (take k ms) b (AList.update (rm_name m) eid results) = (Ok results', broker')"
      by blast
    then show ?thesis using * by (intro exI [of _ "Suc k"]) simp
  next
    case False
    have "broker' = broker"
      using Cons.prems False
      by (auto simp: add_entry_def add_eq Let_def split: option.splits if_splits)
    then show ?thesis by (intro exI [of _ 0]) simp
  qed
qed simp

section \<open>The collector\<close>

lemma error_map_lookup:
  assumes "distinct (map fst dps)"
  shows "map_of (error_map (update_errors re now ps db (datapoint_updates ts_into now dps))) eid =
    Option.bind (map_of dps eid) (\<lambda>d.
      case fst (update re now ps db eid (default_update\<lparr>upd_datapoint := Some (datapoint_of_sdv ts_into now d)\<rparr>)) of
        Ok _ \<Rightarrow> None
      | Err err \<Rightarrow> Some (datapoint_error_code (datapoint_error err)))"
proof -
  let ?us = "datapoint_updates ts_into now dps"
  let ?errs = "update_errors re now ps db ?us"
  let ?code = "\<lambda>err. datapoint_error_code (datapoint_error err)"
  have d: "distinct (map fst ?us)" using assms by (simp add: datapoint_updates_def comp_def case_prod_beta)
  have "error_map ?errs = foldl (\<lambda>m (k, v). AList.update k v m) [] (map (\<lambda>(k, v). (k, ?code v)) ?errs)"
    by (simp add: error_map_def foldl_map split_def)
  moreover have "distinct (map fst (map (\<lambda>(k, v). (k, ?code v)) ?errs))"
    using update_errors_distinct_keys [OF d, of re now ps db] by (simp add: comp_def case_prod_beta)
  ultimately have "map_of (error_map ?errs) eid = map_option ?code (map_of ?errs eid)"
    using map_of_map_inj [of "\<lambda>k. k" eid ?errs ?code]
    by (simp add: map_of_foldl_update split: option.split)
  moreover have "map_of ?us eid =
      map_option (\<lambda>d. default_update\<lparr>upd_datapoint := Some (datapoint_of_sdv ts_into now d)\<rparr>) (map_of dps eid)"
    by (simp add: datapoint_updates_def map_of_map comp_def)
  ultimately show ?thesis
    by (cases "map_of dps eid") (simp_all add: update_errors_distinct [OF d] split: result.split)
qed

text \<open>The same messages as calls of \<open>update_datapoints\<close>: their error replies, and the broker after them.\<close>

fun unary_calls ::
  "regex_engine \<Rightarrow> (Timestamp \<Rightarrow> SystemTime option) \<Rightarrow> Permissions \<Rightarrow>
   (SystemTime \<times> (i32 \<times> SdvDatapoint) list) list \<Rightarrow> DataBroker \<Rightarrow> (i32 \<times> int) list list \<times> DataBroker" where
  "unary_calls re ts_into ps [] broker = ([], broker)"
| "unary_calls re ts_into ps ((now, dps) # ms) broker =
     (case sdv_update_datapoints re ts_into now (Some ps) broker dps of
        (Ok errors, broker') \<Rightarrow>
          (case unary_calls re ts_into ps ms broker' of (rs, broker'') \<Rightarrow> (errors # rs, broker''))
      | (Err _, broker') \<Rightarrow> ([], broker'))"

lemma error_map_Nil [simp]: "error_map err = [] \<longleftrightarrow> err = []"
proof -
  have "dom (map_of (foldl (\<lambda>errors (eid, error).
      AList.update eid (datapoint_error_code (datapoint_error error)) errors) acc err)) =
      dom (map_of acc) \<union> fst ` set err" for acc
    by (induction err arbitrary: acc) (auto simp: update_conv')
  from this [of "[]"] have "dom (map_of (error_map err)) = fst ` set err" by (simp add: error_map_def)
  then show ?thesis by (cases err) (force simp: error_map_def)+
qed

lemma stream_message_unary:
  assumes "stream_message re ts_into ps now dps broker ch = (b, ch')" and "\<not> ch_closed ch"
  shows "\<exists>errors. sdv_update_datapoints re ts_into now (Some ps) broker dps = (Ok errors, b) \<and>
    ch' = ch\<lparr>ch_sent := ch_sent ch @ (if errors = [] then [] else [errors])\<rparr>"
  using assms update_entries_result [of re now ps broker "datapoint_updates ts_into now dps"]
  by (cases "update_entries re now ps broker (datapoint_updates ts_into now dps)")
    (auto simp: stream_message_def sdv_update_datapoints_def send_def split: if_splits)

lemma stream_loop_unary:
  assumes "\<not> ch_closed ch" and "stop \<in> {SI_End, SI_Broken, SI_Shutdown}"
  shows "stream_loop re ts_into ps (map (\<lambda>(t, d). SI_Message t d) ms @ stop # rest) broker ch =
    (snd (unary_calls re ts_into ps ms broker),
     ch\<lparr>ch_sent := ch_sent ch @ filter (\<lambda>e. e \<noteq> []) (fst (unary_calls re ts_into ps ms broker))\<rparr>)"
  using assms(1)
proof (induction ms arbitrary: broker ch)
  case Nil
  then show ?case using assms(2) by auto
next
  case (Cons m ms)
  obtain t d b ch' where m: "m = (t, d)" and s: "stream_message re ts_into ps t d broker ch = (b, ch')"
    by (metis surj_pair)
  obtain errors where e: "sdv_update_datapoints re ts_into t (Some ps) broker d = (Ok errors, b)"
    and ch': "ch' = ch\<lparr>ch_sent := ch_sent ch @ (if errors = [] then [] else [errors])\<rparr>"
    using stream_message_unary [OF s Cons.prems] by blast
  then have "\<not> ch_closed ch'" using Cons.prems by simp
  then show ?case using Cons.IH [of ch' b] m s e ch' by (simp split: prod.split)
qed

section \<open>Properties\<close>

text \<open>
  C34.  Setting datapoints over the older service: the handler never panics on its map from ids to
  paths; for every path of the request it reports an unknown path, a path that is not an
  actuator, or the error of the update of its target, and nothing for an accepted update; an
  accepted update writes the target and nothing else is changed.
\<close>

theorem sdv_set_outcome:
  assumes "db_wf (database broker)" and "distinct (map fst dps)"
    and "sdv_set_datapoints re ts_into now (Some ps) broker dps = (r, broker')"
  shows "(\<exists>errors. r = Ok errors \<and>
      (\<forall>path. map_of errors path =
         Option.bind (map_of dps path) (set_report re ts_into now ps (database broker) path))) \<and>
    abs_db (database broker') path =
      (case (abs_db (database broker) path, map_of dps path) of
         (Some e, Some dp) \<Rightarrow>
           Some (if set_report re ts_into now ps (database broker) path dp = None
                 then updated_entry e (target_update ts_into now dp) else e)
       | _ \<Rightarrow> abs_db (database broker) path)"
proof -
  obtain ids itp errors where c: "set_collect ts_into now broker dps [] [] [] = (ids, itp, errors)"
    by (rule prod_cases3)
  have "\<exists>errors. r = Ok errors \<and> (\<forall>path. map_of errors path =
      Option.bind (map_of dps path) (set_report re ts_into now ps (database broker) path))"
    using sdv_set_eq(2) [OF assms(1,2) c, of re ps] assms(3) by simp
  moreover have "abs_db (database broker') path =
      (case (abs_db (database broker) path, map_of dps path) of
         (Some e, Some dp) \<Rightarrow>
           Some (if set_report re ts_into now ps (database broker) path dp = None
                 then updated_entry e (target_update ts_into now dp) else e)
       | _ \<Rightarrow> abs_db (database broker) path)"
    using sdv_set_effect [OF assms(1,2), of re ts_into now ps path] assms(3)
    by (auto simp: set_report_def settable_def after_update_def is_ok_iff split: option.splits result.splits)
  ultimately show ?thesis ..
qed

theorem sdv_set_outcome_witness:
  "\<exists>errors. fst (sdv_set_datapoints any_regex (\<lambda>_. None) 2 (Some ALLOW_ALL) example_broker
       [(''B'', \<lparr>sd_timestamp = None, sd_value = Some (SV_Int32 5)\<rparr>)]) = Ok errors \<and>
     map_of errors ''B'' = Some 0"
proof -
  let ?dps = "[(''B'', \<lparr>sd_timestamp = None, sd_value = Some (SV_Int32 5)\<rparr>)]"
  obtain r b where "sdv_set_datapoints any_regex (\<lambda>_. None) 2 (Some ALLOW_ALL) example_broker ?dps = (r, b)"
    by fastforce
  from sdv_set_outcome [OF _ _ this, of "''B''"] this
  obtain errors where "fst (sdv_set_datapoints any_regex (\<lambda>_. None) 2 (Some ALLOW_ALL) example_broker ?dps) = Ok errors"
    and "\<forall>path. map_of errors path =
      Option.bind (map_of ?dps path) (set_report any_regex (\<lambda>_. None) 2 ALLOW_ALL (database example_broker) path)"
    by auto
  then show ?thesis by (auto simp: set_report_def abs_db_def datapoint_error_code_def)
qed

text \<open>
  Providing values: the errors of \<open>update_datapoints\<close> are those of its updates, id by id, and
  a stream of messages has the same effect on the broker as one call per message; it sends
  back the error replies that are not empty, in order, until the stream ends, the connection
  breaks or the broker shuts down, and handles nothing after that.
\<close>

theorem stream_equals_calls:
  assumes "stop \<in> {SI_End, SI_Broken, SI_Shutdown}"
  shows "sdv_stream_datapoints re ts_into (Some ps) (map (\<lambda>(t, d). SI_Message t d) ms @ stop # rest) broker =
      (Ok \<lparr>ch_closed = False, ch_sent = filter (\<lambda>e. e \<noteq> []) (fst (unary_calls re ts_into ps ms broker))\<rparr>,
       snd (unary_calls re ts_into ps ms broker)) \<and>
    (distinct (map fst dps) \<longrightarrow>
       (\<exists>errors. fst (sdv_update_datapoints re ts_into now (Some ps) broker dps) = Ok errors \<and>
          map_of errors eid = Option.bind (map_of dps eid) (\<lambda>d.
            case fst (update re now ps (database broker) eid
                   (default_update\<lparr>upd_datapoint := Some (datapoint_of_sdv ts_into now d)\<rparr>)) of
              Ok _ \<Rightarrow> None
            | Err err \<Rightarrow> Some (datapoint_error_code (datapoint_error err)))))"
proof -
  have "fst (sdv_update_datapoints re ts_into now (Some ps) broker dps) =
      Ok (error_map (update_errors re now ps (database broker) (datapoint_updates ts_into now dps)))"
    using update_entries_result [of re now ps broker "datapoint_updates ts_into now dps"]
    by (cases "update_entries re now ps broker (datapoint_updates ts_into now dps)")
      (auto simp: sdv_update_datapoints_def error_map_def split: if_splits)
  then show ?thesis
    using stream_loop_unary [OF _ assms, of new_channel re ts_into ps ms rest broker] error_map_lookup
    by (simp add: sdv_stream_datapoints_def new_channel_def)
qed

theorem stream_equals_calls_witness:
  "snd (sdv_stream_datapoints any_regex (\<lambda>_. None) (Some ALLOW_ALL)
       [SI_Message 2 [(0, \<lparr>sd_timestamp = None, sd_value = Some (SV_Int32 5)\<rparr>)], SI_End] example_broker) =
   snd (sdv_update_datapoints any_regex (\<lambda>_. None) 2 (Some ALLOW_ALL) example_broker
       [(0, \<lparr>sd_timestamp = None, sd_value = Some (SV_Int32 5)\<rparr>)])"
  using stream_equals_calls [of SI_End any_regex "\<lambda>_. None" ALLOW_ALL
    "[(2, [(0, \<lparr>sd_timestamp = None, sd_value = Some (SV_Int32 5)\<rparr>)])]" "[]" example_broker]
  by (simp add: sdv_update_datapoints_def split: prod.split result.split)

text \<open>
  C35.  Registering datapoints: the database stays well-formed, no entry known before changes and
  every new one is a sensor without a value, as one of the items describes it; when the call
  succeeds it answers with the id of every name; when it fails, the items before the refused
  one are registered all the same.
\<close>

theorem register_outcome:
  assumes "db_wf (database broker)" and "unat (next_id (database broker)) + length ms < 2 ^ 32"
    and "sdv_register_datapoints re now (Some ps) broker ms = (r, broker')"
  shows "db_wf (database broker') \<and>
    (\<forall>path e. abs_db (database broker) path = Some e \<longrightarrow> abs_db (database broker') path = Some e) \<and>
    (\<forall>path e. abs_db (database broker') path = Some e \<longrightarrow>
       abs_db (database broker) path = Some e \<or> registered_from ms e) \<and>
    (case r of
       Ok results \<Rightarrow>
         map_of results name =
           (if name \<in> rm_name ` set ms then map_of (path_to_id (database broker')) name else None) \<and>
         (name \<in> rm_name ` set ms \<longrightarrow> abs_db (database broker') name \<noteq> None)
     | Err _ \<Rightarrow>
         \<exists>k<length ms. \<exists>results.
           sdv_register_datapoints re now (Some ps) broker (take k ms) = (Ok results, broker'))"
proof -
  have r: "register_each re now ps ms broker [] = (r, broker')"
    using assms(3) by (simp add: sdv_register_datapoints_def)
  show ?thesis
  proof (cases r)
    case (Ok results)
    then show ?thesis
      using register_each_grows [OF r assms(1,2)]
        register_each_results [OF r [unfolded Ok] assms(1,2), of name] by simp
  next
    case (Err st)
    then show ?thesis
      using register_each_grows [OF r assms(1,2)] register_each_prefix [OF r [unfolded Err]]
      by (simp add: sdv_register_datapoints_def)
  qed
qed

theorem register_outcome_witness:
  "map_of (path_to_id (database (snd (sdv_register_datapoints any_regex 1 (Some ALLOW_ALL) example_broker
     [\<lparr>rm_name = ''A'', rm_data_type = 4, rm_description = [], rm_change_type = 1\<rparr>])))) ''A'' = Some 0"
proof -
  let ?ms = "[\<lparr>rm_name = ''A'', rm_data_type = 4, rm_description = [], rm_change_type = 1\<rparr>]"
  have "sdv_register_datapoints any_regex 1 (Some ALLOW_ALL) example_broker ?ms = (Ok [(''A'', 0)], example_broker)"
    by (simp add: sdv_register_datapoints_def sdv_data_type_from_i32_def sdv_change_type_from_i32_def
        add_entry_def add_eq) (simp add: ALLOW_ALL_def has_expired_def)
  then show ?thesis using register_outcome [of example_broker ?ms any_regex 1 ALLOW_ALL _ _ "''A''"] by simp
qed

text \<open>
  Reading over the older service: the reply has exactly the names asked for; a name is
  answered with the stored datapoint if the client may read it, and otherwise with a failure
  that says whether the name is unknown or access is denied.
\<close>

theorem sdv_get_answers:
  assumes "db_wf (database broker)" and "names \<noteq> []"
  shows "\<exists>reply. sdv_get_datapoints re ts_from now (Some ps) broker names = Ok reply \<and>
    (\<forall>name. map_of reply name =
       (if name \<notin> set names then None
        else Some (case abs_db (database broker) name of
            None \<Rightarrow> \<lparr>sd_timestamp = None, sd_value = Some (SV_Failure (failure_code SF_UnknownDatapoint))\<rparr>
          | Some e \<Rightarrow>
              if can_read re now ps name = Ok () then sdv_datapoint ts_from (e_datapoint e)
              else \<lparr>sd_timestamp = None, sd_value = Some (SV_Failure (failure_code SF_AccessDenied))\<rparr>)))"
  using assms
  by (auto simp: sdv_get_datapoints_def get_each_lookup get_datapoint_by_path_abs read_failure_def
      split: option.split result.split PermissionError.split)

theorem sdv_get_answers_witness:
  "\<exists>reply. sdv_get_datapoints any_regex zero_ts 1 (Some ALLOW_ALL) example_broker [''A'', ''B''] = Ok reply \<and>
     map_of reply ''B'' = Some \<lparr>sd_timestamp = None, sd_value = Some (SV_Failure 2)\<rparr>"
  using sdv_get_answers [of example_broker "[''A'', ''B'']" any_regex zero_ts 1 ALLOW_ALL]
  by (auto simp: abs_db_def failure_code_def)

end
