(* ===== verification/Printing.thy ===== *)
theory Printing
  imports Executor
begin

text \<open>
  Rust's \<open>to_string\<close> for \<open>bool\<close>, the machine integers and the floating-point types, as the
  websocket service uses it, and that \<open>str::parse\<close> reads the printed text back.  A finite
  floating-point number is printed without an exponent, with the fewest significant digits
  that identify it and, among those, the closest to it.
\<close>

section \<open>Integers and booleans\<close>

definition show_bool :: "bool \<Rightarrow> string" where
  "show_bool b = (if b then ''true'' else ''false'')"

definition show_int :: "int \<Rightarrow> string" where
  "show_int n = (if n < 0 then CHR ''-'' # show_nat (nat (- n)) else show_nat (nat n))"

lemma show_nat_Cons: "\<exists>c cs. show_nat n = c # cs \<and> is_digit c"
  using show_nat_digits [of n] by (cases "show_nat n") auto

lemma digit_not_sign: "is_digit c \<Longrightarrow> c \<noteq> CHR ''+'' \<and> c \<noteq> CHR ''-'' \<and> c \<noteq> CHR ''.''"
  by (auto simp: is_digit_def)

lemma parse_digits_show_nat: "parse_digits (show_nat n) = Some n"
  using show_nat_digits [of n] by (simp add: parse_digits_def)

lemma parse_signed_show_int: "parse_signed (show_int n) = Some n"
proof (cases "n < 0")
  case True
  then show ?thesis by (simp add: show_int_def parse_signed_def parse_digits_show_nat)
next
  case False
  obtain c cs where s: "show_nat (nat n) = c # cs" "is_digit c" using show_nat_Cons by blast
  then show ?thesis using False parse_digits_show_nat [of "nat n"] digit_not_sign [of c]
    by (simp add: show_int_def parse_signed_def)
qed

lemma parse_show_bool: "parse_bool (show_bool b) = Some b"
  by (simp add: show_bool_def parse_bool_def)

lemma parse_show_i32: "parse_i32 (show_int (sint v)) = Some v"
  using sint_range_i32 [of v] by (simp add: parse_i32_def parse_signed_show_int parse_in_def)

lemma parse_show_i64: "parse_i64 (show_int (sint v)) = Some v"
  using sint_range_i64 [of v] by (simp add: parse_i64_def parse_signed_show_int parse_in_def)

lemma parse_show_u32: "parse_u32 (show_nat (unat v)) = Some v"
  using uint_range_u32 [of v]
  by (simp add: parse_u32_def parse_unsigned_show_nat parse_in_def uint_nat [symmetric])

lemma parse_show_u64: "parse_u64 (show_nat (unat v)) = Some v"
  using uint_range_u64 [of v]
  by (simp add: parse_u64_def parse_unsigned_show_nat parse_in_def uint_nat [symmetric])

section \<open>Decimal fractions\<close>

text \<open>The text of \<open>c * 10 powi (- s)\<close>, with \<open>s\<close> digits after the point if \<open>s\<close> is positive.\<close>

fun pad_digits :: "nat \<Rightarrow> nat \<Rightarrow> string" where
  "pad_digits 0 c = []"
| "pad_digits (Suc s) c = pad_digits s (c div 10) @ [char_of (48 + c mod 10)]"

definition show_decimal :: "nat \<Rightarrow> int \<Rightarrow> string" where
  "show_decimal c s =
     (if s \<le> 0 then show_nat (c * 10 ^ nat (- s))
      else show_nat (c div 10 ^ nat s) @ ''.'' @ pad_digits (nat s) (c mod 10 ^ nat s))"

lemma pad_digits_spec:
  "length (pad_digits s c) = s" "list_all is_digit (pad_digits s c)" "digits_val 0 (pad_digits s c) = c mod 10 ^ s"
proof (induction s arbitrary: c)
  case (Suc s)
  { case 1 show ?case using Suc by simp }
  { case 2 show ?case using Suc digit_char [of "c mod 10"] by simp }
  { case 3 show ?case using Suc digit_char [of "c mod 10"]
      by (simp add: digits_val_append mod_mult2_eq add.commute) }
qed simp_all

lemma digits_val_append2: "digits_val acc (xs @ ys) = digits_val acc xs * 10 ^ length ys + digits_val 0 ys"
proof (induction ys rule: rev_induct)
  case (snoc y ys)
  then show ?case by (simp add: digits_val_append flip: append_assoc)
qed simp

lemma takeWhile_digits:
  assumes "list_all is_digit xs"
  shows "takeWhile (\<lambda>c. c \<noteq> CHR ''.'') xs = xs" "dropWhile (\<lambda>c. c \<noteq> CHR ''.'') xs = []"
    "takeWhile (\<lambda>c. c \<noteq> CHR ''.'') (xs @ CHR ''.'' # ys) = xs"
    "dropWhile (\<lambda>c. c \<noteq> CHR ''.'') (xs @ CHR ''.'' # ys) = CHR ''.'' # ys"
  using assms by (induction xs) (auto dest: digit_not_sign)

lemma no_exponent:
  assumes "list_all (\<lambda>c. is_digit c \<or> c = CHR ''.'') xs"
  shows "takeWhile (\<lambda>c. \<not> is_exp_char c) xs = xs" "dropWhile (\<lambda>c. \<not> is_exp_char c) xs = []"
proof -
  have "\<not> is_exp_char c" if "c \<in> set xs" for c
    using that assms by (auto simp: list_all_iff is_exp_char_def is_digit_def)
  then show "takeWhile (\<lambda>c. \<not> is_exp_char c) xs = xs" "dropWhile (\<lambda>c. \<not> is_exp_char c) xs = []"
    by (simp_all add: takeWhile_eq_all_conv dropWhile_eq_Nil_conv)
qed

lemma parse_show_decimal: "parse_number (show_decimal c s) = Some (of_nat c * 10 powi (- s))"
proof (cases "s \<le> 0")
  case True
  let ?n = "c * 10 ^ nat (- s)"
  have "list_all (\<lambda>c. is_digit c \<or> c = CHR ''.'') (show_nat ?n)"
    using show_nat_digits [of ?n] by (auto simp: list_all_iff)
  moreover have "(of_nat ?n :: rat) = of_nat c * 10 powi (- s)"
    using True by (simp add: power_int_def)
  ultimately show ?thesis
    using True show_nat_digits [of ?n]
    by (simp add: show_decimal_def parse_number_def no_exponent takeWhile_digits Let_def del: of_nat_mult)
next
  case False
  let ?k = "nat s"
  let ?i = "show_nat (c div 10 ^ ?k)" and ?f = "pad_digits ?k (c mod 10 ^ ?k)"
  have "list_all (\<lambda>c. is_digit c \<or> c = CHR ''.'') (?i @ CHR ''.'' # ?f)"
    using show_nat_digits [of "c div 10 ^ ?k"] pad_digits_spec(2) [of ?k "c mod 10 ^ ?k"] by (auto simp: list_all_iff)
  moreover have "digits_val 0 (?i @ ?f) = c"
    using show_nat_digits [of "c div 10 ^ ?k"] div_mult_mod_eq [of c "10 ^ ?k"]
    by (simp add: digits_val_append2 pad_digits_spec del: div_mult_mod_eq)
  ultimately show ?thesis
    using False show_nat_digits [of "c div 10 ^ ?k"] pad_digits_spec [of ?k "c mod 10 ^ ?k"]
    by (simp add: show_decimal_def parse_number_def no_exponent takeWhile_digits Let_def)
qed

section \<open>Floating point\<close>

text \<open>The \<open>k\<close> with \<open>10 powi (k - 1) \<le> r < 10 powi k\<close>, for a positive \<open>r\<close>.\<close>

definition dec_exponent :: "rat \<Rightarrow> int" where
  "dec_exponent r =
     (if 1 \<le> r then int (floorlog 10 (nat \<lfloor>r\<rfloor>))
      else 1 - int (floorlog 10 (nat (\<lceil>1 / r\<rceil> - 1))))"

text \<open>
  The decimal fractions with \<open>s\<close> digits after the point next to \<open>r\<close>: the closest one that still
  identifies the number, the upper one if both are equally close.
\<close>

definition closest :: "(rat \<Rightarrow> bool) \<Rightarrow> rat \<Rightarrow> int \<Rightarrow> nat option" where
  "closest identifies r s =
     (let y = r * 10 powi s; lo = nat \<lfloor>y\<rfloor>; hi = lo + 1;
          lo_ok = identifies (of_nat lo * 10 powi (- s)); hi_ok = identifies (of_nat hi * 10 powi (- s))
      in if lo_ok \<and> hi_ok then Some (if y - of_nat lo < of_nat hi - y then lo else hi)
         else if lo_ok then Some lo
         else if hi_ok then Some hi
         else None)"

fun shortest :: "(rat \<Rightarrow> bool) \<Rightarrow> rat \<Rightarrow> int \<Rightarrow> nat \<Rightarrow> (nat \<times> int) option" where
  "shortest identifies r s 0 = None"
| "shortest identifies r s (Suc n) =
     (case closest identifies r s of
        Some c \<Rightarrow> Some (c, s)
      | None \<Rightarrow> shortest identifies r (s + 1) n)"

text \<open>
  17 significant digits identify every double, 9 every single; the search is bounded by these
  numbers and would otherwise fall back to the exact expansion, which ends after \<open>q\<close> digits.
\<close>

definition show_magnitude :: "(rat \<Rightarrow> bool) \<Rightarrow> nat \<Rightarrow> nat \<Rightarrow> rat \<Rightarrow> string" where
  "show_magnitude identifies digits q r =
     (if r = 0 then ''0''
      else
        (case shortest identifies r (1 - dec_exponent r) digits of
           Some (c, s) \<Rightarrow> show_decimal c s
         | None \<Rightarrow> show_decimal (nat \<lfloor>r * 10 ^ q\<rfloor>) (int q)))"

definition show_f64 :: "f64 \<Rightarrow> string" where
  "show_f64 w =
     (let neg = 2 ^ 63 \<le> uint w in
      case f64_val w of
        NaN \<Rightarrow> ''NaN''
      | PInf \<Rightarrow> ''inf''
      | NInf \<Rightarrow> ''-inf''
      | Fin x \<Rightarrow> (if neg then ''-'' else []) @ show_magnitude (\<lambda>y. f64_of_rat neg y = w) 17 1074 \<bar>x\<bar>)"

definition show_f32 :: "f32 \<Rightarrow> string" where
  "show_f32 w =
     (let neg = 2 ^ 31 \<le> uint w in
      case f32_val w of
        NaN \<Rightarrow> ''NaN''
      | PInf \<Rightarrow> ''inf''
      | NInf \<Rightarrow> ''-inf''
      | Fin x \<Rightarrow> (if neg then ''-'' else []) @ show_magnitude (\<lambda>y. f32_of_rat neg y = w) 9 149 \<bar>x\<bar>)"

lemma closest_identifies: "closest identifies r s = Some c \<Longrightarrow> identifies (of_nat c * 10 powi (- s))"
  by (auto simp: closest_def Let_def split: if_splits)

lemma shortest_identifies: "shortest identifies r s n = Some (c, t) \<Longrightarrow> identifies (of_nat c * 10 powi (- t))"
  by (induction n arbitrary: s) (auto dest: closest_identifies split: option.splits)

lemma char_zero: "char_of (48 :: nat) = CHR ''0''"
  by code_simp

lemma parse_show_magnitude:
  assumes "identifies r" and "0 \<le> r" and "r * 10 ^ q \<in> \<int>"
  shows "\<exists>y. parse_number (show_magnitude identifies digits q r) = Some y \<and> identifies y"
proof -
  have exact: "of_nat (nat \<lfloor>r * 10 ^ q\<rfloor>) * 10 powi (- int q) = r"
  proof -
    obtain z where z: "r * 10 ^ q = of_int z" using assms(3) by (auto elim: Ints_cases)
    moreover have "0 \<le> r * 10 ^ q" using assms(2) by simp
    ultimately have "of_nat (nat \<lfloor>r * 10 ^ q\<rfloor>) = r * 10 ^ q" by simp
    then show ?thesis by (simp add: power_int_minus field_simps)
  qed
  have "parse_number ''0'' = Some 0"
    using parse_show_decimal [of 0 0] by (simp add: show_decimal_def show_nat.simps [of 0] char_zero)
  then show ?thesis
    using assms(1) exact shortest_identifies [of identifies r "1 - dec_exponent r" digits]
    by (cases "shortest identifies r (1 - dec_exponent r) digits")
      (auto simp: show_magnitude_def parse_show_decimal)
qed

lemma show_decimal_Cons: "\<exists>c cs. show_decimal n s = c # cs \<and> is_digit c"
  using show_nat_Cons [of "n * 10 ^ nat (- s)"] show_nat_Cons [of "n div 10 ^ nat s"]
  by (auto simp: show_decimal_def)

lemma show_magnitude_Cons: "\<exists>c cs. show_magnitude identifies digits q r = c # cs \<and> is_digit c"
  using show_decimal_Cons
  by (auto simp: show_magnitude_def is_digit_def split: option.split)

lemma parse_float_show_magnitude:
  assumes "parse_number (show_magnitude identifies digits q r) = Some y"
  shows "parse_float ((if neg then ''-'' else []) @ show_magnitude identifies digits q r) = Some (PF_Num neg y)"
proof -
  obtain c cs where s: "show_magnitude identifies digits q r = c # cs" and c: "is_digit c"
    using show_magnitude_Cons by blast
  have "split_sign ((if neg then ''-'' else []) @ c # cs) = (neg, c # cs)"
    using digit_not_sign [OF c] by (auto simp: split_sign_def)
  moreover have "to_ascii_lowercase (c # cs) \<noteq> ''inf''" "to_ascii_lowercase (c # cs) \<noteq> ''infinity''"
    "to_ascii_lowercase (c # cs) \<noteq> ''nan''"
    using c by (auto simp: to_ascii_lowercase_def is_digit_def)
  ultimately show ?thesis using assms by (simp add: parse_float_def s Let_def)
qed

text \<open>Encoding an exact value gives its own bit pattern.\<close>

lemma round_half_even_of_int [simp]: "round_half_even (of_int n) = n"
  by (simp add: round_half_even_def Let_def)

lemma powi_less_imp: "(2 :: rat) powi a < 2 powi b \<Longrightarrow> a < b"
  using power_int_increasing [of b a "2 :: rat"] by (cases "b \<le> a") auto

lemma rat_ilog2_eq:
  assumes "2 powi k \<le> x" and "x < 2 powi (k + 1)"
  shows "rat_ilog2 x = k"
proof -
  have pos: "0 < x" using assms(1) by (rule less_le_trans [OF zero_less_power_int, rotated]) simp
  note b = rat_ilog2_bounds [OF pos]
  have "(2 :: rat) powi (rat_ilog2 x) < 2 powi (k + 1)" using b(1) assms(2) by linarith
  moreover have "(2 :: rat) powi k < 2 powi (rat_ilog2 x + 1)" using b(2) assms(1) by linarith
  ultimately show ?thesis
    using powi_less_imp [of "rat_ilog2 x" "k + 1"] powi_less_imp [of k "rat_ilog2 x + 1"] by linarith
qed

lemma rat_pow2_le: "2 ^ n \<le> M \<Longrightarrow> (2 :: rat) ^ n \<le> of_int M"
  using of_int_le_iff [of "2 ^ n" M, where 'a = rat] by simp

lemma rat_less_pow2: "M < 2 ^ n \<Longrightarrow> (of_int M :: rat) < 2 ^ n"
  using of_int_less_iff [of M "2 ^ n", where 'a = rat] by simp

lemma encode_mag_normal:
  assumes "2 ^ mb \<le> M" and "M < 2 ^ Suc mb" and "qmin \<le> k" and "(k - qmin) * 2 ^ mb + M \<le> infty"
  shows "encode_mag mb qmin infty (of_int M * 2 powi k) = (k - qmin) * 2 ^ mb + M"
proof -
  have lo: "(2 :: rat) powi (int mb) \<le> of_int M" and hi: "(of_int M :: rat) < 2 powi (int mb + 1)"
    using rat_pow2_le [OF assms(1)] rat_less_pow2 [OF assms(2)] by (simp_all add: power_int_add)
  have "rat_ilog2 (of_int M * 2 powi k) = int mb + k"
  proof (rule rat_ilog2_eq)
    show "(2 :: rat) powi (int mb + k) \<le> of_int M * 2 powi k"
      using lo by (simp add: power_int_add mult_right_mono del: power_int_of_nat)
    have "of_int M * 2 powi k < (2 :: rat) powi (int mb + 1) * 2 powi k"
      using hi by (intro mult_strict_right_mono) simp_all
    then show "of_int M * 2 powi k < (2 :: rat) powi (int mb + k + 1)"
      by (simp add: power_int_add algebra_simps)
  qed
  moreover have "0 < M" using assms(1) by (rule less_le_trans [rotated]) simp
  ultimately show ?thesis using assms(3,4) by (simp add: encode_mag_def)
qed

lemma encode_mag_subnormal:
  assumes "0 \<le> M" and "M < 2 ^ mb" and "M \<le> infty"
  shows "encode_mag mb qmin infty (of_int M * 2 powi qmin) = M"
proof (cases "M = 0")
  case False
  let ?x = "of_int M * 2 powi qmin :: rat"
  have pos: "0 < ?x" using False assms(1) by simp
  have "(of_int M :: rat) < 2 ^ mb"
    using assms(2) by (rule rat_less_pow2)
  then have "?x < 2 powi (int mb) * 2 powi qmin" by (intro mult_strict_right_mono) simp_all
  then have "?x < 2 powi (int mb + qmin)" by (simp add: power_int_add)
  then have "(2 :: rat) powi (rat_ilog2 ?x) < 2 powi (int mb + qmin)"
    using rat_ilog2_bounds(1) [OF pos] by linarith
  then have "rat_ilog2 ?x < int mb + qmin" by (rule powi_less_imp)
  then have "max (rat_ilog2 ?x - int mb) qmin = qmin" by simp
  then show ?thesis using False assms by (simp add: encode_mag_def Let_def)
qed (simp add: encode_mag_def)

lemma sign_split:
  assumes "0 \<le> (u :: int)" and "u < 2 * (P * E)" and "0 < P" and "0 < E"
  shows "(if P * E \<le> u then P * E else 0) + (u div P mod E * P + u mod P) = u"
proof -
  have q: "u div P div E = (if P * E \<le> u then 1 else 0)"
  proof -
    have "u div P div E = u div (P * E)" using assms by (simp add: zdiv_zmult2_eq)
    moreover have "u div (P * E) = 1" if "P * E \<le> u"
    proof -
      have "(u - P * E) div (P * E) = 0" using that assms by (intro div_pos_pos_trivial) (simp_all add: mult.commute [of E])
      then show ?thesis using that assms by (simp add: div_pos_geq)
    qed
    ultimately show ?thesis using assms by auto
  qed
  have "(E * (u div P div E) + u div P mod E) * P + u mod P = u"
    by (simp only: mult_div_mod_eq div_mult_mod_eq)
  then show ?thesis by (simp add: q algebra_simps split: if_splits)
qed

lemma scaled_Ints:
  assumes "- int q \<le> k"
  shows "of_int M * 2 powi k * 10 ^ q \<in> (\<int> :: rat set)"
proof -
  have "(10 :: rat) ^ q = 2 powi int q * 5 ^ q" by (simp flip: power_mult_distrib)
  then have "of_int M * 2 powi k * 10 ^ q = of_int M * (2 powi k * 2 powi int q) * (5 :: rat) ^ q" by simp
  also have "2 powi k * 2 powi int q = (2 :: rat) powi (k + int q)"
    by (rule power_int_add [symmetric]) simp
  also have "(2 :: rat) powi (k + int q) = 2 ^ nat (k + int q)"
    using assms by (simp add: power_int_def)
  finally have "of_int M * 2 powi k * 10 ^ q = (of_int (M * 2 ^ nat (k + int q) * 5 ^ q) :: rat)" by simp
  then show ?thesis by (metis Ints_of_int)
qed

lemma f64_fields:
  "(if 2 ^ 63 \<le> uint w then 2 ^ 63 else 0) + (uint w div 2 ^ 52 mod 2 ^ 11 * 2 ^ 52 + uint w mod 2 ^ 52) = uint w"
  for w :: f64
  using sign_split [of "uint w" "2 ^ 52" "2 ^ 11"] uint_lt2p [of w] by (simp split: if_splits)

lemma f64_of_val:
  assumes "f64_val w = Fin x"
  shows "f64_of_rat (2 ^ 63 \<le> uint w) \<bar>x\<bar> = w" and "\<bar>x\<bar> * 10 ^ 1074 \<in> \<int>"
proof -
  define e m where e_def: "e = uint w div 2 ^ 52 mod 2 ^ 11" and m_def: "m = uint w mod 2 ^ 52"
  have m: "0 \<le> m" "m < 2 ^ 52" and e: "0 \<le> e" "e < 2 ^ 11" by (simp_all add: e_def m_def)
  note u = f64_fields [of w, folded e_def m_def]
  have x: "e \<noteq> 2047" "\<bar>x\<bar> = (if e = 0 then of_int m * 2 powi (- 1074) else of_int (2 ^ 52 + m) * 2 powi (e - 1075))"
    using assms m unfolding f64_val_def Let_def e_def [symmetric] m_def [symmetric]
    by (auto simp: abs_mult split: if_splits)
  have "encode_mag 52 (- 1074) (2047 * 2 ^ 52) \<bar>x\<bar> = e * 2 ^ 52 + m"
  proof (cases "e = 0")
    case True
    have "m \<le> 2047 * 2 ^ 52" using m by simp
    then show ?thesis
      using encode_mag_subnormal [of m 52 "2047 * 2 ^ 52" "- 1074"] m True by (simp only: x(2) if_True) simp
  next
    case False
    then show ?thesis
      using encode_mag_normal [of 52 "2 ^ 52 + m" "- 1074" "e - 1075" "2047 * 2 ^ 52"] m e x by simp
  qed
  then show "f64_of_rat (2 ^ 63 \<le> uint w) \<bar>x\<bar> = w"
    using u by (simp only: f64_of_rat_def word_of_int_uint)
  show "\<bar>x\<bar> * 10 ^ 1074 \<in> \<int>"
  proof (cases "e = 0")
    case True
    show ?thesis unfolding x(2) if_P [OF True] by (rule scaled_Ints) simp
  next
    case False
    then show ?thesis using e unfolding x(2) if_not_P [OF False] by (intro scaled_Ints) simp
  qed
qed

lemma f64_infinite:
  assumes "f64_val w = PInf \<or> f64_val w = NInf"
  shows "w = word_of_int ((if f64_val w = NInf then 2 ^ 63 else 0) + 2047 * 2 ^ 52)"
proof -
  have "uint w = (if f64_val w = NInf then 2 ^ 63 else 0) + 2047 * 2 ^ 52"
    using assms f64_fields [of w] by (auto simp: f64_val_def Let_def split: if_splits)
  then show ?thesis by (metis word_of_int_uint)
qed

lemma parse_show_f64:
  assumes "f64_val w \<noteq> NaN"
  shows "parse_f64 (show_f64 w) = Some w"
proof (cases "\<exists>x. f64_val w = Fin x")
  case True
  then obtain x where fin: "f64_val w = Fin x" by blast
  define neg where "neg = (2 ^ 63 \<le> uint w)"
  note fx = f64_of_val [OF fin, folded neg_def]
  let ?s = "show_magnitude (\<lambda>y. f64_of_rat neg y = w) 17 1074 \<bar>x\<bar>"
  obtain y where y: "parse_number ?s = Some y" "f64_of_rat neg y = w"
    using parse_show_magnitude [of "\<lambda>y. f64_of_rat neg y = w" "\<bar>x\<bar>" 1074 17, OF fx(1) abs_ge_zero fx(2)]
    by blast
  have "show_f64 w = (if neg then ''-'' else []) @ ?s"
    by (simp only: show_f64_def Let_def fin fpval.case neg_def)
  then show ?thesis
    using parse_float_show_magnitude [OF y(1)] y(2) by (simp only: parse_f64_def option.map parsed_float.case)
next
  case False
  then have i: "f64_val w = PInf \<or> f64_val w = NInf" using assms by (cases "f64_val w") auto
  have "parse_float ''inf'' = Some (PF_Inf False)" and "parse_float ''-inf'' = Some (PF_Inf True)"
    by code_simp+
  then show ?thesis using i f64_infinite [OF i] by (auto simp: show_f64_def parse_f64_def Let_def)
qed

lemma f32_fields:
  "(if 2 ^ 31 \<le> uint w then 2 ^ 31 else 0) + (uint w div 2 ^ 23 mod 2 ^ 8 * 2 ^ 23 + uint w mod 2 ^ 23) = uint w"
  for w :: f32
  using sign_split [of "uint w" "2 ^ 23" "2 ^ 8"] uint_lt2p [of w] by (simp split: if_splits)

lemma f32_of_val:
  assumes "f32_val w = Fin x"
  shows "f32_of_rat (2 ^ 31 \<le> uint w) \<bar>x\<bar> = w" and "\<bar>x\<bar> * 10 ^ 149 \<in> \<int>"
proof -
  define e m where e_def: "e = uint w div 2 ^ 23 mod 2 ^ 8" and m_def: "m = uint w mod 2 ^ 23"
  have m: "0 \<le> m" "m < 2 ^ 23" and e: "0 \<le> e" "e < 2 ^ 8" by (simp_all add: e_def m_def)
  note u = f32_fields [of w, folded e_def m_def]
  have x: "e \<noteq> 255" "\<bar>x\<bar> = (if e = 0 then of_int m * 2 powi (- 149) else of_int (2 ^ 23 + m) * 2 powi (e - 150))"
    using assms m unfolding f32_val_def Let_def e_def [symmetric] m_def [symmetric]
    by (auto simp: abs_mult split: if_splits)
  have "encode_mag 23 (- 149) (255 * 2 ^ 23) \<bar>x\<bar> = e * 2 ^ 23 + m"
  proof (cases "e = 0")
    case True
    have "m \<le> 255 * 2 ^ 23" using m by simp
    then show ?thesis
      using encode_mag_subnormal [of m 23 "255 * 2 ^ 23" "- 149"] m True by (simp only: x(2) if_True) simp
  next
    case False
    then show ?thesis
      using encode_mag_normal [of 23 "2 ^ 23 + m" "- 149" "e - 150" "255 * 2 ^ 23"] m e x by simp
  qed
  then show "f32_of_rat (2 ^ 31 \<le> uint w) \<bar>x\<bar> = w"
    using u by (simp only: f32_of_rat_def word_of_int_uint)
  show "\<bar>x\<bar> * 10 ^ 149 \<in> \<int>"
  proof (cases "e = 0")
    case True
    show ?thesis unfolding x(2) if_P [OF True] by (rule scaled_Ints) simp
  next
    case False
    then show ?thesis using e unfolding x(2) if_not_P [OF False] by (intro scaled_Ints) simp
  qed
qed

lemma f32_infinite:
  assumes "f32_val w = PInf \<or> f32_val w = NInf"
  shows "w = word_of_int ((if f32_val w = NInf then 2 ^ 31 else 0) + 255 * 2 ^ 23)"
proof -
  have "uint w = (if f32_val w = NInf then 2 ^ 31 else 0) + 255 * 2 ^ 23"
    using assms f32_fields [of w] by (auto simp: f32_val_def Let_def split: if_splits)
  then show ?thesis by (metis word_of_int_uint)
qed

lemma parse_show_f32:
  assumes "f32_val w \<noteq> NaN"
  shows "parse_f32 (show_f32 w) = Some w"
proof (cases "\<exists>x. f32_val w = Fin x")
  case True
  then obtain x where fin: "f32_val w = Fin x" by blast
  define neg where "neg = (2 ^ 31 \<le> uint w)"
  note fx = f32_of_val [OF fin, folded neg_def]
  let ?s = "show_magnitude (\<lambda>y. f32_of_rat neg y = w) 9 149 \<bar>x\<bar>"
  obtain y where y: "parse_number ?s = Some y" "f32_of_rat neg y = w"
    using parse_show_magnitude [of "\<lambda>y. f32_of_rat neg y = w" "\<bar>x\<bar>" 149 9, OF fx(1) abs_ge_zero fx(2)]
    by blast
  have "show_f32 w = (if neg then ''-'' else []) @ ?s"
    by (simp only: show_f32_def Let_def fin fpval.case neg_def)
  then show ?thesis
    using parse_float_show_magnitude [OF y(1)] y(2) by (simp only: parse_f32_def option.map parsed_float.case)
next
  case False
  then have i: "f32_val w = PInf \<or> f32_val w = NInf" using assms by (cases "f32_val w") auto
  have "parse_float ''inf'' = Some (PF_Inf False)" and "parse_float ''-inf'' = Some (PF_Inf True)"
    by code_simp+
  then show ?thesis using i f32_infinite [OF i] by (auto simp: show_f32_def parse_f32_def Let_def)
qed

end
