(* ===== verification/VissTypes.thy ===== *)
theory VissTypes
  imports Printing Entry
begin

text \<open>
  The messages of the websocket service (\<open>viss/v2/types.rs\<close>) and their conversions
  (\<open>viss/v2/conversions.rs\<close>).  Values travel as text: \<open>Value\<close> is a string, an array of strings
  or null, printed by \<open>to_string\<close> and read back by \<open>parse\<close>.  A struct is a record, an enum a
  datatype; the newtypes \<open>RequestId\<close>, \<open>Path\<close>, \<open>SubscriptionId\<close> and \<open>Timestamp\<close> are what they wrap.
  The JSON text of a message is made and read by \<open>serde_json\<close> and is not part of this theory.
  The last section shows that a value survives its trip as text.
\<close>

section \<open>Values\<close>

datatype VissValue = VV_None | VV_Scalar string | VV_Array "string list"

datatype ConversionError = ParseError

text \<open>\<open>collect::<Result<Vec<_>, _>>\<close> over the elements of an array.\<close>

fun parse_each :: "(string \<Rightarrow> 'a option) \<Rightarrow> string list \<Rightarrow> 'a list option" where
  "parse_each parse [] = Some []"
| "parse_each parse (s # ss) =
     (case parse s of
        None \<Rightarrow> None
      | Some v \<Rightarrow> map_option (Cons v) (parse_each parse ss))"

definition try_scalar :: "(string \<Rightarrow> 'a option) \<Rightarrow> VissValue \<Rightarrow> ('a, ConversionError) result" where
  "try_scalar parse value =
     (case value of
        VV_Array _ \<Rightarrow> Err ParseError
      | VV_None \<Rightarrow> Err ParseError
      | VV_Scalar s \<Rightarrow> (case parse s of Some v \<Rightarrow> Ok v | None \<Rightarrow> Err ParseError))"

definition try_array :: "(string \<Rightarrow> 'a option) \<Rightarrow> VissValue \<Rightarrow> ('a list, ConversionError) result" where
  "try_array parse value =
     (case value of
        VV_Scalar _ \<Rightarrow> Err ParseError
      | VV_None \<Rightarrow> Err ParseError
      | VV_Array ss \<Rightarrow> (case parse_each parse ss of Some vs \<Rightarrow> Ok vs | None \<Rightarrow> Err ParseError))"

definition string_try_from :: "VissValue \<Rightarrow> (string, ConversionError) result" where
  "string_try_from value =
     (case value of
        VV_Array _ \<Rightarrow> Err ParseError
      | VV_None \<Rightarrow> Err ParseError
      | VV_Scalar s \<Rightarrow> Ok s)"

definition bool_try_from :: "VissValue \<Rightarrow> (bool, ConversionError) result" where
  "bool_try_from = try_scalar parse_bool"

definition i32_try_from :: "VissValue \<Rightarrow> (i32, ConversionError) result" where
  "i32_try_from = try_scalar parse_i32"

definition i64_try_from :: "VissValue \<Rightarrow> (i64, ConversionError) result" where
  "i64_try_from = try_scalar parse_i64"

definition u32_try_from :: "VissValue \<Rightarrow> (u32, ConversionError) result" where
  "u32_try_from = try_scalar parse_u32"

definition u64_try_from :: "VissValue \<Rightarrow> (u64, ConversionError) result" where
  "u64_try_from = try_scalar parse_u64"

definition f32_try_from :: "VissValue \<Rightarrow> (f32, ConversionError) result" where
  "f32_try_from = try_scalar parse_f32"

definition f64_try_from :: "VissValue \<Rightarrow> (f64, ConversionError) result" where
  "f64_try_from = try_scalar parse_f64"

definition vec_string_try_from :: "VissValue \<Rightarrow> (string list, ConversionError) result" where
  "vec_string_try_from value =
     (case value of
        VV_Scalar _ \<Rightarrow> Err ParseError
      | VV_None \<Rightarrow> Err ParseError
      | VV_Array ss \<Rightarrow> Ok ss)"

definition vec_bool_try_from :: "VissValue \<Rightarrow> (bool list, ConversionError) result" where
  "vec_bool_try_from = try_array parse_bool"

definition vec_i32_try_from :: "VissValue \<Rightarrow> (i32 list, ConversionError) result" where
  "vec_i32_try_from = try_array parse_i32"

definition vec_i64_try_from :: "VissValue \<Rightarrow> (i64 list, ConversionError) result" where
  "vec_i64_try_from = try_array parse_i64"

definition vec_u32_try_from :: "VissValue \<Rightarrow> (u32 list, ConversionError) result" where
  "vec_u32_try_from = try_array parse_u32"

definition vec_u64_try_from :: "VissValue \<Rightarrow> (u64 list, ConversionError) result" where
  "vec_u64_try_from = try_array parse_u64"

definition vec_f32_try_from :: "VissValue \<Rightarrow> (f32 list, ConversionError) result" where
  "vec_f32_try_from = try_array parse_f32"

definition vec_f64_try_from :: "VissValue \<Rightarrow> (f64 list, ConversionError) result" where
  "vec_f64_try_from = try_array parse_f64"

definition viss_value :: "DataValue \<Rightarrow> VissValue" where
  "viss_value value =
     (case value of
        NotAvailable \<Rightarrow> VV_None
      | Bool v \<Rightarrow> VV_Scalar (show_bool v)
      | String v \<Rightarrow> VV_Scalar v
      | Int32 v \<Rightarrow> VV_Scalar (show_int (sint v))
      | Int64 v \<Rightarrow> VV_Scalar (show_int (sint v))
      | Uint32 v \<Rightarrow> VV_Scalar (show_nat (unat v))
      | Uint64 v \<Rightarrow> VV_Scalar (show_nat (unat v))
      | Float v \<Rightarrow> VV_Scalar (show_f32 v)
      | Double v \<Rightarrow> VV_Scalar (show_f64 v)
      | BoolArray vs \<Rightarrow> VV_Array (map show_bool vs)
      | StringArray vs \<Rightarrow> VV_Array vs
      | Int32Array vs \<Rightarrow> VV_Array (map (\<lambda>v. show_int (sint v)) vs)
      | Int64Array vs \<Rightarrow> VV_Array (map (\<lambda>v. show_int (sint v)) vs)
      | Uint32Array vs \<Rightarrow> VV_Array (map (\<lambda>v. show_nat (unat v)) vs)
      | Uint64Array vs \<Rightarrow> VV_Array (map (\<lambda>v. show_nat (unat v)) vs)
      | FloatArray vs \<Rightarrow> VV_Array (map show_f32 vs)
      | DoubleArray vs \<Rightarrow> VV_Array (map show_f64 vs))"

definition try_into_type :: "VissValue \<Rightarrow> DataType \<Rightarrow> (DataValue, ConversionError) result" where
  "try_into_type value data_type =
     (case data_type of
        T_String \<Rightarrow> result_map String (string_try_from value)
      | T_Bool \<Rightarrow> result_map Bool (bool_try_from value)
      | T_Int8 \<Rightarrow> result_map Int32 (i32_try_from value)
      | T_Int16 \<Rightarrow> result_map Int32 (i32_try_from value)
      | T_Int32 \<Rightarrow> result_map Int32 (i32_try_from value)
      | T_Int64 \<Rightarrow> result_map Int64 (i64_try_from value)
      | T_Uint8 \<Rightarrow> result_map Uint32 (u32_try_from value)
      | T_Uint16 \<Rightarrow> result_map Uint32 (u32_try_from value)
      | T_Uint32 \<Rightarrow> result_map Uint32 (u32_try_from value)
      | T_Uint64 \<Rightarrow> result_map Uint64 (u64_try_from value)
      | T_Float \<Rightarrow> result_map Float (f32_try_from value)
      | T_Double \<Rightarrow> result_map Double (f64_try_from value)
      | T_StringArray \<Rightarrow> result_map StringArray (vec_string_try_from value)
      | T_BoolArray \<Rightarrow> result_map BoolArray (vec_bool_try_from value)
      | T_Int8Array \<Rightarrow> result_map Int32Array (vec_i32_try_from value)
      | T_Int16Array \<Rightarrow> result_map Int32Array (vec_i32_try_from value)
      | T_Int32Array \<Rightarrow> result_map Int32Array (vec_i32_try_from value)
      | T_Int64Array \<Rightarrow> result_map Int64Array (vec_i64_try_from value)
      | T_Uint8Array \<Rightarrow> result_map Uint32Array (vec_u32_try_from value)
      | T_Uint16Array \<Rightarrow> result_map Uint32Array (vec_u32_try_from value)
      | T_Uint32Array \<Rightarrow> result_map Uint32Array (vec_u32_try_from value)
      | T_Uint64Array \<Rightarrow> result_map Uint64Array (vec_u64_try_from value)
      | T_FloatArray \<Rightarrow> result_map FloatArray (vec_f32_try_from value)
      | T_DoubleArray \<Rightarrow> result_map DoubleArray (vec_f64_try_from value))"

record VissDataPoint =
  vdp_value :: VissValue
  vdp_ts :: SystemTime

definition viss_datapoint :: "Datapoint \<Rightarrow> VissDataPoint" where
  "viss_datapoint dp = \<lparr>vdp_value = viss_value (dp_value dp), vdp_ts = dp_ts dp\<rparr>"

section \<open>Data types and metadata\<close>

datatype VissDataType =
    VD_String | VD_Boolean | VD_Int8 | VD_Int16 | VD_Int32 | VD_Int64
  | VD_Uint8 | VD_Uint16 | VD_Uint32 | VD_Uint64 | VD_Float | VD_Double
  | VD_StringArray | VD_BoolArray | VD_Int8Array | VD_Int16Array | VD_Int32Array | VD_Int64Array
  | VD_Uint8Array | VD_Uint16Array | VD_Uint32Array | VD_Uint64Array | VD_FloatArray | VD_DoubleArray

definition viss_data_type :: "DataType \<Rightarrow> VissDataType" where
  "viss_data_type data_type =
     (case data_type of
        T_String \<Rightarrow> VD_String
      | T_Bool \<Rightarrow> VD_Boolean
      | T_Int8 \<Rightarrow> VD_Int8
      | T_Int16 \<Rightarrow> VD_Int16
      | T_Int32 \<Rightarrow> VD_Int32
      | T_Int64 \<Rightarrow> VD_Int64
      | T_Uint8 \<Rightarrow> VD_Uint8
      | T_Uint16 \<Rightarrow> VD_Uint16
      | T_Uint32 \<Rightarrow> VD_Uint32
      | T_Uint64 \<Rightarrow> VD_Uint64
      | T_Float \<Rightarrow> VD_Float
      | T_Double \<Rightarrow> VD_Double
      | T_StringArray \<Rightarrow> VD_StringArray
      | T_BoolArray \<Rightarrow> VD_BoolArray
      | T_Int8Array \<Rightarrow> VD_Int8Array
      | T_Int16Array \<Rightarrow> VD_Int16Array
      | T_Int32Array \<Rightarrow> VD_Int32Array
      | T_Int64Array \<Rightarrow> VD_Int64Array
      | T_Uint8Array \<Rightarrow> VD_Uint8Array
      | T_Uint16Array \<Rightarrow> VD_Uint16Array
      | T_Uint32Array \<Rightarrow> VD_Uint32Array
      | T_Uint64Array \<Rightarrow> VD_Uint64Array
      | T_FloatArray \<Rightarrow> VD_FloatArray
      | T_DoubleArray \<Rightarrow> VD_DoubleArray)"

definition display_data_type :: "VissDataType \<Rightarrow> string" where
  "display_data_type data_type =
     (case data_type of
        VD_String \<Rightarrow> ''string''
      | VD_Boolean \<Rightarrow> ''bool''
      | VD_Int8 \<Rightarrow> ''int8''
      | VD_Int16 \<Rightarrow> ''int16''
      | VD_Int32 \<Rightarrow> ''int32''
      | VD_Int64 \<Rightarrow> ''int64''
      | VD_Uint8 \<Rightarrow> ''uint8''
      | VD_Uint16 \<Rightarrow> ''uint16''
      | VD_Uint32 \<Rightarrow> ''uint32''
      | VD_Uint64 \<Rightarrow> ''uint64''
      | VD_Float \<Rightarrow> ''float''
      | VD_Double \<Rightarrow> ''double''
      | VD_StringArray \<Rightarrow> ''string[]''
      | VD_BoolArray \<Rightarrow> ''bool[]''
      | VD_Int8Array \<Rightarrow> ''int8[]''
      | VD_Int16Array \<Rightarrow> ''int16[]''
      | VD_Int32Array \<Rightarrow> ''int32[]''
      | VD_Int64Array \<Rightarrow> ''int64[]''
      | VD_Uint8Array \<Rightarrow> ''uint8[]''
      | VD_Uint16Array \<Rightarrow> ''uint16[]''
      | VD_Uint32Array \<Rightarrow> ''uint32[]''
      | VD_Uint64Array \<Rightarrow> ''uint64[]''
      | VD_FloatArray \<Rightarrow> ''float[]''
      | VD_DoubleArray \<Rightarrow> ''double[]'')"

record SensorEntry =
  se_datatype :: VissDataType
  se_description :: string
  se_comment :: "string option"
  se_unit :: "string option"
  se_allowed :: "VissValue option"
  se_min :: "VissValue option"
  se_max :: "VissValue option"

record AttributeEntry =
  at_datatype :: VissDataType
  at_description :: string
  at_unit :: "string option"
  at_allowed :: "VissValue option"
  at_default :: "VissValue option"

record ActuatorEntry =
  ac_datatype :: VissDataType
  ac_description :: string
  ac_comment :: "string option"
  ac_unit :: "string option"
  ac_allowed :: "VissValue option"
  ac_min :: "VissValue option"
  ac_max :: "VissValue option"

text \<open>A branch is its description and its children, a \<open>HashMap\<close> kept as an association list.\<close>

datatype MetadataEntry =
    ME_Branch string "(string \<times> MetadataEntry) list"
  | ME_Sensor SensorEntry
  | ME_Attribute AttributeEntry
  | ME_Actuator ActuatorEntry

definition metadata_entry :: "Metadata \<Rightarrow> MetadataEntry" where
  "metadata_entry metadata =
     (let data_type = viss_data_type (md_data_type metadata);
          allowed = map_option viss_value (md_allowed metadata)
      in case md_entry_type metadata of
           Sensor \<Rightarrow>
             ME_Sensor \<lparr>se_datatype = data_type, se_description = md_description metadata,
               se_comment = None, se_unit = None, se_allowed = allowed, se_min = None, se_max = None\<rparr>
         | Attribute \<Rightarrow>
             ME_Attribute \<lparr>at_datatype = data_type, at_description = md_description metadata,
               at_unit = None, at_allowed = allowed, at_default = None\<rparr>
         | Actuator \<Rightarrow>
             ME_Actuator \<lparr>ac_datatype = data_type, ac_description = md_description metadata,
               ac_comment = None, ac_unit = None, ac_allowed = allowed, ac_min = None, ac_max = None\<rparr>)"

section \<open>Errors\<close>

datatype VissError =
    BadRequest "string option"
  | UnauthorizedTokenExpired
  | UnauthorizedTokenInvalid
  | UnauthorizedTokenMissing
  | UnauthorizedReadOnly
  | Forbidden
  | NotFoundInvalidPath
  | NotFoundUnavailableData
  | NotFoundInvalidSubscriptionId
  | InternalServerError
  | NotImplemented

record ErrorSpec =
  es_number :: int
  es_reason :: string
  es_message :: string

definition error_spec :: "VissError \<Rightarrow> ErrorSpec" where
  "error_spec error =
     (case error of
        BadRequest custom_msg \<Rightarrow>
          \<lparr>es_number = 400, es_reason = ''bad_request'',
           es_message = (case custom_msg of Some msg \<Rightarrow> msg
            | None \<Rightarrow> ''The server is unable to fulfil the client request because the request is malformed.'')\<rparr>
      | UnauthorizedTokenExpired \<Rightarrow>
          \<lparr>es_number = 401, es_reason = ''token_expired'',
           es_message = ''Access token has expired.''\<rparr>
      | UnauthorizedTokenInvalid \<Rightarrow>
          \<lparr>es_number = 401, es_reason = ''token_invalid'',
           es_message = ''Access token is invalid.''\<rparr>
      | UnauthorizedTokenMissing \<Rightarrow>
          \<lparr>es_number = 401, es_reason = ''token_missing'',
           es_message = ''Access token is missing.''\<rparr>
      | UnauthorizedReadOnly \<Rightarrow>
          \<lparr>es_number = 401, es_reason = ''read_only'',
           es_message = ''The desired signal cannot be set since it is a read only signal.''\<rparr>
      | Forbidden \<Rightarrow>
          \<lparr>es_number = 403, es_reason = ''user_forbidden'',
           es_message = ''The user is not permitted to access the requested resource. Retrying does not help.''\<rparr>
      | NotFoundInvalidPath \<Rightarrow>
          \<lparr>es_number = 404, es_reason = ''invalid_path'',
           es_message = ''The specified data path does not exist.''\<rparr>
      | NotFoundUnavailableData \<Rightarrow>
          \<lparr>es_number = 404, es_reason = ''unavailable_data'',
           es_message = ''The requested data was not found.''\<rparr>
      | NotFoundInvalidSubscriptionId \<Rightarrow>
          \<lparr>es_number = 404, es_reason = ''invalid_subscription_id'',
           es_message = ''The specified subscription was not found.''\<rparr>
      | InternalServerError \<Rightarrow>
          \<lparr>es_number = 500, es_reason = ''internal_server_error'',
           es_message = ''The server encountered an unexpected condition which prevented it from fulfilling the request.''\<rparr>
      | NotImplemented \<Rightarrow>
          \<lparr>es_number = 501, es_reason = ''not_implemented'',
           es_message = ''The server does not support the functionality required to fulfill the request.''\<rparr>)"

section \<open>Requests and responses\<close>

datatype Filter = StaticMetadata

record GetRequest =
  gq_path :: string
  gq_request_id :: string
  gq_authorization :: "string option"
  gq_filter :: "Filter option"

record SetRequest =
  sq_path :: string
  sq_value :: VissValue
  sq_request_id :: string
  sq_authorization :: "string option"

record SubscribeRequest =
  uq_path :: string
  uq_request_id :: string
  uq_authorization :: "string option"

record UnsubscribeRequest =
  nq_request_id :: string
  nq_subscription_id :: string

datatype Request =
    Req_Get GetRequest
  | Req_Set SetRequest
  | Req_Subscribe SubscribeRequest
  | Req_Unsubscribe UnsubscribeRequest

record GenericRequest =
  gen_action :: "string option"
  gen_request_id :: "string option"

record DataObject =
  do_path :: string
  do_dp :: VissDataPoint

datatype Data = D_Object DataObject | D_Array "DataObject list"

text \<open>The fields of the response structs in the order of their declarations.\<close>

datatype GetSuccessResponse =
    DataResponse (dr_request_id: string) (dr_data: Data)
  | MetadataResponse (mr_request_id: string) (mr_metadata: "(string \<times> MetadataEntry) list")

datatype GetErrorResponse = GetErrorResponse string VissError SystemTime

datatype SetSuccessResponse = SetSuccessResponse string SystemTime

datatype SetErrorResponse = SetErrorResponse string VissError SystemTime

datatype SubscribeSuccessResponse = SubscribeSuccessResponse string string SystemTime

datatype SubscribeErrorResponse = SubscribeErrorResponse string VissError SystemTime

datatype SubscriptionEvent = SubscriptionEvent string Data SystemTime

datatype SubscriptionErrorEvent = SubscriptionErrorEvent string VissError SystemTime

datatype UnsubscribeSuccessResponse = UnsubscribeSuccessResponse string string SystemTime

datatype UnsubscribeErrorResponse = UnsubscribeErrorResponse string string VissError SystemTime

datatype GenericErrorResponse = GenericErrorResponse "string option" "string option" VissError

text \<open>What implements the trait \<open>Response\<close>, the argument of \<open>serialize\<close>.\<close>

datatype Response =
    R_GetSuccess GetSuccessResponse
  | R_GetError GetErrorResponse
  | R_SetSuccess SetSuccessResponse
  | R_SetError SetErrorResponse
  | R_SubscribeSuccess SubscribeSuccessResponse
  | R_SubscribeError SubscribeErrorResponse
  | R_UnsubscribeSuccess UnsubscribeSuccessResponse
  | R_UnsubscribeError UnsubscribeErrorResponse
  | R_Event SubscriptionEvent
  | R_ErrorEvent SubscriptionErrorEvent
  | R_Generic GenericErrorResponse

section \<open>The trip of a value as text\<close>

lemma parse_each_map: "(\<And>v. v \<in> set vs \<Longrightarrow> parse (shw v) = Some v) \<Longrightarrow> parse_each parse (map shw vs) = Some vs"
  by (induction vs) auto

fun nan_free :: "DataValue \<Rightarrow> bool" where
  "nan_free (Float v) = (f32_val v \<noteq> NaN)"
| "nan_free (Double v) = (f64_val v \<noteq> NaN)"
| "nan_free (FloatArray vs) = (\<forall>v\<in>set vs. f32_val v \<noteq> NaN)"
| "nan_free (DoubleArray vs) = (\<forall>v\<in>set vs. f64_val v \<noteq> NaN)"
| "nan_free v = True"

lemmas try_from_defs =
  string_try_from_def bool_try_from_def i32_try_from_def i64_try_from_def u32_try_from_def
  u64_try_from_def f32_try_from_def f64_try_from_def vec_string_try_from_def vec_bool_try_from_def
  vec_i32_try_from_def vec_i64_try_from_def vec_u32_try_from_def vec_u64_try_from_def
  vec_f32_try_from_def vec_f64_try_from_def try_scalar_def try_array_def

lemmas parse_show =
  parse_show_bool parse_show_i32 parse_show_i64 parse_show_u32 parse_show_u64
  parse_show_f32 parse_show_f64

lemma try_into_type_value:
  assumes "carried_by dt v" and "nan_free v"
  shows "try_into_type (viss_value v) dt = Ok v"
  using assms
  by (cases v; cases dt)
    (simp_all add: carried_by_def viss_value_def try_into_type_def try_from_defs parse_show parse_each_map)

lemma try_into_type_carried:
  assumes "try_into_type x dt = Ok v"
  shows "carried_by dt v"
  using assms by (cases dt) (auto simp: try_into_type_def carried_by_def result_map_eq_Ok)

text \<open>
  C28.  A value that a client sets through the websocket service is exactly the value it meant: for
  every data type, parsing the text that the service prints for a value of that type gives the
  value back, bit for bit, floating-point numbers included except NaN; and whatever text is
  accepted for a data type, the value obtained is carried by that type.
\<close>

theorem viss_value_round_trip:
  "(carried_by dt v \<longrightarrow> nan_free v \<longrightarrow> try_into_type (viss_value v) dt = Ok v) \<and>
   (try_into_type x dt = Ok w \<longrightarrow> carried_by dt w)"
  using try_into_type_value try_into_type_carried by blast

theorem viss_value_round_trip_witness:
  "try_into_type (viss_value (Int32Array [5, - 7])) T_Int16Array = Ok (Int32Array [5, - 7]) \<and>
   try_into_type (viss_value (Double 0)) T_Double = Ok (Double 0)"
  using viss_value_round_trip [of T_Int16Array "Int32Array [5, - 7]"]
    viss_value_round_trip [of T_Double "Double 0"]
  by (simp add: carried_by_def f64_val_def)

end
