(* ===== verification/Paths.thy ===== *)
theory Paths
  imports Main
begin

text \<open>
  Paths as strings: splitting at a character, the components between the dots of a path, and
  joining them again.  The metadata tree, the meaning of globs and the completion of paths in the
  terminal clients share these.
\<close>

section \<open>Splitting paths\<close>

definition split_once :: "char \<Rightarrow> string \<Rightarrow> (string \<times> string) option" where
  "split_once c s =
     (case dropWhile (\<lambda>x. x \<noteq> c) s of
        [] \<Rightarrow> None
      | _ # rest \<Rightarrow> Some (takeWhile (\<lambda>x. x \<noteq> c) s, rest))"

definition rsplit_once :: "char \<Rightarrow> string \<Rightarrow> (string \<times> string) option" where
  "rsplit_once c s =
     (case split_once c (rev s) of
        None \<Rightarrow> None
      | Some (after, before) \<Rightarrow> Some (rev before, rev after))"

lemma split_once_Some: "split_once c s = Some (k, rest) \<Longrightarrow> s = k @ c # rest \<and> c \<notin> set k"
proof -
  assume a: "split_once c s = Some (k, rest)"
  then obtain d where d: "dropWhile (\<lambda>x. x \<noteq> c) s = d # rest" and k: "k = takeWhile (\<lambda>x. x \<noteq> c) s"
    by (auto simp: split_once_def split: list.splits)
  have "d = c" using hd_dropWhile [of "\<lambda>x. x \<noteq> c" s] d by auto
  then show ?thesis using takeWhile_dropWhile_id [of "\<lambda>x. x \<noteq> c" s] d k by (auto dest: set_takeWhileD)
qed

lemma split_once_None: "split_once c s = None \<longleftrightarrow> c \<notin> set s"
proof -
  have "split_once c s = None \<longleftrightarrow> dropWhile (\<lambda>x. x \<noteq> c) s = []"
    by (cases "dropWhile (\<lambda>x. x \<noteq> c) s") (simp_all only: split_once_def list.case option.distinct list.distinct refl)
  then show ?thesis unfolding dropWhile_eq_Nil_conv by blast
qed

lemma split_once_append [simp]: "c \<notin> set k \<Longrightarrow> split_once c (k @ c # rest) = Some (k, rest)"
  by (induction k) (auto simp: split_once_def split: list.splits)

lemma split_once_shorter: "split_once c s = Some (k, rest) \<Longrightarrow> length rest < length s"
  by (drule split_once_Some) simp

section \<open>Components\<close>

text \<open>The components of a path: \<open>str::split\<close> at the dots.\<close>

function components :: "string \<Rightarrow> string list" where
  "components path =
     (case split_once CHR ''.'' path of
        Some (key, path') \<Rightarrow> key # components path'
      | None \<Rightarrow> [path])"
  by pat_completeness auto

termination components
  by (relation "measure length") (auto dest: split_once_shorter)

declare components.simps [simp del]

lemma components_leaf: "CHR ''.'' \<notin> set s \<Longrightarrow> components s = [s]"
  using split_once_None [of "CHR ''.''" s] by (simp add: components.simps [of s])

lemma components_dot: "CHR ''.'' \<notin> set k \<Longrightarrow> components (k @ CHR ''.'' # s) = k # components s"
  by (simp add: components.simps [of "k @ CHR ''.'' # s"])

lemma components_not_Nil [simp]: "components s \<noteq> []"
  by (subst components.simps) (auto split: option.split)

fun join_dots :: "string list \<Rightarrow> string" where
  "join_dots [] = []"
| "join_dots [s] = s"
| "join_dots (s # ss) = s @ CHR ''.'' # join_dots ss"

lemma join_components: "join_dots (components s) = s"
proof (induction s rule: components.induct)
  case (1 s)
  show ?case
  proof (cases "split_once CHR ''.'' s")
    case None
    then show ?thesis by (simp add: components.simps [of s])
  next
    case (Some kr)
    obtain k r where kr: "kr = (k, r)" by (cases kr)
    then have "s = k @ CHR ''.'' # r" using split_once_Some Some by blast
    moreover have "join_dots (k # components r) = k @ CHR ''.'' # join_dots (components r)"
      by (cases "components r") auto
    moreover have "CHR ''.'' \<notin> set k" using split_once_Some Some kr by blast
    ultimately show ?thesis using 1 [OF Some kr [symmetric]] by (simp add: components_dot)
  qed
qed

lemma components_inj: "components s = components t \<Longrightarrow> s = t"
  by (metis join_components)

end
