(* ===== verification/MetadataTree.thy ===== *)
theory MetadataTree
  imports VissTypes Paths "HOL-Library.Sublist"
begin

text \<open>
  The metadata tree of the websocket service: \<open>insert_entry\<close> of \<open>viss/v2/server.rs\<close>, which puts an
  entry under the branches its path names.  The locale
  \<open>shadowing_tree\<close> says what an insertion does to a lookup: an entry hides everything below its
  path, and an insertion below an entry is ignored.  From it follows what a tree holds after any
  sequence of insertions, whatever their order.
\<close>

section \<open>Inserting an entry\<close>

function insert_metadata ::
  "(string \<times> MetadataEntry) list \<Rightarrow> string \<Rightarrow> MetadataEntry \<Rightarrow> (string \<times> MetadataEntry) list" where
  "insert_metadata es path entry =
     (case split_once CHR ''.'' path of
        Some (key, path') \<Rightarrow>
          (case map_of es key of
             Some (ME_Branch description children) \<Rightarrow>
               AList.update key (ME_Branch description (insert_metadata children path' entry)) es
           | Some _ \<Rightarrow> es
           | None \<Rightarrow> AList.update key (ME_Branch [] (insert_metadata [] path' entry)) es)
      | None \<Rightarrow> AList.update path entry es)"
  by pat_completeness auto

termination insert_metadata
  by (relation "measure (\<lambda>(es, path, entry). length path)") (auto dest: split_once_shorter)

declare insert_metadata.simps [simp del]

section \<open>Looking up\<close>

text \<open>The entry that a tree holds under a list of components.\<close>

fun leaf_at :: "(string \<times> MetadataEntry) list \<Rightarrow> string list \<Rightarrow> MetadataEntry option" where
  "leaf_at es [] = None"
| "leaf_at es (k # ks) =
     (case map_of es k of
        None \<Rightarrow> None
      | Some (ME_Branch description children) \<Rightarrow> leaf_at children ks
      | Some leaf \<Rightarrow> if ks = [] then Some leaf else None)"

fun is_leaf :: "MetadataEntry \<Rightarrow> bool" where
  "is_leaf (ME_Branch _ _) = False"
| "is_leaf _ = True"

lemma leaf_at_leaf: "is_leaf e \<Longrightarrow> map_of es k = Some e \<Longrightarrow> leaf_at es (k # ks) = (if ks = [] then Some e else None)"
  by (cases e) auto

lemma leaf_at_update:
  "is_leaf e \<Longrightarrow> leaf_at (AList.update k e es) (j # js) =
     (if j = k then if js = [] then Some e else None else leaf_at es (j # js))"
  by (cases e) (auto simp: update_conv')

section \<open>What an insertion does to a lookup\<close>

lemma leaf_at_Nil_tree [simp]: "leaf_at [] ks = None"
  by (cases ks) auto

lemma insert_metadata_dot:
  assumes "CHR ''.'' \<notin> set k"
  shows "insert_metadata es (k @ CHR ''.'' # path) entry =
    (case map_of es k of
       Some (ME_Branch description children) \<Rightarrow>
         AList.update k (ME_Branch description (insert_metadata children path entry)) es
     | Some _ \<Rightarrow> es
     | None \<Rightarrow> AList.update k (ME_Branch [] (insert_metadata [] path entry)) es)"
  using assms by (simp add: insert_metadata.simps [of _ "k @ CHR ''.'' # path"])

lemma insert_metadata_leaf:
  "CHR ''.'' \<notin> set k \<Longrightarrow> insert_metadata es k entry = AList.update k entry es"
  using split_once_None [of "CHR ''.''" k] by (simp add: insert_metadata.simps [of _ k])

lemma path_cases:
  obtains (leaf) "CHR ''.'' \<notin> set path"
    | (dot) k rest where "path = k @ CHR ''.'' # rest" and "CHR ''.'' \<notin> set k"
proof (cases "split_once CHR ''.'' path")
  case None
  then show thesis using split_once_None leaf by blast
next
  case (Some kr)
  then show thesis using split_once_Some dot by (cases kr) blast
qed

definition shadowed :: "(string \<times> MetadataEntry) list \<Rightarrow> string list \<Rightarrow> bool" where
  "shadowed es ks \<longleftrightarrow> (\<exists>ps. strict_prefix ps ks \<and> leaf_at es ps \<noteq> None)"

lemma shadowed_Nil: "\<not> shadowed es []"
  by (simp add: shadowed_def)

lemma shadowed_Cons: "shadowed es (k # ks) \<longleftrightarrow> (\<exists>ps. strict_prefix ps ks \<and> leaf_at es (k # ps) \<noteq> None)"
proof -
  have "shadowed es (k # ks) \<longleftrightarrow> (\<exists>j ps. strict_prefix (j # ps) (k # ks) \<and> leaf_at es (j # ps) \<noteq> None)"
  proof
    assume "shadowed es (k # ks)"
    then obtain ps where "strict_prefix ps (k # ks)" "leaf_at es ps \<noteq> None" unfolding shadowed_def by blast
    then show "\<exists>j ps. strict_prefix (j # ps) (k # ks) \<and> leaf_at es (j # ps) \<noteq> None" by (cases ps) auto
  qed (unfold shadowed_def, blast)
  then show ?thesis by (simp del: leaf_at.simps)
qed

lemma shadowed_simps:
  "map_of es k = None \<Longrightarrow> \<not> shadowed es (k # ks)"
  "map_of es k = Some (ME_Branch d ch) \<Longrightarrow> shadowed es (k # ks) \<longleftrightarrow> shadowed ch ks"
  "\<not> shadowed es [k]" "\<not> shadowed [] ks"
  unfolding shadowed_Cons by (simp_all add: shadowed_def)

lemma leaf_at_insert:
  assumes "is_leaf entry"
  shows "leaf_at (insert_metadata es path entry) qs =
    (if shadowed es (components path) then leaf_at es qs
     else if qs = components path then Some entry
     else if strict_prefix (components path) qs then None
     else leaf_at es qs)"
  using assms
proof (induction "length path" arbitrary: es path qs rule: less_induct)
  case less
  show ?case
  proof (cases path rule: path_cases)
    case leaf
    then show ?thesis using less.prems
      by (cases qs) (auto simp: insert_metadata_leaf components_leaf shadowed_simps leaf_at_update
          strict_prefix_def simp del: leaf_at.simps(2))
  next
    case (dot k rest)
    have IH: "leaf_at (insert_metadata ch rest entry) js =
      (if shadowed ch (components rest) then leaf_at ch js
       else if js = components rest then Some entry
       else if strict_prefix (components rest) js then None
       else leaf_at ch js)" for ch js
      by (rule less.hyps) (simp_all add: dot less.prems)
    consider (none) "map_of es k = None" | (branch) d ch where "map_of es k = Some (ME_Branch d ch)"
      | (other) e where "map_of es k = Some e" "is_leaf e"
      by (metis is_leaf.elims(3) not_None_eq)
    then show ?thesis
    proof cases
      case none
      then show ?thesis using dot
        by (cases qs) (auto simp: insert_metadata_dot components_dot shadowed_simps update_conv' IH)
    next
      case branch
      then show ?thesis using dot
        by (cases qs) (auto simp: insert_metadata_dot components_dot shadowed_simps update_conv' IH)
    next
      case other
      then have "insert_metadata es path entry = es"
        using dot by (cases e) (auto simp: insert_metadata_dot)
      moreover have "strict_prefix [k] (components path)" "leaf_at es [k] \<noteq> None"
        using dot other components_not_Nil [of rest]
        by (auto simp: components_dot leaf_at_leaf strict_prefix_def simp del: leaf_at.simps components_not_Nil)
      ultimately have "shadowed es (components path)" unfolding shadowed_def by blast
      then show ?thesis using \<open>insert_metadata es path entry = es\<close> by simp
    qed
  qed
qed

section \<open>Trees filled by insertions\<close>

locale shadowing_tree =
  fixes look :: "'t \<Rightarrow> 'k list \<Rightarrow> 'e option"
    and ins :: "'t \<Rightarrow> 'p \<Rightarrow> 'e \<Rightarrow> 't"
    and empty_tree :: 't
    and comps :: "'p \<Rightarrow> 'k list"
    and storable :: "'e \<Rightarrow> bool"
  assumes look_empty: "look empty_tree qs = None"
    and look_ins: "storable e \<Longrightarrow> look (ins t p e) qs =
      (if \<exists>ps. strict_prefix ps (comps p) \<and> look t ps \<noteq> None then look t qs
       else if qs = comps p then Some e
       else if strict_prefix (comps p) qs then None
       else look t qs)"
begin

definition fill :: "('p \<times> 'e) list \<Rightarrow> 't" where
  "fill pes = foldl (\<lambda>t (p, e). ins t p e) empty_tree pes"

lemma fill_snoc: "fill (pes @ [(p, e)]) = ins (fill pes) p e"
  by (simp add: fill_def)

text \<open>Among the entries above a path, the topmost is visible.\<close>

lemma topmost:
  assumes look: "\<And>qs. look t qs = (if \<exists>p\<in>P. strict_prefix (comps p) qs then None else M qs)"
    and dom: "dom M = comps ` P"
  shows "(\<exists>ps. strict_prefix ps qs \<and> look t ps \<noteq> None) \<longleftrightarrow> (\<exists>p\<in>P. strict_prefix (comps p) qs)"
proof
  assume "\<exists>ps. strict_prefix ps qs \<and> look t ps \<noteq> None"
  then obtain ps where "strict_prefix ps qs" "M ps \<noteq> None" using look by (metis (no_types))
  then show "\<exists>p\<in>P. strict_prefix (comps p) qs" using dom by (metis domIff imageE)
next
  assume "\<exists>p\<in>P. strict_prefix (comps p) qs"
  then obtain n where "\<exists>p\<in>P. strict_prefix (comps p) qs \<and> length (comps p) = n" by blast
  then obtain p where p: "p \<in> P" "strict_prefix (comps p) qs"
    and least: "\<And>q. q \<in> P \<Longrightarrow> strict_prefix (comps q) qs \<Longrightarrow> length (comps p) \<le> length (comps q)"
    using exists_least_iff [of "\<lambda>n. \<exists>p\<in>P. strict_prefix (comps p) qs \<and> length (comps p) = n"]
    by (metis not_le_imp_less)
  have "\<not> strict_prefix (comps q) (comps p)" if "q \<in> P" for q
    using least [OF that] p(2) prefix_length_less prefix_order.less_trans by (metis leD)
  then have "look t (comps p) = M (comps p)" using look by auto
  then show "\<exists>ps. strict_prefix ps qs \<and> look t ps \<noteq> None" using p dom by (metis domIff imageI)
qed

theorem look_fill:
  assumes "\<forall>(p, e)\<in>set pes. storable e"
  shows "look (fill pes) qs =
    (if \<exists>p\<in>fst ` set pes. strict_prefix (comps p) qs then None
     else map_of (rev (map (\<lambda>(p, e). (comps p, e)) pes)) qs)"
  using assms
proof (induction pes arbitrary: qs rule: rev_induct)
  case Nil
  then show ?case by (simp add: fill_def look_empty)
next
  case (snoc x pes)
  obtain p e where x: "x = (p, e)" by (cases x)
  let ?M = "map_of (rev (map (\<lambda>(p, e). (comps p, e)) pes))"
  have IH: "look (fill pes) qs = (if \<exists>p\<in>fst ` set pes. strict_prefix (comps p) qs then None else ?M qs)" for qs
    using snoc by simp
  have "dom ?M = comps ` fst ` set pes" by (force simp: dom_map_of_conv_image_fst image_iff)
  note above = topmost [of "fill pes" "fst ` set pes" ?M, OF IH this]
  have "storable e" using snoc.prems by (simp add: x)
  from look_ins [OF this, of "fill pes" p qs, unfolded above] show ?case
    using prefix_order.less_trans [of _ "comps p" qs] by (auto simp: x fill_snoc IH)
qed

end

interpretation tree: shadowing_tree leaf_at insert_metadata "[]" components is_leaf
  by unfold_locales (simp_all add: leaf_at_insert shadowed_def)

end
