(* ===== verification/Viss.thy ===== *)
theory Viss
  imports MetadataTree Batches Authorization
begin

text \<open>
  The websocket service: \<open>viss/v2/server.rs\<close> (the handlers \<open>get\<close>, \<open>set\<close>, \<open>subscribe\<close> and
  \<open>unsubscribe\<close>) and the message loop of \<open>viss/server.rs\<close>.  A server belongs to one connection and
  keeps the abort handles of its subscriptions.  An \<open>AbortHandle\<close> is a number, the flag it shares
  with its stream is the element of \<open>vs_handles\<close> at that position, and dropping a
  \<open>SubscriptionHandle\<close> sets the flag.  \<open>None\<close> as the result of a handler is a panic of the task, which
  \<open>Permissions::try_from\<close> can cause.  The random identifiers of \<open>Uuid::new_v4\<close>, the JSON reader and
  writer and the regular expressions are parameters.
\<close>

section \<open>Authorization\<close>

definition resolve_permissions ::
  "captures \<Rightarrow> regex_engine \<Rightarrow> Authorization \<Rightarrow> string option \<Rightarrow> (Permissions, VissError) result option" where
  "resolve_permissions captures re authorization token =
     (case authorization of
        Auth_Disabled \<Rightarrow> Some (Ok ALLOW_ALL)
      | Auth_Enabled token_decoder \<Rightarrow>
          (case token of
             Some token \<Rightarrow>
               (case decode_token token_decoder token of
                  Ok claims \<Rightarrow>
                    (case permissions_try_from captures re claims of
                       Ok permissions \<Rightarrow> Some (Ok permissions)
                     | Err JwtPanic \<Rightarrow> None
                     | Err _ \<Rightarrow> Some (Err UnauthorizedTokenInvalid))
                | Err _ \<Rightarrow> Some (Err UnauthorizedTokenInvalid))
           | None \<Rightarrow> Some (Err UnauthorizedTokenMissing)))"

section \<open>Metadata\<close>

definition for_each_entry ::
  "regex_engine \<Rightarrow> SystemTime \<Rightarrow> Permissions \<Rightarrow> DataBroker \<Rightarrow> (EntryReadAccess \<Rightarrow> 's \<Rightarrow> 's) \<Rightarrow> 's \<Rightarrow> 's" where
  "for_each_entry re now permissions broker f s =
     foldl (\<lambda>s entry. f entry s) s (iter_entries re now permissions (database broker))"

definition prefix_to_strip :: "string \<Rightarrow> string" where
  "prefix_to_strip path =
     (case rsplit_once CHR ''.'' path of
        Some (prefix_excl_dot, _) \<Rightarrow> take (Suc (length prefix_excl_dot)) path
      | None \<Rightarrow> [])"

definition strip_prefix :: "string \<Rightarrow> string \<Rightarrow> string option" where
  "strip_prefix pre s = (if prefix pre s then Some (drop (length pre) s) else None)"

definition generate_metadata ::
  "regex_engine \<Rightarrow> SystemTime \<Rightarrow> Permissions \<Rightarrow> DataBroker \<Rightarrow> string \<Rightarrow> (string \<times> MetadataEntry) list" where
  "generate_metadata re now permissions broker path =
     for_each_entry re now permissions broker
       (\<lambda>entry metadata.
          (let entry_metadata = era_metadata entry; entry_path = md_path entry_metadata
           in if prefix path entry_path then
                (case strip_prefix (prefix_to_strip path) entry_path of
                   Some path \<Rightarrow> insert_metadata metadata path (metadata_entry entry_metadata)
                 | None \<Rightarrow> metadata)
              else metadata)) []"

section \<open>Server\<close>

record VissServer =
  vs_authorization :: Authorization
  vs_subscriptions :: "(string \<times> nat) list"
  vs_handles :: "bool list"

definition new_server :: "Authorization \<Rightarrow> VissServer" where
  "new_server authorization =
     \<lparr>vs_authorization = authorization, vs_subscriptions = [], vs_handles = []\<rparr>"

definition drop_handle :: "nat \<Rightarrow> VissServer \<Rightarrow> VissServer" where
  "drop_handle h server = server\<lparr>vs_handles := (vs_handles server)[h := True]\<rparr>"

definition viss_get ::
  "captures \<Rightarrow> regex_engine \<Rightarrow> SystemTime \<Rightarrow> VissServer \<Rightarrow> DataBroker \<Rightarrow> GetRequest \<Rightarrow>
   (GetSuccessResponse, GetErrorResponse) result option" where
  "viss_get captures re now server broker request =
     (let request_id = gq_request_id request in
      case gq_filter request of
        Some StaticMetadata \<Rightarrow>
          Some (Ok (MetadataResponse request_id
            (generate_metadata re now ALLOW_NONE broker (gq_path request))))
      | None \<Rightarrow>
          (case resolve_permissions captures re (vs_authorization server) (gq_authorization request) of
             None \<Rightarrow> None
           | Some (Err error) \<Rightarrow> Some (Err (GetErrorResponse request_id error now))
           | Some (Ok permissions) \<Rightarrow>
               (case get_datapoint_by_path re now permissions broker (gq_path request) of
                  Ok datapoint \<Rightarrow>
                    Some (Ok (DataResponse request_id
                      (D_Object \<lparr>do_path = gq_path request, do_dp = viss_datapoint datapoint\<rparr>)))
                | Err err \<Rightarrow>
                    Some (Err (GetErrorResponse request_id
                      (case err of
                         ReadNotFound \<Rightarrow> NotFoundInvalidPath
                       | ReadPermissionDenied \<Rightarrow> Forbidden
                       | ReadPermissionExpired \<Rightarrow> UnauthorizedTokenExpired) now)))))"

definition viss_update_error :: "UpdateError \<Rightarrow> VissError" where
  "viss_update_error error =
     (case error of
        NotFound \<Rightarrow> NotFoundInvalidPath
      | WrongType \<Rightarrow> BadRequest (Some ''Wrong data type.'')
      | OutOfBounds \<Rightarrow> BadRequest (Some ''Value out of bounds.'')
      | UnsupportedType \<Rightarrow> BadRequest (Some ''Unsupported data type.'')
      | PermissionDenied \<Rightarrow> Forbidden
      | PermissionExpired \<Rightarrow> UnauthorizedTokenExpired)"

definition viss_set ::
  "captures \<Rightarrow> regex_engine \<Rightarrow> SystemTime \<Rightarrow> VissServer \<Rightarrow> DataBroker \<Rightarrow> SetRequest \<Rightarrow>
   (SetSuccessResponse, SetErrorResponse) result option \<times> DataBroker" where
  "viss_set captures re now server broker request =
     (let request_id = sq_request_id request in
      case resolve_permissions captures re (vs_authorization server) (sq_authorization request) of
        None \<Rightarrow> (None, broker)
      | Some (Err error) \<Rightarrow> (Some (Err (SetErrorResponse request_id error now)), broker)
      | Some (Ok permissions) \<Rightarrow>
          (case get_metadata_by_path (database broker) (sq_path request) of
             Some metadata \<Rightarrow>
               if md_entry_type metadata \<noteq> Actuator then
                 (Some (Err (SetErrorResponse request_id UnauthorizedReadOnly now)), broker)
               else
                 (case try_into_type (sq_value request) (md_data_type metadata) of
                    Err ParseError \<Rightarrow>
                      (Some (Err (SetErrorResponse request_id
                         (BadRequest (Some (''Failed to parse the value as a '' @
                            display_data_type (viss_data_type (md_data_type metadata))))) now)), broker)
                  | Ok actuator_target \<Rightarrow>
                      (let upd = \<lparr>upd_path = None, upd_datapoint = None,
                             upd_actuator_target = Some (Some \<lparr>dp_ts = now, dp_value = actuator_target\<rparr>),
                             upd_entry_type = None, upd_data_type = None, upd_description = None,
                             upd_allowed = None, upd_unit = None\<rparr>
                       in case update_entries re now permissions broker [(md_id metadata, upd)] of
                            (Ok _, broker) \<Rightarrow> (Some (Ok (SetSuccessResponse request_id now)), broker)
                          | (Err errors, broker) \<Rightarrow>
                              (let error =
                                 (case errors of
                                    (_, error) # _ \<Rightarrow> viss_update_error error
                                  | [] \<Rightarrow> InternalServerError)
                               in (Some (Err (SetErrorResponse request_id error now)), broker))))
           | None \<Rightarrow> (Some (Err (SetErrorResponse request_id NotFoundInvalidPath now)), broker)))"

text \<open>
  The stream handed to the connection: the identifier its events carry, its abort handle, and the
  subscription of the broker it reads from.
\<close>

record VissStream =
  st_subscription_id :: string
  st_handle :: nat
  st_source :: ChangeSubscription

text \<open>Inserting into the \<open>HashMap\<close> drops the handle that was there.\<close>

definition register_handle :: "string \<Rightarrow> nat \<Rightarrow> VissServer \<Rightarrow> VissServer" where
  "register_handle subscription_id h server =
     (let server' = server\<lparr>vs_subscriptions := AList.update subscription_id h (vs_subscriptions server)\<rparr>
      in case map_of (vs_subscriptions server) subscription_id of
           Some old \<Rightarrow> drop_handle old server'
         | None \<Rightarrow> server')"

definition viss_subscribe ::
  "captures \<Rightarrow> regex_engine \<Rightarrow> (nat \<Rightarrow> string) \<Rightarrow> SystemTime \<Rightarrow> VissServer \<Rightarrow> DataBroker \<Rightarrow> SubscribeRequest \<Rightarrow>
   (SubscribeSuccessResponse \<times> VissStream, SubscribeErrorResponse) result option \<times> VissServer \<times> DataBroker" where
  "viss_subscribe captures re uuid now server broker request =
     (let request_id = uq_request_id request in
      case resolve_permissions captures re (vs_authorization server) (uq_authorization request) of
        None \<Rightarrow> (None, server, broker)
      | Some (Err error) \<Rightarrow> (Some (Err (SubscribeErrorResponse request_id error now)), server, broker)
      | Some (Ok permissions) \<Rightarrow>
          (case get_id_by_path broker (uq_path request) of
             None \<Rightarrow> (Some (Err (SubscribeErrorResponse request_id NotFoundInvalidPath now)), server, broker)
           | Some eid \<Rightarrow>
               (case subscribe re now permissions broker [(eid, {F_Datapoint})] of
                  (Ok subscription, broker) \<Rightarrow>
                    (let h = length (vs_handles server);
                         subscription_id = uuid h;
                         server = server\<lparr>vs_handles := vs_handles server @ [False]\<rparr>;
                         server = register_handle subscription_id h server
                     in (Some (Ok (SubscribeSuccessResponse request_id subscription_id now,
                           \<lparr>st_subscription_id = subscription_id, st_handle = h, st_source = subscription\<rparr>)),
                         server, broker))
                | (Err err, broker) \<Rightarrow>
                    (Some (Err (SubscribeErrorResponse request_id
                       (case err of
                          SubNotFound \<Rightarrow> NotFoundInvalidPath
                        | SubInvalidInput \<Rightarrow> NotFoundInvalidPath
                        | SubInternalError \<Rightarrow> InternalServerError) now)), server, broker))))"

definition viss_unsubscribe ::
  "SystemTime \<Rightarrow> VissServer \<Rightarrow> UnsubscribeRequest \<Rightarrow>
   (UnsubscribeSuccessResponse, UnsubscribeErrorResponse) result \<times> VissServer" where
  "viss_unsubscribe now server request =
     (let subscription_id = nq_subscription_id request; request_id = nq_request_id request in
      case map_of (vs_subscriptions server) subscription_id of
        Some h \<Rightarrow>
          (Ok (UnsubscribeSuccessResponse request_id subscription_id now),
           drop_handle h (server\<lparr>vs_subscriptions := AList.delete subscription_id (vs_subscriptions server)\<rparr>))
      | None \<Rightarrow>
          (Err (UnsubscribeErrorResponse request_id subscription_id NotFoundInvalidSubscriptionId now), server))"

definition convert_to_viss_stream ::
  "string \<Rightarrow> SystemTime \<Rightarrow> EntryUpdates \<Rightarrow> (SubscriptionEvent, SubscriptionErrorEvent) result" where
  "convert_to_viss_stream subscription_id now updates =
     (if updates = [] then Err (SubscriptionErrorEvent subscription_id InternalServerError now)
      else
        (case (upd_path (cn_update (last updates)), upd_datapoint (cn_update (last updates))) of
           (Some path, Some datapoint) \<Rightarrow>
             Ok (SubscriptionEvent subscription_id
               (D_Object \<lparr>do_path = path, do_dp = viss_datapoint datapoint\<rparr>) now)
         | _ \<Rightarrow> Err (SubscriptionErrorEvent subscription_id InternalServerError now)))"

text \<open>\<open>Abortable::poll_next\<close>: an aborted stream has ended, any other passes the item on.\<close>

definition stream_next ::
  "VissServer \<Rightarrow> VissStream \<Rightarrow> SystemTime \<Rightarrow> EntryUpdates \<Rightarrow>
   (SubscriptionEvent, SubscriptionErrorEvent) result option" where
  "stream_next server stream now item =
     (if vs_handles server ! st_handle stream then None
      else Some (convert_to_viss_stream (st_subscription_id stream) now item))"

section \<open>Connection\<close>

definition parse_v2_msg ::
  "(string \<Rightarrow> Request option) \<Rightarrow> (string \<Rightarrow> GenericRequest option) \<Rightarrow> string \<Rightarrow>
   (Request, GenericErrorResponse) result" where
  "parse_v2_msg from_str from_str_generic msg =
     (case from_str msg of
        Some request \<Rightarrow> Ok request
      | None \<Rightarrow>
          (case from_str_generic msg of
             Some request \<Rightarrow>
               Err (GenericErrorResponse (gen_action request) (gen_request_id request) (BadRequest None))
           | None \<Rightarrow> Err (GenericErrorResponse None None (BadRequest None))))"

datatype WsMessage = Ws_Text string | Ws_Binary string | Ws_Close | Ws_Pong | Ws_Ping

text \<open>
  The connection: its server, the streams given to background tasks, and the responses queued for
  the socket.
\<close>

record connection =
  con_server :: VissServer
  con_streams :: "VissStream list"
  con_out :: "string list"

record json =
  js_request :: "string \<Rightarrow> Request option"
  js_generic :: "string \<Rightarrow> GenericRequest option"
  js_to_string :: "Response \<Rightarrow> string option"

definition respond :: "json \<Rightarrow> Response \<Rightarrow> connection \<Rightarrow> connection" where
  "respond js response con =
     (case js_to_string js response of
        Some text \<Rightarrow> con\<lparr>con_out := con_out con @ [text]\<rparr>
      | None \<Rightarrow> con)"

definition handle_text ::
  "json \<Rightarrow> captures \<Rightarrow> regex_engine \<Rightarrow> (nat \<Rightarrow> string) \<Rightarrow> SystemTime \<Rightarrow> string \<Rightarrow> connection \<Rightarrow> DataBroker \<Rightarrow>
   connection option \<times> DataBroker" where
  "handle_text js captures re uuid now msg con broker =
     (case parse_v2_msg (js_request js) (js_generic js) msg of
        Ok (Req_Get request) \<Rightarrow>
          (case viss_get captures re now (con_server con) broker request of
             None \<Rightarrow> (None, broker)
           | Some (Ok response) \<Rightarrow> (Some (respond js (R_GetSuccess response) con), broker)
           | Some (Err error_response) \<Rightarrow> (Some (respond js (R_GetError error_response) con), broker))
      | Ok (Req_Set request) \<Rightarrow>
          (case viss_set captures re now (con_server con) broker request of
             (None, broker) \<Rightarrow> (None, broker)
           | (Some (Ok response), broker) \<Rightarrow> (Some (respond js (R_SetSuccess response) con), broker)
           | (Some (Err error_response), broker) \<Rightarrow>
               (Some (respond js (R_SetError error_response) con), broker))
      | Ok (Req_Subscribe request) \<Rightarrow>
          (case viss_subscribe captures re uuid now (con_server con) broker request of
             (None, server, broker) \<Rightarrow> (None, broker)
           | (Some (Ok (response, stream)), server, broker) \<Rightarrow>
               (Some (respond js (R_SubscribeSuccess response)
                  (con\<lparr>con_server := server, con_streams := con_streams con @ [stream]\<rparr>)), broker)
           | (Some (Err error_response), server, broker) \<Rightarrow>
               (Some (respond js (R_SubscribeError error_response) (con\<lparr>con_server := server\<rparr>)), broker))
      | Ok (Req_Unsubscribe request) \<Rightarrow>
          (case viss_unsubscribe now (con_server con) request of
             (Ok response, server) \<Rightarrow>
               (Some (respond js (R_UnsubscribeSuccess response) (con\<lparr>con_server := server\<rparr>)), broker)
           | (Err error_response, server) \<Rightarrow>
               (Some (respond js (R_UnsubscribeError error_response) (con\<lparr>con_server := server\<rparr>)), broker))
      | Err error_response \<Rightarrow> (Some (respond js (R_Generic error_response) con), broker))"

text \<open>
  When the read task ends, by a close message, an error of the socket or a panic, the server it
  owns is dropped and with it every handle.
\<close>

definition drop_server :: "VissServer \<Rightarrow> VissServer" where
  "drop_server server =
     fold (\<lambda>(_, h). drop_handle h) (vs_subscriptions server) (server\<lparr>vs_subscriptions := []\<rparr>)"

text \<open>
  The read task, over the messages that arrive, \<open>None\<close> for an error, each with the time at which it
  is handled; \<open>others\<close> is what the rest of the system does to the broker before it.
\<close>

fun read_task ::
  "json \<Rightarrow> captures \<Rightarrow> regex_engine \<Rightarrow> (nat \<Rightarrow> string) \<Rightarrow>
   ((DataBroker \<Rightarrow> DataBroker) \<times> SystemTime \<times> WsMessage option) list \<Rightarrow> connection \<Rightarrow> DataBroker \<Rightarrow>
   connection \<times> DataBroker" where
  "read_task js captures re uuid [] con broker = (con\<lparr>con_server := drop_server (con_server con)\<rparr>, broker)"
| "read_task js captures re uuid ((others, now, item) # items) con broker =
     (let broker = others broker in
      case item of
        Some (Ws_Text msg) \<Rightarrow>
          (case handle_text js captures re uuid now msg con broker of
             (Some con, broker) \<Rightarrow> read_task js captures re uuid items con broker
           | (None, broker) \<Rightarrow> (con\<lparr>con_server := drop_server (con_server con)\<rparr>, broker))
      | Some (Ws_Binary _) \<Rightarrow> read_task js captures re uuid items con broker
      | Some Ws_Pong \<Rightarrow> read_task js captures re uuid items con broker
      | Some Ws_Ping \<Rightarrow> read_task js captures re uuid items con broker
      | Some Ws_Close \<Rightarrow> (con\<lparr>con_server := drop_server (con_server con)\<rparr>, broker)
      | None \<Rightarrow> (con\<lparr>con_server := drop_server (con_server con)\<rparr>, broker))"

text \<open>\<open>handle_websocket\<close>: a connection that asks for another subprotocol is closed at once.\<close>

definition valid_subprotocol :: "('h \<Rightarrow> string option) \<Rightarrow> 'h option \<Rightarrow> bool" where
  "valid_subprotocol to_str protocol =
     (case protocol of
        Some subprotocol \<Rightarrow>
          (case to_str subprotocol of
             Some s \<Rightarrow> s = ''VISSv2''
           | None \<Rightarrow> False)
      | None \<Rightarrow> True)"

definition handle_websocket ::
  "json \<Rightarrow> captures \<Rightarrow> regex_engine \<Rightarrow> (nat \<Rightarrow> string) \<Rightarrow> ('h \<Rightarrow> string option) \<Rightarrow> 'h option \<Rightarrow> Authorization \<Rightarrow>
   ((DataBroker \<Rightarrow> DataBroker) \<times> SystemTime \<times> WsMessage option) list \<Rightarrow> DataBroker \<Rightarrow>
   (connection \<times> DataBroker) option" where
  "handle_websocket js captures re uuid to_str protocol authorization items broker =
     (if \<not> valid_subprotocol to_str protocol then None
      else Some (read_task js captures re uuid items
        \<lparr>con_server = new_server authorization, con_streams = [], con_out = []\<rparr> broker))"

section \<open>Setting a target\<close>

text \<open>The update that \<open>set\<close> makes, and its reason to refuse a value for an entry.\<close>

definition viss_target :: "SystemTime \<Rightarrow> DataValue \<Rightarrow> EntryUpdate" where
  "viss_target now v = default_update\<lparr>upd_actuator_target := Some (Some \<lparr>dp_ts = now, dp_value = v\<rparr>)\<rparr>"

definition value_refusal :: "Entry \<Rightarrow> DataValue \<Rightarrow> VissError option" where
  "value_refusal e v =
     (if \<not> conforms (md_data_type (e_metadata e)) v then Some (BadRequest (Some ''Value out of bounds.''))
      else case md_allowed (e_metadata e) of
        None \<Rightarrow> None
      | Some allowed \<Rightarrow>
          if \<not> same_element_type allowed v then Some (BadRequest (Some ''Unsupported data type.''))
          else if all_allowed allowed v then None else Some (BadRequest (Some ''Value out of bounds.'')))"

definition viss_refusal ::
  "regex_engine \<Rightarrow> SystemTime \<Rightarrow> Permissions \<Rightarrow> Entry \<Rightarrow> VissValue \<Rightarrow> VissError option" where
  "viss_refusal re now ps e x =
     (if md_entry_type (e_metadata e) \<noteq> Actuator then Some UnauthorizedReadOnly
      else case try_into_type x (md_data_type (e_metadata e)) of
        Err _ \<Rightarrow> Some (BadRequest (Some (''Failed to parse the value as a '' @
                   display_data_type (viss_data_type (md_data_type (e_metadata e))))))
      | Ok v \<Rightarrow>
          if has_expired now ps then Some UnauthorizedTokenExpired
          else if \<not> is_match re (perm_actuate ps) (md_path (e_metadata e)) then Some Forbidden
          else value_refusal e v)"

lemma validate_target:
  assumes "carried_by (md_data_type (e_metadata e)) v"
  shows "validate e (diff e (viss_target now v)) = Ok () \<longleftrightarrow> value_refusal e v = None"
    and "validate e (diff e (viss_target now v)) = Err err \<Longrightarrow> value_refusal e v = Some (viss_update_error err)"
proof -
  have "v \<noteq> NotAvailable" using assms by (cases "md_data_type (e_metadata e)") (auto simp: carried_by_def)
  then have "validate e (diff e (viss_target now v)) =
      (if \<not> conforms (md_data_type (e_metadata e)) v then Err OutOfBounds else validate_allowed e v)"
    using assms by (simp add: validate_def viss_target_def default_update_def diff_fields validate_value_eq value_ok_def)
      (cases "validate_allowed e v"; simp)
  then show "validate e (diff e (viss_target now v)) = Ok () \<longleftrightarrow> value_refusal e v = None"
    and "validate e (diff e (viss_target now v)) = Err err \<Longrightarrow> value_refusal e v = Some (viss_update_error err)"
    by (auto simp: value_refusal_def validate_allowed_eq viss_update_error_def split: option.splits if_splits)
qed

lemma e_equality:
  "e_datapoint e = e_datapoint e' \<Longrightarrow> e_actuator_target e = e_actuator_target e' \<Longrightarrow>
   e_metadata e = e_metadata e' \<Longrightarrow> e = (e' :: Entry)"
  by (cases e; cases e') simp

lemma updated_target: "updated_entry e (viss_target now v) = e\<lparr>e_actuator_target := Some \<lparr>dp_ts = now, dp_value = v\<rparr>\<rparr>"
  by (rule e_equality) (simp_all add: updated_entry_def apply_update_fields diff_fields viss_target_def default_update_def)

lemma update_target:
  assumes wf: "db_wf db" and e: "abs_db db path = Some e"
    and carried: "carried_by (md_data_type (e_metadata e)) v"
    and u: "update re now ps db (md_id (e_metadata e)) (viss_target now v) = (r, db')"
    and refusal: "refusal = (if has_expired now ps then Some UnauthorizedTokenExpired
      else if \<not> is_match re (perm_actuate ps) path then Some Forbidden else value_refusal e v)"
  shows "(case r of Ok _ \<Rightarrow> None | Err err \<Rightarrow> Some (viss_update_error err)) = refusal"
    and "refusal = None \<Longrightarrow> abs_db db' = (abs_db db)(path \<mapsto> e\<lparr>e_actuator_target := Some \<lparr>dp_ts = now, dp_value = v\<rparr>\<rparr>)"
    and "refusal \<noteq> None \<Longrightarrow> db' = db"
proof -
  note ep = abs_db_wf_path [OF wf e]
  have t: "\<not> touches_metadata (viss_target now v)" "writes_value (viss_target now v)"
    "write_granted re ps path (viss_target now v) \<longleftrightarrow> is_match re (perm_actuate ps) path"
    by (simp_all add: touches_metadata_def writes_value_def write_granted_def viss_target_def default_update_def)
  note val = validate_target [OF carried, of now]
  show "(case r of Ok _ \<Rightarrow> None | Err err \<Rightarrow> Some (viss_update_error err)) = refusal"
    using u val unfolding refusal
    by (auto simp: update_eq ep t viss_update_error_def split: result.splits if_splits)
  show "refusal = None \<Longrightarrow> abs_db db' = (abs_db db)(path \<mapsto> e\<lparr>e_actuator_target := Some \<lparr>dp_ts = now, dp_value = v\<rparr>\<rparr>)"
    using u val(1) unfolding refusal
    by (auto simp: update_eq ep t abs_db_set_entry [OF wf ep(3)] updated_target split: result.splits if_splits)
  show "refusal \<noteq> None \<Longrightarrow> db' = db"
    using u val unfolding refusal by (auto simp: update_eq ep t split: result.splits if_splits)
qed

section \<open>Properties of the handlers\<close>

text \<open>
  The websocket service and the gRPC services grant the same: a token sent in a request of the
  one yields the permissions, or the refusal, that it yields as the bearer token of the other.
\<close>

theorem viss_permissions_agree:
  "intercept captures re Some authorization (map_option (\<lambda>token. ''Bearer '' @ token) token) =
     (case resolve_permissions captures re authorization token of
        None \<Rightarrow> Err AuthPanic
      | Some (Ok permissions) \<Rightarrow> Ok permissions
      | Some (Err _) \<Rightarrow> Err Unauthenticated)"
  by (auto simp: intercept_def resolve_permissions_def auth_error_def
      split: Authorization.split option.split result.split JwtError.split)

text \<open>
  C25.  The handler of \<open>set\<close>, on every branch.  Without valid permissions, for an unknown path and for
  every reason to refuse the value (not an actuator, not the text of a value of the data type, an
  expired token, no permission to actuate, out of bounds, not allowed) it answers with that error
  and the database stays as it is; otherwise it succeeds and the only change of the database is
  that the target of the entry is the value the client sent, at the time of the request.
\<close>

theorem viss_set_outcome:
  assumes "db_wf (database broker)" and "viss_set captures re now server broker request = (r, broker')"
  shows
    "case resolve_permissions captures re (vs_authorization server) (sq_authorization request) of
       None \<Rightarrow> r = None \<and> database broker' = database broker
     | Some (Err error) \<Rightarrow>
         r = Some (Err (SetErrorResponse (sq_request_id request) error now)) \<and> database broker' = database broker
     | Some (Ok ps) \<Rightarrow>
         (case abs_db (database broker) (sq_path request) of
            None \<Rightarrow> r = Some (Err (SetErrorResponse (sq_request_id request) NotFoundInvalidPath now)) \<and>
              database broker' = database broker
          | Some e \<Rightarrow>
              (case viss_refusal re now ps e (sq_value request) of
                 Some error \<Rightarrow>
                   r = Some (Err (SetErrorResponse (sq_request_id request) error now)) \<and>
                   database broker' = database broker
               | None \<Rightarrow>
                   r = Some (Ok (SetSuccessResponse (sq_request_id request) now)) \<and>
                   (\<exists>v. try_into_type (sq_value request) (md_data_type (e_metadata e)) = Ok v \<and>
                      conforms (md_data_type (e_metadata e)) v \<and>
                      abs_db (database broker') = (abs_db (database broker))(sq_path request \<mapsto>
                        e\<lparr>e_actuator_target := Some \<lparr>dp_ts = now, dp_value = v\<rparr>\<rparr>))))"
proof -
  let ?db = "database broker"
  let ?perms = "resolve_permissions captures re (vs_authorization server) (sq_authorization request)"
  show ?thesis
  proof (cases "\<exists>ps e v. ?perms = Some (Ok ps) \<and> abs_db ?db (sq_path request) = Some e \<and>
      md_entry_type (e_metadata e) = Actuator \<and>
      try_into_type (sq_value request) (md_data_type (e_metadata e)) = Ok v")
    case False
    then show ?thesis using assms(2)
      by (auto simp: viss_set_def get_metadata_by_path_abs viss_refusal_def Let_def
          split: option.splits result.splits ConversionError.splits if_splits)
  next
    case True
    then obtain ps e v where ps: "?perms = Some (Ok ps)" and e: "abs_db ?db (sq_path request) = Some e"
      and act: "md_entry_type (e_metadata e) = Actuator"
      and v: "try_into_type (sq_value request) (md_data_type (e_metadata e)) = Ok v" by blast
    obtain r' db' where u: "update re now ps ?db (md_id (e_metadata e)) (viss_target now v) = (r', db')"
      by (cases "update re now ps ?db (md_id (e_metadata e)) (viss_target now v)")
    note tgt = update_target [OF assms(1) e try_into_type_carried [OF v] u refl]
    have "viss_target now v = \<lparr>upd_path = None, upd_datapoint = None,
        upd_actuator_target = Some (Some \<lparr>dp_ts = now, dp_value = v\<rparr>), upd_entry_type = None,
        upd_data_type = None, upd_description = None, upd_allowed = None, upd_unit = None\<rparr>"
      by (simp add: viss_target_def default_update_def)
    then have "r = Some (case r' of Ok _ \<Rightarrow> Ok (SetSuccessResponse (sq_request_id request) now)
        | Err err \<Rightarrow> Err (SetErrorResponse (sq_request_id request) (viss_update_error err) now))"
      and "database broker' = db'"
      using assms(2) ps e act v u update_single [of re now ps broker "md_id (e_metadata e)" "viss_target now v"]
      by (auto simp: viss_set_def get_metadata_by_path_abs Let_def split: result.splits prod.splits)
    then show ?thesis
      using tgt ps e act v abs_db_wf_path(1) [OF assms(1) e]
      by (cases r') (auto simp: viss_refusal_def value_refusal_def split: option.splits if_splits)
  qed
qed

lemma parse_seven: "parse_i32 ''7'' = Some 7"
  by code_simp

lemma example_abs: "abs_db example_db ''A'' = Some example_entry"
  by (simp add: abs_db_def)

definition viss_example :: VissServer where
  "viss_example = new_server Auth_Disabled"

theorem viss_set_outcome_witness:
  "\<exists>broker'.
     viss_set (\<lambda>_ _. None) any_regex 5 viss_example example_broker
       \<lparr>sq_path = ''A'', sq_value = VV_Scalar ''7'', sq_request_id = ''1'', sq_authorization = None\<rparr> =
       (Some (Ok (SetSuccessResponse ''1'' 5)), broker') \<and>
     (\<exists>v. abs_db (database broker') ''A'' = Some (example_entry\<lparr>e_actuator_target := Some \<lparr>dp_ts = 5, dp_value = v\<rparr>\<rparr>))"
proof -
  let ?req = "\<lparr>sq_path = ''A'', sq_value = VV_Scalar ''7'', sq_request_id = ''1'', sq_authorization = None\<rparr>"
  have wf: "db_wf (database example_broker)" and e: "abs_db (database example_broker) ''A'' = Some example_entry"
    by (simp_all add: example_abs)
  have "resolve_permissions (\<lambda>_ _. None) any_regex (vs_authorization viss_example) None = Some (Ok ALLOW_ALL)"
    by (simp add: resolve_permissions_def viss_example_def new_server_def)
  moreover have "viss_refusal any_regex 5 ALLOW_ALL example_entry (VV_Scalar ''7'') = None"
    by (simp add: viss_refusal_def value_refusal_def try_into_type_def i32_try_from_def try_scalar_def
        parse_seven conforms_def has_expired_def ALLOW_ALL_def)
  ultimately show ?thesis
    using viss_set_outcome [OF wf surjective_pairing, of "\<lambda>_ _. None" any_regex 5 viss_example ?req]
    by (auto simp: example_abs prod_eq_iff)
qed

section \<open>Reading\<close>

text \<open>
  The handler of \<open>get\<close> without a filter: it answers with the stored datapoint of the path, its
  value printed as text, exactly if the path is registered and the token grants reading it; an
  unknown path, a missing permission and an expired token each have their own error.
\<close>

theorem viss_get_outcome:
  assumes "db_wf (database broker)" and "gq_filter request = None"
  shows "viss_get captures re now server broker request =
    (case resolve_permissions captures re (vs_authorization server) (gq_authorization request) of
       None \<Rightarrow> None
     | Some (Err error) \<Rightarrow> Some (Err (GetErrorResponse (gq_request_id request) error now))
     | Some (Ok ps) \<Rightarrow>
         (case abs_db (database broker) (gq_path request) of
            None \<Rightarrow> Some (Err (GetErrorResponse (gq_request_id request) NotFoundInvalidPath now))
          | Some e \<Rightarrow>
              (case can_read re now ps (gq_path request) of
                 Ok _ \<Rightarrow> Some (Ok (DataResponse (gq_request_id request)
                   (D_Object \<lparr>do_path = gq_path request, do_dp = viss_datapoint (e_datapoint e)\<rparr>)))
               | Err Denied \<Rightarrow> Some (Err (GetErrorResponse (gq_request_id request) Forbidden now))
               | Err Expired \<Rightarrow>
                   Some (Err (GetErrorResponse (gq_request_id request) UnauthorizedTokenExpired now)))))"
  using assms
  by (simp add: viss_get_def get_datapoint_by_path_abs Let_def
      split: option.split result.split PermissionError.split)

theorem viss_get_outcome_witness:
  "viss_get (\<lambda>_ _. None) any_regex 5 viss_example example_broker
     \<lparr>gq_path = ''A'', gq_request_id = ''1'', gq_authorization = None, gq_filter = None\<rparr> =
   Some (Ok (DataResponse ''1'' (D_Object \<lparr>do_path = ''A'', do_dp = \<lparr>vdp_value = VV_None, vdp_ts = 1\<rparr>\<rparr>)))"
  using viss_get_outcome [of example_broker
      "\<lparr>gq_path = ''A'', gq_request_id = ''1'', gq_authorization = None, gq_filter = None\<rparr>"]
  by (simp add: example_abs viss_example_def new_server_def resolve_permissions_def viss_datapoint_def viss_value_def)

section \<open>The metadata tree\<close>

text \<open>The entries that a request for metadata selects, and where they go.\<close>

lemma prefix_to_strip_prefix: "prefix (prefix_to_strip path) path"
  by (auto simp: prefix_to_strip_def take_is_prefix split: option.split)

definition selected_path :: "string \<Rightarrow> string \<Rightarrow> string" where
  "selected_path path entry_path = drop (length (prefix_to_strip path)) entry_path"

definition selection :: "string \<Rightarrow> Database \<Rightarrow> (string \<times> MetadataEntry) list" where
  "selection path db =
     List.map_filter (\<lambda>(_, e). if prefix path (md_path (e_metadata e))
       then Some (selected_path path (md_path (e_metadata e)), metadata_entry (e_metadata e)) else None)
       (entries db)"

lemma era_metadata_new [simp]: "era_metadata (new_entry_read_access re now ps e) = e_metadata e"
  by (simp add: new_entry_read_access_def split: result.split PermissionError.split)

lemma generate_metadata_fill: "generate_metadata re now ps broker path = tree.fill (selection path (database broker))"
proof -
  have "foldl (\<lambda>s entry. let entry_metadata = era_metadata entry; entry_path = md_path entry_metadata
        in if prefix path entry_path then
             (case strip_prefix (prefix_to_strip path) entry_path of
                Some path \<Rightarrow> insert_metadata s path (metadata_entry entry_metadata)
              | None \<Rightarrow> s)
           else s) t (map (\<lambda>(_, entry). new_entry_read_access re now ps entry) es) =
      foldl (\<lambda>t (p, e). insert_metadata t p e) t
        (List.map_filter (\<lambda>(_, e). if prefix path (md_path (e_metadata e))
          then Some (selected_path path (md_path (e_metadata e)), metadata_entry (e_metadata e)) else None) es)"
    for es :: "(i32 \<times> Entry) list" and t
  proof (induction es arbitrary: t)
    case (Cons x es)
    have "strip_prefix (prefix_to_strip path) p = Some (selected_path path p)" if "prefix path p" for p
      using prefix_order.order_trans [OF prefix_to_strip_prefix that] by (simp add: strip_prefix_def selected_path_def)
    then show ?case using Cons by (cases x) (simp add: Let_def map_filter_simps)
  qed (simp add: map_filter_simps)
  then show ?thesis
    by (simp add: generate_metadata_def for_each_entry_def iter_entries_def tree.fill_def selection_def)
qed

lemma is_leaf_metadata_entry [simp]: "is_leaf (metadata_entry md)"
  by (simp add: metadata_entry_def Let_def split: EntryType.split)

lemma selection_leaves: "\<forall>(p, e)\<in>set (selection path db). is_leaf e"
  by (auto simp: selection_def List.map_filter_def split: if_splits)

lemma db_wf_entry_iff:
  assumes "db_wf db"
  shows "(eid, e) \<in> set (entries db) \<longleftrightarrow> abs_db db (md_path (e_metadata e)) = Some e \<and> md_id (e_metadata e) = eid"
proof
  assume "(eid, e) \<in> set (entries db)"
  then have "map_of (entries db) eid = Some e" using assms by (intro map_of_is_SomeI) (simp_all add: db_wf_def)
  then show "abs_db db (md_path (e_metadata e)) = Some e \<and> md_id (e_metadata e) = eid"
    using abs_db_by_id [OF assms] db_wf_entryD(1) [OF assms] by blast
next
  assume "abs_db db (md_path (e_metadata e)) = Some e \<and> md_id (e_metadata e) = eid"
  then show "(eid, e) \<in> set (entries db)"
    using abs_db_wf_path(3) [OF assms] by (blast intro: map_of_SomeD)
qed

lemma set_map_filter_Some: "y \<in> set (List.map_filter f xs) \<longleftrightarrow> (\<exists>x\<in>set xs. f x = Some y)"
  by (induction xs) (auto simp: map_filter_simps split: option.splits)

lemma in_selection:
  assumes "db_wf db"
  shows "(q, m) \<in> set (selection path db) \<longleftrightarrow>
    (\<exists>p e. abs_db db p = Some e \<and> prefix path p \<and> q = selected_path path p \<and> m = metadata_entry (e_metadata e))"
proof -
  have "(q, m) \<in> set (selection path db) \<longleftrightarrow>
    (\<exists>eid e. (eid, e) \<in> set (entries db) \<and> prefix path (md_path (e_metadata e)) \<and>
       q = selected_path path (md_path (e_metadata e)) \<and> m = metadata_entry (e_metadata e))"
    by (auto simp: selection_def set_map_filter_Some Bex_def split_paired_Ex)
  then show ?thesis using abs_db_wf_path(1) [OF assms] unfolding db_wf_entry_iff [OF assms] by blast
qed

lemma selected_path_append: "prefix path p \<Longrightarrow> p = prefix_to_strip path @ selected_path path p"
proof -
  assume "prefix path p"
  then have "prefix (prefix_to_strip path) p" by (rule prefix_order.order_trans [OF prefix_to_strip_prefix])
  then show ?thesis by (auto simp: prefix_def selected_path_def)
qed

lemma map_of_functional:
  assumes "\<And>v v'. (k, v) \<in> set kvs \<Longrightarrow> (k, v') \<in> set kvs \<Longrightarrow> v = v'"
  shows "map_of (rev kvs) k = Some v \<longleftrightarrow> (k, v) \<in> set kvs"
proof
  assume v: "(k, v) \<in> set kvs"
  then obtain v' where v': "map_of (rev kvs) k = Some v'" using weak_map_of_SomeI [of k v "rev kvs"] by auto
  then have "(k, v') \<in> set kvs" using map_of_SomeD [OF v'] by (simp only: set_rev)
  then show "map_of (rev kvs) k = Some v" using assms v v' by simp
qed (drule map_of_SomeD, simp only: set_rev)

text \<open>
  C27.  The metadata of a subtree, which needs no token: the entry returned under a list of path
  components is exactly the registered entry with that path whose full path starts with the
  requested text, unless another such entry lies above it.  Hence the answer does not depend on
  the order in which the database is traversed, and every selected entry of a database in which no
  entry lies below another is found.
\<close>

theorem metadata_tree_outcome:
  assumes "db_wf (database broker)"
    and "selected = (\<lambda>p. prefix path p \<and> abs_db (database broker) p \<noteq> None)"
  shows "leaf_at (generate_metadata re now ps broker path) ks = Some m \<longleftrightarrow>
    (\<exists>p e. abs_db (database broker) p = Some e \<and> selected p \<and>
       ks = components (selected_path path p) \<and> m = metadata_entry (e_metadata e) \<and>
       (\<forall>q. selected q \<longrightarrow> \<not> strict_prefix (components (selected_path path q)) ks))"
proof -
  let ?db = "database broker"
  let ?kvs = "map (\<lambda>(p, e). (components p, e)) (selection path ?db)"
  note sel = in_selection [OF assms(1)]
  have kvs: "(k, v) \<in> set ?kvs \<longleftrightarrow> (\<exists>p e. abs_db ?db p = Some e \<and> prefix path p \<and>
      k = components (selected_path path p) \<and> v = metadata_entry (e_metadata e))" for k v
    by (force simp: sel)
  have inj: "p = q" if "components (selected_path path p) = components (selected_path path q)"
    "prefix path p" "prefix path q" for p q
    using components_inj [OF that(1)] selected_path_append that(2,3) by metis
  have lookup: "map_of (rev ?kvs) ks = Some m \<longleftrightarrow> (ks, m) \<in> set ?kvs"
  proof (rule map_of_functional)
    fix v v' assume "(ks, v) \<in> set ?kvs" and "(ks, v') \<in> set ?kvs"
    then obtain p e p' e' where "abs_db ?db p = Some e" "abs_db ?db p' = Some e'" "v = metadata_entry (e_metadata e)"
      "v' = metadata_entry (e_metadata e')" "p = p'"
      using inj unfolding kvs by blast
    then show "v = v'" by simp
  qed
  have above: "(\<exists>p\<in>fst ` set (selection path ?db). strict_prefix (components p) ks) \<longleftrightarrow>
      (\<exists>q. selected q \<and> strict_prefix (components (selected_path path q)) ks)"
    unfolding assms(2) by (auto simp: Bex_def image_iff split_paired_Ex sel)
  have "leaf_at (generate_metadata re now ps broker path) ks = Some m \<longleftrightarrow>
      (ks, m) \<in> set ?kvs \<and> (\<forall>q. selected q \<longrightarrow> \<not> strict_prefix (components (selected_path path q)) ks)"
    unfolding generate_metadata_fill tree.look_fill [OF selection_leaves] above lookup [symmetric] by simp
  moreover have "selected p \<longleftrightarrow> prefix path p" if "abs_db ?db p = Some e" for p e
    using that assms(2) by simp
  ultimately show ?thesis unfolding kvs by metis
qed

theorem metadata_tree_outcome_witness:
  "leaf_at (generate_metadata any_regex 5 ALLOW_NONE example_broker ''A'') [''A''] =
     Some (metadata_entry (e_metadata example_entry))"
proof -
  have "abs_db example_db p \<noteq> None \<longleftrightarrow> p = ''A''" for p by (simp add: abs_db_def)
  moreover have "selected_path ''A'' ''A'' = ''A''" "components ''A'' = [''A'']"
    by (simp_all add: selected_path_def prefix_to_strip_def rsplit_once_def split_once_def components_leaf)
  ultimately show ?thesis
    using metadata_tree_outcome [OF _ refl, where broker = example_broker and path = "''A''" and
        re = any_regex and now = 5 and ps = ALLOW_NONE and ks = "[''A'']" and
        m = "metadata_entry (e_metadata example_entry)"] example_abs
    by (auto simp del: example_entry_simps)
qed

section \<open>Subscriptions of a connection\<close>

text \<open>
  A stream runs exactly as long as its handle is in the table: the flags that are not set are those
  of the handles in the table, and no two subscriptions share a handle.
\<close>

definition server_ok :: "VissServer \<Rightarrow> bool" where
  "server_ok server \<longleftrightarrow>
     distinct (map fst (vs_subscriptions server)) \<and> distinct (map snd (vs_subscriptions server)) \<and>
     snd ` set (vs_subscriptions server) =
       {h. h < length (vs_handles server) \<and> \<not> vs_handles server ! h}"

text \<open>Every stream of a connection has its own handle, and its subscription identifier is the one issued with it.\<close>

definition connection_ok :: "(nat \<Rightarrow> string) \<Rightarrow> connection \<Rightarrow> bool" where
  "connection_ok uuid con \<longleftrightarrow>
     server_ok (con_server con) \<and>
     map st_handle (con_streams con) = [0..<length (vs_handles (con_server con))] \<and>
     (\<forall>st\<in>set (con_streams con). st_subscription_id st = uuid (st_handle st)) \<and>
     (\<forall>(k, h)\<in>set (vs_subscriptions (con_server con)). k = uuid h)"

lemma drop_handle_simps [simp]:
  "vs_subscriptions (drop_handle h server) = vs_subscriptions server"
  "vs_authorization (drop_handle h server) = vs_authorization server"
  "vs_handles (drop_handle h server) = (vs_handles server)[h := True]"
  by (simp_all add: drop_handle_def)

lemma flag_update: "i < length fs \<Longrightarrow> fs[h := True] ! i \<longleftrightarrow> fs ! i \<or> i = h"
  by (cases "h < length fs") (auto simp: nth_list_update)

lemma delete_set: "set (AList.delete k kvs) = {x \<in> set kvs. fst x \<noteq> k}"
  by (auto simp: AList.delete_eq)

lemma delete_distinct_snd: "distinct (map snd kvs) \<Longrightarrow> distinct (map snd (AList.delete k kvs))"
  by (simp add: AList.delete_eq distinct_map_filter)

lemma snd_delete:
  assumes "distinct (map snd kvs)" "(k, v) \<in> set kvs"  and "distinct (map fst kvs)"
  shows "snd ` set (AList.delete k kvs) = snd ` set kvs - {v}"
proof -
  have "snd x = v \<longleftrightarrow> fst x = k" if "x \<in> set kvs" for x
    using that assms by (metis eq_key_imp_eq_value distinct_map inj_on_def prod.collapse snd_conv fst_conv)
  then show ?thesis by (force simp: delete_set)
qed

lemma unsubscribe_ok:
  assumes "server_ok server" and "map_of (vs_subscriptions server) k = Some h"
  shows "server_ok (drop_handle h (server\<lparr>vs_subscriptions := AList.delete k (vs_subscriptions server)\<rparr>))"
  using assms snd_delete [of "vs_subscriptions server" k h]
  by (auto simp: server_ok_def distinct_delete delete_distinct_snd flag_update dest: map_of_SomeD)

lemma drop_server_fold:
  "vs_handles (fold (\<lambda>(_, h). drop_handle h) subs server) ! i =
     (vs_handles server ! i \<or> i \<in> snd ` set subs)" if "i < length (vs_handles server)"
  using that by (induction subs arbitrary: server) (force simp: flag_update)+

lemma drop_server_length [simp]:
  "length (vs_handles (fold (\<lambda>(_, h). drop_handle h) subs server)) = length (vs_handles server)"
  by (induction subs arbitrary: server) auto

lemma drop_server_ends:
  "server_ok server \<Longrightarrow> i < length (vs_handles server) \<Longrightarrow> vs_handles (drop_server server) ! i"
  by (auto simp: drop_server_def drop_server_fold server_ok_def)

lemma set_update_subset: "set (AList.update k v kvs) \<subseteq> insert (k, v) (set kvs)"
  by (induction kvs) auto

lemma update_distinct_snd:
  "distinct (map snd kvs) \<Longrightarrow> v \<notin> snd ` set kvs \<Longrightarrow> distinct (map snd (AList.update k v kvs))"
proof (induction kvs)
  case (Cons x kvs)
  have "snd x \<notin> snd ` set (AList.update k v kvs)"
    using Cons.prems image_mono [OF set_update_subset [of k v kvs], of snd] by auto
  then show ?case using Cons by (cases x) auto
qed simp

lemma set_update_distinct:
  "distinct (map fst kvs) \<Longrightarrow> set (AList.update k v kvs) = insert (k, v) {x \<in> set kvs. fst x \<noteq> k}"
  by (induction kvs) (auto simp: rev_image_eqI)

lemma snd_update:
  "distinct (map fst kvs) \<Longrightarrow> snd ` set (AList.update k v kvs) = insert v (snd ` {x \<in> set kvs. fst x \<noteq> k})"
  by (simp add: set_update_distinct)

lemma new_handle_ok:
  assumes ok: "server_ok server" and h: "h = length (vs_handles server)"
  shows "server_ok (register_handle k h (server\<lparr>vs_handles := vs_handles server @ [False]\<rparr>))"
proof -
  let ?subs = "vs_subscriptions server" and ?hs = "vs_handles server"
  have d: "distinct (map fst ?subs)" "distinct (map snd ?subs)" and s: "snd ` set ?subs = {i. i < h \<and> \<not> ?hs ! i}"
    using ok by (auto simp: server_ok_def h)
  have new: "distinct (map snd (AList.update k h ?subs))" using d(2) s by (intro update_distinct_snd) auto
  show ?thesis
  proof (cases "map_of ?subs k")
    case None
    then have "{x \<in> set ?subs. fst x \<noteq> k} = set ?subs" by (auto simp: map_of_eq_None_iff)
    then have "snd ` set (AList.update k h ?subs) = insert h {i. i < h \<and> \<not> ?hs ! i}"
      using snd_update [OF d(1), of k h] s by simp
    then show ?thesis using None new d(1)
      by (auto simp: register_handle_def server_ok_def Let_def distinct_update nth_append h split: if_splits)
  next
    case (Some old)
    have "snd ` {x \<in> set ?subs. fst x \<noteq> k} = snd ` set ?subs - {old}"
      using snd_delete [OF d(2) map_of_SomeD [OF Some] d(1)] by (simp add: delete_set)
    then have "snd ` set (AList.update k h ?subs) = insert h ({i. i < h \<and> \<not> ?hs ! i} - {old})"
      using snd_update [OF d(1), of k h] s by simp
    moreover have "old < h" using s map_of_SomeD [OF Some] by force
    ultimately show ?thesis using Some new d(1)
      by (auto simp: register_handle_def server_ok_def Let_def distinct_update flag_update nth_append h split: if_splits)
  qed
qed

lemma register_handle_simps [simp]:
  "length (vs_handles (register_handle k h server)) = length (vs_handles server)"
  "set (vs_subscriptions (register_handle k h server)) \<subseteq> insert (k, h) (set (vs_subscriptions server))"
  "vs_authorization (register_handle k h server) = vs_authorization server"
  by (simp_all add: register_handle_def Let_def set_update_subset split: option.split)

lemma new_connection_ok:
  "connection_ok uuid \<lparr>con_server = new_server authorization, con_streams = [], con_out = []\<rparr>"
  by (simp add: connection_ok_def server_ok_def new_server_def)

lemma respond_simps [simp]:
  "con_server (respond js r con) = con_server con" "con_streams (respond js r con) = con_streams con"
  by (simp_all add: respond_def split: option.split)

lemma viss_subscribe_cases:
  assumes "viss_subscribe captures re uuid now server broker request = (r, server', broker')"
  shows "(\<forall>resp st. r \<noteq> Some (Ok (resp, st))) \<and> server' = server \<or>
    (\<exists>resp st. r = Some (Ok (resp, st)) \<and> st_handle st = length (vs_handles server) \<and>
       st_subscription_id st = uuid (st_handle st) \<and>
       server' = register_handle (uuid (st_handle st)) (st_handle st)
         (server\<lparr>vs_handles := vs_handles server @ [False]\<rparr>))"
  using assms
  by (auto simp: viss_subscribe_def Let_def split: option.splits result.splits prod.splits)

lemma handle_text_ok:
  assumes ok: "connection_ok uuid con"
    and h: "handle_text js captures re uuid now msg con broker = (Some con', broker')"
  shows "connection_ok uuid con'"
proof (cases "parse_v2_msg (js_request js) (js_generic js) msg")
  case (Err e)
  then show ?thesis using ok h by (auto simp: handle_text_def connection_ok_def)
next
  case (Ok request)
  show ?thesis
  proof (cases request)
    case (Req_Subscribe req)
    obtain r server' broker'' where s:
      "viss_subscribe captures re uuid now (con_server con) broker req = (r, server', broker'')"
      by (rule prod_cases3)
    from viss_subscribe_cases [OF s] show ?thesis
    proof (elim disjE conjE exE)
      assume "\<forall>resp st. r \<noteq> Some (Ok (resp, st))" and "server' = con_server con"
      then show ?thesis using ok h Ok Req_Subscribe s
        by (auto simp: handle_text_def connection_ok_def split: option.splits result.splits)
    next
      fix resp st
      assume r: "r = Some (Ok (resp, st))" and st: "st_handle st = length (vs_handles (con_server con))"
        "st_subscription_id st = uuid (st_handle st)"
        and server': "server' = register_handle (uuid (st_handle st)) (st_handle st)
          ((con_server con)\<lparr>vs_handles := vs_handles (con_server con) @ [False]\<rparr>)"
      have con': "con_server con' = server'" "con_streams con' = con_streams con @ [st]"
        using h Ok Req_Subscribe s r by (auto simp: handle_text_def)
      have subs: "set (vs_subscriptions server') \<subseteq>
          insert (uuid (st_handle st), st_handle st) (set (vs_subscriptions (con_server con)))"
        unfolding server' using register_handle_simps(2) [of "uuid (st_handle st)" "st_handle st"
            "(con_server con)\<lparr>vs_handles := vs_handles (con_server con) @ [False]\<rparr>"] by simp
      have "server_ok server'" unfolding server'
        by (rule new_handle_ok) (use ok st in \<open>auto simp: connection_ok_def\<close>)
      moreover have "length (vs_handles server') = Suc (length (vs_handles (con_server con)))"
        by (simp add: server')
      ultimately show ?thesis using ok st subs by (auto simp: connection_ok_def con')
    qed
  next
    case (Req_Unsubscribe req)
    then show ?thesis using ok h Ok unsubscribe_ok [of "con_server con" "nq_subscription_id req"]
      by (auto simp: handle_text_def viss_unsubscribe_def connection_ok_def Let_def delete_set split: option.splits)
  qed (use ok h Ok in \<open>auto simp: handle_text_def connection_ok_def split: option.splits result.splits prod.splits\<close>)
qed

text \<open>The connections that a sequence of text messages can lead to.\<close>

inductive reachable_connection ::
  "json \<Rightarrow> captures \<Rightarrow> regex_engine \<Rightarrow> (nat \<Rightarrow> string) \<Rightarrow> connection \<Rightarrow> bool"
  for js captures re uuid where
  connection_start: "reachable_connection js captures re uuid
     \<lparr>con_server = new_server authorization, con_streams = [], con_out = []\<rparr>"
| connection_step: "reachable_connection js captures re uuid con \<Longrightarrow>
     handle_text js captures re uuid now msg con broker = (Some con', broker') \<Longrightarrow>
     reachable_connection js captures re uuid con'"

lemma reachable_connection_ok: "reachable_connection js captures re uuid con \<Longrightarrow> connection_ok uuid con"
  by (induction rule: reachable_connection.induct) (auto intro: new_connection_ok handle_text_ok)

lemma stream_handle:
  assumes "connection_ok uuid con" and "st \<in> set (con_streams con)"
  shows "st_handle st < length (vs_handles (con_server con))"
proof -
  have "st_handle st \<in> set (map st_handle (con_streams con))" using assms(2) by simp
  also have "\<dots> = {0..<length (vs_handles (con_server con))}"
    using assms(1) unfolding connection_ok_def by (simp only: set_upt)
  finally show ?thesis by simp
qed

lemma stream_running:
  assumes "connection_ok uuid con" and "st \<in> set (con_streams con)"
  shows "\<not> vs_handles (con_server con) ! st_handle st \<longleftrightarrow>
    map_of (vs_subscriptions (con_server con)) (st_subscription_id st) = Some (st_handle st)"
proof -
  let ?subs = "vs_subscriptions (con_server con)"
  have "\<not> vs_handles (con_server con) ! st_handle st \<longleftrightarrow> st_handle st \<in> snd ` set ?subs"
    using assms(1) stream_handle [OF assms] by (simp add: connection_ok_def server_ok_def)
  also have "\<dots> \<longleftrightarrow> (st_subscription_id st, st_handle st) \<in> set ?subs"
    using assms by (force simp: connection_ok_def)
  also have "\<dots> \<longleftrightarrow> map_of ?subs (st_subscription_id st) = Some (st_handle st)"
    using assms(1) by (simp add: connection_ok_def server_ok_def)
  finally show ?thesis .
qed

lemma drop_ends:
  assumes "connection_ok uuid con" and "st \<in> set (con_streams con)"
  shows "vs_handles (drop_server (con_server con)) ! st_handle st"
  using stream_handle [OF assms] assms(1) drop_server_ends by (simp add: connection_ok_def)

lemma read_task_ends:
  assumes "connection_ok uuid con" and "read_task js captures re uuid items con broker = (con', broker')"
    and "st \<in> set (con_streams con')"
  shows "vs_handles (con_server con') ! st_handle st"
  using assms
proof (induction items arbitrary: con broker)
  case Nil
  then show ?case using drop_ends by auto
next
  case (Cons x items)
  obtain others now item where x: "x = (others, now, item)" by (cases x)
  note IH = Cons.IH and end_now = drop_ends [OF Cons.prems(1)]
  show ?case
  proof (cases "\<exists>msg con'' broker''. item = Some (Ws_Text msg) \<and>
      handle_text js captures re uuid now msg con (others broker) = (Some con'', broker'')")
    case True
    then obtain msg con'' broker'' where h: "item = Some (Ws_Text msg)"
      "handle_text js captures re uuid now msg con (others broker) = (Some con'', broker'')" by blast
    have "connection_ok uuid con''" by (rule handle_text_ok [OF Cons.prems(1) h(2)])
    then show ?thesis by (rule IH) (use Cons.prems(2,3) h in \<open>simp_all add: x\<close>)
  next
    case False
    show ?thesis
    proof (cases item)
      case (Some msg)
      then show ?thesis using Cons.prems False IH [OF Cons.prems(1)] end_now
        by (cases msg) (auto simp: x Let_def split: prod.splits option.splits)
    qed (use Cons.prems end_now in \<open>auto simp: x\<close>)
  qed
qed

text \<open>
  C26.  The life of a websocket subscription.  In every reachable connection a stream delivers events
  exactly as long as its subscription is registered under the identifier its events carry; a
  request to unsubscribe succeeds exactly for a registered identifier, and then ends the stream of
  that identifier and no other; and when the connection is over, whatever ended it, no stream
  delivers anything.
\<close>

theorem viss_stream_lifetime:
  assumes "reachable_connection js captures re uuid con" and "st \<in> set (con_streams con)"
    and "viss_unsubscribe now (con_server con) request = (r, server')"
  shows "(stream_next (con_server con) st t item \<noteq> None \<longleftrightarrow>
      map_of (vs_subscriptions (con_server con)) (st_subscription_id st) = Some (st_handle st)) \<and>
    (is_ok r \<longleftrightarrow> nq_subscription_id request \<in> fst ` set (vs_subscriptions (con_server con))) \<and>
    stream_next server' st t item =
      (if st_subscription_id st = nq_subscription_id request then None
       else stream_next (con_server con) st t item) \<and>
    (\<forall>items broker con' broker' st'. read_task js captures re uuid items con broker = (con', broker') \<longrightarrow>
       st' \<in> set (con_streams con') \<longrightarrow> stream_next (con_server con') st' t item = None)"
proof -
  note ok = reachable_connection_ok [OF assms(1)]
  note run = stream_running [OF ok assms(2)] and h = stream_handle [OF ok assms(2)]
  let ?k = "nq_subscription_id request" and ?subs = "vs_subscriptions (con_server con)"
  have keys: "map_of ?subs ?k = None \<longleftrightarrow> ?k \<notin> fst ` set ?subs" by (rule map_of_eq_None_iff)
  have unsub: "stream_next server' st t item =
      (if st_subscription_id st = ?k then None else stream_next (con_server con) st t item)"
  proof (cases "map_of ?subs ?k")
    case None
    then show ?thesis using assms(3) run by (auto simp: viss_unsubscribe_def stream_next_def)
  next
    case (Some h')
    then have "(?k, h') \<in> set ?subs" by (rule map_of_SomeD)
    then have k: "?k = uuid h'" using ok by (auto simp: connection_ok_def)
    have "vs_handles server' = (vs_handles (con_server con))[h' := True]"
      using assms(3) Some by (auto simp: viss_unsubscribe_def Let_def)
    moreover have "st_subscription_id st = uuid (st_handle st)" using ok assms(2) by (simp add: connection_ok_def)
    ultimately show ?thesis using run h k Some by (auto simp: stream_next_def flag_update)
  qed
  have "is_ok r \<longleftrightarrow> ?k \<in> fst ` set ?subs"
    using assms(3) keys by (auto simp: viss_unsubscribe_def Let_def split: option.splits)
  then show ?thesis
    using unsub run read_task_ends [OF ok] by (auto simp: stream_next_def)
qed

definition example_json :: json where
  "example_json =
     \<lparr>js_request = (\<lambda>_. Some (Req_Subscribe \<lparr>uq_path = ''A'', uq_request_id = ''1'', uq_authorization = None\<rparr>)),
      js_generic = (\<lambda>_. None), js_to_string = (\<lambda>_. None)\<rparr>"

definition example_connection :: connection where
  "example_connection =
     the (fst (handle_text example_json (\<lambda>_ _. None) any_regex (\<lambda>_. ''id'') 5 []
       \<lparr>con_server = viss_example, con_streams = [], con_out = []\<rparr> example_broker))"

lemma example_connection_step:
  "handle_text example_json (\<lambda>_ _. None) any_regex (\<lambda>_. ''id'') 5 []
     \<lparr>con_server = viss_example, con_streams = [], con_out = []\<rparr> example_broker =
   (Some example_connection, snd (subscribe any_regex 5 ALLOW_ALL example_broker [(0, {F_Datapoint})]))"
  "vs_subscriptions (con_server example_connection) = [(''id'', 0)]"
  "vs_handles (con_server example_connection) = [False]"
  "\<exists>st. con_streams example_connection = [st] \<and> st_subscription_id st = ''id'' \<and> st_handle st = 0"
  by (simp_all add: example_connection_def handle_text_def example_json_def parse_v2_msg_def viss_subscribe_def
      resolve_permissions_def viss_example_def new_server_def get_id_by_path_def get_metadata_by_path_abs
      example_abs subscribe_def subscribe_open_def Let_def register_handle_def respond_def)

lemma example_connection_reachable:
  "reachable_connection example_json (\<lambda>_ _. None) any_regex (\<lambda>_. ''id'') example_connection"
  by (rule connection_step [OF connection_start example_connection_step(1) [unfolded viss_example_def]])

theorem viss_stream_lifetime_witness:
  "\<exists>st\<in>set (con_streams example_connection).
     stream_next (con_server example_connection) st 6 [] \<noteq> None \<and>
     stream_next (snd (viss_unsubscribe 6 (con_server example_connection)
       \<lparr>nq_request_id = ''2'', nq_subscription_id = ''id''\<rparr>)) st 6 [] = None"
proof -
  obtain st where st: "con_streams example_connection = [st]" "st_subscription_id st = ''id''" "st_handle st = 0"
    using example_connection_step(4) by blast
  show ?thesis
    using viss_stream_lifetime [OF example_connection_reachable _ surjective_pairing, where st = st and now = 6 and
        t = 6 and item = "[]" and request = "\<lparr>nq_request_id = ''2'', nq_subscription_id = ''id''\<rparr>"] st example_connection_step(2)
    by auto
qed

section \<open>Events\<close>

text \<open>The messages of a subscription to the datapoint of one entry.\<close>

lemma convert_changed:
  assumes "change_message re now (Some changed) db sub = Some ns" and "cs_entries sub = [(eid, {F_Datapoint})]"
  shows "\<exists>e. map_of (entries db) eid = Some e \<and>
    convert_to_viss_stream sid t ns = Ok (SubscriptionEvent sid
      (D_Object \<lparr>do_path = md_path (e_metadata e), do_dp = viss_datapoint (e_datapoint e)\<rparr>) t)"
proof -
  have ns: "ns \<noteq> []" "ns = changed_notifications re now (cs_permissions sub) db (cs_entries sub) changed"
    using assms(1) by (auto simp: change_message_def split: list.splits)
  then have "last ns \<in> set (changed_notifications re now (cs_permissions sub) db [(eid, {F_Datapoint})] changed)"
    using assms(2) by simp
  then obtain cf e where e: "get_entry_by_id re now (cs_permissions sub) db eid = Ok e" "F_Datapoint \<in> cf"
    and l: "last ns = changed_notification e {F_Datapoint} cf"
    by (auto simp: in_changed_notifications split: if_splits)
  then show ?thesis using ns(1)
    by (auto simp: convert_to_viss_stream_def changed_notification_fields get_entry_by_id_Ok)
qed

text \<open>
  The events of a websocket subscription.  A successful subscription registers one subscription
  with the broker, under the permissions of the token.  Its first event is the stored datapoint of
  the path, or an internal error if the token does not grant reading it; every later message
  becomes an event with the path and the datapoint that the entry then has, so taking only the
  last update of a message loses nothing.
\<close>

theorem viss_events:
  assumes "db_wf (database broker)"
    and "viss_subscribe captures re uuid now server broker request = (Some (Ok (resp, st)), server', broker')"
  shows "\<exists>ps e.
    resolve_permissions captures re (vs_authorization server) (uq_authorization request) = Some (Ok ps) \<and>
    abs_db (database broker) (uq_path request) = Some e \<and>
    change_subscriptions (subscriptions broker') = change_subscriptions (subscriptions broker) @ [st_source st] \<and>
    cs_permissions (st_source st) = ps \<and>
    map (convert_to_viss_stream sid t) (ch_sent (cs_sender (st_source st))) =
      [if can_read re now ps (uq_path request) = Ok ()
       then Ok (SubscriptionEvent sid
         (D_Object \<lparr>do_path = uq_path request, do_dp = viss_datapoint (e_datapoint e)\<rparr>) t)
       else Err (SubscriptionErrorEvent sid InternalServerError t)] \<and>
    (\<forall>now' changed db' sub ns. cs_entries sub = cs_entries (st_source st) \<longrightarrow>
       change_message re now' (Some changed) db' sub = Some ns \<longrightarrow>
       (\<exists>e'. map_of (entries db') (md_id (e_metadata e)) = Some e' \<and>
          convert_to_viss_stream sid t ns = Ok (SubscriptionEvent sid
            (D_Object \<lparr>do_path = md_path (e_metadata e'), do_dp = viss_datapoint (e_datapoint e')\<rparr>) t)))"
proof -
  obtain ps e where ps: "resolve_permissions captures re (vs_authorization server) (uq_authorization request) = Some (Ok ps)"
    and e: "abs_db (database broker) (uq_path request) = Some e"
    and sub: "subscribe re now ps broker [(md_id (e_metadata e), {F_Datapoint})] = (Ok (st_source st), broker')"
    using assms(2)
    by (auto simp: viss_subscribe_def get_id_by_path_abs Let_def split: option.splits result.splits prod.splits)
  note ep = abs_db_wf_path [OF assms(1) e]
  let ?eid = "md_id (e_metadata e)"
  have "st_source st = \<lparr>cs_entries = [(?eid, {F_Datapoint})],
      cs_sender = \<lparr>ch_closed = False,
        ch_sent = [initial_notifications re now ps (database broker) [(?eid, {F_Datapoint})]]\<rparr>, cs_permissions = ps\<rparr>"
    and broker': "broker' = subscribe_register broker (st_source st)"
    using sub
    by (auto simp: subscribe_def subscribe_open_def Let_def change_notify_def send_def new_channel_def
        simp del: initial_notifications.simps)
  then have st: "cs_entries (st_source st) = [(?eid, {F_Datapoint})]" "cs_permissions (st_source st) = ps"
    "ch_sent (cs_sender (st_source st)) = [initial_notifications re now ps (database broker) [(?eid, {F_Datapoint})]]"
    by (simp_all del: initial_notifications.simps)
  have added: "change_subscriptions (subscriptions broker') = change_subscriptions (subscriptions broker) @ [st_source st]"
    by (simp add: broker' subscribe_register_def add_change_subscription_def)
  have "initial_notifications re now ps (database broker) [(?eid, {F_Datapoint})] =
      (if can_read re now ps (uq_path request) = Ok () then [initial_notification e {F_Datapoint}] else [])"
    using ep by (auto simp: get_entry_by_id_def split: result.split PermissionError.split)
  then have "map (convert_to_viss_stream sid t) (ch_sent (cs_sender (st_source st))) =
      [if can_read re now ps (uq_path request) = Ok ()
       then Ok (SubscriptionEvent sid
         (D_Object \<lparr>do_path = uq_path request, do_dp = viss_datapoint (e_datapoint e)\<rparr>) t)
       else Err (SubscriptionErrorEvent sid InternalServerError t)]"
    using ep(1) by (simp add: st(3) convert_to_viss_stream_def initial_notification_fields)
  then show ?thesis using ps e st(1,2) added convert_changed by metis
qed

theorem viss_events_witness:
  "\<exists>resp st server' broker'.
     viss_subscribe (\<lambda>_ _. None) any_regex (\<lambda>_. ''id'') 5 viss_example example_broker
       \<lparr>uq_path = ''A'', uq_request_id = ''1'', uq_authorization = None\<rparr> = (Some (Ok (resp, st)), server', broker') \<and>
     map (convert_to_viss_stream ''id'' 5) (ch_sent (cs_sender (st_source st))) =
       [Ok (SubscriptionEvent ''id'' (D_Object \<lparr>do_path = ''A'', do_dp = \<lparr>vdp_value = VV_None, vdp_ts = 1\<rparr>\<rparr>) 5)]"
proof -
  let ?req = "\<lparr>uq_path = ''A'', uq_request_id = ''1'', uq_authorization = None\<rparr>"
  have perms: "resolve_permissions (\<lambda>_ _. None) any_regex (vs_authorization viss_example) None = Some (Ok ALLOW_ALL)"
    by (simp add: resolve_permissions_def viss_example_def new_server_def)
  obtain resp st server' broker' where s:
    "viss_subscribe (\<lambda>_ _. None) any_regex (\<lambda>_. ''id'') 5 viss_example example_broker ?req =
       (Some (Ok (resp, st)), server', broker')"
    using perms by (simp add: viss_subscribe_def get_id_by_path_abs example_abs subscribe_def subscribe_open_def Let_def)
  show ?thesis
    using viss_events [OF _ s, of "''id''" 5] s perms
    by (auto simp: example_abs viss_datapoint_def viss_value_def)
qed

end
