(* ===== verification/Vss.thy ===== *)
theory Vss
  imports Entry "HOL-Library.List_Lexorder" "HOL-Library.Char_ord"
begin

text \<open>
  The import of VSS metadata (\<open>vss.rs\<close>): the tree of a VSS file is flattened into a map from
  paths to data entries.  The crate \<open>serde_json\<close> reads the file into the tree and JSON values
  into Rust values; it is the parameter \<open>sj\<close>, a record of the deserializers that the code calls,
  over a type \<open>'j\<close> of JSON values.  A \<open>BTreeMap\<close> is a list of pairs in strictly increasing order
  of the keys, which is also its iteration order.
\<close>

section \<open>Ordered maps\<close>

fun btree_insert :: "'k::linorder \<Rightarrow> 'v \<Rightarrow> ('k \<times> 'v) list \<Rightarrow> ('k \<times> 'v) list" where
  "btree_insert k v [] = [(k, v)]"
| "btree_insert k v ((k', v') # m) =
     (if k < k' then (k, v) # (k', v') # m
      else if k = k' then (k, v) # m
      else (k', v') # btree_insert k v m)"

lemma map_of_btree_insert: "map_of (btree_insert k v m) = (map_of m)(k \<mapsto> v)"
  by (induction m) auto

lemma btree_insert_keys: "fst ` set (btree_insert k v m) = insert k (fst ` set m)"
  by (induction k v m rule: btree_insert.induct) (simp_all add: insert_commute)

lemma btree_insert_sorted: "sorted_wrt (<) (map fst m) \<Longrightarrow> sorted_wrt (<) (map fst (btree_insert k v m))"
  by (induction k v m rule: btree_insert.induct) (force simp: btree_insert_keys)+

section \<open>The data model\<close>

datatype VssEntryType = VE_Actuator | VE_Attribute | VE_Branch | VE_Sensor

datatype VssChangeType = VC_Static | VC_OnChange | VC_Continuous

datatype VssDataType =
    VT_String
  | VT_Boolean
  | VT_Int8
  | VT_Int16
  | VT_Int32
  | VT_Int64
  | VT_Uint8
  | VT_Uint16
  | VT_Uint32
  | VT_Uint64
  | VT_Float
  | VT_Double
  | VT_StringArray
  | VT_BooleanArray
  | VT_Int8Array
  | VT_Int16Array
  | VT_Int32Array
  | VT_Int64Array
  | VT_Uint8Array
  | VT_Uint16Array
  | VT_Uint32Array
  | VT_Uint64Array
  | VT_FloatArray
  | VT_DoubleArray

datatype 'j VssEntry =
  VssEntry
    (ve_entry_type: VssEntryType)
    (ve_description: string)
    (ve_comment: "string option")
    (ve_children: "(string \<times> 'j VssEntry) list option")
    (ve_data_type: "VssDataType option")
    (ve_unit: "string option")
    (ve_min: "'j option")
    (ve_max: "'j option")
    (ve_allowed: "'j list option")
    (ve_change_type: "VssChangeType option")
    (ve_default: "'j option")

record VssDataEntry =
  vd_data_type :: DataType
  vd_entry_type :: EntryType
  vd_change_type :: ChangeType
  vd_description :: string
  vd_comment :: "string option"
  vd_unit :: "string option"
  vd_min :: "DataValue option"
  vd_max :: "DataValue option"
  vd_allowed :: "DataValue option"
  vd_default :: "DataValue option"

datatype VssError = ParseError

section \<open>JSON values\<close>

text \<open>
  \<open>serde_json::Value::Array\<close> and \<open>serde_json::from_value::<T>\<close> for the types \<open>T\<close> the code
  asks for; \<open>None\<close> is an error of \<open>serde_json\<close>.
\<close>

record 'j serde =
  js_array :: "'j list \<Rightarrow> 'j"
  js_string :: "'j \<Rightarrow> string option"
  js_bool :: "'j \<Rightarrow> bool option"
  js_i8 :: "'j \<Rightarrow> i8 option"
  js_i16 :: "'j \<Rightarrow> i16 option"
  js_i32 :: "'j \<Rightarrow> i32 option"
  js_i64 :: "'j \<Rightarrow> i64 option"
  js_u8 :: "'j \<Rightarrow> u8 option"
  js_u16 :: "'j \<Rightarrow> u16 option"
  js_u32 :: "'j \<Rightarrow> u32 option"
  js_u64 :: "'j \<Rightarrow> u64 option"
  js_f32 :: "'j \<Rightarrow> f32 option"
  js_f64 :: "'j \<Rightarrow> f64 option"
  js_vec_string :: "'j \<Rightarrow> string list option"
  js_vec_bool :: "'j \<Rightarrow> bool list option"
  js_vec_i8 :: "'j \<Rightarrow> i8 list option"
  js_vec_i16 :: "'j \<Rightarrow> i16 list option"
  js_vec_i32 :: "'j \<Rightarrow> i32 list option"
  js_vec_i64 :: "'j \<Rightarrow> i64 list option"
  js_vec_u8 :: "'j \<Rightarrow> u8 list option"
  js_vec_u16 :: "'j \<Rightarrow> u16 list option"
  js_vec_u32 :: "'j \<Rightarrow> u32 list option"
  js_vec_u64 :: "'j \<Rightarrow> u64 list option"
  js_vec_f32 :: "'j \<Rightarrow> f32 list option"
  js_vec_f64 :: "'j \<Rightarrow> f64 list option"

definition from_value :: "('j \<Rightarrow> 'a option) \<Rightarrow> ('a \<Rightarrow> DataValue) \<Rightarrow> 'j \<Rightarrow> (DataValue option, VssError) result" where
  "from_value de f j = (case de j of Some v \<Rightarrow> Ok (Some (f v)) | None \<Rightarrow> Err ParseError)"

definition try_from_json_value ::
  "'j serde \<Rightarrow> 'j option \<Rightarrow> DataType \<Rightarrow> (DataValue option, VssError) result" where
  "try_from_json_value sj value data_type =
     (case value of
        Some j \<Rightarrow>
          (case data_type of
             T_String \<Rightarrow> from_value (js_string sj) String j
           | T_Bool \<Rightarrow> from_value (js_bool sj) Bool j
           | T_Int8 \<Rightarrow> from_value (js_i8 sj) (\<lambda>v. Int32 (scast v)) j
           | T_Int16 \<Rightarrow> from_value (js_i16 sj) (\<lambda>v. Int32 (scast v)) j
           | T_Int32 \<Rightarrow> from_value (js_i32 sj) Int32 j
           | T_Int64 \<Rightarrow> from_value (js_i64 sj) Int64 j
           | T_Uint8 \<Rightarrow> from_value (js_u8 sj) (\<lambda>v. Uint32 (ucast v)) j
           | T_Uint16 \<Rightarrow> from_value (js_u16 sj) (\<lambda>v. Uint32 (ucast v)) j
           | T_Uint32 \<Rightarrow> from_value (js_u32 sj) Uint32 j
           | T_Uint64 \<Rightarrow> from_value (js_u64 sj) Uint64 j
           | T_Float \<Rightarrow> from_value (js_f32 sj) Float j
           | T_Double \<Rightarrow> from_value (js_f64 sj) Double j
           | T_StringArray \<Rightarrow> from_value (js_vec_string sj) StringArray j
           | T_BoolArray \<Rightarrow> from_value (js_vec_bool sj) BoolArray j
           | T_Int8Array \<Rightarrow> from_value (js_vec_i8 sj) (\<lambda>vs. Int32Array (map scast vs)) j
           | T_Int16Array \<Rightarrow> from_value (js_vec_i16 sj) (\<lambda>vs. Int32Array (map scast vs)) j
           | T_Int32Array \<Rightarrow> from_value (js_vec_i32 sj) Int32Array j
           | T_Int64Array \<Rightarrow> from_value (js_vec_i64 sj) Int64Array j
           | T_Uint8Array \<Rightarrow> from_value (js_vec_u8 sj) (\<lambda>vs. Uint32Array (map ucast vs)) j
           | T_Uint16Array \<Rightarrow> from_value (js_vec_u16 sj) (\<lambda>vs. Uint32Array (map ucast vs)) j
           | T_Uint32Array \<Rightarrow> from_value (js_vec_u32 sj) Uint32Array j
           | T_Uint64Array \<Rightarrow> from_value (js_vec_u64 sj) Uint64Array j
           | T_FloatArray \<Rightarrow> from_value (js_vec_f32 sj) FloatArray j
           | T_DoubleArray \<Rightarrow> from_value (js_vec_f64 sj) DoubleArray j)
      | None \<Rightarrow> Ok None)"

definition try_from_json_array ::
  "'j serde \<Rightarrow> 'j list option \<Rightarrow> DataType \<Rightarrow> (DataValue option, VssError) result" where
  "try_from_json_array sj array data_type =
     (case array of
        Some array \<Rightarrow>
          (let value = Some (js_array sj array)
           in case data_type of
                T_String \<Rightarrow> try_from_json_value sj value T_StringArray
              | T_Bool \<Rightarrow> try_from_json_value sj value T_BoolArray
              | T_Int8 \<Rightarrow> try_from_json_value sj value T_Int8Array
              | T_Int16 \<Rightarrow> try_from_json_value sj value T_Int16Array
              | T_Int32 \<Rightarrow> try_from_json_value sj value T_Int32Array
              | T_Int64 \<Rightarrow> try_from_json_value sj value T_Int64Array
              | T_Uint8 \<Rightarrow> try_from_json_value sj value T_Uint8Array
              | T_Uint16 \<Rightarrow> try_from_json_value sj value T_Uint16Array
              | T_Uint32 \<Rightarrow> try_from_json_value sj value T_Uint32Array
              | T_Uint64 \<Rightarrow> try_from_json_value sj value T_Uint64Array
              | T_Float \<Rightarrow> try_from_json_value sj value T_FloatArray
              | T_Double \<Rightarrow> try_from_json_value sj value T_DoubleArray
              | _ \<Rightarrow> try_from_json_value sj value data_type)
      | None \<Rightarrow> Ok None)"

definition data_type_of_vss :: "VssDataType \<Rightarrow> DataType" where
  "data_type_of_vss from =
     (case from of
        VT_String \<Rightarrow> T_String
      | VT_Boolean \<Rightarrow> T_Bool
      | VT_Int8 \<Rightarrow> T_Int8
      | VT_Int16 \<Rightarrow> T_Int16
      | VT_Int32 \<Rightarrow> T_Int32
      | VT_Int64 \<Rightarrow> T_Int64
      | VT_Uint8 \<Rightarrow> T_Uint8
      | VT_Uint16 \<Rightarrow> T_Uint16
      | VT_Uint32 \<Rightarrow> T_Uint32
      | VT_Uint64 \<Rightarrow> T_Uint64
      | VT_Float \<Rightarrow> T_Float
      | VT_Double \<Rightarrow> T_Double
      | VT_StringArray \<Rightarrow> T_StringArray
      | VT_BooleanArray \<Rightarrow> T_BoolArray
      | VT_Int8Array \<Rightarrow> T_Int8Array
      | VT_Int16Array \<Rightarrow> T_Int16Array
      | VT_Int32Array \<Rightarrow> T_Int32Array
      | VT_Int64Array \<Rightarrow> T_Int64Array
      | VT_Uint8Array \<Rightarrow> T_Uint8Array
      | VT_Uint16Array \<Rightarrow> T_Uint16Array
      | VT_Uint32Array \<Rightarrow> T_Uint32Array
      | VT_Uint64Array \<Rightarrow> T_Uint64Array
      | VT_FloatArray \<Rightarrow> T_FloatArray
      | VT_DoubleArray \<Rightarrow> T_DoubleArray)"

definition determine_change_type :: "VssChangeType option \<Rightarrow> EntryType \<Rightarrow> ChangeType" where
  "determine_change_type change_type entry_type =
     (case change_type of
        Some ct \<Rightarrow>
          (case ct of VC_Continuous \<Rightarrow> Continuous | VC_OnChange \<Rightarrow> OnChange | VC_Static \<Rightarrow> Static)
      | None \<Rightarrow> (case entry_type of Attribute \<Rightarrow> Static | _ \<Rightarrow> Continuous))"

section \<open>Flattening the tree\<close>

text \<open>
  The three arms for actuators, attributes and sensors differ in the entry type and in whether
  the default value is read.
\<close>

definition data_entry :: "'j serde \<Rightarrow> EntryType \<Rightarrow> 'j option \<Rightarrow> 'j VssEntry \<Rightarrow> (VssDataEntry, VssError) result" where
  "data_entry sj entry_type default_json entry =
     (case ve_data_type entry of
        None \<Rightarrow> Err ParseError
      | Some vdt \<Rightarrow>
          (let data_type = data_type_of_vss vdt in
           result_bind (try_from_json_value sj (ve_min entry) data_type) (\<lambda>mn.
           result_bind (try_from_json_value sj (ve_max entry) data_type) (\<lambda>mx.
           result_bind (try_from_json_array sj (ve_allowed entry) data_type) (\<lambda>allowed.
           result_bind (try_from_json_value sj default_json data_type) (\<lambda>dflt.
             Ok \<lparr>vd_data_type = data_type, vd_entry_type = entry_type,
                 vd_change_type = determine_change_type (ve_change_type entry) entry_type,
                 vd_description = ve_description entry, vd_comment = ve_comment entry,
                 vd_unit = ve_unit entry, vd_min = mn, vd_max = mx, vd_allowed = allowed,
                 vd_default = dflt\<rparr>))))))"

lemma size_children [termination_simp]:
  "ve_children entry = Some children \<Longrightarrow> size_list (size_prod (\<lambda>_. 0) size) children < size entry"
  by (cases entry) simp

function (sequential) add_vss_entry ::
    "'j serde \<Rightarrow> (string \<times> VssDataEntry) list \<Rightarrow> string \<Rightarrow> 'j VssEntry \<Rightarrow>
     ((string \<times> VssDataEntry) list, VssError) result"
  and add_vss_children ::
    "'j serde \<Rightarrow> (string \<times> VssDataEntry) list \<Rightarrow> string \<Rightarrow> (string \<times> 'j VssEntry) list \<Rightarrow>
     ((string \<times> VssDataEntry) list, VssError) result" where
  "add_vss_entry sj es path entry =
     (case ve_entry_type entry of
        VE_Branch \<Rightarrow>
          (case ve_children entry of
             Some children \<Rightarrow> add_vss_children sj es path children
           | None \<Rightarrow> Err ParseError)
      | VE_Actuator \<Rightarrow>
          result_bind (data_entry sj Actuator None entry) (\<lambda>d. Ok (btree_insert path d es))
      | VE_Attribute \<Rightarrow>
          result_bind (data_entry sj Attribute (ve_default entry) entry) (\<lambda>d. Ok (btree_insert path d es))
      | VE_Sensor \<Rightarrow>
          result_bind (data_entry sj Sensor None entry) (\<lambda>d. Ok (btree_insert path d es)))"
| "add_vss_children sj es path [] = Ok es"
| "add_vss_children sj es path ((name, child) # rest) =
     result_bind (add_vss_entry sj es (path @ ''.'' @ name) child)
       (\<lambda>es. add_vss_children sj es path rest)"
  by pat_completeness auto

termination add_vss_entry
  by (relation "measure (\<lambda>x. case x of Inl (_, _, _, e) \<Rightarrow> 2 * size e + 1
      | Inr (_, _, _, cs) \<Rightarrow> 2 * size_list (size_prod (\<lambda>_. 0) size) cs)")
    (auto dest: size_children)

declare add_vss_entry.simps [simp del]

fun add_vss_roots ::
  "'j serde \<Rightarrow> (string \<times> VssDataEntry) list \<Rightarrow> (string \<times> 'j VssEntry) list \<Rightarrow>
   ((string \<times> VssDataEntry) list, VssError) result" where
  "add_vss_roots sj es [] = Ok es"
| "add_vss_roots sj es ((path, entry) # rest) =
     result_bind (add_vss_entry sj es path entry) (\<lambda>es. add_vss_roots sj es rest)"

definition flatten_vss_tree ::
  "'j serde \<Rightarrow> (string \<times> 'j VssEntry) list \<Rightarrow> ((string \<times> VssDataEntry) list, VssError) result" where
  "flatten_vss_tree sj tree = add_vss_roots sj [] tree"

text \<open>\<open>from_reader\<close> and \<open>from_str\<close> of \<open>serde_json\<close> are one parameter, which reads a tree.\<close>

definition parse_vss ::
  "'j serde \<Rightarrow> ('s \<Rightarrow> (string \<times> 'j VssEntry) list option) \<Rightarrow> 's \<Rightarrow>
   ((string \<times> VssDataEntry) list, VssError) result" where
  "parse_vss sj read_tree data =
     (case read_tree data of
        Some root_entry \<Rightarrow> flatten_vss_tree sj root_entry
      | None \<Rightarrow> Err ParseError)"

section \<open>The leaves of a tree\<close>

text \<open>
  The reference: the data entries of a tree with their paths, in the order of the tree, or
  nothing when a branch has no children.
\<close>

function (sequential) leaves :: "string \<Rightarrow> 'j VssEntry \<Rightarrow> (string \<times> 'j VssEntry) list option"
  and child_leaves :: "string \<Rightarrow> (string \<times> 'j VssEntry) list \<Rightarrow> (string \<times> 'j VssEntry) list option" where
  "leaves path entry =
     (if ve_entry_type entry = VE_Branch
      then (case ve_children entry of Some children \<Rightarrow> child_leaves path children | None \<Rightarrow> None)
      else Some [(path, entry)])"
| "child_leaves path [] = Some []"
| "child_leaves path ((name, child) # rest) =
     (case (leaves (path @ ''.'' @ name) child, child_leaves path rest) of
        (Some ls, Some ls') \<Rightarrow> Some (ls @ ls')
      | _ \<Rightarrow> None)"
  by pat_completeness auto
termination
  by (relation "measure (\<lambda>x. case x of Inl (_, e) \<Rightarrow> 2 * size e + 1
      | Inr (_, cs) \<Rightarrow> 2 * size_list (size_prod (\<lambda>_. 0) size) cs)")
    (auto dest: size_children)

declare leaves.simps [simp del]

fun root_leaves :: "(string \<times> 'j VssEntry) list \<Rightarrow> (string \<times> 'j VssEntry) list option" where
  "root_leaves [] = Some []"
| "root_leaves ((path, entry) # rest) =
     (case (leaves path entry, root_leaves rest) of
        (Some ls, Some ls') \<Rightarrow> Some (ls @ ls')
      | _ \<Rightarrow> None)"

definition convert_leaf :: "'j serde \<Rightarrow> 'j VssEntry \<Rightarrow> (VssDataEntry, VssError) result" where
  "convert_leaf sj e =
     (case ve_entry_type e of
        VE_Actuator \<Rightarrow> data_entry sj Actuator None e
      | VE_Attribute \<Rightarrow> data_entry sj Attribute (ve_default e) e
      | VE_Sensor \<Rightarrow> data_entry sj Sensor None e
      | VE_Branch \<Rightarrow> Err ParseError)"

fun insert_leaves ::
  "'j serde \<Rightarrow> (string \<times> VssDataEntry) list \<Rightarrow> (string \<times> 'j VssEntry) list \<Rightarrow>
   ((string \<times> VssDataEntry) list, VssError) result" where
  "insert_leaves sj es [] = Ok es"
| "insert_leaves sj es ((path, e) # ls) =
     result_bind (convert_leaf sj e) (\<lambda>d. insert_leaves sj (btree_insert path d es) ls)"

lemma ParseError_only: "(err :: VssError) = ParseError"
  by (cases err)

lemma insert_leaves_append:
  "insert_leaves sj es (ls @ ls') = result_bind (insert_leaves sj es ls) (\<lambda>es. insert_leaves sj es ls')"
proof (induction ls arbitrary: es)
  case (Cons x ls)
  then show ?case by (cases x; cases "convert_leaf sj (snd x)") auto
qed simp

lemma insert_leaves_append_Err:
  "result_bind (insert_leaves sj es ls) (\<lambda>_. Err ParseError) = (Err ParseError :: ('a, VssError) result)"
  by (cases "insert_leaves sj es ls") (auto simp: ParseError_only)

lemma add_vss_entry_leaves:
  "add_vss_entry sj es path e =
     (case leaves path e of Some ls \<Rightarrow> insert_leaves sj es ls | None \<Rightarrow> Err ParseError)"
  "add_vss_children sj es path cs =
     (case child_leaves path cs of Some ls \<Rightarrow> insert_leaves sj es ls | None \<Rightarrow> Err ParseError)"
proof (induction sj es path e and sj es path cs rule: add_vss_entry_add_vss_children.induct)
  case (1 sj es path entry)
  then show ?case
    by (auto simp: add_vss_entry.simps leaves.simps convert_leaf_def split: option.split VssEntryType.split)
next
  case (3 sj es path name child rest)
  show ?case
  proof (cases "leaves (path @ ''.'' @ name) child")
    case None
    then show ?thesis using 3 by simp
  next
    case (Some ls)
    then show ?thesis using 3 
      by (cases "insert_leaves sj es ls"; cases "child_leaves path rest")
        (simp_all add: insert_leaves_append ParseError_only)
  qed
qed simp

lemma flatten_leaves:
  "flatten_vss_tree sj tree =
     (case root_leaves tree of Some ls \<Rightarrow> insert_leaves sj [] ls | None \<Rightarrow> Err ParseError)"
proof -
  have "add_vss_roots sj es tree =
      (case root_leaves tree of Some ls \<Rightarrow> insert_leaves sj es ls | None \<Rightarrow> Err ParseError)" for es
  proof (induction tree arbitrary: es)
    case (Cons x tree)
    then show ?case
      by (cases x; cases "leaves (fst x) (snd x)"; cases "root_leaves tree")
        (simp_all add: add_vss_entry_leaves insert_leaves_append insert_leaves_append_Err)
  qed simp
  then show ?thesis by (simp add: flatten_vss_tree_def)
qed

lemma insert_leaves_spec:
  assumes "insert_leaves sj es ls = Ok m" and "distinct (map fst ls)"
  shows "map_of m path =
    (case map_of ls path of
       Some e \<Rightarrow> (case convert_leaf sj e of Ok d \<Rightarrow> Some d | Err _ \<Rightarrow> None)
     | None \<Rightarrow> map_of es path)"
  using assms
proof (induction ls arbitrary: es)
  case (Cons x ls)
  obtain p e where x: "x = (p, e)" by (cases x)
  obtain d where d: "convert_leaf sj e = Ok d" "insert_leaves sj (btree_insert p d es) ls = Ok m"
    using Cons.prems(1) by (auto simp: x result_bind_eq_Ok)
  have "map_of ls p = None" using Cons.prems(2) by (simp add: x map_of_eq_None_iff)
  then show ?case using Cons.IH [OF d(2)] Cons.prems(2) d(1)
    by (auto simp: x map_of_btree_insert split: option.split)
qed simp

lemma insert_leaves_Ok_iff: "is_ok (insert_leaves sj es ls) \<longleftrightarrow> (\<forall>(p, e)\<in>set ls. is_ok (convert_leaf sj e))"
proof (induction ls arbitrary: es)
  case (Cons x ls)
  then show ?case by (cases x; cases "convert_leaf sj (snd x)") auto
qed simp

lemma insert_leaves_sorted:
  "insert_leaves sj es ls = Ok m \<Longrightarrow> sorted_wrt (<) (map fst es) \<Longrightarrow> sorted_wrt (<) (map fst m)"
  by (induction sj es ls rule: insert_leaves.induct) (auto simp: result_bind_eq_Ok btree_insert_sorted)

lemma sorted_map_unique:
  fixes m m' :: "('k::linorder \<times> 'v) list"
  assumes "sorted_wrt (<) (map fst m)" and "sorted_wrt (<) (map fst m')" and "map_of m = map_of m'"
  shows "m = m'"
proof -
  have "fst ` set m = fst ` set m'" using assms(3) by (metis dom_map_of_conv_image_fst)
  then have k: "map fst m = map fst m'"
    using assms(1,2) by (intro strict_sorted_equal) auto
  have d: "distinct (map fst m)" using assms(1) by (simp add: strict_sorted_iff)
  show ?thesis
  proof (rule nth_equalityI)
    show "length m = length m'" using k by (metis length_map)
    fix i assume i: "i < length m"
    then have "map_of m (fst (m ! i)) = Some (snd (m ! i))" using d by (simp add: map_of_eq_Some_iff)
    moreover have i': "i < length m'" "fst (m ! i) = fst (m' ! i)" using i k by (metis length_map nth_map)+
    moreover have "map_of m' (fst (m' ! i)) = Some (snd (m' ! i))"
      using i'(1) d k by (simp add: map_of_eq_Some_iff)
    ultimately show "m ! i = m' ! i" using assms(3) by (simp add: prod_eq_iff)
  qed
qed

section \<open>Types of imported values\<close>

lemma try_from_json_value_conforms:
  "try_from_json_value sj j dt = Ok (Some v) \<Longrightarrow> conforms dt v"
  by (cases j; cases dt)
    (auto simp: try_from_json_value_def from_value_def conforms_def narrow_simps split: option.splits)

lemma data_entry_values:
  assumes "data_entry sj et j e = Ok d"
  shows "vd_min d = Some v \<Longrightarrow> conforms (vd_data_type d) v" "vd_max d = Some v \<Longrightarrow> conforms (vd_data_type d) v"
    "vd_default d = Some v \<Longrightarrow> conforms (vd_data_type d) v"
  using assms
  by (auto simp: data_entry_def Let_def result_bind_eq_Ok try_from_json_value_conforms split: option.splits)

lemma convert_leaf_values:
  assumes "convert_leaf sj e = Ok d"
  shows "vd_default d = Some v \<Longrightarrow> conforms (vd_data_type d) v"
    "vd_default d \<noteq> None \<Longrightarrow> vd_entry_type d = Attribute"
  using assms data_entry_values(3) [of sj _ _ e d]
  by (auto simp: convert_leaf_def data_entry_def try_from_json_value_def Let_def result_bind_eq_Ok
      split: VssEntryType.splits option.splits)

lemma flatten_lookup:
  assumes "flatten_vss_tree sj tree = Ok m" and "map_of m path = Some d"
  shows "\<exists>e. convert_leaf sj e = Ok d"
proof -
  obtain ls where "insert_leaves sj [] ls = Ok m"
    using assms(1) by (auto simp: flatten_leaves split: option.splits)
  moreover have "insert_leaves sj es ls = Ok m \<Longrightarrow> map_of m path = Some d \<Longrightarrow>
      map_of es path = Some d \<or> (\<exists>e. convert_leaf sj e = Ok d)" for es ls
    by (induction sj es ls rule: insert_leaves.induct)
      (auto simp: result_bind_eq_Ok map_of_btree_insert split: if_splits)
  ultimately show ?thesis using assms(2) by fastforce
qed

lemma flatten_sorted: "flatten_vss_tree sj tree = Ok m \<Longrightarrow> sorted_wrt (<) (map fst m)"
  by (auto simp: flatten_leaves dest: insert_leaves_sorted split: option.splits)

section \<open>Properties\<close>

text \<open>
  C32.  Flattening a VSS tree: it fails exactly when some branch has no children or some leaf does
  not convert (no data type, or a JSON value that is not of the data type), and otherwise the
  result maps the path of every leaf, the names on the way down joined by dots, to the
  converted leaf and nothing else, in the order of the paths.  The paths of the leaves are distinct, as they are
  when no name contains a dot.
\<close>

theorem flatten_outcome:
  assumes "\<And>ls. root_leaves tree = Some ls \<Longrightarrow> distinct (map fst ls)"
  shows "case flatten_vss_tree sj tree of
      Ok m \<Rightarrow>
        sorted_wrt (<) (map fst m) \<and>
        (\<exists>ls. root_leaves tree = Some ls \<and>
           (\<forall>path. map_of m path =
              (case map_of ls path of
                 Some e \<Rightarrow> (case convert_leaf sj e of Ok d \<Rightarrow> Some d | Err _ \<Rightarrow> None)
               | None \<Rightarrow> None)) \<and>
           fst ` set m = fst ` set ls)
    | Err _ \<Rightarrow>
        root_leaves tree = None \<or>
        (\<exists>ls p e. root_leaves tree = Some ls \<and> (p, e) \<in> set ls \<and> \<not> is_ok (convert_leaf sj e))"
proof (cases "flatten_vss_tree sj tree")
  case (Ok m)
  then obtain ls where ls: "root_leaves tree = Some ls" "insert_leaves sj [] ls = Ok m"
    by (auto simp: flatten_leaves split: option.splits)
  then have d: "distinct (map fst ls)" using assms by blast
  have lookup: "map_of m path = (case map_of ls path of
      Some e \<Rightarrow> (case convert_leaf sj e of Ok d \<Rightarrow> Some d | Err _ \<Rightarrow> None) | None \<Rightarrow> None)" for path
    using insert_leaves_spec [OF ls(2) d, of path] by (cases "map_of ls path") simp_all
  have "\<exists>d. convert_leaf sj e = Ok d" if "(p, e) \<in> set ls" for p e
    using insert_leaves_Ok_iff [of sj "[]" ls] ls(2) that by (auto simp: is_ok_iff)
  then have "map_of m path = None \<longleftrightarrow> map_of ls path = None" for path
    using lookup [of path] by (fastforce dest: map_of_SomeD split: option.splits)
  then have "fst ` set m = fst ` set ls"
    by (auto simp: map_of_eq_None_iff set_eq_iff simp del: not_None_eq) 
  then show ?thesis using Ok ls lookup flatten_sorted [OF Ok] by auto
next
  case (Err err)
  show ?thesis
  proof (cases "root_leaves tree")
    case (Some ls)
    then have "\<not> is_ok (insert_leaves sj [] ls)" using Err by (simp add: flatten_leaves)
    then show ?thesis using Err Some by (auto simp: insert_leaves_Ok_iff)
  qed (simp add: Err)
qed

definition serde_example :: "string serde" where
  "serde_example =
     \<lparr>js_array = concat, js_string = Some, js_bool = (\<lambda>_. None), js_i8 = (\<lambda>_. None), js_i16 = (\<lambda>_. None),
      js_i32 = (\<lambda>_. None), js_i64 = (\<lambda>_. None), js_u8 = (\<lambda>_. None), js_u16 = (\<lambda>_. None),
      js_u32 = (\<lambda>_. None), js_u64 = (\<lambda>_. None), js_f32 = (\<lambda>_. None), js_f64 = (\<lambda>_. None),
      js_vec_string = (\<lambda>j. Some [j]), js_vec_bool = (\<lambda>_. None), js_vec_i8 = (\<lambda>_. None),
      js_vec_i16 = (\<lambda>_. None), js_vec_i32 = (\<lambda>_. None), js_vec_i64 = (\<lambda>_. None),
      js_vec_u8 = (\<lambda>_. None), js_vec_u16 = (\<lambda>_. None), js_vec_u32 = (\<lambda>_. None),
      js_vec_u64 = (\<lambda>_. None), js_vec_f32 = (\<lambda>_. None), js_vec_f64 = (\<lambda>_. None)\<rparr>"

definition vss_leaf :: "string \<Rightarrow> string VssEntry" where
  "vss_leaf v =
     VssEntry VE_Attribute [] None None (Some VT_String) None None None None None (Some v)"

definition vss_branch :: "(string \<times> string VssEntry) list \<Rightarrow> string VssEntry" where
  "vss_branch cs = VssEntry VE_Branch [] None (Some cs) None None None None None None None"

definition vss_tree :: "(string \<times> string VssEntry) list" where
  "vss_tree = [(''V'', vss_branch [(''B'', vss_leaf ''b''), (''A'', vss_leaf ''a'')])]"

lemma vss_tree_leaves: "root_leaves vss_tree = Some [(''V.B'', vss_leaf ''b''), (''V.A'', vss_leaf ''a'')]"
  by (simp add: vss_tree_def vss_branch_def vss_leaf_def leaves.simps)

theorem flatten_outcome_witness:
  "\<exists>m. flatten_vss_tree serde_example vss_tree = Ok m \<and> fst ` set m = {''V.A'', ''V.B''}"
proof -
  have "\<exists>m. flatten_vss_tree serde_example vss_tree = Ok m"
    by (simp add: flatten_leaves vss_tree_leaves convert_leaf_def vss_leaf_def data_entry_def
        try_from_json_value_def try_from_json_array_def data_type_of_vss_def from_value_def serde_example_def Let_def)
  then show ?thesis
    using flatten_outcome [of vss_tree serde_example] by (auto simp: vss_tree_leaves)
qed

text \<open>
  The tree comes out of hash maps, which Rust visits in an unspecified order: two trees with
  the same leaves, however ordered, give the same map of entries, and so the same ids to the
  entries registered from it.
\<close>

theorem flatten_order_irrelevant:
  assumes "root_leaves tree = Some ls" and "root_leaves tree' = Some ls'" and "set ls = set ls'"
    and "distinct (map fst ls)" and "distinct (map fst ls')"
  shows "flatten_vss_tree sj tree = flatten_vss_tree sj tree'"
proof (cases "insert_leaves sj [] ls")
  case (Ok m)
  then obtain m' where m': "insert_leaves sj [] ls' = Ok m'"
    using insert_leaves_Ok_iff [of sj "[]" ls] insert_leaves_Ok_iff [of sj "[]" ls'] assms(3)
    by (auto simp: is_ok_iff)
  have "map_of ls = map_of ls'" using assms(3-5) by (simp add: map_of_inject_set)
  then have "map_of m = map_of m'"
    using insert_leaves_spec [OF Ok assms(4)] insert_leaves_spec [OF m' assms(5)] by auto
  then have "m = m'"
    using sorted_map_unique insert_leaves_sorted [OF Ok] insert_leaves_sorted [OF m'] by simp
  then show ?thesis using Ok m' assms(1,2) by (simp add: flatten_leaves)
next
  case (Err err)
  then obtain err' where "insert_leaves sj [] ls' = Err err'"
    using insert_leaves_Ok_iff [of sj "[]" ls] insert_leaves_Ok_iff [of sj "[]" ls'] assms(3)
    by (cases "insert_leaves sj [] ls'") auto
  then show ?thesis using Err assms(1,2) by (cases err; cases err') (simp add: flatten_leaves)
qed

theorem flatten_order_irrelevant_witness:
  "flatten_vss_tree serde_example vss_tree =
   flatten_vss_tree serde_example [(''V'', vss_branch [(''A'', vss_leaf ''a''), (''B'', vss_leaf ''b'')])]"
  by (rule flatten_order_irrelevant [OF vss_tree_leaves, of _ "[(''V.A'', vss_leaf ''a''), (''V.B'', vss_leaf ''b'')]"])
    (auto simp: vss_branch_def vss_leaf_def leaves.simps)

end
