(* ===== verification/Startup.thy ===== *)
theory Startup
  imports Batches Vss Authorization
begin

text \<open>
  Start-up (\<open>main.rs\<close>): the attributes that describe the broker, the import of VSS files, and the
  choice of transport security and authorization from the arguments.  Reading files, making a
  token decoder from a public key and parsing arguments are parameters; after \<open>start\<close> the program
  hands the broker to the gRPC server.  Each registration reads the clock; \<open>clock file path\<close> is
  the time at which a path of a file is handled.
\<close>

section \<open>Populating the database\<close>

definition add_kuksa_attribute ::
  "regex_engine \<Rightarrow> SystemTime \<Rightarrow> Permissions \<Rightarrow> DataBroker \<Rightarrow> string \<Rightarrow> string \<Rightarrow> string \<Rightarrow> DataBroker" where
  "add_kuksa_attribute re now permissions broker attribute v description =
     (case add_entry re now permissions broker attribute T_String OnChange Attribute description None None of
        (Ok eid, broker) \<Rightarrow>
          snd (update_entries re now permissions broker
            [(eid, default_update\<lparr>upd_datapoint := Some \<lparr>dp_ts = now, dp_value = String v\<rparr>\<rparr>)])
      | (Err _, broker) \<Rightarrow> broker)"

text \<open>The body of the loop over the entries of a file.\<close>

definition import_entry ::
  "regex_engine \<Rightarrow> SystemTime \<Rightarrow> Permissions \<Rightarrow> DataBroker \<Rightarrow> string \<Rightarrow> VssDataEntry \<Rightarrow> DataBroker" where
  "import_entry re now permissions broker path entry =
     (case add_entry re now permissions broker path (vd_data_type entry) (vd_change_type entry)
             (vd_entry_type entry) (vd_description entry) (vd_allowed entry) (vd_unit entry) of
        (Ok eid, broker) \<Rightarrow>
          (case vd_default entry of
             Some dflt \<Rightarrow>
               snd (update_entries re now permissions broker
                 [(eid, default_update\<lparr>upd_datapoint := Some \<lparr>dp_ts = now, dp_value = dflt\<rparr>\<rparr>)])
           | None \<Rightarrow> broker)
      | (Err _, broker) \<Rightarrow> broker)"

fun import_entries ::
  "regex_engine \<Rightarrow> (string \<Rightarrow> SystemTime) \<Rightarrow> Permissions \<Rightarrow> (string \<times> VssDataEntry) list \<Rightarrow>
   DataBroker \<Rightarrow> DataBroker" where
  "import_entries re clock permissions [] broker = broker"
| "import_entries re clock permissions ((path, entry) # rest) broker =
     import_entries re clock permissions rest
       (import_entry re (clock path) permissions broker path entry)"

datatype StartError =
  FileError string | VssFileError | MissingPrivateKey | MissingCertificate | InvalidPublicKey

record ('s, 'j, 'b) environment =
  open_file :: "string \<Rightarrow> 's option"
  read_tree :: "'s \<Rightarrow> (string \<times> 'j VssEntry) list option"
  json :: "'j serde"
  read_bytes :: "string \<Rightarrow> 'b option"
  read_to_string :: "string \<Rightarrow> string option"
  new_decoder :: "string \<Rightarrow> (string \<Rightarrow> Claims option) option"

definition read_metadata_file ::
  "('s, 'j, 'b) environment \<Rightarrow> regex_engine \<Rightarrow> (string \<Rightarrow> SystemTime) \<Rightarrow> Permissions \<Rightarrow> string \<Rightarrow> DataBroker \<Rightarrow>
   (unit, StartError) result \<times> DataBroker" where
  "read_metadata_file env re clock permissions filename broker =
     (case open_file env filename of
        None \<Rightarrow> (Err (FileError filename), broker)
      | Some metadata_file \<Rightarrow>
          (case parse_vss (json env) (read_tree env) metadata_file of
             Err _ \<Rightarrow> (Err VssFileError, broker)
           | Ok es \<Rightarrow> (Ok (), import_entries re clock permissions es broker)))"

fun read_metadata_files ::
  "('s, 'j, 'b) environment \<Rightarrow> regex_engine \<Rightarrow> (string \<Rightarrow> string \<Rightarrow> SystemTime) \<Rightarrow> Permissions \<Rightarrow> string list \<Rightarrow>
   DataBroker \<Rightarrow> (unit, StartError) result \<times> DataBroker" where
  "read_metadata_files env re clock permissions [] broker = (Ok (), broker)"
| "read_metadata_files env re clock permissions (filename # rest) broker =
     (case read_metadata_file env re (clock filename) permissions filename broker of
        (Ok _, broker) \<Rightarrow> read_metadata_files env re clock permissions rest broker
      | (Err e, broker) \<Rightarrow> (Err e, broker))"

section \<open>Transport security and authorization\<close>

datatype 'b ServerTLS = TLS_Disabled | TLS_Enabled 'b 'b

record arguments =
  arg_vss_files :: "string list"
  arg_insecure :: bool
  arg_tls_cert :: "string option"
  arg_tls_private_key :: "string option"
  arg_jwt_public_key :: "string option"
  arg_disable_authorization :: bool

definition tls_config ::
  "('s, 'j, 'b) environment \<Rightarrow> arguments \<Rightarrow> ('b ServerTLS, StartError) result" where
  "tls_config env args =
     (if arg_insecure args then Ok TLS_Disabled
      else
        (case (arg_tls_cert args, arg_tls_private_key args) of
           (Some cert_file, Some key_file) \<Rightarrow>
             (case read_bytes env cert_file of
                None \<Rightarrow> Err (FileError cert_file)
              | Some cert \<Rightarrow>
                  (case read_bytes env key_file of
                     None \<Rightarrow> Err (FileError key_file)
                   | Some key \<Rightarrow> Ok (TLS_Enabled cert key)))
         | (Some _, None) \<Rightarrow> Err MissingPrivateKey
         | (None, Some _) \<Rightarrow> Err MissingCertificate
         | (None, None) \<Rightarrow> Ok TLS_Disabled))"

definition new_authorization ::
  "('s, 'j, 'b) environment \<Rightarrow> string \<Rightarrow> (Authorization, StartError) result" where
  "new_authorization env public_key =
     (case new_decoder env public_key of
        Some token_decoder \<Rightarrow> Ok (Auth_Enabled token_decoder)
      | None \<Rightarrow> Err InvalidPublicKey)"

definition authorization_config ::
  "('s, 'j, 'b) environment \<Rightarrow> arguments \<Rightarrow> (Authorization, StartError) result" where
  "authorization_config env args =
     (let enable_authorization = \<not> arg_disable_authorization args in
      result_bind
        (case arg_jwt_public_key args of
           Some pub_key_filename \<Rightarrow>
             (case read_to_string env pub_key_filename of
                Some pub_key \<Rightarrow> Ok (Some pub_key)
              | None \<Rightarrow> Err (FileError pub_key_filename))
         | None \<Rightarrow> Ok None)
        (\<lambda>jwt_public_key.
           case (enable_authorization, jwt_public_key) of
             (True, Some pub_key) \<Rightarrow> new_authorization env pub_key
           | (True, None) \<Rightarrow> Ok Auth_Disabled
           | (False, _) \<Rightarrow> Ok Auth_Disabled))"

section \<open>The start of the program\<close>

record build_info =
  bi_version :: string
  bi_git_version :: string
  bi_cargo_version :: string
  bi_commit_sha :: string

definition add_attributes ::
  "regex_engine \<Rightarrow> SystemTime \<Rightarrow> build_info \<Rightarrow> DataBroker \<Rightarrow> DataBroker" where
  "add_attributes re now info broker =
     (let broker = add_kuksa_attribute re now ALLOW_ALL broker ''Kuksa.Databroker.GitVersion''
            (bi_git_version info) ''Databroker version as reported by GIT'';
          broker = add_kuksa_attribute re now ALLOW_ALL broker ''Kuksa.Databroker.CargoVersion''
            (bi_cargo_version info) ''Databroker version as reported by GIT''
      in add_kuksa_attribute re now ALLOW_ALL broker ''Kuksa.Databroker.CommitSha''
           (bi_commit_sha info) ''Commit SHA of current version'')"

definition start ::
  "('s, 'j, 'b) environment \<Rightarrow> regex_engine \<Rightarrow> SystemTime \<Rightarrow> (string \<Rightarrow> string \<Rightarrow> SystemTime) \<Rightarrow> build_info \<Rightarrow>
   arguments \<Rightarrow> (DataBroker \<times> 'b ServerTLS \<times> Authorization, StartError) result" where
  "start env re now clock info args =
     (let broker = add_attributes re now info (new_broker (bi_version info)) in
      case read_metadata_files env re clock ALLOW_ALL (arg_vss_files args) broker of
        (Err e, _) \<Rightarrow> Err e
      | (Ok _, broker) \<Rightarrow>
          result_bind (tls_config env args) (\<lambda>tls.
          result_bind (authorization_config env args) (\<lambda>authorization.
            Ok (broker, tls, authorization))))"

section \<open>Initial values\<close>

definition admits :: "DataValue option \<Rightarrow> DataValue \<Rightarrow> bool" where
  "admits allowed v \<longleftrightarrow> (case allowed of Some a \<Rightarrow> same_element_type a v \<and> all_allowed a v | None \<Rightarrow> True)"

lemma result_bind_Ok [simp]: "result_bind r Ok = r"
  by (cases r) auto

lemma validate_allowed_admits: "validate_allowed e v = Ok () \<longleftrightarrow> admits (md_allowed (e_metadata e)) v"
  by (auto simp: validate_allowed_eq admits_def split: option.split)

abbreviation set_default :: "SystemTime \<Rightarrow> DataValue \<Rightarrow> EntryUpdate" where
  "set_default now v \<equiv> default_update\<lparr>upd_datapoint := Some \<lparr>dp_ts = now, dp_value = v\<rparr>\<rparr>"

lemma ALLOW_ALL_grants [simp]:
  "\<not> has_expired now ALLOW_ALL" "write_granted re ALLOW_ALL path u" "is_match re (perm_create ALLOW_ALL) path"
  by (simp_all add: ALLOW_ALL_def has_expired_def write_granted_def)

lemma set_default_metadata [simp]: "\<not> touches_metadata (set_default now v)"
  by (simp add: touches_metadata_def default_update_def)

lemma first_value:
  assumes "map_of (entries db) eid = Some e" and "dp_value (e_datapoint e) = NotAvailable"
    and "conforms (md_data_type (e_metadata e)) v"
  shows "is_ok (fst (update re now ALLOW_ALL db eid (set_default now v))) \<longleftrightarrow> admits (md_allowed (e_metadata e)) v"
    and "updated_entry e (set_default now v) = e\<lparr>e_datapoint := \<lparr>dp_ts = now, dp_value = v\<rparr>\<rparr>"
proof -
  have v: "v \<noteq> NotAvailable" using assms(3) by (auto simp: conforms_def split: DataType.splits)
  then have d: "diff e (set_default now v) = set_default now v"
    using assms(2) by (simp add: diff_def default_update_def)
  show "updated_entry e (set_default now v) = e\<lparr>e_datapoint := \<lparr>dp_ts = now, dp_value = v\<rparr>\<rparr>"
    unfolding updated_entry_def d by (simp add: apply_update_def default_update_def)
  have "validate e (set_default now v) = validate_allowed e v"
    using assms(3)
    by (simp add: validate_def default_update_def validate_value_eq value_ok_def)
  then show "is_ok (fst (update re now ALLOW_ALL db eid (set_default now v))) \<longleftrightarrow> admits (md_allowed (e_metadata e)) v"
    by (simp add: update_eq assms(1) d validate_allowed_admits [symmetric] split: result.split)
qed

text \<open>One value written to the entry of a path, all permissions given.\<close>

definition initial_value :: "DataValue option \<Rightarrow> DataValue option \<Rightarrow> DataValue" where
  "initial_value allowed dflt =
     (case dflt of Some v \<Rightarrow> if admits allowed v then v else NotAvailable | None \<Rightarrow> NotAvailable)"

lemma fresh_entry_fields:
  "dp_value (e_datapoint (fresh_entry now eid name dt ct et descr allowed None unit)) = NotAvailable"
  "e_metadata (fresh_entry now eid name dt ct et descr allowed None unit) =
     \<lparr>md_id = eid, md_path = name, md_data_type = dt, md_entry_type = et, md_change_type = ct,
      md_description = descr, md_allowed = allowed, md_unit = unit\<rparr>"
  by (simp_all add: fresh_entry_def)

text \<open>A registration followed by an optional first value, as all of start-up does it.\<close>

definition register_value ::
  "regex_engine \<Rightarrow> SystemTime \<Rightarrow> DataBroker \<Rightarrow> string \<Rightarrow> DataType \<Rightarrow> ChangeType \<Rightarrow> EntryType \<Rightarrow> string \<Rightarrow>
   DataValue option \<Rightarrow> string option \<Rightarrow> DataValue option \<Rightarrow> DataBroker" where
  "register_value re now broker name dt ct et descr allowed unit dflt =
     (case add_entry re now ALLOW_ALL broker name dt ct et descr allowed unit of
        (Ok eid, broker) \<Rightarrow>
          (case dflt of
             Some v \<Rightarrow> snd (update_entries re now ALLOW_ALL broker [(eid, set_default now v)])
           | None \<Rightarrow> broker)
      | (Err _, broker) \<Rightarrow> broker)"

lemma import_entry_eq:
  "import_entry re now ALLOW_ALL broker path d =
     register_value re now broker path (vd_data_type d) (vd_change_type d) (vd_entry_type d)
       (vd_description d) (vd_allowed d) (vd_unit d) (vd_default d)"
  by (simp add: import_entry_def register_value_def)

lemma add_kuksa_attribute_eq:
  "add_kuksa_attribute re now ALLOW_ALL broker name v descr =
     register_value re now broker name T_String OnChange Attribute descr None None (Some (String v))"
  by (simp add: add_kuksa_attribute_def register_value_def split: prod.split result.split)

definition allowed_fits :: "DataType \<Rightarrow> DataValue option \<Rightarrow> bool" where
  "allowed_fits dt allowed \<longleftrightarrow>
     validate_allowed_type (fresh_entry 0 0 [] dt Static Attribute [] allowed None None) allowed = Ok ()"

lemma validate_allowed_type_fits:
  "validate_allowed_type e allowed = Ok () \<longleftrightarrow> allowed_fits (md_data_type (e_metadata e)) allowed"
  using validate_allowed_type_cong [of e "fresh_entry 0 0 [] (md_data_type (e_metadata e)) Static Attribute [] allowed None None"]
  by (simp add: allowed_fits_def fresh_entry_fields)

lemma add_entry_Ok_iff:
  assumes "db_wf (database broker)"
  shows "is_ok (fst (add_entry re now ALLOW_ALL broker name dt ct et descr allowed unit)) \<longleftrightarrow>
    is_valid_path re name \<and> (abs_db (database broker) name = None \<longrightarrow> allowed_fits dt allowed)"
  using abs_db_dom [OF assms, of name]
  by (auto simp: add_entry_def add_eq Let_def validate_allowed_type_fits fresh_entry_fields split: option.split)

lemma register_value_new:
  assumes wf: "db_wf (database broker)" and "unat (next_id (database broker)) + 1 < 2 ^ 32"
    and new: "abs_db (database broker) name = None" and dflt: "\<And>v. dflt = Some v \<Longrightarrow> conforms dt v"
    and ok: "is_valid_path re name" "allowed_fits dt allowed"
  shows "\<exists>e. abs_db (database (register_value re now broker name dt ct et descr allowed unit dflt)) =
      (abs_db (database broker))(name \<mapsto> e) \<and>
    e_metadata e = \<lparr>md_id = md_id (e_metadata e), md_path = name, md_data_type = dt, md_entry_type = et,
      md_change_type = ct, md_description = descr, md_allowed = allowed, md_unit = unit\<rparr> \<and>
    dp_value (e_datapoint e) = initial_value allowed dflt"
proof -
  obtain r b where a: "add_entry re now ALLOW_ALL broker name dt ct et descr allowed unit = (r, b)" by fastforce
  then have "is_ok r" using add_entry_Ok_iff [OF wf, of re now name dt ct et descr allowed unit] ok by simp
  then obtain eid where r: "r = Ok eid" by (auto simp: is_ok_iff)
  note c = add_entry_cases [OF a assms(1,2)]
  let ?e = "fresh_entry now eid name dt ct et descr allowed None unit"
  have abs: "abs_db (database b) = (abs_db (database broker))(name \<mapsto> ?e)" using c(4) [OF r] new by simp
  show ?thesis
  proof (cases dflt)
    case None
    then show ?thesis using a r abs
      by (intro exI [of _ ?e]) (simp add: register_value_def fresh_entry_fields initial_value_def)
  next
    case (Some v)
    have e: "abs_db (database b) name = Some ?e" using abs by simp
    note w = write_one [OF c(1) e, of re now ALLOW_ALL "set_default now v"]
    note id = abs_db_wf_path(3) [OF c(1) e]
    have conf: "conforms (md_data_type (e_metadata ?e)) v" using dflt Some by (simp add: fresh_entry_fields)
    note f = first_value(1) [OF id fresh_entry_fields(1) conf, of re now]
      first_value(2) [OF id fresh_entry_fields(1) conf, of now]
    have "abs_db (database (register_value re now broker name dt ct et descr allowed unit dflt)) =
        (abs_db (database broker))(name \<mapsto> after_update re now ALLOW_ALL (database b) ?e (set_default now v))"
      using w a r Some abs by (simp add: register_value_def)
    then show ?thesis using f Some
      by (intro exI conjI) (auto simp: after_update_def initial_value_def fresh_entry_fields)
  qed
qed

lemma after_update_metadata: "e_metadata (after_update re now ps db e (set_default now v)) = e_metadata e"
  by (simp add: after_update_def updated_entry_def apply_update_fields diff_fields default_update_def)

lemma register_value_frame:
  assumes wf: "db_wf (database broker)" and bound: "unat (next_id (database broker)) + 1 < 2 ^ 32"
    and b: "b = register_value re now broker name dt ct et descr allowed unit dflt"
  shows "db_wf (database b)" "unat (next_id (database b)) \<le> unat (next_id (database broker)) + 1"
    "q \<noteq> name \<Longrightarrow> abs_db (database b) q = abs_db (database broker) q"
    "abs_db (database broker) name = Some e \<Longrightarrow>
     \<exists>e'. abs_db (database b) name = Some e' \<and> e_metadata e' = e_metadata e"
    "abs_db (database broker) name = None \<Longrightarrow> \<not> (is_valid_path re name \<and> allowed_fits dt allowed) \<Longrightarrow> b = broker"
proof -
  obtain r a where a: "add_entry re now ALLOW_ALL broker name dt ct et descr allowed unit = (r, a)" by fastforce
  note c = add_entry_cases [OF a wf bound]
  have *: "(dflt = None \<and> b = a) \<or>
      (\<exists>v. dflt = Some v \<and> b = snd (update_entries re now ALLOW_ALL a [(eid, set_default now v)]))"
    if "r = Ok eid" for eid
    using a that by (cases dflt) (auto simp: b register_value_def)
  have **: "b = broker" if "r = Err err" for err
    using a c(5) [OF that] that by (simp add: b register_value_def)
  have e: "eid = md_id (e_metadata e')" if "abs_db (database a) name = Some e'" "r = Ok eid" for e' eid
    using abs_db_wf_path(2) [OF c(1) that(1)] c(3) [OF that(2)] by simp
  consider "b = broker" | "b = a" | us where "b = snd (update_entries re now ALLOW_ALL a us)"
    using * ** by (cases r) (blast, metis)
  then have inv: "db_wf (database b) \<and> next_id (database b) \<in> {next_id (database broker), next_id (database a)}"
    using wf c(1) by cases (simp_all add: update_entries_wf update_entries_frame store.run_inv)
  then show "db_wf (database b)" by blast
  show "unat (next_id (database b)) \<le> unat (next_id (database broker)) + 1" using inv c(2) by auto
  show "q \<noteq> name \<Longrightarrow> abs_db (database b) q = abs_db (database broker) q"
  proof (cases r)
    case (Ok eid)
    then obtain e' where e': "abs_db (database a) name = Some e'" using c(4) by (auto split: if_splits)
    assume "q \<noteq> name"
    then show ?thesis
      using * [OF Ok] c(4) [OF Ok] write_one [OF c(1) e', of re now ALLOW_ALL] e [OF e' Ok] by auto
  qed (use ** in simp)
  show "\<exists>e'. abs_db (database b) name = Some e' \<and> e_metadata e' = e_metadata e"
    if known: "abs_db (database broker) name = Some e"
  proof (cases r)
    case (Ok eid)
    then have e': "abs_db (database a) name = Some e" using c(4) known by auto
    then show ?thesis
      using * [OF Ok] write_one [OF c(1) e', of re now ALLOW_ALL] e [OF e' Ok]
      by (auto simp: after_update_metadata)
  qed (use ** known in simp)
  show "b = broker"
    if "abs_db (database broker) name = None" "\<not> (is_valid_path re name \<and> allowed_fits dt allowed)"
    using add_entry_Ok_iff [OF wf, of re now name dt ct et descr allowed unit] a that **
    by (cases r) auto
qed

lemma import_entries_inv:
  assumes "db_wf (database broker)" and "unat (next_id (database broker)) + length m < 2 ^ 32"
  shows "db_wf (database (import_entries re clock ALLOW_ALL m broker)) \<and>
    unat (next_id (database (import_entries re clock ALLOW_ALL m broker))) \<le>
      unat (next_id (database broker)) + length m \<and>
    (path \<notin> fst ` set m \<longrightarrow>
       abs_db (database (import_entries re clock ALLOW_ALL m broker)) path = abs_db (database broker) path) \<and>
    (\<forall>e. abs_db (database broker) path = Some e \<longrightarrow>
       (\<exists>e'. abs_db (database (import_entries re clock ALLOW_ALL m broker)) path = Some e' \<and>
          e_metadata e' = e_metadata e))"
  using assms
proof (induction m arbitrary: broker)
  case (Cons x m)
  obtain p d where x: "x = (p, d)" by (cases x)
  let ?b = "import_entry re (clock p) ALLOW_ALL broker p d"
  have bound: "unat (next_id (database broker)) + 1 < 2 ^ 32" using Cons.prems(2) by simp
  note f = register_value_frame [OF Cons.prems(1) bound import_entry_eq [of re "clock p" broker p d]]
  have "unat (next_id (database ?b)) + length m < 2 ^ 32" using f(2) Cons.prems(2) by simp
  note ih = Cons.IH [OF f(1) this]
  have "\<exists>e'. abs_db (database ?b) path = Some e' \<and> e_metadata e' = e_metadata e"
    if "abs_db (database broker) path = Some e" for e
    using f(3) [of path] f(4) [of e] that by (cases "path = p") auto
  then show ?case using ih f(2) f(3) [of path] by (fastforce simp: x)
qed simp

lemma import_entries_new:
  assumes "db_wf (database broker)" and "unat (next_id (database broker)) + length m < 2 ^ 32"
    and "distinct (map fst m)" and "abs_db (database broker) path = None" and "map_of m path = Some d"
    and "\<And>v. vd_default d = Some v \<Longrightarrow> conforms (vd_data_type d) v"
  shows "if is_valid_path re path \<and> allowed_fits (vd_data_type d) (vd_allowed d) then
      \<exists>e. abs_db (database (import_entries re clock ALLOW_ALL m broker)) path = Some e \<and>
        e_metadata e = \<lparr>md_id = md_id (e_metadata e), md_path = path, md_data_type = vd_data_type d,
          md_entry_type = vd_entry_type d, md_change_type = vd_change_type d,
          md_description = vd_description d, md_allowed = vd_allowed d, md_unit = vd_unit d\<rparr> \<and>
        dp_value (e_datapoint e) = initial_value (vd_allowed d) (vd_default d)
    else abs_db (database (import_entries re clock ALLOW_ALL m broker)) path = None"
  using assms(1-5)
proof (induction m arbitrary: broker)
  case (Cons x m)
  obtain p d' where x: "x = (p, d')" by (cases x)
  let ?b = "import_entry re (clock p) ALLOW_ALL broker p d'"
  have bound: "unat (next_id (database broker)) + 1 < 2 ^ 32" using Cons.prems(2) by simp
  note f = register_value_frame [OF Cons.prems(1) bound import_entry_eq [of re "clock p" broker p d']]
  have b: "unat (next_id (database ?b)) + length m < 2 ^ 32" using f(2) Cons.prems(2) by simp
  show ?case
  proof (cases "p = path")
    case False
    then show ?thesis using Cons.IH [OF f(1) b] Cons.prems(3-5) f(3) [of path] by (simp add: x)
  next
    case True
    then have d: "d' = d" using Cons.prems(5) by (simp add: x)
    have "path \<notin> fst ` set m" using Cons.prems(3) by (simp add: x True)
    then have same: "abs_db (database (import_entries re clock ALLOW_ALL m ?b)) path = abs_db (database ?b) path"
      using import_entries_inv [OF f(1) b] by blast
    note new = register_value_new [OF Cons.prems(1) bound Cons.prems(4) assms(6), of "vd_default d"]
    show ?thesis
    proof (cases "is_valid_path re path \<and> allowed_fits (vd_data_type d) (vd_allowed d)")
      case ok: True
      then obtain e where "abs_db (database ?b) = (abs_db (database broker))(path \<mapsto> e)"
        "e_metadata e = \<lparr>md_id = md_id (e_metadata e), md_path = path, md_data_type = vd_data_type d,
          md_entry_type = vd_entry_type d, md_change_type = vd_change_type d,
          md_description = vd_description d, md_allowed = vd_allowed d, md_unit = vd_unit d\<rparr>"
        "dp_value (e_datapoint e) = initial_value (vd_allowed d) (vd_default d)"
        using new [of re "vd_allowed d" "clock p" "vd_change_type d" "vd_entry_type d" "vd_description d" "vd_unit d"]
        by (auto simp: import_entry_eq True d)
      then show ?thesis using ok same by (auto simp: x True d)
    next
      case False
      then show ?thesis using f(5) Cons.prems(4) same by (auto simp: x True d)
    qed
  qed
qed simp

section \<open>Allowed values of imported entries\<close>

definition narrow_type :: "DataType \<Rightarrow> bool" where
  "narrow_type dt \<longleftrightarrow>
     dt \<in> {T_Int8, T_Int16, T_Uint8, T_Uint16, T_Int8Array, T_Int16Array, T_Uint8Array, T_Uint16Array}"

lemma imported_allowed_fits:
  assumes "try_from_json_array sj js dt = Ok allowed"
  shows "allowed_fits dt allowed \<longleftrightarrow> allowed = None \<or> \<not> narrow_type dt"
proof (cases allowed)
  case None
  then show ?thesis by (simp add: allowed_fits_def validate_allowed_type_def)
next
  case (Some a)
  then show ?thesis using assms
    by (cases js; cases dt)
      (auto simp: try_from_json_array_def try_from_json_value_def from_value_def narrow_type_def
        allowed_fits_def validate_allowed_type_def fresh_entry_fields Let_def split: option.splits)
qed

lemma convert_leaf_allowed:
  "convert_leaf sj e = Ok d \<Longrightarrow>
   allowed_fits (vd_data_type d) (vd_allowed d) \<longleftrightarrow> vd_allowed d = None \<or> \<not> narrow_type (vd_data_type d)"
  by (auto simp: convert_leaf_def data_entry_def Let_def result_bind_eq_Ok imported_allowed_fits
      split: VssEntryType.splits option.splits)

section \<open>Properties\<close>

text \<open>
  C33.  Importing a VSS file: the database stays well-formed; the metadata of entries known before
  is untouched; a path of the file that was not known is registered exactly when it is a valid
  path and its entry has no list of allowed values or is not of an 8- or 16-bit integer type,
  and then it has the types, description, unit and allowed values of the file and, for an
  attribute whose default value is among the allowed ones, the default as its value.
\<close>

theorem import_outcome:
  assumes "flatten_vss_tree sj tree = Ok m" and "db_wf (database broker)"
    and "unat (next_id (database broker)) + length m < 2 ^ 32"
  shows "db_wf (database (import_entries re clock ALLOW_ALL m broker)) \<and>
    (\<forall>e. abs_db (database broker) path = Some e \<longrightarrow>
       (\<exists>e'. abs_db (database (import_entries re clock ALLOW_ALL m broker)) path = Some e' \<and>
          e_metadata e' = e_metadata e)) \<and>
    (abs_db (database broker) path = None \<longrightarrow>
       (case (abs_db (database (import_entries re clock ALLOW_ALL m broker)) path, map_of m path) of
          (Some e, Some d) \<Rightarrow>
            is_valid_path re path \<and> (vd_allowed d = None \<or> \<not> narrow_type (vd_data_type d)) \<and>
            e_metadata e = \<lparr>md_id = md_id (e_metadata e), md_path = path, md_data_type = vd_data_type d,
              md_entry_type = vd_entry_type d, md_change_type = vd_change_type d,
              md_description = vd_description d, md_allowed = vd_allowed d, md_unit = vd_unit d\<rparr> \<and>
            dp_value (e_datapoint e) = initial_value (vd_allowed d) (vd_default d)
        | (None, Some d) \<Rightarrow>
            \<not> is_valid_path re path \<or> (vd_allowed d \<noteq> None \<and> narrow_type (vd_data_type d))
        | (Some _, None) \<Rightarrow> False
        | (None, None) \<Rightarrow> True))"
proof -
  have d: "distinct (map fst m)" using flatten_sorted [OF assms(1)] by (simp add: strict_sorted_iff)
  note inv = import_entries_inv [OF assms(2,3), of re clock path]
  have "case (abs_db (database (import_entries re clock ALLOW_ALL m broker)) path, map_of m path) of
          (Some e, Some d) \<Rightarrow>
            is_valid_path re path \<and> (vd_allowed d = None \<or> \<not> narrow_type (vd_data_type d)) \<and>
            e_metadata e = \<lparr>md_id = md_id (e_metadata e), md_path = path, md_data_type = vd_data_type d,
              md_entry_type = vd_entry_type d, md_change_type = vd_change_type d,
              md_description = vd_description d, md_allowed = vd_allowed d, md_unit = vd_unit d\<rparr> \<and>
            dp_value (e_datapoint e) = initial_value (vd_allowed d) (vd_default d)
        | (None, Some d) \<Rightarrow>
            \<not> is_valid_path re path \<or> (vd_allowed d \<noteq> None \<and> narrow_type (vd_data_type d))
        | (Some _, None) \<Rightarrow> False
        | (None, None) \<Rightarrow> True"
    if new: "abs_db (database broker) path = None"
  proof (cases "map_of m path")
    case None
    then have "path \<notin> fst ` set m" by (simp only: map_of_eq_None_iff not_False_eq_True)
    then show ?thesis using inv new None by simp
  next
    case (Some d')
    from flatten_lookup [OF assms(1) Some] obtain e where c: "convert_leaf sj e = Ok d'" ..
    show ?thesis
      using import_entries_new [OF assms(2,3) d new Some convert_leaf_values(1) [OF c], of re clock] Some
      by (auto simp: convert_leaf_allowed [OF c] split: if_splits option.splits)
  qed
  then show ?thesis using inv by blast
qed

theorem import_outcome_witness:
  "\<exists>m. flatten_vss_tree serde_example vss_tree = Ok m \<and>
     db_wf (database (import_entries any_regex (\<lambda>_. 1) ALLOW_ALL m (new_broker [])))"
proof -
  obtain m where m: "flatten_vss_tree serde_example vss_tree = Ok m" "length m = 2"
    by (simp add: flatten_leaves vss_tree_leaves convert_leaf_def vss_leaf_def data_entry_def
        try_from_json_value_def try_from_json_array_def data_type_of_vss_def from_value_def serde_example_def
        Let_def)
  then show ?thesis
    using import_outcome [OF m(1), of "new_broker []"]
    by (simp add: new_broker_def new_database_wf) (simp add: new_database_def)
qed

text \<open>
  The configuration the server starts with: authorization is off exactly when it is disabled
  or no public key is given, so that a key that cannot be read or used stops the program
  instead of leaving the server open; transport security is off exactly when it is waived or
  neither a certificate nor a key is given, and a certificate without a key, or a key without
  a certificate, stops the program.
\<close>

theorem start_configuration:
  "case start env re now clock info args of
     Ok (broker, tls, authorization) \<Rightarrow>
       (authorization = Auth_Disabled \<longleftrightarrow>
          arg_disable_authorization args \<or> arg_jwt_public_key args = None) \<and>
       (tls = TLS_Disabled \<longleftrightarrow>
          arg_insecure args \<or> arg_tls_cert args = None \<and> arg_tls_private_key args = None) \<and>
       (\<not> arg_insecure args \<longrightarrow> (arg_tls_cert args = None \<longleftrightarrow> arg_tls_private_key args = None)) \<and>
       (\<forall>decoder. authorization = Auth_Enabled decoder \<longrightarrow>
          (\<exists>file key. arg_jwt_public_key args = Some file \<and> read_to_string env file = Some key \<and>
             new_decoder env key = Some decoder))
   | Err _ \<Rightarrow> True"
  by (auto simp: start_def tls_config_def authorization_config_def new_authorization_def Let_def
      result_bind_eq_Ok split: result.splits option.splits prod.splits bool.splits if_splits)

definition example_env :: "(string, string, string) environment" where
  "example_env =
     \<lparr>open_file = (\<lambda>_. None), read_tree = (\<lambda>_. None), json = serde_example, read_bytes = (\<lambda>_. None),
      read_to_string = Some, new_decoder = (\<lambda>_. Some (\<lambda>_. None))\<rparr>"

definition example_args :: arguments where
  "example_args =
     \<lparr>arg_vss_files = [], arg_insecure = False, arg_tls_cert = None, arg_tls_private_key = None,
      arg_jwt_public_key = Some ''key.pub'', arg_disable_authorization = False\<rparr>"

theorem start_configuration_witness:
  "\<exists>broker authorization.
     start example_env any_regex 1 (\<lambda>_ _. 1)
       \<lparr>bi_version = [], bi_git_version = [], bi_cargo_version = [], bi_commit_sha = []\<rparr> example_args =
       Ok (broker, TLS_Disabled, authorization) \<and> authorization \<noteq> Auth_Disabled"
  using start_configuration [where env = example_env and re = any_regex and now = 1 and clock = "\<lambda>_ _. 1"
    and info = "\<lparr>bi_version = [], bi_git_version = [], bi_cargo_version = [], bi_commit_sha = []\<rparr>"
    and args = example_args]
  by (simp add: start_def example_args_def example_env_def tls_config_def authorization_config_def
      new_authorization_def Let_def)

end
