(* ===== verification/Server.thy ===== *)
theory Server
  imports Val Sdv Viss Startup
begin

text \<open>
  The server as a whole: the broker that start-up leaves behind, and every handler of the three
  services that can change it.  Each handler is a sequence of operations of the broker, so a run of
  the server is an execution of the transition system of \<open>Broker\<close>, and what holds in every
  execution holds of the server.  A stream of datapoints counts one message at a time, since other
  requests are served between its messages.
\<close>

section \<open>Sequences of broker operations\<close>

definition broker_step ::
  "regex_engine \<Rightarrow> (string \<Rightarrow> sql_statement list option) \<Rightarrow> DataBroker \<Rightarrow> event \<Rightarrow> DataBroker \<Rightarrow> bool" where
  "broker_step re parse_sql broker ev broker' \<longleftrightarrow>
     system_step re parse_sql \<lparr>sys_broker = broker, sys_pending = []\<rparr> ev \<lparr>sys_broker = broker', sys_pending = []\<rparr>"

inductive broker_steps ::
  "regex_engine \<Rightarrow> (string \<Rightarrow> sql_statement list option) \<Rightarrow> DataBroker \<Rightarrow> event list \<Rightarrow> DataBroker \<Rightarrow> bool"
  for re parse_sql where
  steps_refl [intro]: "broker_steps re parse_sql b [] b"
| steps_snoc: "broker_steps re parse_sql b evs b' \<Longrightarrow> broker_step re parse_sql b' ev b'' \<Longrightarrow>
     broker_steps re parse_sql b (evs @ [ev]) b''"

inductive_cases broker_steps_NilE: "broker_steps re parse_sql b [] b'"

lemma broker_steps_trans:
  "broker_steps re parse_sql b' evs' b'' \<Longrightarrow> broker_steps re parse_sql b evs b' \<Longrightarrow>
   broker_steps re parse_sql b (evs @ evs') b''"
  by (induction rule: broker_steps.induct) (auto simp flip: append_assoc intro: steps_snoc)

lemma single_step: "broker_step re parse_sql b ev b' \<Longrightarrow> broker_steps re parse_sql b [ev] b'"
  using steps_snoc [OF steps_refl] by fastforce

lemma broker_step_intros:
  "broker_step re parse_sql b Ev_Add (snd (add_entry re now ps b name dt ct et descr allowed unit))"
  "broker_step re parse_sql b (Ev_Update (map fst us)) (snd (update_entries re now ps b us))"
  "valid_entries b valid \<Longrightarrow> broker_step re parse_sql b (Ev_Subscribe (map fst valid)) (snd (subscribe re now ps b valid))"
  "broker_step re parse_sql b Ev_Query (snd (subscribe_query parse_sql re now ps b sql))"
  "broker_step re parse_sql b Ev_Housekeeping (housekeeping b)"
  "broker_step re parse_sql b Ev_Shutdown (shutdown b)"
  "i < length (change_subscriptions (subscriptions b)) \<Longrightarrow> broker_step re parse_sql b Ev_HangUp (hang_up_change b i)"
  "i < length (query_subscriptions (subscriptions b)) \<Longrightarrow> broker_step re parse_sql b Ev_HangUp (hang_up_query b i)"
  unfolding broker_step_def
  using system_step.intros [where s = "\<lparr>sys_broker = b, sys_pending = []\<rparr>" and re = re and parse_sql = parse_sql]
  by simp_all

lemma execution_steps:
  assumes "broker_steps re parse_sql b evs' b'" and "execution re parse_sql evs \<lparr>sys_broker = b, sys_pending = []\<rparr>"
  shows "execution re parse_sql (evs @ evs') \<lparr>sys_broker = b', sys_pending = []\<rparr>"
  using assms
  by (induction rule: broker_steps.induct)
    (auto simp: broker_step_def simp flip: append_assoc intro: execution_step)

text \<open>A call that makes at most \<open>n\<close> registrations.\<close>

definition runs_within ::
  "regex_engine \<Rightarrow> (string \<Rightarrow> sql_statement list option) \<Rightarrow> nat \<Rightarrow> DataBroker \<Rightarrow> DataBroker \<Rightarrow> bool" where
  "runs_within re parse_sql n b b' \<longleftrightarrow> (\<exists>evs. broker_steps re parse_sql b evs b' \<and> registrations evs \<le> n)"

lemma within_refl [simp]: "runs_within re parse_sql n b b"
  by (force simp: runs_within_def)

lemma within_trans: "runs_within re parse_sql n b b' \<Longrightarrow> runs_within re parse_sql m b' b'' \<Longrightarrow> runs_within re parse_sql (n + m) b b''"
  unfolding runs_within_def by (metis add_mono broker_steps_trans registrations_simps(3))

lemma within_mono: "runs_within re parse_sql n b b' \<Longrightarrow> n \<le> m \<Longrightarrow> runs_within re parse_sql m b b'"
  unfolding runs_within_def by (meson order_trans)

lemma within_step: "broker_step re parse_sql b ev b' \<Longrightarrow> (if ev = Ev_Add then 1 else 0) \<le> n \<Longrightarrow> runs_within re parse_sql n b b'"
  unfolding runs_within_def by (metis single_step registrations_simps(1,2) add_0_right)

lemma within_add: "runs_within re parse_sql 1 b (snd (add_entry re now ps b name dt ct et descr allowed unit))"
  by (rule within_step [OF broker_step_intros(1)]) simp

lemma within_update: "runs_within re parse_sql n b (snd (update_entries re now ps b us))"
  by (rule within_step [OF broker_step_intros(2)]) simp

lemma within_subscribe:
  "valid_entries b valid \<Longrightarrow> runs_within re parse_sql n b (snd (subscribe re now ps b valid))"
  by (rule within_step [OF broker_step_intros(3)]) simp_all

lemma within_query: "runs_within re parse_sql n b (snd (subscribe_query parse_sql re now ps b sql))"
  by (rule within_step [OF broker_step_intros(4)]) simp

section \<open>Every handler is such a sequence\<close>

lemma val_set_within: "runs_within re parse_sql 0 b (snd (val_set re ts_into now perms b requests))"
proof (cases "\<exists>ps us errors. perms = Some ps \<and> collect_updates ts_into now b requests [] [] = Ok (us, errors)")
  case True
  then obtain ps us errors where "perms = Some ps" "collect_updates ts_into now b requests [] [] = Ok (us, errors)"
    by blast
  then have "snd (val_set re ts_into now perms b requests) = snd (update_entries re now ps b us)"
    by (simp add: val_set_def split: prod.split result.split)
  then show ?thesis by (simp add: within_update)
next
  case False
  then have "snd (val_set re ts_into now perms b requests) = b"
    by (auto simp: val_set_def split: option.splits result.splits)
  then show ?thesis by simp
qed

lemma val_subscribe_within:
  assumes "db_wf (database b)"
  shows "runs_within re parse_sql 0 b (snd (val_subscribe re now perms b requests))"
proof (cases "\<exists>ps valid. perms = Some ps \<and> requests \<noteq> [] \<and>
    subscribe_collect (iter_entries re now ps (database b)) (subscribe_requests re requests []) [] = Ok valid")
  case True
  then obtain ps valid where ps: "perms = Some ps" "requests \<noteq> []"
    and valid: "subscribe_collect (iter_entries re now ps (database b)) (subscribe_requests re requests []) [] = Ok valid"
    by blast
  have "valid_entries b valid"
    using subscribe_collect_ids [OF valid] readable_ids_iter [OF assms, of _ re now ps]
    by (fastforce simp: valid_entries_def get_entry_by_id_Ok)
  moreover have "snd (val_subscribe re now perms b requests) = snd (subscribe re now ps b valid)"
    using ps valid by (simp add: val_subscribe_def split: prod.split result.split SubscriptionError.split)
  ultimately show ?thesis by (simp add: within_subscribe)
next
  case False
  then have "snd (val_subscribe re now perms b requests) = b"
    by (auto simp: val_subscribe_def split: option.splits result.splits)
  then show ?thesis by simp
qed

lemma sdv_set_within: "runs_within re parse_sql 0 b (snd (sdv_set_datapoints re ts_into now perms b dps))"
proof (cases perms)
  case (Some ps)
  obtain us itp errors where "set_collect ts_into now b dps [] [] [] = (us, itp, errors)" by (rule prod_cases3)
  then have "snd (sdv_set_datapoints re ts_into now perms b dps) = snd (update_entries re now ps b us)"
    using Some by (simp add: sdv_set_datapoints_def split: prod.split result.split option.split)
  then show ?thesis by (simp add: within_update)
qed (simp add: sdv_set_datapoints_def)

lemma sdv_update_within: "runs_within re parse_sql 0 b (snd (sdv_update_datapoints re ts_into now perms b dps))"
proof (cases perms)
  case (Some ps)
  then have "snd (sdv_update_datapoints re ts_into now perms b dps) =
      snd (update_entries re now ps b (datapoint_updates ts_into now dps))"
    by (simp add: sdv_update_datapoints_def split: prod.split result.split)
  then show ?thesis by (simp add: within_update)
qed (simp add: sdv_update_datapoints_def)

lemma stream_message_within: "runs_within re parse_sql 0 b (fst (stream_message re ts_into ps now dps b sender))"
proof -
  have "fst (stream_message re ts_into ps now dps b sender) =
      snd (update_entries re now ps b (datapoint_updates ts_into now dps))"
    by (simp add: stream_message_def split: prod.split result.split)
  then show ?thesis by (simp add: within_update)
qed

lemma sdv_subscribe_within: "runs_within re parse_sql 0 b (snd (sdv_subscribe parse_sql re now perms b query))"
proof (cases perms)
  case (Some ps)
  then have "snd (sdv_subscribe parse_sql re now perms b query) = snd (subscribe_query parse_sql re now ps b query)"
    by (simp add: sdv_subscribe_def split: prod.split result.split)
  then show ?thesis by (simp add: within_query)
qed (simp add: sdv_subscribe_def)

lemma register_each_within:
  "runs_within re parse_sql (length ms) b (snd (register_each re now ps ms b results))"
proof (induction ms arbitrary: b results)
  case (Cons m ms)
  show ?case
  proof (cases "\<exists>t c. sdv_data_type_from_i32 (rm_data_type m) = Some t \<and> sdv_change_type_from_i32 (rm_change_type m) = Some c")
    case True
    then obtain t c where tc: "sdv_data_type_from_i32 (rm_data_type m) = Some t"
      "sdv_change_type_from_i32 (rm_change_type m) = Some c" by blast
    obtain r b' where a: "add_entry re now ps b (rm_name m) (data_type_of_sdv t) (change_type_of_sdv c) Sensor
        (rm_description m) None None = (r, b')" by fastforce
    have one: "runs_within re parse_sql 1 b b'"
      using within_add [of re parse_sql b now ps "rm_name m" "data_type_of_sdv t" "change_type_of_sdv c" Sensor
          "rm_description m" None None] by (simp add: a)
    have "runs_within re parse_sql (length ms) b' (snd (register_each re now ps (m # ms) b results))"
      using tc a Cons.IH [of b'] by (cases r) (auto split: RegistrationError.split)
    then show ?thesis using within_trans [OF one] by simp
  qed (auto split: option.split)
qed simp

lemma sdv_register_within:
  "runs_within re parse_sql (length ms) b (snd (sdv_register_datapoints re now perms b ms))"
  by (simp add: sdv_register_datapoints_def register_each_within split: option.split)

lemma viss_set_within: "runs_within re parse_sql 0 b (snd (viss_set captures re now server b request))"
proof -
  have "(\<exists>ps us. snd (viss_set captures re now server b request) = snd (update_entries re now ps b us)) \<or>
      snd (viss_set captures re now server b request) = b"
    by (auto simp: viss_set_def Let_def split: option.split result.split prod.split ConversionError.split) (metis snd_conv)+
  then show ?thesis using within_update by fastforce
qed

lemma viss_subscribe_within:
  assumes "db_wf (database b)"
  shows "runs_within re parse_sql 0 b (snd (snd (viss_subscribe captures re uuid now server b request)))"
proof (cases "\<exists>ps e. resolve_permissions captures re (vs_authorization server) (uq_authorization request) = Some (Ok ps) \<and>
    abs_db (database b) (uq_path request) = Some e")
  case True
  then obtain ps e where ps: "resolve_permissions captures re (vs_authorization server) (uq_authorization request) = Some (Ok ps)"
    and e: "abs_db (database b) (uq_path request) = Some e" by blast
  have "valid_entries b [(md_id (e_metadata e), {F_Datapoint})]"
    using abs_db_wf_path(3) [OF assms e] by (simp add: valid_entries_def)
  moreover have "snd (snd (viss_subscribe captures re uuid now server b request)) =
      snd (subscribe re now ps b [(md_id (e_metadata e), {F_Datapoint})])"
    using ps e by (simp add: viss_subscribe_def get_id_by_path_abs Let_def split: prod.split result.split)
  ultimately show ?thesis by (simp add: within_subscribe)
next
  case False
  then have "snd (snd (viss_subscribe captures re uuid now server b request)) = b"
    by (auto simp: viss_subscribe_def get_id_by_path_abs Let_def split: option.splits result.splits)
  then show ?thesis by simp
qed

lemma handle_text_within:
  assumes "db_wf (database b)"
  shows "runs_within re parse_sql 0 b (snd (handle_text js captures re uuid now msg con b))"
proof -
  have "snd (handle_text js captures re uuid now msg con b) \<in>
     {b} \<union> {snd (viss_set captures re now (con_server con) b request) | request. True} \<union>
     {snd (snd (viss_subscribe captures re uuid now (con_server con) b request)) | request. True}"
    by (auto simp: handle_text_def split: result.split Request.split option.split prod.split) (metis snd_conv)+
  then show ?thesis using viss_set_within viss_subscribe_within [OF assms] by auto
qed

section \<open>Start-up\<close>

lemma import_entry_within: "runs_within re parse_sql 1 b (import_entry re now ps b path d)"
proof -
  obtain r b' where a: "add_entry re now ps b path (vd_data_type d) (vd_change_type d) (vd_entry_type d)
      (vd_description d) (vd_allowed d) (vd_unit d) = (r, b')" by fastforce
  have "runs_within re parse_sql 1 b b'"
    using within_add [of re parse_sql b now ps path "vd_data_type d" "vd_change_type d" "vd_entry_type d"
        "vd_description d" "vd_allowed d" "vd_unit d"] by (simp add: a)
  moreover have "runs_within re parse_sql 0 b' (import_entry re now ps b path d)"
    by (cases r) (simp_all add: import_entry_def a within_update split: option.split)
  ultimately show ?thesis using within_trans by fastforce
qed

lemma import_entries_within:
  "runs_within re parse_sql (length es) b (import_entries re clock ps es b)"
proof (induction es arbitrary: b)
  case (Cons x es)
  then show ?case
    using within_trans [OF import_entry_within] by (cases x) (simp, metis plus_1_eq_Suc)
qed simp

lemma add_kuksa_attribute_within: "runs_within re parse_sql 1 b (add_kuksa_attribute re now ps b name v descr)"
proof -
  obtain r b' where a: "add_entry re now ps b name T_String OnChange Attribute descr None None = (r, b')" by fastforce
  have "runs_within re parse_sql 1 b b'"
    using within_add [of re parse_sql b now ps name T_String OnChange Attribute descr None None] by (simp add: a)
  moreover have "runs_within re parse_sql 0 b' (add_kuksa_attribute re now ps b name v descr)"
    by (cases r) (simp_all add: add_kuksa_attribute_def a within_update)
  ultimately show ?thesis using within_trans by fastforce
qed

text \<open>The number of entries that the files named on the command line define, and the three attributes.\<close>

definition file_size :: "('s, 'j, 'b) environment \<Rightarrow> string \<Rightarrow> nat" where
  "file_size env filename =
     (case open_file env filename of
        None \<Rightarrow> 0
      | Some file \<Rightarrow> (case parse_vss (json env) (read_tree env) file of Ok es \<Rightarrow> length es | Err _ \<Rightarrow> 0))"

definition start_size :: "('s, 'j, 'b) environment \<Rightarrow> arguments \<Rightarrow> nat" where
  "start_size env args = 3 + sum_list (map (file_size env) (arg_vss_files args))"

lemma read_metadata_files_within:
  "runs_within re parse_sql (sum_list (map (file_size env) files)) b (snd (read_metadata_files env re clock ps files b))"
proof (induction files arbitrary: b)
  case (Cons f files)
  obtain r b' where f: "read_metadata_file env re (clock f) ps f b = (r, b')" by fastforce
  have "runs_within re parse_sql (file_size env f) b b'"
    using f by (auto simp: read_metadata_file_def file_size_def import_entries_within split: option.splits result.splits)
  moreover have "runs_within re parse_sql (sum_list (map (file_size env) files)) b'
      (snd (read_metadata_files env re clock ps (f # files) b))"
    using Cons by (cases r) (simp_all add: f)
  ultimately show ?case using within_trans by fastforce
qed simp

lemma start_within:
  assumes "start env re now clock info args = Ok (b, tls, authorization)"
  shows "runs_within re parse_sql (start_size env args) (new_broker (bi_version info)) b"
proof -
  let ?b = "add_attributes re now info (new_broker (bi_version info))"
  have attributes: "runs_within re parse_sql (1 + 1 + 1) (new_broker (bi_version info)) ?b"
    unfolding add_attributes_def Let_def
    by (rule within_trans [OF within_trans [OF add_kuksa_attribute_within add_kuksa_attribute_within]
          add_kuksa_attribute_within])
  have "b = snd (read_metadata_files env re clock ALLOW_ALL (arg_vss_files args) ?b)"
    using assms by (auto simp: start_def Let_def result_bind_eq_Ok split: prod.splits result.splits)
  then show ?thesis
    using within_trans [OF attributes read_metadata_files_within [of re parse_sql env "arg_vss_files args" ?b clock ALLOW_ALL]]
    by (simp add: start_size_def numeral_3_eq_3)
qed

section \<open>Runs of the server\<close>

text \<open>One call of a handler, housekeeping, shutdown, or a client that goes away; the number bounds its registrations.\<close>

inductive serves ::
  "regex_engine \<Rightarrow> (string \<Rightarrow> sql_statement list option) \<Rightarrow> nat \<Rightarrow> DataBroker \<Rightarrow> DataBroker \<Rightarrow> bool"
  for re parse_sql where
  serve_val_set: "serves re parse_sql 0 b (snd (val_set re ts_into now perms b requests))"
| serve_val_subscribe: "serves re parse_sql 0 b (snd (val_subscribe re now perms b sub_requests))"
| serve_sdv_set: "serves re parse_sql 0 b (snd (sdv_set_datapoints re ts_into now perms b dps))"
| serve_sdv_update: "serves re parse_sql 0 b (snd (sdv_update_datapoints re ts_into now perms b id_dps))"
| serve_sdv_stream: "serves re parse_sql 0 b (fst (stream_message re ts_into ps now id_dps b sender))"
| serve_sdv_subscribe: "serves re parse_sql 0 b (snd (sdv_subscribe parse_sql re now perms b query))"
| serve_sdv_register: "serves re parse_sql (length ms) b (snd (sdv_register_datapoints re now perms b ms))"
| serve_viss: "serves re parse_sql 0 b (snd (handle_text js captures re uuid now msg con b))"
| serve_housekeeping: "serves re parse_sql 0 b (housekeeping b)"
| serve_shutdown: "serves re parse_sql 0 b (shutdown b)"
| serve_hang_up_change: "i < length (change_subscriptions (subscriptions b)) \<Longrightarrow>
     serves re parse_sql 0 b (hang_up_change b i)"
| serve_hang_up_query: "i < length (query_subscriptions (subscriptions b)) \<Longrightarrow>
     serves re parse_sql 0 b (hang_up_query b i)"

lemma serves_within: "serves re parse_sql n b b' \<Longrightarrow> db_wf (database b) \<Longrightarrow> runs_within re parse_sql n b b'"
  by (induction rule: serves.induct)
    (auto intro: val_set_within val_subscribe_within sdv_set_within sdv_update_within stream_message_within
      sdv_subscribe_within sdv_register_within handle_text_within within_step broker_step_intros)

inductive server_run ::
  "('s, 'j, 'b) environment \<Rightarrow> regex_engine \<Rightarrow> (string \<Rightarrow> sql_statement list option) \<Rightarrow> nat \<Rightarrow> DataBroker \<Rightarrow> bool"
  for env re parse_sql where
  run_start: "start env re now clock info args = Ok (b, tls, authorization) \<Longrightarrow>
     server_run env re parse_sql (start_size env args) b"
| run_serve: "server_run env re parse_sql n b \<Longrightarrow> serves re parse_sql m b b' \<Longrightarrow>
     server_run env re parse_sql (n + m) b'"

lemma server_run_execution:
  "server_run env re parse_sql n b \<Longrightarrow> n < 2 ^ 32 \<Longrightarrow>
   \<exists>evs. execution re parse_sql evs \<lparr>sys_broker = b, sys_pending = []\<rparr> \<and> registrations evs \<le> n"
proof (induction rule: server_run.induct)
  case (run_start now clock info args b tls authorization)
  then obtain evs where "broker_steps re parse_sql (new_broker (bi_version info)) evs b"
    "registrations evs \<le> start_size env args"
    using start_within unfolding runs_within_def by blast
  then show ?case
    using execution_steps [of re parse_sql "new_broker (bi_version info)" evs b "[]"]
      execution_start [of re parse_sql "bi_version info"]
    by (auto simp: initial_system_def)
next
  case (run_serve n b m b')
  then obtain evs where evs: "execution re parse_sql evs \<lparr>sys_broker = b, sys_pending = []\<rparr>" "registrations evs \<le> n"
    by auto
  then have "db_wf (database b)"
    using execution_inv [OF evs(1)] run_serve.prems by (simp add: broker_inv_def)
  then obtain evs' where "broker_steps re parse_sql b evs' b'" "registrations evs' \<le> m"
    using serves_within [OF run_serve.hyps(2)] unfolding runs_within_def by blast
  then show ?case using execution_steps evs by (metis add_mono registrations_simps(3))
qed

section \<open>Properties\<close>

text \<open>
  C1.  The whole server refines the broker: whatever a successful start-up has loaded from the VSS
  files, and whatever requests the three services then serve in whatever order, with clients coming
  and going, the state of the broker is the state of an execution of its transition system, in
  which there are no more registrations than start-up and the registering calls account for.  So as
  long as these are fewer than two to the power of 32 the database of the running server is
  well-formed, every stored value conforms to its data type, and every response sent to the
  subscriber of a query is typed as the query says.
\<close>

theorem server_refines_broker:
  assumes "server_run env re parse_sql n b" and "n < 2 ^ 32"
  shows "(\<exists>evs. execution re parse_sql evs \<lparr>sys_broker = b, sys_pending = []\<rparr> \<and> registrations evs \<le> n) \<and>
    db_wf (database b) \<and>
    (\<forall>path e. abs_db (database b) path = Some e \<longrightarrow>
       value_ok (md_data_type (e_metadata e)) (dp_value (e_datapoint e))) \<and>
    (\<forall>sub\<in>set (query_subscriptions (subscriptions b)). \<forall>r\<in>set (ch_sent (qs_sender sub)).
       response_ok (qs_query sub) r)"
proof -
  obtain evs where evs: "execution re parse_sql evs \<lparr>sys_broker = b, sys_pending = []\<rparr>" "registrations evs \<le> n"
    using server_run_execution [OF assms] by blast
  then have inv: "broker_inv b" using execution_inv [OF evs(1)] assms(2) by simp
  then have wf: "db_wf (database b)" by (simp add: broker_inv_def)
  have "entry_wf e" if "abs_db (database b) path = Some e" for path e
    using db_wf_entryD(2) [OF wf] abs_db_wf_path(3) [OF wf that] by blast
  then show ?thesis using evs wf inv by (auto simp: entry_wf_def broker_inv_def query_sub_ok_def)
qed

theorem server_refines_broker_witness:
  "\<exists>b b'. start example_env any_regex 1 (\<lambda>_ _. 1)
      \<lparr>bi_version = [], bi_git_version = [], bi_cargo_version = [], bi_commit_sha = []\<rparr> example_args =
      Ok (b, TLS_Disabled, Auth_Enabled (\<lambda>_. None)) \<and>
    b' = snd (sdv_register_datapoints any_regex 1 (Some ALLOW_ALL) b
      [\<lparr>rm_name = ''A'', rm_data_type = 0, rm_description = [], rm_change_type = 0\<rparr>]) \<and>
    db_wf (database b')"
proof -
  let ?info = "\<lparr>bi_version = [], bi_git_version = [], bi_cargo_version = [], bi_commit_sha = []\<rparr>"
  let ?ms = "[\<lparr>rm_name = ''A'', rm_data_type = 0, rm_description = [], rm_change_type = 0\<rparr>]"
  obtain b where b: "start example_env any_regex 1 (\<lambda>_ _. 1) ?info example_args = Ok (b, TLS_Disabled, Auth_Enabled (\<lambda>_. None))"
    by (simp add: start_def example_args_def example_env_def tls_config_def authorization_config_def
      new_authorization_def Let_def)
  have "start_size example_env example_args = 3" by (simp add: start_size_def example_args_def)
  then have "server_run example_env any_regex (\<lambda>_. None) (3 + length ?ms)
      (snd (sdv_register_datapoints any_regex 1 (Some ALLOW_ALL) b ?ms))"
    using run_serve [OF run_start [OF b] serve_sdv_register, of "\<lambda>_. None"] by metis
  then show ?thesis using server_refines_broker b by fastforce
qed

end
