(* ===== verification/Launch.thy ===== *)
theory Launch
  imports Server
begin

text \<open>
  The end of start-up (\<open>main.rs\<close>, \<open>grpc/server.rs\<close>, \<open>viss/server.rs\<close>): the addresses, the services the
  gRPC server offers and the interceptor in front of each, and the VISS server beside it.  The
  program hands the same broker and the same authorization to all of them.  Parsing an address,
  binding one (\<open>bind_grpc\<close>, \<open>bind_viss\<close>) and loading a certificate (\<open>tls_ok\<close>) are parameters.
\<close>

section \<open>The gRPC server\<close>

datatype grpc_service = Broker_Service | Collector_Service | Val_Service

record ('ip, 'b) grpc_server =
  gs_address :: "'ip \<times> u16"
  gs_broker :: DataBroker
  gs_tls :: "'b ServerTLS"
  gs_services :: "(grpc_service \<times> Authorization) list"

datatype LaunchError = Launch_Address | Launch_Start StartError | Launch_Bind | Launch_Tls

definition serve_with_incoming_shutdown ::
  "('b \<Rightarrow> 'b \<Rightarrow> bool) \<Rightarrow> 'ip \<times> u16 \<Rightarrow> DataBroker \<Rightarrow> 'b ServerTLS \<Rightarrow> Authorization \<Rightarrow>
   (('ip, 'b) grpc_server, LaunchError) result" where
  "serve_with_incoming_shutdown tls_ok addr broker server_tls authorization =
     (let server = \<lparr>gs_address = addr, gs_broker = broker, gs_tls = server_tls,
            gs_services = [(Broker_Service, authorization), (Collector_Service, authorization), (Val_Service, authorization)]\<rparr>
      in case server_tls of
           TLS_Enabled cert key \<Rightarrow> if tls_ok cert key then Ok server else Err Launch_Tls
         | TLS_Disabled \<Rightarrow> Ok server)"

definition grpc_serve ::
  "('ip \<times> u16 \<Rightarrow> bool) \<Rightarrow> ('b \<Rightarrow> 'b \<Rightarrow> bool) \<Rightarrow> 'ip \<times> u16 \<Rightarrow> DataBroker \<Rightarrow> 'b ServerTLS \<Rightarrow> Authorization \<Rightarrow>
   (('ip, 'b) grpc_server, LaunchError) result" where
  "grpc_serve bind_grpc tls_ok addr broker server_tls authorization =
     (if bind_grpc addr then serve_with_incoming_shutdown tls_ok addr broker server_tls authorization
      else Err Launch_Bind)"

text \<open>The permissions a request to a service carries; \<open>None\<close> if the server does not offer the service.\<close>

definition grpc_permissions ::
  "captures \<Rightarrow> regex_engine \<Rightarrow> ('h \<Rightarrow> string option) \<Rightarrow> ('ip, 'b) grpc_server \<Rightarrow> grpc_service \<Rightarrow> 'h option \<Rightarrow>
   (Permissions, AuthStatus) result option" where
  "grpc_permissions captures re to_str server service header =
     map_option (\<lambda>authorization. intercept captures re to_str authorization header) (map_of (gs_services server) service)"

record server_info =
  si_name :: string
  si_version :: string

definition get_version :: "DataBroker \<Rightarrow> string" where
  "get_version broker = version broker"

definition get_server_info :: "DataBroker \<Rightarrow> server_info" where
  "get_server_info broker = \<lparr>si_name = ''databroker'', si_version = get_version broker\<rparr>"

section \<open>The VISS server\<close>

record 'ip viss_server =
  vl_address :: "'ip \<times> u16"
  vl_broker :: DataBroker
  vl_authorization :: Authorization

definition viss_serve ::
  "('ip \<times> u16 \<Rightarrow> bool) \<Rightarrow> 'ip \<times> u16 \<Rightarrow> DataBroker \<Rightarrow> Authorization \<Rightarrow> ('ip viss_server, LaunchError) result" where
  "viss_serve bind_viss addr broker authorization =
     (if bind_viss addr then Ok \<lparr>vl_address = addr, vl_broker = broker, vl_authorization = authorization\<rparr>
      else Err Launch_Bind)"

section \<open>The program\<close>

record launch_arguments =
  la_address :: string
  la_port :: u16
  la_start :: arguments
  la_enable_viss :: bool
  la_viss_address :: string
  la_viss_port :: u16

record ('ip, 'b) launched =
  l_grpc :: "('ip, 'b) grpc_server"
  l_viss :: "'ip viss_server option"

record 'ip host =
  parse_ip :: "string \<Rightarrow> 'ip option"
  bind_grpc :: "'ip \<times> u16 \<Rightarrow> bool"
  bind_viss :: "'ip \<times> u16 \<Rightarrow> bool"

definition program ::
  "('s, 'j, 'b) environment \<Rightarrow> 'ip host \<Rightarrow> ('b \<Rightarrow> 'b \<Rightarrow> bool) \<Rightarrow> regex_engine \<Rightarrow> SystemTime \<Rightarrow> (string \<Rightarrow> string \<Rightarrow> SystemTime) \<Rightarrow>
   build_info \<Rightarrow> launch_arguments \<Rightarrow> (('ip, 'b) launched, LaunchError) result" where
  "program env host tls_ok re now clock info args =
     (case parse_ip host (la_address args) of
        None \<Rightarrow> Err Launch_Address
      | Some ip_addr \<Rightarrow>
          (let addr = (ip_addr, la_port args) in
           case start env re now clock info (la_start args) of
             Err err \<Rightarrow> Err (Launch_Start err)
           | Ok (broker, tls, authorization) \<Rightarrow>
               (let viss_addr = (ip_addr, la_viss_port args);
                    viss =
                      (if la_enable_viss args then
                         (case viss_serve (bind_viss host) viss_addr broker authorization of
                            Ok server \<Rightarrow> Some server
                          | Err _ \<Rightarrow> None)
                       else None)
                in result_map (\<lambda>grpc. \<lparr>l_grpc = grpc, l_viss = viss\<rparr>)
                     (grpc_serve (bind_grpc host) tls_ok addr broker tls authorization))))"

section \<open>Properties\<close>

lemma start_authorization:
  assumes "start env re now clock info args = Ok (broker, tls, authorization)"
  shows "tls_config env args = Ok tls" "authorization_config env args = Ok authorization"
  using assms by (auto simp: start_def Let_def result_bind_eq_Ok split: prod.splits result.splits)

lemma tls_config_Disabled:
  "tls_config env args = Ok tls \<Longrightarrow>
   tls = TLS_Disabled \<longleftrightarrow> arg_insecure args \<or> arg_tls_cert args = None \<and> arg_tls_private_key args = None"
  by (auto simp: tls_config_def split: option.splits if_splits)

lemma authorization_config_cases:
  assumes "authorization_config env args = Ok authorization"
  shows "if arg_disable_authorization args \<or> arg_jwt_public_key args = None then authorization = Auth_Disabled
    else (\<exists>file key decoder. arg_jwt_public_key args = Some file \<and> read_to_string env file = Some key \<and>
      new_decoder env key = Some decoder \<and> authorization = Auth_Enabled decoder)"
  using assms
  by (auto simp: authorization_config_def new_authorization_def Let_def result_bind_eq_Ok
      split: option.splits bool.splits if_splits)

lemma grpc_serve_Ok:
  assumes "grpc_serve bnd tls_ok addr broker tls authorization = Ok g"
  shows "g = \<lparr>gs_address = addr, gs_broker = broker, gs_tls = tls,
    gs_services = [(Broker_Service, authorization), (Collector_Service, authorization), (Val_Service, authorization)]\<rparr>"
  using assms by (cases tls) (auto simp: grpc_serve_def serve_with_incoming_shutdown_def Let_def split: if_splits)

lemma program_Ok:
  assumes "program env host tls_ok re now clock info args = Ok l"
  shows "\<exists>ip broker tls authorization.
    parse_ip host (la_address args) = Some ip \<and> start env re now clock info (la_start args) = Ok (broker, tls, authorization) \<and>
    l_grpc l = \<lparr>gs_address = (ip, la_port args), gs_broker = broker, gs_tls = tls,
      gs_services = [(Broker_Service, authorization), (Collector_Service, authorization), (Val_Service, authorization)]\<rparr> \<and>
    l_viss l =
      (if la_enable_viss args \<and> bind_viss host (ip, la_viss_port args)
       then Some \<lparr>vl_address = (ip, la_viss_port args), vl_broker = broker, vl_authorization = authorization\<rparr> else None)"
proof -
  obtain ip where ip: "parse_ip host (la_address args) = Some ip" using assms by (auto simp: program_def split: option.splits)
  obtain broker tls authorization where st: "start env re now clock info (la_start args) = Ok (broker, tls, authorization)"
    using assms ip by (cases "start env re now clock info (la_start args)") (auto simp: program_def Let_def)
  show ?thesis
    using assms ip st by (auto simp: program_def viss_serve_def Let_def result_map_eq_Ok dest!: grpc_serve_Ok)
qed

lemma step_version: "broker_step re parse_sql b ev b' \<Longrightarrow> version b' = version b"
  unfolding broker_step_def
  by (auto elim!: system_stepE simp: add_entry_def update_entries_def subscribe_def subscribe_query_def subscribe_register_def
      housekeeping_def shutdown_def hang_up_change_def hang_up_query_def Let_def
      split: prod.splits result.splits option.splits)

lemma runs_version: "runs_within re parse_sql n b b' \<Longrightarrow> version b' = version b"
proof -
  assume "runs_within re parse_sql n b b'"
  then obtain evs where "broker_steps re parse_sql b evs b'" by (auto simp: runs_within_def)
  then show ?thesis by (induction rule: broker_steps.induct) (auto dest: step_version)
qed

text \<open>The permissions come from a token that the decoder accepts.\<close>

definition token_permissions :: "captures \<Rightarrow> regex_engine \<Rightarrow> (string \<Rightarrow> Claims option) \<Rightarrow> string \<Rightarrow> Permissions \<Rightarrow> bool" where
  "token_permissions captures re decoder token ps \<longleftrightarrow>
     (\<exists>claims. decode_token decoder token = Ok claims \<and> permissions_try_from captures re claims = Ok ps)"

lemma intercept_token:
  "intercept captures re to_str (Auth_Enabled decoder) header = Ok ps \<longleftrightarrow>
   (\<exists>h token. header = Some h \<and> to_str h = Some (''Bearer '' @ token) \<and> token_permissions captures re decoder token ps)"
  by (auto simp: intercept_def token_permissions_def Let_def prefix_def result_eqs split: option.splits result.splits)

lemma resolve_token:
  "resolve_permissions captures re (Auth_Enabled decoder) token = Some (Ok ps) \<longleftrightarrow>
   (\<exists>t. token = Some t \<and> token_permissions captures re decoder t ps)"
  by (auto simp: resolve_permissions_def token_permissions_def split: option.splits result.splits JwtError.splits)

text \<open>
  C7.  What the program offers once it runs.  With a public key and authorization not disabled, every
  gRPC service and the VISS service give permissions to exactly the requests that carry a token which
  the decoder of that key accepts, and the permissions are those of the claims; otherwise every
  request has all permissions.  The gRPC server is without transport security exactly when that is
  waived or neither a certificate nor a key is given.  Both servers share one broker and listen on the address given for the
  gRPC server, whatever address is given for VISS.  At every later time of the run the server reports
  the version of the build.
\<close>

theorem launched_services_are_guarded:
  assumes "program env host tls_ok re now clock info args = Ok l"
  shows "(if arg_disable_authorization (la_start args) \<or> arg_jwt_public_key (la_start args) = None
      then (\<forall>service header. grpc_permissions captures re to_str (l_grpc l) service header = Some (Ok ALLOW_ALL)) \<and>
        (\<forall>v token. l_viss l = Some v \<longrightarrow> resolve_permissions captures re (vl_authorization v) token = Some (Ok ALLOW_ALL))
      else (\<exists>file key decoder. arg_jwt_public_key (la_start args) = Some file \<and> read_to_string env file = Some key \<and>
        new_decoder env key = Some decoder \<and>
        (\<forall>service header ps. grpc_permissions captures re to_str (l_grpc l) service header = Some (Ok ps) \<longleftrightarrow>
          (\<exists>h token. header = Some h \<and> to_str h = Some (''Bearer '' @ token) \<and> token_permissions captures re decoder token ps)) \<and>
        (\<forall>v token ps. l_viss l = Some v \<longrightarrow>
          resolve_permissions captures re (vl_authorization v) token = Some (Ok ps) \<longleftrightarrow>
            (\<exists>t. token = Some t \<and> token_permissions captures re decoder t ps)))) \<and>
    (\<exists>ip. parse_ip host (la_address args) = Some ip \<and> gs_address (l_grpc l) = (ip, la_port args) \<and>
      (\<forall>v. l_viss l = Some v \<longrightarrow> vl_address v = (ip, la_viss_port args) \<and> vl_broker v = gs_broker (l_grpc l))) \<and>
    (gs_tls (l_grpc l) = TLS_Disabled \<longleftrightarrow> arg_insecure (la_start args) \<or>
      arg_tls_cert (la_start args) = None \<and> arg_tls_private_key (la_start args) = None) \<and>
    program env host tls_ok re now clock info (args\<lparr>la_viss_address := other\<rparr>) = Ok l \<and>
    (runs_within re parse_sql n (gs_broker (l_grpc l)) b \<longrightarrow> get_server_info b = \<lparr>si_name = ''databroker'', si_version = bi_version info\<rparr>)"
proof -
  obtain ip broker tls authorization where l:
    "parse_ip host (la_address args) = Some ip" "start env re now clock info (la_start args) = Ok (broker, tls, authorization)"
    "l_grpc l = \<lparr>gs_address = (ip, la_port args), gs_broker = broker, gs_tls = tls,
      gs_services = [(Broker_Service, authorization), (Collector_Service, authorization), (Val_Service, authorization)]\<rparr>"
    "l_viss l = (if la_enable_viss args \<and> bind_viss host (ip, la_viss_port args)
       then Some \<lparr>vl_address = (ip, la_viss_port args), vl_broker = broker, vl_authorization = authorization\<rparr> else None)"
    using program_Ok [OF assms] by blast
  have svc: "grpc_permissions captures re to_str (l_grpc l) service header = Some (intercept captures re to_str authorization header)"
    for service header by (cases service) (simp_all add: grpc_permissions_def l(3))
  have viss: "l_viss l = Some v \<Longrightarrow> vl_authorization v = authorization" for v using l(4) by (auto split: if_splits)
  have "version broker = bi_version info"
    using runs_version [OF start_within [OF l(2)]] by (simp add: new_broker_def)
  then have "runs_within re parse_sql n (gs_broker (l_grpc l)) b \<longrightarrow> get_server_info b = \<lparr>si_name = ''databroker'', si_version = bi_version info\<rparr>"
    using runs_version [of re parse_sql n broker b] by (simp add: get_server_info_def get_version_def l(3))
  moreover have "gs_tls (l_grpc l) = TLS_Disabled \<longleftrightarrow> arg_insecure (la_start args) \<or>
      arg_tls_cert (la_start args) = None \<and> arg_tls_private_key (la_start args) = None"
    using tls_config_Disabled [OF start_authorization(1) [OF l(2)]] l(3) by simp
  moreover have "program env host tls_ok re now clock info (args\<lparr>la_viss_address := other\<rparr>) = Ok l"
    using assms by (simp add: program_def Let_def l(1,2))
  moreover have "\<exists>ip. parse_ip host (la_address args) = Some ip \<and> gs_address (l_grpc l) = (ip, la_port args) \<and>
      (\<forall>v. l_viss l = Some v \<longrightarrow> vl_address v = (ip, la_viss_port args) \<and> vl_broker v = gs_broker (l_grpc l))"
    using l(1,3,4) by auto
  ultimately show ?thesis
    using authorization_config_cases [OF start_authorization(2) [OF l(2)]] viss svc
    by (auto simp: intercept_token resolve_token intercept_def [of _ _ _ Auth_Disabled] resolve_permissions_def [of _ _ Auth_Disabled]
        split: if_splits)
qed

definition example_host :: "nat host" where
  "example_host = \<lparr>parse_ip = (\<lambda>t. if t = ''127.0.0.1'' then Some 1 else None), bind_grpc = (\<lambda>_. True), bind_viss = (\<lambda>_. True)\<rparr>"

definition example_launch :: launch_arguments where
  "example_launch = \<lparr>la_address = ''127.0.0.1'', la_port = 55555, la_start = example_args, la_enable_viss = True,
     la_viss_address = ''0.0.0.0'', la_viss_port = 8090\<rparr>"

theorem launched_services_are_guarded_witness:
  "\<exists>l. program example_env example_host (\<lambda>_ _. True) any_regex 1 (\<lambda>_ _. 1)
      \<lparr>bi_version = ''0.4'', bi_git_version = [], bi_cargo_version = [], bi_commit_sha = []\<rparr> example_launch = Ok l \<and>
    (\<exists>v. l_viss l = Some v \<and> vl_address v = (1, 8090) \<and>
      resolve_permissions example_captures any_regex (vl_authorization v) None \<noteq> Some (Ok ALLOW_ALL)) \<and>
    grpc_permissions example_captures any_regex Some (l_grpc l) Val_Service None \<noteq> Some (Ok ALLOW_ALL)"
proof -
  let ?info = "\<lparr>bi_version = ''0.4'', bi_git_version = [], bi_cargo_version = [], bi_commit_sha = []\<rparr>"
  obtain b where b: "start example_env any_regex 1 (\<lambda>_ _. 1) ?info example_args = Ok (b, TLS_Disabled, Auth_Enabled (\<lambda>_. None))"
    by (simp add: start_def example_args_def example_env_def tls_config_def authorization_config_def new_authorization_def Let_def)
  then obtain l where l: "program example_env example_host (\<lambda>_ _. True) any_regex 1 (\<lambda>_ _. 1) ?info example_launch = Ok l"
    "\<exists>v. l_viss l = Some v"
    by (simp add: program_def example_launch_def example_host_def grpc_serve_def serve_with_incoming_shutdown_def viss_serve_def Let_def)
  have open_args: "\<not> (arg_disable_authorization (la_start example_launch) \<or> arg_jwt_public_key (la_start example_launch) = None)"
    "parse_ip example_host (la_address example_launch) = Some 1" "la_viss_port example_launch = 8090"
    by (simp_all add: example_launch_def example_args_def example_host_def)
  obtain v where v: "l_viss l = Some v" using l(2) by blast
  show ?thesis
    using launched_services_are_guarded [OF l(1), of example_captures Some "[]" "\<lambda>_. None" 0 b] l(1) v open_args
    by auto
qed

end
