(* ===== verification/GlobMeaning.thy ===== *)
theory GlobMeaning
  imports Authorization Paths
begin

text \<open>
  What the patterns made by \<open>glob.rs\<close> mean.  \<open>to_regex_string\<close> only produces sequences of seven
  kinds of items between anchors; \<open>glob_regex_spec\<close> states what the documentation of the crate
  \<open>regex\<close> says such a sequence matches, and \<open>glob_engine\<close> is an engine that satisfies it.  From it
  follows the meaning of a glob in terms of the components of a path, and with the grammar of
  scopes what a token grants.
\<close>

section \<open>The items of a pattern\<close>

datatype rx_item = RLit char | RSep | RWord | RTree | RSome | RAny | RBlend

definition esc_dot :: string where
  "esc_dot = [CHR 0x5C, CHR ''.'']"

definition word_class :: string where
  "word_class = ''[^.'' @ [CHR 0x5C] @ ''s'' @ [CHR 0x5C] @ '':]+''"

fun item_text :: "rx_item \<Rightarrow> string" where
  "item_text (RLit c) = [c]"
| "item_text RSep = esc_dot"
| "item_text RWord = word_class"
| "item_text RTree = ''(?:'' @ esc_dot @ ''.+)?''"
| "item_text RSome = ''.+''"
| "item_text RAny = ''.*''"
| "item_text RBlend = ''['' @ esc_dot @ word_class @ '']*''"

abbreviation rx_text :: "rx_item list \<Rightarrow> string" where
  "rx_text items \<equiv> concat (map item_text items)"

definition word_char :: "char \<Rightarrow> bool" where
  "word_char c \<longleftrightarrow> c \<noteq> CHR ''.'' \<and> c \<noteq> CHR '':'' \<and> \<not> is_whitespace c"

text \<open>A dot matches every character but a line feed.\<close>

definition not_newline :: "char \<Rightarrow> bool" where
  "not_newline c \<longleftrightarrow> c \<noteq> CHR 0x0A"

fun item_ok :: "rx_item \<Rightarrow> string \<Rightarrow> bool" where
  "item_ok (RLit c) u = (u = [c])"
| "item_ok RSep u = (u = ''.'')"
| "item_ok RWord u = (u \<noteq> [] \<and> list_all word_char u)"
| "item_ok RTree u = (u = [] \<or> hd u = CHR ''.'' \<and> tl u \<noteq> [] \<and> list_all not_newline (tl u))"
| "item_ok RSome u = (u \<noteq> [] \<and> list_all not_newline u)"
| "item_ok RAny u = list_all not_newline u"
| "item_ok RBlend u = list_all (\<lambda>c. c = CHR ''.'' \<or> word_char c) u"

fun rx_match :: "rx_item list \<Rightarrow> string \<Rightarrow> bool" where
  "rx_match [] s = (s = [])"
| "rx_match (i # items) s =
     list_ex (\<lambda>n. item_ok i (take n s) \<and> rx_match items (drop n s)) [0..<Suc (length s)]"

lemma rx_match_Cons: "rx_match (i # items) s \<longleftrightarrow> (\<exists>u v. s = u @ v \<and> item_ok i u \<and> rx_match items v)"
proof
  assume "rx_match (i # items) s"
  then obtain n where "item_ok i (take n s) \<and> rx_match items (drop n s)"
    by (auto simp: list_ex_iff simp del: upt_Suc)
  then show "\<exists>u v. s = u @ v \<and> item_ok i u \<and> rx_match items v" by (metis append_take_drop_id)
next
  assume "\<exists>u v. s = u @ v \<and> item_ok i u \<and> rx_match items v"
  then obtain u v where s: "s = u @ v" and m: "item_ok i u \<and> rx_match items v" by blast
  have "item_ok i (take (length u) s) \<and> rx_match items (drop (length u) s)" using s m by simp
  moreover have "length u \<in> set [0..<Suc (length s)]" using s by auto
  ultimately show "rx_match (i # items) s" by (auto simp: list_ex_iff simp del: upt_Suc)
qed

declare rx_match.simps(2) [simp del]

text \<open>Characters that stand for themselves in a pattern.\<close>

definition lit_char :: "char \<Rightarrow> bool" where
  "lit_char c \<longleftrightarrow> (let n = (of_char c :: nat) in
     48 \<le> n \<and> n \<le> 57 \<or> 65 \<le> n \<and> n \<le> 90 \<or> 97 \<le> n \<and> n \<le> 122 \<or> n = 95)"

fun simple_item :: "rx_item \<Rightarrow> bool" where
  "simple_item (RLit c) = lit_char c"
| "simple_item _ = True"

definition glob_regex_spec :: "regex_engine \<Rightarrow> bool" where
  "glob_regex_spec re \<longleftrightarrow>
     (\<forall>items. list_all simple_item items \<longrightarrow> re (''^'' @ rx_text items @ ''$'') = Some (rx_match items)) \<and>
     re NUL = Some (\<lambda>s. CHR 0x00 \<in> set s)"

text \<open>
  An anchor alone, and an anchor repeated any number of times before the end, match every text.
\<close>

definition match_all_spec :: "regex_engine \<Rightarrow> bool" where
  "match_all_spec re \<longleftrightarrow> re ''^'' = Some (\<lambda>_. True) \<and> re ''^**$'' = Some (\<lambda>_. True)"

lemma lit_charD:
  assumes "lit_char c"
  shows "c \<noteq> CHR ''.''" "c \<noteq> CHR ''*''" "c \<noteq> CHR 0x5C" "c \<noteq> CHR ''[''" "c \<noteq> CHR ''(''" "c \<noteq> CHR ''$''"
  using assms by (auto simp: lit_char_def)

subsection \<open>An engine for these patterns\<close>

abbreviation fixed_items :: "rx_item list" where
  "fixed_items \<equiv> [RSep, RWord, RTree, RSome, RAny, RBlend]"

function parse_items :: "string \<Rightarrow> rx_item list option" where
  "parse_items s =
     (if s = ''$'' then Some []
      else case find (\<lambda>i. prefix (item_text i) s) fixed_items of
             Some i \<Rightarrow> map_option (Cons i) (parse_items (drop (length (item_text i)) s))
           | None \<Rightarrow> (case s of [] \<Rightarrow> None | c # cs \<Rightarrow> map_option (Cons (RLit c)) (parse_items cs)))"
  by pat_completeness auto

termination parse_items
proof (relation "measure length")
  fix s i
  assume "find (\<lambda>i. prefix (item_text i) s) fixed_items = Some i"
  then have "prefix (item_text i) s" unfolding find_Some_iff by blast
  moreover have "item_text i \<noteq> []" by (cases i) (auto simp: esc_dot_def word_class_def)
  ultimately show "(drop (length (item_text i)) s, s) \<in> measure length"
    by (auto simp: prefix_def)
qed auto

declare parse_items.simps [simp del]

lemma parse_items_fixed:
  assumes "find (\<lambda>j. prefix (item_text j) (item_text i @ s)) fixed_items = Some i"
    and "item_text i @ s \<noteq> ''$''"
  shows "parse_items (item_text i @ s) = map_option (Cons i) (parse_items s)"
  using assms by (simp add: parse_items.simps [of "item_text i @ s"] del: find.simps)

lemma parse_items_text:
  "list_all simple_item items \<Longrightarrow> parse_items (rx_text items @ ''$'') = Some items"
proof (induction items)
  case Nil
  then show ?case by (simp add: parse_items.simps)
next
  case (Cons i items)
  show ?case
  proof (cases i)
    case (RLit c)
    then show ?thesis using Cons lit_charD [of c]
      by (simp add: parse_items.simps [of "c # (rx_text items @ ''$'')"] esc_dot_def word_class_def)
  qed (use Cons parse_items_fixed [of i "rx_text items @ ''$''"] in
    \<open>simp_all add: esc_dot_def word_class_def\<close>)
qed

definition glob_engine :: regex_engine where
  "glob_engine p =
     (if p = NUL then Some (\<lambda>s. CHR 0x00 \<in> set s)
      else if p = ''^'' \<or> p = ''^**$'' then Some (\<lambda>_. True)
      else if p \<noteq> [] \<and> hd p = CHR ''^'' then map_option rx_match (parse_items (tl p))
      else None)"

lemma glob_engine_spec: "glob_regex_spec glob_engine"
proof -
  have "parse_items ''**$'' = Some [RLit CHR ''*'', RLit CHR ''*'']"
    by (simp add: parse_items.simps esc_dot_def word_class_def)
  then have "rx_text items @ ''$'' \<noteq> ''**$''" if "list_all simple_item items" for items
    using parse_items_text [OF that] that lit_charD(2) by (metis list.pred_inject(2) option.inject simple_item.simps(1))
  then show ?thesis by (auto simp: glob_regex_spec_def glob_engine_def parse_items_text NUL_def)
qed

lemma glob_engine_match_all: "match_all_spec glob_engine"
  by (simp add: match_all_spec_def glob_engine_def NUL_def)

section \<open>The textual replacements\<close>

text \<open>
  A glob as a list of pieces, each an asterisk or a word, and the pieces joined by escaped dots.
\<close>

definition is_piece :: "string \<Rightarrow> bool" where
  "is_piece p \<longleftrightarrow> p = ''*'' \<or> p \<noteq> [] \<and> list_all lit_char p"

fun esc_join :: "string list \<Rightarrow> string" where
  "esc_join [] = []"
| "esc_join [p] = p"
| "esc_join (p # ps) = p @ esc_dot @ esc_join ps"

definition star :: "string \<Rightarrow> string" where
  "star p = (if p = ''*'' then word_class else p)"

lemma esc_join_Cons: "ps \<noteq> [] \<Longrightarrow> esc_join (p # ps) = p @ esc_dot @ esc_join ps"
  by (cases ps) auto

lemma join_dots_Cons: "ps \<noteq> [] \<Longrightarrow> join_dots (p # ps) = p @ CHR ''.'' # join_dots ps"
  by (cases ps) auto

lemma join_dots_append:
  "ps \<noteq> [] \<Longrightarrow> qs \<noteq> [] \<Longrightarrow> join_dots (ps @ qs) = join_dots ps @ CHR ''.'' # join_dots qs"
  by (induction ps rule: join_dots.induct) (auto simp: join_dots_Cons)

lemma str_replace_skip:
  "hd pat \<notin> set u \<Longrightarrow> str_replace pat rep (u @ v) = u @ str_replace pat rep v"
  by (cases pat; induction u) auto

lemma str_replace_none: "hd pat \<notin> set u \<Longrightarrow> str_replace pat rep u = u"
  using str_replace_skip [of pat u rep "[]"] by simp

lemma str_replace_match:
  "pat \<noteq> [] \<Longrightarrow> str_replace pat rep (pat @ v) = rep @ str_replace pat rep v"
  by (cases pat) auto

lemma str_replace_dots:
  assumes "\<forall>p\<in>set ps. CHR ''.'' \<notin> set p"
  shows "str_replace ''.'' esc_dot (join_dots ps) = esc_join ps"
  using assms
proof (induction ps rule: join_dots.induct)
  case (3 p q ps)
  then show ?case
    using str_replace_skip [of "''.''" p esc_dot "CHR ''.'' # join_dots (q # ps)"] by simp
qed (auto intro: str_replace_none)

lemma lit_not_in: "list_all lit_char p \<Longrightarrow> \<not> lit_char c \<Longrightarrow> c \<notin> set p"
  by (auto simp: list_all_iff)

lemma not_lit [simp]:
  "\<not> lit_char CHR ''.''" "\<not> lit_char CHR ''*''" "\<not> lit_char CHR 0x5C"
  using lit_charD by blast+

text \<open>Replacing an asterisk before a dot reaches every piece but the last.\<close>

lemma replace_init:
  assumes "\<forall>p\<in>set ps. p = ''*'' \<or> CHR ''*'' \<notin> set p" and "q = ''**'' \<or> q = ''*'' \<or> CHR ''*'' \<notin> set q"
  shows "str_replace (''*'' @ esc_dot) (word_class @ esc_dot) (esc_join (ps @ [q])) = esc_join (map star ps @ [q])"
  using assms(1)
proof (induction ps)
  case Nil
  then show ?case using assms(2) by (auto simp: esc_dot_def intro: str_replace_none)
next
  case (Cons p ps)
  let ?r = "str_replace (''*'' @ esc_dot) (word_class @ esc_dot)"
  have skip: "?r (esc_dot @ s) = esc_dot @ ?r s" for s
    by (rule str_replace_skip) (simp add: esc_dot_def)
  have "?r (p @ esc_dot @ s) = star p @ esc_dot @ ?r s" for s
  proof (cases "p = ''*''")
    case True
    then show ?thesis
      using str_replace_match [of "''*'' @ esc_dot" "word_class @ esc_dot" s]
      by (simp only: star_def append_assoc) (simp add: esc_dot_def)
  next
    case False
    then have "CHR ''*'' \<notin> set p" using Cons by simp
    then show ?thesis
      using False str_replace_skip [of "''*'' @ esc_dot" p "word_class @ esc_dot" "esc_dot @ s"] skip
      by (simp add: star_def)
  qed
  then show ?case using Cons by (simp add: esc_join_Cons)
qed

text \<open>
  Replacing an asterisk after a dot reaches every piece but the first, replacing a double asterisk none
  of them.
\<close>

definition passes :: "string \<Rightarrow> string \<Rightarrow> bool" where
  "passes pat p \<longleftrightarrow> (\<forall>rep s. str_replace pat rep (p @ s) = p @ str_replace pat rep s)"

definition inert :: "string \<Rightarrow> bool" where
  "inert p \<longleftrightarrow> p \<noteq> [] \<and> (p = ''*'' \<or> hd p \<noteq> CHR ''*'') \<and> passes (esc_dot @ ''*'') p \<and> passes (esc_dot @ ''**'') p"

lemma inertI: "p \<noteq> [] \<Longrightarrow> p = ''*'' \<or> hd p \<noteq> CHR ''*'' \<Longrightarrow> CHR 0x5C \<notin> set p \<Longrightarrow> inert p"
  using str_replace_skip [of "esc_dot @ _" p] by (simp add: inert_def passes_def esc_dot_def)

lemma inert_simps [simp]: "inert ''*''" "inert ''.+''" "inert ''.*''" "inert word_class"
  by (simp_all add: inertI) (simp add: inert_def passes_def word_class_def esc_dot_def)

lemma replace_inert:
  "inert p \<Longrightarrow> str_replace (esc_dot @ ''*'') rep (p @ s) = p @ str_replace (esc_dot @ ''*'') rep s"
  by (simp add: inert_def passes_def)

lemma replace_after_dot:
  assumes "inert p"
  shows "str_replace (esc_dot @ ''*'') (esc_dot @ word_class) (esc_dot @ p @ s) =
    esc_dot @ star p @ str_replace (esc_dot @ ''*'') (esc_dot @ word_class) s"
proof (cases "p = ''*''")
  case True
  then show ?thesis
    using str_replace_match [of "esc_dot @ ''*''" "esc_dot @ word_class" s]
    by (simp only: star_def append_assoc) (simp add: esc_dot_def)
next
  case False
  then obtain c cs where p: "p = c # cs" "c \<noteq> CHR ''*''"
    using assms by (cases p) (auto simp: inert_def)
  then have "str_replace (esc_dot @ ''*'') r (esc_dot @ p @ s) = esc_dot @ str_replace (esc_dot @ ''*'') r (p @ s)" for r
    by (simp add: esc_dot_def)
  then show ?thesis using False replace_inert [OF assms] by (simp add: star_def)
qed

lemma replace_dot_tail:
  assumes "\<forall>p\<in>set qs. inert p" and "qs \<noteq> []"
  shows "str_replace (esc_dot @ ''*'') (esc_dot @ word_class) (esc_dot @ esc_join qs @ s) =
    esc_dot @ esc_join (map star qs) @ str_replace (esc_dot @ ''*'') (esc_dot @ word_class) s"
  using assms
proof (induction qs rule: esc_join.induct)
  case (3 p q qs)
  then show ?case using replace_after_dot [of p "esc_dot @ esc_join (q # qs) @ s"] by simp
qed (simp_all add: replace_after_dot)

lemma replace_tail:
  assumes "\<forall>p\<in>set ps. inert p" and "ps \<noteq> []"
  shows "str_replace (esc_dot @ ''*'') (esc_dot @ word_class) (esc_join ps @ s) =
    esc_join (hd ps # map star (tl ps)) @ str_replace (esc_dot @ ''*'') (esc_dot @ word_class) s"
proof -
  obtain p qs where ps: "ps = p # qs" using assms(2) by (cases ps) auto
  show ?thesis
  proof (cases "qs = []")
    case True
    then show ?thesis using ps assms(1) replace_inert by simp
  next
    case False
    then show ?thesis using ps assms(1) replace_dot_tail [of qs s] replace_inert [of p _ "esc_dot @ esc_join qs @ s"]
      by (simp add: esc_join_Cons)
  qed
qed

text \<open>A double asterisk that follows does not touch what is before it.\<close>

lemma double_after_dot:
  assumes "inert p" and "s = [] \<or> hd s \<noteq> CHR ''*''"
  shows "str_replace (esc_dot @ ''**'') rep (esc_dot @ p @ s) = esc_dot @ p @ str_replace (esc_dot @ ''**'') rep s"
proof -
  have "str_replace (esc_dot @ ''**'') rep (esc_dot @ p @ s) = esc_dot @ str_replace (esc_dot @ ''**'') rep (p @ s)"
  proof (cases "p = ''*''")
    case True
    then show ?thesis using assms(2) by (cases s) (auto simp: esc_dot_def)
  next
    case False
    then show ?thesis using assms(1) by (cases p) (auto simp: inert_def esc_dot_def)
  qed
  then show ?thesis using assms(1) by (simp add: inert_def passes_def)
qed

lemma double_dot_tail:
  assumes "\<forall>p\<in>set qs. inert p" and "qs \<noteq> []" and "s = [] \<or> hd s \<noteq> CHR ''*''"
  shows "str_replace (esc_dot @ ''**'') rep (esc_dot @ esc_join qs @ s) = esc_dot @ esc_join qs @ str_replace (esc_dot @ ''**'') rep s"
  using assms(1,2)
proof (induction qs rule: esc_join.induct)
  case (3 p q qs)
  have "str_replace (esc_dot @ ''**'') rep (esc_dot @ p @ esc_dot @ t) = esc_dot @ p @ str_replace (esc_dot @ ''**'') rep (esc_dot @ t)" for t
    using 3 by (intro double_after_dot) (simp_all add: esc_dot_def)
  then show ?case using 3 by simp
qed (use double_after_dot assms(3) in simp_all)

lemma double_tail:
  assumes "\<forall>p\<in>set ps. inert p" and "ps \<noteq> []" and "s = [] \<or> hd s \<noteq> CHR ''*''"
  shows "str_replace (esc_dot @ ''**'') rep (esc_join ps @ s) = esc_join ps @ str_replace (esc_dot @ ''**'') rep s"
proof -
  obtain p qs where ps: "ps = p # qs" using assms(2) by (cases ps) auto
  have pass: "str_replace (esc_dot @ ''**'') rep (p @ t) = p @ str_replace (esc_dot @ ''**'') rep t" for t
    using assms(1) ps by (simp add: inert_def passes_def)
  show ?thesis
  proof (cases "qs = []")
    case True
    then show ?thesis using ps pass by simp
  next
    case False
    then show ?thesis using ps pass assms double_dot_tail [of qs s rep] by (simp add: esc_join_Cons)
  qed
qed

text \<open>A leading double asterisk is the only one that a dot follows.\<close>

lemma replace_leading:
  assumes "\<forall>p\<in>set ps. p = ''*'' \<or> CHR ''*'' \<notin> set p" and "q = ''**'' \<or> q = ''*'' \<or> CHR ''*'' \<notin> set q"
  shows "str_replace (''**'' @ esc_dot) rep (esc_join (ps @ [q])) = esc_join (ps @ [q])"
  using assms(1)
proof (induction ps)
  case Nil
  then show ?case using assms(2) by (auto simp: esc_dot_def intro: str_replace_none)
next
  case (Cons p ps)
  have skip: "str_replace (''**'' @ esc_dot) rep (esc_dot @ s) = esc_dot @ str_replace (''**'' @ esc_dot) rep s" for s
    by (rule str_replace_skip) (simp add: esc_dot_def)
  have "str_replace (''**'' @ esc_dot) rep (p @ esc_dot @ s) = p @ str_replace (''**'' @ esc_dot) rep (esc_dot @ s)" for s
  proof (cases "p = ''*''")
    case True
    then show ?thesis by (simp add: esc_dot_def)
  next
    case False
    then show ?thesis using Cons.prems by (intro str_replace_skip) simp
  qed
  then show ?case using Cons skip by (simp add: esc_join_Cons)
qed

subsection \<open>Which replacements apply\<close>

definition replace_start :: "string \<Rightarrow> string \<Rightarrow> string" where
  "replace_start g s =
     (if prefix ''**.'' g then str_replace (''**'' @ esc_dot) (''.+'' @ esc_dot) s
      else if prefix ''*.'' g then str_replace (''*'' @ esc_dot) (word_class @ esc_dot) s
      else s)"

definition replace_end :: "string \<Rightarrow> string \<Rightarrow> string" where
  "replace_end g s =
     (if suffix ''.*'' g then str_replace (esc_dot @ ''*'') (esc_dot @ word_class) s
      else if suffix ''.**'' g then str_replace (esc_dot @ ''**'') (esc_dot @ ''.*'') s
      else s)"

definition replace_double :: "string \<Rightarrow> string \<Rightarrow> string" where
  "replace_double g s =
     (if str_contains g ''.**.'' then str_replace (esc_dot @ ''**'') (item_text RBlend) s else s)"

definition replace_single :: "string \<Rightarrow> string \<Rightarrow> string" where
  "replace_single g s =
     (if str_contains g ''.*.'' then str_replace (esc_dot @ ''*'') (esc_dot @ word_class) s else s)"

lemma to_regex_string_wild:
  assumes "str_contains g ''*''" and "g \<noteq> ''*''"
  shows "to_regex_string g =
    ''^'' @ replace_single g (replace_double g (replace_end g (replace_start g (str_replace ''.'' esc_dot g)))) @ ''$''"
proof -
  have "g \<noteq> []" using assms(1) by (auto simp: str_contains_def)
  then show ?thesis using assms
    by (simp add: to_regex_string_def replace_start_def replace_end_def replace_double_def
        replace_single_def esc_dot_def word_class_def Let_def)
qed

lemma is_pieceD: "is_piece p \<Longrightarrow> p \<noteq> [] \<and> CHR ''.'' \<notin> set p \<and> (p = ''*'' \<or> CHR ''*'' \<notin> set p)"
  using lit_not_in by (auto simp: is_piece_def)

lemma piece_inert: "is_piece p \<Longrightarrow> inert p"
  using lit_not_in [of p "CHR 0x5C"] lit_charD(2) by (cases p) (auto simp: is_piece_def intro!: inertI)

lemma star_inert: "inert p \<Longrightarrow> inert (star p)"
  by (simp add: star_def)

lemma str_contains_char: "str_contains s [c] \<longleftrightarrow> c \<in> set s"
  by (auto simp: str_contains_def sublist_def in_set_conv_decomp)

lemma in_join: "t \<in> set ts \<Longrightarrow> set t \<subseteq> set (join_dots ts)"
  by (induction ts rule: join_dots.induct) auto

lemma star_in_join:
  "\<forall>p\<in>set ps. is_piece p \<Longrightarrow> CHR ''*'' \<in> set (join_dots ps) \<longleftrightarrow> ''*'' \<in> set ps"
  by (induction ps rule: join_dots.induct) (auto dest!: is_pieceD)

text \<open>Which replacements apply shows in the components of a glob.\<close>

lemma components_append: "components (u @ CHR ''.'' # v) = components u @ components v"
proof (induction "length u" arbitrary: u rule: less_induct)
  case less
  show ?case
  proof (cases "CHR ''.'' \<in> set u")
    case True
    then obtain k r where u: "u = k @ CHR ''.'' # r" "CHR ''.'' \<notin> set k" using split_list_first by fast
    then show ?thesis using less [of r] components_dot [OF u(2)] by simp
  qed (simp add: components_dot components_leaf)
qed

lemma components_join:
  "\<forall>t\<in>set ts. CHR ''.'' \<notin> set t \<Longrightarrow> ts \<noteq> [] \<Longrightarrow> components (join_dots ts) = ts"
  by (induction ts rule: join_dots.induct) (auto simp: components_leaf components_dot)

lemma glob_conditions:
  assumes ts: "\<forall>t\<in>set ts. CHR ''.'' \<notin> set t" "ts \<noteq> []" and w: "CHR ''.'' \<notin> set w"
  shows "prefix (w @ ''.'') (join_dots ts) \<longleftrightarrow> tl ts \<noteq> [] \<and> hd ts = w"
    and "suffix (''.'' @ w) (join_dots ts) \<longleftrightarrow> butlast ts \<noteq> [] \<and> last ts = w"
    and "str_contains (join_dots ts) (''.'' @ w @ ''.'') \<longleftrightarrow> w \<in> set (butlast (tl ts))"
proof -
  note id = components_join [OF ts]
  show "prefix (w @ ''.'') (join_dots ts) \<longleftrightarrow> tl ts \<noteq> [] \<and> hd ts = w"
  proof
    assume "prefix (w @ ''.'') (join_dots ts)"
    then obtain v where "join_dots ts = w @ CHR ''.'' # v" by (auto simp: prefix_def)
    then show "tl ts \<noteq> [] \<and> hd ts = w" using id components_dot [OF w, of v] by (metis components_not_Nil list.sel)
  next
    assume "tl ts \<noteq> [] \<and> hd ts = w"
    then show "prefix (w @ ''.'') (join_dots ts)" by (cases ts) (auto simp: join_dots_Cons prefix_def)
  qed
  show "suffix (''.'' @ w) (join_dots ts) \<longleftrightarrow> butlast ts \<noteq> [] \<and> last ts = w"
  proof
    assume "suffix (''.'' @ w) (join_dots ts)"
    then obtain v where "join_dots ts = v @ CHR ''.'' # w" by (auto simp: suffix_def)
    then have "ts = components v @ [w]" using id components_append [of v w] components_leaf [OF w] by simp
    then show "butlast ts \<noteq> [] \<and> last ts = w" by simp
  next
    assume "butlast ts \<noteq> [] \<and> last ts = w"
    then show "suffix (''.'' @ w) (join_dots ts)"
      using join_dots_append [of "butlast ts" "[w]"] ts(2) by (auto simp: suffix_def append_butlast_last_id)
  qed
  show "str_contains (join_dots ts) (''.'' @ w @ ''.'') \<longleftrightarrow> w \<in> set (butlast (tl ts))"
  proof
    assume "str_contains (join_dots ts) (''.'' @ w @ ''.'')"
    then obtain u v where "join_dots ts = u @ CHR ''.'' # w @ CHR ''.'' # v" by (auto simp: str_contains_def sublist_def)
    then have "ts = components u @ w # components v" using id components_append [of u] components_dot [OF w] by simp
    then show "w \<in> set (butlast (tl ts))" by (simp add: butlast_append)
  next
    assume inner: "w \<in> set (butlast (tl ts))"
    then obtain xs ys where "butlast (tl ts) = xs @ w # ys" by (auto simp: in_set_conv_decomp)
    moreover have "tl ts \<noteq> []" using inner by auto
    then have "ts = hd ts # butlast (tl ts) @ [last (tl ts)]" using ts(2) by simp
    ultimately have "ts = (hd ts # xs) @ w # (ys @ [last (tl ts)])" by simp
    then have "join_dots ts = join_dots (hd ts # xs) @ (''.'' @ w @ ''.'') @ join_dots (ys @ [last (tl ts)])"
      by (metis (no_types, lifting) append_Cons append_Nil append_assoc append_is_Nil_conv join_dots_Cons join_dots_append list.distinct(1))
    then show "str_contains (join_dots ts) (''.'' @ w @ ''.'')" unfolding str_contains_def by (metis sublist_appendI)
  qed
qed

lemma star_star [simp]: "star (star p) = star p"
  by (simp add: star_def word_class_def)

lemma star_id: "p \<noteq> ''*'' \<Longrightarrow> star p = p"
  by (simp add: star_def)

lemma to_regex_string_plain:
  assumes "\<forall>p\<in>set ps. is_piece p" and "ps \<noteq> []" and "''*'' \<notin> set ps"
  shows "to_regex_string (join_dots ps) = ''^'' @ esc_join ps @ item_text RTree @ ''$''"
proof -
  have "CHR ''*'' \<notin> set (join_dots ps)" using star_in_join [OF assms(1)] assms(3) by simp
  moreover have "join_dots ps \<noteq> []" using assms is_pieceD by (cases ps rule: join_dots.cases) auto
  moreover have "str_replace ''.'' esc_dot (join_dots ps) = esc_join ps"
    using str_replace_dots is_pieceD assms(1) by blast
  ultimately show ?thesis
    by (auto simp: to_regex_string_def Let_def str_contains_char esc_dot_def)
qed

lemma star_simps [simp]: "star ''.+'' = ''.+''" "star ''.*'' = ''.*''" "star ''*'' = word_class"
  by (simp_all add: star_def)

lemma map_star_id: "''*'' \<notin> set ps \<Longrightarrow> map star ps = ps"
  using star_id by (metis map_idI)

lemma esc_join_append: "ps \<noteq> [] \<Longrightarrow> qs \<noteq> [] \<Longrightarrow> esc_join (ps @ qs) = esc_join ps @ esc_dot @ esc_join qs"
  by (induction ps rule: esc_join.induct) (auto simp: esc_join_Cons)

text \<open>
  Globs with single asterisks anywhere, and a double asterisk at the beginning (\<open>a\<close>), at the end (\<open>b\<close>) or both.
\<close>

abbreviation leading :: "bool \<Rightarrow> 'a \<Rightarrow> 'a list" where
  "leading a x \<equiv> (if a then [x] else [])"

lemma stars_replaced:
  assumes "ps \<noteq> []" and "a \<or> b \<or> ps \<noteq> [''*'']" and "a \<or> b \<or> ''*'' \<in> set ps"
    and "ps1 = (if \<not> a \<and> hd ps = ''*'' then if b then map star ps else map star (butlast ps) @ [last ps] else ps)"
    and "ps2 = (if \<not> b \<and> last ps = ''*'' then if a then map star ps1 else hd ps1 # map star (tl ps1) else ps1)"
    and "l = leading a ''.+'' @ ps2 @ leading b ''.*''"
  shows "(if ''*'' \<in> set (butlast (tl (leading a ''**'' @ ps @ leading b ''**''))) then hd l # map star (tl l) else l) =
    leading a ''.+'' @ map star ps @ leading b ''.*''"
proof -
  obtain p r where ps: "ps = p # r" using assms(1) by (cases ps) auto
  have last: "ps = butlast ps @ [last ps]" using assms(1) by simp
  have split: "map star ps = map star (butlast ps) @ [star (last ps)]" by (subst last) simp
  consider "a" "b" | "a" "\<not> b" | "\<not> a" "b" | "\<not> a" "\<not> b" by blast
  then show ?thesis
  proof cases
    case 1
    then show ?thesis using assms(1,4-6) map_star_id [of ps] by (simp add: butlast_append)
  next
    case 2
    have "''*'' \<in> set ps \<longleftrightarrow> ''*'' \<in> set (butlast ps) \<or> last ps = ''*''" by (subst last) auto
    then show ?thesis using 2 assms(1,4-6) map_star_id [of ps] by (auto simp: comp_def)
  next
    case 3
    then show ?thesis using assms(1,4-6) ps map_star_id [of r] star_id [of p] by (auto simp: butlast_append comp_def)
  next
    case 4
    then have r: "r \<noteq> []" using assms(2,3) ps by auto
    have "''*'' \<in> set r \<longleftrightarrow> ''*'' \<in> set (butlast r) \<or> last ps = ''*''"
      using r ps by (subst append_butlast_last_id [OF r, symmetric]) (simp only: set_append, auto)
    then show ?thesis using 4 r assms(4-6) ps split map_star_id [of r] star_id [of p] star_id [of "last r"]
      by (auto simp: comp_def)
  qed
qed

lemma is_piece_not_double: "is_piece p \<Longrightarrow> p \<noteq> ''**''"
  using is_pieceD by force

lemma outer_start:
  assumes "\<forall>p\<in>set ps. is_piece p" and "ps \<noteq> []"
  shows "str_replace (''**'' @ esc_dot) (''.+'' @ esc_dot) (esc_join (''**'' # ps @ leading b ''**'')) = esc_join (''.+'' # ps @ leading b ''**'')"
    and "str_replace (''*'' @ esc_dot) (word_class @ esc_dot) (esc_join (ps @ leading b ''**'')) =
      esc_join ((if b then map star ps else map star (butlast ps) @ [last ps]) @ leading b ''**'')"
proof -
  let ?q = "if b then ''**'' else last ps" and ?ps = "if b then ps else butlast ps"
  have split: "ps @ leading b ''**'' = ?ps @ [?q]" using assms(2) by simp
  have no_star: "\<forall>p\<in>set ?ps. p = ''*'' \<or> CHR ''*'' \<notin> set p" "?q = ''**'' \<or> ?q = ''*'' \<or> CHR ''*'' \<notin> set ?q"
    using assms is_pieceD last_in_set by (auto dest: in_set_butlastD)
  have "str_replace (''**'' @ esc_dot) (''.+'' @ esc_dot) (''**'' @ esc_dot @ esc_join (ps @ leading b ''**'')) =
      ''.+'' @ esc_dot @ esc_join (ps @ leading b ''**'')"
    using str_replace_match [of "''**'' @ esc_dot" "''.+'' @ esc_dot" "esc_join (ps @ leading b ''**'')"]
      replace_leading [OF no_star] unfolding split by simp
  then show "str_replace (''**'' @ esc_dot) (''.+'' @ esc_dot) (esc_join (''**'' # ps @ leading b ''**'')) = esc_join (''.+'' # ps @ leading b ''**'')"
    using assms(2) by (simp add: esc_join_Cons)
  show "str_replace (''*'' @ esc_dot) (word_class @ esc_dot) (esc_join (ps @ leading b ''**'')) =
      esc_join ((if b then map star ps else map star (butlast ps) @ [last ps]) @ leading b ''**'')"
    using replace_init [OF no_star] unfolding split by simp
qed

lemma outer_end:
  assumes "\<forall>p\<in>set ps. inert p" and "ps \<noteq> []"
  shows "str_replace (esc_dot @ ''**'') (esc_dot @ ''.*'') (esc_join (ps @ [''**''])) = esc_join (ps @ [''.*''])"
    and "str_replace (esc_dot @ ''*'') (esc_dot @ word_class) (esc_join ps) = esc_join (hd ps # map star (tl ps))"
proof -
  have "str_replace (esc_dot @ ''**'') (esc_dot @ ''.*'') (esc_join ps @ esc_dot @ ''**'') =
      esc_join ps @ str_replace (esc_dot @ ''**'') (esc_dot @ ''.*'') (esc_dot @ ''**'')"
    by (rule double_tail [OF assms]) (simp add: esc_dot_def)
  then show "str_replace (esc_dot @ ''**'') (esc_dot @ ''.*'') (esc_join (ps @ [''**''])) = esc_join (ps @ [''.*''])"
    using assms(2) by (simp add: esc_join_append) (simp add: esc_dot_def)
qed (use replace_tail [OF assms, of "[]"] in simp)

lemma to_regex_string_outer:
  assumes pieces: "\<forall>p\<in>set ps. is_piece p" and "ps \<noteq> []" and "a \<or> b \<or> ps \<noteq> [''*'']" and "a \<or> b \<or> ''*'' \<in> set ps"
  shows "to_regex_string (join_dots (leading a ''**'' @ ps @ leading b ''**'')) =
    ''^'' @ esc_join (leading a ''.+'' @ map star ps @ leading b ''.*'') @ ''$''"
proof -
  let ?ts = "leading a ''**'' @ ps @ leading b ''**''" and ?A = "leading a ''.+''" and ?B = "leading b ''.*''"
  let ?g = "join_dots ?ts"
  define ps1 where "ps1 = (if \<not> a \<and> hd ps = ''*'' then if b then map star ps else map star (butlast ps) @ [last ps] else ps)"
  define ps2 where "ps2 = (if \<not> b \<and> last ps = ''*'' then if a then map star ps1 else hd ps1 # map star (tl ps1) else ps1)"
  define l where "l = ?A @ ps2 @ ?B"
  have dots: "\<forall>t\<in>set ?ts. CHR ''.'' \<notin> set t" using pieces is_pieceD by auto
  have "1 < length ?ts" using assms(2-4) by (cases ps) (auto simp: Suc_lessI)
  then have two: "?ts \<noteq> []" "tl ?ts \<noteq> []" "butlast ?ts \<noteq> []" by (cases ?ts; cases "tl ?ts"; simp)+
  have hd_last: "hd ps \<noteq> ''**''" "last ps \<noteq> ''**''" using pieces assms(2) is_piece_not_double by auto
  note cond = glob_conditions [OF dots two(1), of "''*''"] glob_conditions [OF dots two(1), of "''**''"]
  have starts: "prefix ''**.'' ?g \<longleftrightarrow> a" "prefix ''*.'' ?g \<longleftrightarrow> \<not> a \<and> hd ps = ''*''"
    using cond(1,4) two hd_last assms(2) by auto
  have ends: "suffix ''.*'' ?g \<longleftrightarrow> \<not> b \<and> last ps = ''*''" "suffix ''.**'' ?g \<longleftrightarrow> b"
    using cond(2,5) two hd_last assms(2) by auto
  have "set (butlast (tl ?ts)) \<subseteq> set ps" using assms(2)
    by (cases a; cases b) (auto simp: butlast_append dest: in_set_butlastD list.set_sel(2))
  then have inner: "\<not> str_contains ?g ''.**.''" "str_contains ?g ''.*.'' \<longleftrightarrow> ''*'' \<in> set (butlast (tl ?ts))"
    using cond(3,6) pieces is_piece_not_double by auto
  have r0: "str_replace ''.'' esc_dot ?g = esc_join ?ts" by (rule str_replace_dots [OF dots])
  have r1: "replace_start ?g (esc_join ?ts) = esc_join (?A @ ps1 @ leading b ''**'')"
    unfolding replace_start_def starts using outer_start [OF pieces assms(2)] by (simp add: ps1_def)
  have ne: "ps1 \<noteq> []" "ps2 \<noteq> []" using assms(2) by (auto simp: ps1_def ps2_def)
  have inert1: "\<forall>p\<in>set ps1. inert p"
    using pieces piece_inert star_inert assms(2) by (auto simp: ps1_def dest: in_set_butlastD)
  then have inert2: "\<forall>p\<in>set ps2. inert p"
    using star_inert ne by (auto simp: ps2_def dest: list.set_sel(2))
  have r2: "replace_end ?g (esc_join (?A @ ps1 @ leading b ''**'')) = esc_join l"
    using outer_end [of "?A @ ps1"] inert1 ne unfolding replace_end_def ends by (auto simp: l_def ps2_def)
  have "replace_single ?g (esc_join l) = esc_join (if ''*'' \<in> set (butlast (tl ?ts)) then hd l # map star (tl l) else l)"
    using outer_end(2) [of l] inert2 ne unfolding replace_single_def inner(2) by (auto simp: l_def)
  also have "\<dots> = esc_join (?A @ map star ps @ ?B)"
    using stars_replaced [OF assms(2-4) ps1_def ps2_def l_def] by simp
  finally have r4: "replace_single ?g (esc_join l) = esc_join (?A @ map star ps @ ?B)" .
  have "?g \<noteq> ''*''" using components_join [OF dots two(1)] components_leaf [of "''*''"] two(2) by auto
  moreover have "str_contains ?g ''*''" unfolding str_contains_char
    using in_join [of "''**''" ?ts] in_join [of "''*''" ?ts] assms(4) by auto
  ultimately show ?thesis using to_regex_string_wild [of ?g] r0 r1 r2 r4 inner(1) by (simp add: replace_double_def)
qed

section \<open>The meaning of a glob\<close>

text \<open>
  The reference.  A glob without wildcards stands for its path and everything below it; a glob
  with asterisks for the paths with as many components that agree with it, an asterisk standing
  for one component; a lone asterisk for the paths that contain the character zero.
\<close>

definition piece_ok :: "string \<Rightarrow> string \<Rightarrow> bool" where
  "piece_ok p c \<longleftrightarrow> (if p = ''*'' then c \<noteq> [] \<and> list_all word_char c else c = p)"

definition at_or_below :: "string \<Rightarrow> string \<Rightarrow> bool" where
  "at_or_below g path \<longleftrightarrow> prefix g path \<and> item_ok RTree (drop (length g) path)"

definition glob_matches :: "string list \<Rightarrow> string \<Rightarrow> bool" where
  "glob_matches ps path \<longleftrightarrow>
     (if ps = [''*''] then CHR 0x00 \<in> set path
      else if ''*'' \<in> set ps then list_all2 piece_ok ps (components path)
      else at_or_below (join_dots ps) path)"

definition piece_items :: "string \<Rightarrow> rx_item list" where
  "piece_items p = (if p = ''*'' then [RWord] else map RLit p)"

fun glob_items :: "string list \<Rightarrow> rx_item list" where
  "glob_items [] = []"
| "glob_items [p] = piece_items p"
| "glob_items (p # ps) = piece_items p @ RSep # glob_items ps"

lemma piece_items_text: "rx_text (piece_items p) = star p"
proof (cases "p = ''*''")
  case False
  then show ?thesis by (simp add: piece_items_def star_def comp_def)
qed (simp add: piece_items_def star_def)

lemma glob_items_text: "rx_text (glob_items ps) = esc_join (map star ps)"
  by (induction ps rule: glob_items.induct) (simp_all add: piece_items_text esc_join_Cons)

lemma glob_items_simple: "\<forall>p\<in>set ps. is_piece p \<Longrightarrow> list_all simple_item (glob_items ps)"
  by (induction ps rule: glob_items.induct)
    (auto simp: piece_items_def is_piece_def list_all_iff)

lemma rx_match_lits: "rx_match (map RLit p @ items) s \<longleftrightarrow> (\<exists>v. s = p @ v \<and> rx_match items v)"
  by (induction p arbitrary: s) (auto simp: rx_match_Cons)

lemma rx_match_piece:
  "rx_match (piece_items p @ items) s \<longleftrightarrow> (\<exists>u v. s = u @ v \<and> piece_ok p u \<and> rx_match items v)"
  by (auto simp: piece_items_def piece_ok_def rx_match_lits rx_match_Cons)

lemma piece_ok_no_dot: "is_piece p \<Longrightarrow> piece_ok p c \<Longrightarrow> CHR ''.'' \<notin> set c"
  using is_pieceD by (auto simp: piece_ok_def word_char_def list_all_iff split: if_splits)

lemma components_cases:
  obtains "CHR ''.'' \<notin> set s" "components s = [s]"
  | k r where "s = k @ CHR ''.'' # r" "CHR ''.'' \<notin> set k" "components s = k # components r"
proof (cases "CHR ''.'' \<in> set s")
  case True
  then obtain k r where "s = k @ CHR ''.'' # r" "CHR ''.'' \<notin> set k" using split_list_first by fast
  then show ?thesis using components_dot that(2) by blast
qed (use components_leaf that(1) in blast)

lemma rx_match_glob:
  "\<forall>p\<in>set ps. is_piece p \<Longrightarrow> ps \<noteq> [] \<Longrightarrow>
   rx_match (glob_items ps) s \<longleftrightarrow> list_all2 piece_ok ps (components s)"
proof (induction ps arbitrary: s rule: glob_items.induct)
  case (2 p)
  have "rx_match (piece_items p) s \<longleftrightarrow> piece_ok p s"
    using rx_match_piece [of p "[]" s] by simp
  then show ?case using 2 piece_ok_no_dot [of p s]
    by (cases s rule: components_cases) auto
next
  case (3 p q ps)
  have split: "rx_match (glob_items (p # q # ps)) s \<longleftrightarrow>
      (\<exists>u v. s = u @ CHR ''.'' # v \<and> piece_ok p u \<and> list_all2 piece_ok (q # ps) (components v))"
    using 3 by (auto simp: rx_match_piece rx_match_Cons)
  show ?case
  proof (cases s rule: components_cases)
    case 1
    then show ?thesis using split by auto
  next
    case (2 k r)
    have "u = k \<and> v = r" if "s = u @ CHR ''.'' # v" "piece_ok p u" for u v
      using that 2 components_dot [of u v] piece_ok_no_dot 3(2) components_inj by force
    then show ?thesis using split 2 by auto
  qed
qed simp

lemma rx_match_below:
  "\<forall>p\<in>set ps. p \<noteq> ''*'' \<Longrightarrow> rx_match (glob_items ps @ items) s \<longleftrightarrow> (\<exists>v. s = join_dots ps @ v \<and> rx_match items v)"
  by (induction ps arbitrary: s rule: glob_items.induct)
    (auto simp: piece_items_def rx_match_lits rx_match_Cons)

lemma to_regex_pieces:
  assumes "glob_regex_spec re" and "\<forall>p\<in>set ps. is_piece p" and "ps \<noteq> []"
  shows "to_regex re (join_dots ps) = Ok (glob_matches ps)"
proof -
  consider "ps = [''*'']" | "ps \<noteq> [''*'']" "''*'' \<in> set ps" | "''*'' \<notin> set ps" by blast
  then show ?thesis
  proof cases
    case 1
    then show ?thesis using assms(1)
      by (simp add: to_regex_def to_regex_string_def glob_regex_spec_def NUL_def glob_matches_def fun_eq_iff)
  next
    case 2
    have "re (''^'' @ esc_join (map star ps) @ ''$'') = Some (rx_match (glob_items ps))"
      using assms glob_items_simple glob_items_text by (metis glob_regex_spec_def)
    then show ?thesis using to_regex_string_outer [OF assms(2,3), of False False] 2 rx_match_glob [OF assms(2,3)]
      by (simp add: to_regex_def glob_matches_def fun_eq_iff)
  next
    case 3
    have star: "map star ps = ps" using 3 star_id by (metis map_idI)
    have "rx_text (glob_items ps @ [RTree]) = esc_join ps @ item_text RTree"
      using glob_items_text [of ps] star by simp
    then have "re (''^'' @ esc_join ps @ item_text RTree @ ''$'') = Some (rx_match (glob_items ps @ [RTree]))"
      using assms(1) glob_items_simple [OF assms(2)] unfolding glob_regex_spec_def
      by (metis append_assoc list_all_append list.pred_inject simple_item.simps(4))
    moreover have words: "\<forall>p\<in>set ps. p \<noteq> ''*''" using 3 by auto
    have "rx_match (glob_items ps @ [RTree]) s \<longleftrightarrow> at_or_below (join_dots ps) s" for s
      unfolding rx_match_below [OF words]
      by (auto simp: rx_match_Cons at_or_below_def prefix_def simp del: item_ok.simps)
    ultimately show ?thesis using to_regex_string_plain [OF assms(2,3) 3] 3
      by (auto simp: to_regex_def glob_matches_def fun_eq_iff)
  qed
qed

subsection \<open>Double asterisks\<close>

definition is_word :: "string \<Rightarrow> bool" where
  "is_word p \<longleftrightarrow> p \<noteq> [] \<and> list_all lit_char p"

abbreviation words :: "string list \<Rightarrow> bool" where
  "words ws \<equiv> ws \<noteq> [] \<and> (\<forall>w\<in>set ws. is_word w)"

lemma is_wordD: "is_word w \<Longrightarrow> is_piece w \<and> w \<noteq> ''*'' \<and> CHR ''.'' \<notin> set w"
  using lit_not_in by (auto simp: is_word_def is_piece_def)

lemma words_no_star: "words ws \<Longrightarrow> CHR ''*'' \<notin> set (join_dots ws)"
  using star_in_join is_wordD by blast

lemma rx_match_append: "rx_match (is @ js) s \<longleftrightarrow> (\<exists>u v. s = u @ v \<and> rx_match is u \<and> rx_match js v)"
proof (induction "is" arbitrary: s)
  case (Cons i "is")
  show ?case unfolding append_Cons rx_match_Cons Cons.IH by (metis append.assoc)
qed simp

lemma regex_outer:
  assumes "\<forall>p\<in>set ps. is_piece p" and "ps \<noteq> []" and "a \<or> b"
  shows "to_regex_string (join_dots (leading a ''**'' @ ps @ leading b ''**'')) =
    ''^'' @ rx_text ((if a then [RSome, RSep] else []) @ glob_items ps @ (if b then [RSep, RAny] else [])) @ ''$''"
  using to_regex_string_outer [OF assms(1,2), of a b] assms(2,3) glob_items_text [of ps]
  by (auto simp: esc_join_append esc_join_Cons)

lemma regex_middle:
  assumes ps: "\<forall>p\<in>set ps. is_piece p" "ps \<noteq> []" "hd ps \<noteq> ''*''"
    and qs: "\<forall>q\<in>set qs. is_piece q" "qs \<noteq> []" "last qs \<noteq> ''*''"
  shows "to_regex_string (join_dots (ps @ ''**'' # qs)) = ''^'' @ rx_text (glob_items ps @ RBlend # RSep # glob_items qs) @ ''$''"
proof -
  let ?ts = "ps @ ''**'' # qs" and ?blend = "item_text RBlend"
  let ?g = "join_dots ?ts"
  have dots: "\<forall>t\<in>set ?ts. CHR ''.'' \<notin> set t" using ps qs is_pieceD by auto
  have ends: "hd ps \<noteq> ''**''" "last qs \<noteq> ''**''" using ps qs is_piece_not_double by auto
  have ne: "?ts \<noteq> []" by simp
  have inner: "butlast (tl ?ts) = tl ps @ ''**'' # butlast qs" using ps(2) qs(2) by (simp add: butlast_append)
  note cond = glob_conditions [OF dots ne, of "''*''"] glob_conditions [OF dots ne, of "''**''"]
  have c: "\<not> prefix ''**.'' ?g" "\<not> prefix ''*.'' ?g" "\<not> suffix ''.*'' ?g" "\<not> suffix ''.**'' ?g" "str_contains ?g ''.**.''"
      "str_contains ?g ''.*.'' \<longleftrightarrow> ''*'' \<in> set (tl ps) \<union> set (butlast qs)"
    using cond ends ps(2,3) qs(2,3) inner by (auto simp: butlast_append)
  have inert: "\<forall>p\<in>set ps. inert p" "\<forall>q\<in>set qs. inert q" using ps(1) qs(1) piece_inert by auto
  have r0: "str_replace ''.'' esc_dot ?g = esc_join ps @ (esc_dot @ ''**'') @ esc_dot @ esc_join qs"
    using str_replace_dots [OF dots] ps(2) qs(2) by (simp add: esc_join_append esc_join_Cons)
  have "str_replace (esc_dot @ ''**'') ?blend (esc_join ps @ (esc_dot @ ''**'') @ esc_dot @ esc_join qs) =
      esc_join ps @ str_replace (esc_dot @ ''**'') ?blend ((esc_dot @ ''**'') @ esc_dot @ esc_join qs)"
    by (rule double_tail [OF inert(1) ps(2)]) (simp add: esc_dot_def)
  then have r3: "str_replace (esc_dot @ ''**'') ?blend (esc_join ps @ (esc_dot @ ''**'') @ esc_dot @ esc_join qs) =
      esc_join ps @ ?blend @ esc_dot @ esc_join qs"
    using double_dot_tail [OF inert(2) qs(2), of "[]" ?blend] str_replace_match [of "esc_dot @ ''**''" ?blend "esc_dot @ esc_join qs"]
    by simp
  have "str_replace (esc_dot @ ''*'') rep (?blend @ t) = ?blend @ str_replace (esc_dot @ ''*'') rep t" for rep t
    by (simp add: esc_dot_def word_class_def)
  then have "str_replace (esc_dot @ ''*'') (esc_dot @ word_class) (esc_join ps @ ?blend @ esc_dot @ esc_join qs) =
      esc_join (hd ps # map star (tl ps)) @ ?blend @ esc_dot @ esc_join (map star qs)"
    using replace_tail [OF inert(1) ps(2)] replace_dot_tail [OF inert(2) qs(2), of "[]"] by simp
  moreover have "hd ps # map star (tl ps) = map star ps" using ps(2,3) star_id by (cases ps) auto
  moreover have "map star ps = ps" "map star qs = qs" if "''*'' \<notin> set (tl ps) \<union> set (butlast qs)"
  proof -
    have "''*'' \<notin> set ps" using that ps(2,3) by (cases ps) auto
    moreover have "''*'' \<notin> set (butlast qs @ [last qs])" using that qs(3) by auto
    ultimately show "map star ps = ps" "map star qs = qs" using qs(2) map_star_id by simp_all
  qed
  ultimately have r4: "replace_single ?g (esc_join ps @ ?blend @ esc_dot @ esc_join qs) =
      esc_join (map star ps) @ ?blend @ esc_dot @ esc_join (map star qs)"
    unfolding replace_single_def c(6) by auto
  have "?g \<noteq> ''*''" using components_join [OF dots ne] components_leaf [of "''*''"] ps(2) by (cases ps) auto
  moreover have "str_contains ?g ''*''" unfolding str_contains_char using in_join [of "''**''" ?ts] by auto
  ultimately show ?thesis
    using to_regex_string_wild [of ?g] r0 r3 r4 c(1-5) glob_items_text [of ps] glob_items_text [of qs]
    by (simp add: replace_start_def replace_end_def replace_double_def)
qed

text \<open>A path, or a part of one, has as many components as the pieces, and agrees with each of them.\<close>

definition agrees :: "string list \<Rightarrow> string \<Rightarrow> bool" where
  "agrees ps s \<longleftrightarrow> list_all2 piece_ok ps (components s)"

lemma match_glob: "\<forall>p\<in>set ps. is_piece p \<Longrightarrow> ps \<noteq> [] \<Longrightarrow> rx_match (glob_items ps) = agrees ps"
  by (simp add: fun_eq_iff agrees_def rx_match_glob)

lemma match_outer:
  assumes "\<forall>p\<in>set ps. is_piece p" and "ps \<noteq> []"
  shows "rx_match (glob_items ps @ [RSep, RAny]) path \<longleftrightarrow> (\<exists>u v. path = u @ CHR ''.'' # v \<and> agrees ps u \<and> list_all not_newline v)"
    and "rx_match (RSome # RSep # glob_items ps) path \<longleftrightarrow>
      (\<exists>u v. path = u @ CHR ''.'' # v \<and> u \<noteq> [] \<and> list_all not_newline u \<and> agrees ps v)"
    and "rx_match (RSome # RSep # glob_items ps @ [RSep, RAny]) path \<longleftrightarrow>
      (\<exists>u v w. path = u @ CHR ''.'' # v @ CHR ''.'' # w \<and> u \<noteq> [] \<and> list_all not_newline u \<and> agrees ps v \<and> list_all not_newline w)"
proof -
  have tail: "rx_match (glob_items ps @ [RSep, RAny]) s \<longleftrightarrow> (\<exists>u v. s = u @ CHR ''.'' # v \<and> agrees ps u \<and> list_all not_newline v)" for s
    by (auto simp: rx_match_append rx_match_Cons match_glob [OF assms])
  have head: "rx_match (RSome # RSep # is) path \<longleftrightarrow>
      (\<exists>u v. path = u @ CHR ''.'' # v \<and> u \<noteq> [] \<and> list_all not_newline u \<and> rx_match is v)" for "is"
    by (auto simp: rx_match_Cons)
  show "rx_match (glob_items ps @ [RSep, RAny]) path \<longleftrightarrow> (\<exists>u v. path = u @ CHR ''.'' # v \<and> agrees ps u \<and> list_all not_newline v)"
    by (rule tail)
  show "rx_match (RSome # RSep # glob_items ps) path \<longleftrightarrow>
      (\<exists>u v. path = u @ CHR ''.'' # v \<and> u \<noteq> [] \<and> list_all not_newline u \<and> agrees ps v)"
    by (simp add: head match_glob [OF assms])
  show "rx_match (RSome # RSep # glob_items ps @ [RSep, RAny]) path \<longleftrightarrow>
      (\<exists>u v w. path = u @ CHR ''.'' # v @ CHR ''.'' # w \<and> u \<noteq> [] \<and> list_all not_newline u \<and> agrees ps v \<and> list_all not_newline w)"
    unfolding head tail by blast
qed

lemma match_middle:
  assumes "\<forall>p\<in>set ps. is_piece p" and "ps \<noteq> []" and "\<forall>q\<in>set qs. is_piece q" and "qs \<noteq> []"
  shows "rx_match (glob_items ps @ RBlend # RSep # glob_items qs) path \<longleftrightarrow>
    (\<exists>u v w. path = u @ v @ CHR ''.'' # w \<and> agrees ps u \<and> list_all (\<lambda>c. c = CHR ''.'' \<or> word_char c) v \<and> agrees qs w)"
  by (auto simp: rx_match_append rx_match_Cons match_glob [OF assms(1,2)] match_glob [OF assms(3,4)]) blast+

text \<open>
  A double asterisk between words does not go together with a single one at the end or at the beginning: the
  replacement meant for the single asterisk reaches into the double one.
\<close>

lemma mixed_asterisks:
  "to_regex_string ''A.**.*'' = ''^A'' @ esc_dot @ word_class @ ''*'' @ esc_dot @ word_class @ ''$''"
  "to_regex_string ''*.A.**.B'' = ''^'' @ word_class @ esc_dot @ ''A'' @ esc_dot @ ''*'' @ word_class @ esc_dot @ ''B$''"
  by (simp_all add: to_regex_string_def str_contains_code esc_dot_def word_class_def Let_def suffix_to_prefix)

section \<open>Scopes\<close>

lemma split_dots_components: "CHR ''.'' \<notin> set w \<Longrightarrow> split_dots w s = components (w @ s)"
  by (induction s arbitrary: w) (auto simp: components_leaf components_dot)

lemma is_component_piece: "is_component p \<Longrightarrow> is_piece p"
proof (cases p)
  case (Cons c cs)
  have "is_scope_char x \<Longrightarrow> lit_char x" "is_upper x \<Longrightarrow> lit_char x" for x
    by (auto simp: is_scope_char_def is_upper_def lit_char_def Let_def)
  then show "is_component p \<Longrightarrow> is_piece p"
    using Cons by (auto simp: is_piece_def list_all_iff)
qed simp

lemma scope_path_matches:
  assumes "glob_regex_spec re" and "is_scope_path g"
  shows "re_matches re (to_regex_string g) = glob_matches (components g)"
proof -
  have "\<forall>p\<in>set (components g). is_piece p"
    using assms(2) is_component_piece split_dots_components [of "[]" g] by (auto simp: is_scope_path_def list_all_iff)
  then have "to_regex re g = Ok (glob_matches (components g))"
    using to_regex_pieces [OF assms(1), of "components g"] by (simp add: join_components)
  then show ?thesis by (cases "re (to_regex_string g)") (simp_all add: to_regex_def fun_eq_iff)
qed

text \<open>One word of the scope claim: an action, and optionally a colon and a path.\<close>

definition word_grants :: "Action \<Rightarrow> string \<Rightarrow> string \<Rightarrow> bool" where
  "word_grants a w path \<longleftrightarrow>
     (case split_once CHR '':'' w of
        None \<Rightarrow> parse_action w = Some a
      | Some (action, g) \<Rightarrow> parse_action action = Some a \<and> glob_matches (components g) path)"

lemma scope_groups_split:
  "scope_groups w =
     (case split_once CHR '':'' w of
        None \<Rightarrow> Some [''action'' \<mapsto> w]
      | Some (action, g) \<Rightarrow> if is_scope_path g then Some [''action'' \<mapsto> action, ''path'' \<mapsto> g] else None)"
proof (cases "split_once CHR '':'' w")
  case None
  then have "CHR '':'' \<notin> set w" by (simp add: split_once_None)
  then have "takeWhile (\<lambda>c. c \<noteq> CHR '':'') w = w" by (auto simp: takeWhile_eq_all_conv)
  then show ?thesis using None by (simp add: scope_groups_def Let_def del: takeWhile_eq_all_conv)
next
  case (Some ag)
  obtain action g where ag: "ag = (action, g)" by (cases ag)
  then have w: "w = action @ CHR '':'' # g" "CHR '':'' \<notin> set action" using split_once_Some Some by auto
  have "takeWhile (\<lambda>c. c \<noteq> CHR '':'') w = action" using w by (simp add: takeWhile_append)
  then show ?thesis using Some ag w by (simp add: scope_groups_def Let_def)
qed

lemma parse_scopes_grants:
  assumes "glob_regex_spec re" and "scope_regex_spec captures"
    and "parse_scopes captures ws = Ok scopes"
  shows "(\<exists>s\<in>set scopes. scope_grants re a s path) \<longleftrightarrow> (\<exists>w\<in>set ws. word_grants a w path)"
  using assms(3)
proof (induction ws arbitrary: scopes)
  case (Cons w ws)
  obtain groups action b ss where w: "scope_groups w = Some groups" "groups ''action'' = Some action"
      "parse_action action = Some b" and ss: "parse_scopes captures ws = Ok ss"
    and scopes: "scopes = \<lparr>sc_action = b, sc_path = groups ''path''\<rparr> # ss"
    using Cons(2) assms(2)
    by (auto simp: scope_regex_spec_def result_map_eq_Ok split: option.splits)
  have "scope_grants re a \<lparr>sc_action = b, sc_path = groups ''path''\<rparr> path \<longleftrightarrow> word_grants a w path"
    using w scope_path_matches [OF assms(1)]
    by (auto simp: scope_groups_split scope_grants_def word_grants_def
        simp del: re_matches.simps split: option.splits if_splits prod.splits)
  then show ?case using Cons(1) [OF ss] scopes by simp
qed simp

section \<open>Properties\<close>

text \<open>
  C18.  The meaning of a glob, for pieces that are words or single asterisks.  The empty glob and a lone double asterisk match
  everything.  Without an asterisk a glob matches its path and everything below it, with single asterisks
  the paths with the same number of components that agree with it, and a lone asterisk
  only paths with a character zero.  A double asterisk at the end matches everything below a path that agrees
  with the pieces before it; at the beginning it stands for one or more components, so that it does not match a path that
  agrees with the pieces after it alone; and both can be combined.  In the middle, if the glob neither
  begins nor ends with a single asterisk, it stands for any dots and characters of components, not for whole components, so that the
  first part need not end where a component does.  Other globs with several double asterisks, and
  globs with characters that mean something in a regular expression, are not covered.
\<close>

theorem glob_meaning:
  assumes "glob_regex_spec re" and "match_all_spec re" and "\<forall>p\<in>set ps. is_piece p" and "ps \<noteq> []"
    and "\<forall>q\<in>set qs. is_piece q" and "qs \<noteq> []"
  shows "to_regex re [] = Ok (\<lambda>_. True) \<and> to_regex re ''**'' = Ok (\<lambda>_. True) \<and>
    to_regex re (join_dots ps) = Ok (glob_matches ps) \<and>
    (\<exists>m. to_regex re (join_dots (ps @ [''**''])) = Ok m \<and>
       (\<forall>path. m path \<longleftrightarrow> (\<exists>u v. path = u @ CHR ''.'' # v \<and> agrees ps u \<and> list_all not_newline v))) \<and>
    (\<exists>m. to_regex re (join_dots (''**'' # ps)) = Ok m \<and>
       (\<forall>path. m path \<longleftrightarrow> (\<exists>u v. path = u @ CHR ''.'' # v \<and> u \<noteq> [] \<and> list_all not_newline u \<and> agrees ps v))) \<and>
    (\<exists>m. to_regex re (join_dots (''**'' # ps @ [''**''])) = Ok m \<and>
       (\<forall>path. m path \<longleftrightarrow> (\<exists>u v w. path = u @ CHR ''.'' # v @ CHR ''.'' # w \<and> u \<noteq> [] \<and> list_all not_newline u \<and>
          agrees ps v \<and> list_all not_newline w))) \<and>
    (hd ps \<noteq> ''*'' \<and> last qs \<noteq> ''*'' \<longrightarrow>
      (\<exists>m. to_regex re (join_dots (ps @ ''**'' # qs)) = Ok m \<and>
         (\<forall>path. m path \<longleftrightarrow> (\<exists>u v w. path = u @ v @ CHR ''.'' # w \<and> agrees ps u \<and>
            list_all (\<lambda>c. c = CHR ''.'' \<or> word_char c) v \<and> agrees qs w))))"
proof -
  have ok: "to_regex re g = Ok (rx_match items)"
    if "to_regex_string g = ''^'' @ rx_text items @ ''$''" "list_all simple_item items" for g items
    using that assms(1) by (simp add: to_regex_def glob_regex_spec_def)
  note simple = glob_items_simple [OF assms(3)] glob_items_simple [OF assms(5)]
  note outer = regex_outer [OF assms(3,4)]
  have "to_regex_string [] = ''^''" "to_regex_string ''**'' = ''^**$''"
    by (simp_all add: to_regex_string_def str_contains_code Let_def suffix_to_prefix)
  then have "to_regex re [] = Ok (\<lambda>_. True)" "to_regex re ''**'' = Ok (\<lambda>_. True)"
    using assms(2) by (simp_all add: to_regex_def match_all_spec_def)
  moreover have "to_regex re (join_dots (ps @ [''**''])) = Ok (rx_match (glob_items ps @ [RSep, RAny]))"
    using outer [of False True] by (intro ok) (simp_all add: simple)
  moreover have "to_regex re (join_dots (''**'' # ps)) = Ok (rx_match (RSome # RSep # glob_items ps))"
    using outer [of True False] by (intro ok) (simp_all add: simple)
  moreover have "to_regex re (join_dots (''**'' # ps @ [''**''])) = Ok (rx_match (RSome # RSep # glob_items ps @ [RSep, RAny]))"
    using outer [of True True] by (intro ok) (simp_all add: simple)
  moreover have "to_regex re (join_dots (ps @ ''**'' # qs)) = Ok (rx_match (glob_items ps @ RBlend # RSep # glob_items qs))"
    if "hd ps \<noteq> ''*'' \<and> last qs \<noteq> ''*''"
    by (rule ok [OF regex_middle]) (use that assms(3-6) in \<open>simp_all add: simple\<close>)
  ultimately show ?thesis
    using to_regex_pieces [OF assms(1,3,4)] by (simp add: match_outer [OF assms(3,4)] match_middle [OF assms(3-6)])
qed

theorem glob_meaning_witness:
  "to_regex glob_engine ''Vehicle.*.Speed'' = Ok (glob_matches [''Vehicle'', ''*'', ''Speed'']) \<and>
   \<not> glob_matches [''Vehicle'', ''*'', ''Speed''] ''Vehicle.Speed'' \<and>
   (\<exists>m. to_regex glob_engine ''**.Sunroof'' = Ok m \<and> \<not> m ''Sunroof'') \<and>
   (\<exists>m. to_regex glob_engine ''**.Sunroof.**'' = Ok m \<and> m ''Vehicle.Sunroof.Position'') \<and>
   (\<exists>m. to_regex glob_engine ''Sunroof.**.Speed'' = Ok m \<and> m ''SunroofX.Speed'')"
proof -
  note meaning = glob_meaning [OF glob_engine_spec glob_engine_match_all]
  have pieces: "\<forall>p\<in>set [''Vehicle'', ''*'', ''Speed'']. is_piece p" "\<forall>p\<in>set [''Sunroof'']. is_piece p" "\<forall>p\<in>set [''Speed'']. is_piece p"
    by (simp_all add: is_piece_def lit_char_def)
  have "components ''Vehicle.Speed'' = [''Vehicle'', ''Speed'']"
    using components_dot [of "''Vehicle''" "''Speed''"] components_leaf [of "''Speed''"] by simp
  then have v: "to_regex glob_engine ''Vehicle.*.Speed'' = Ok (glob_matches [''Vehicle'', ''*'', ''Speed''])"
      "\<not> glob_matches [''Vehicle'', ''*'', ''Speed''] ''Vehicle.Speed''"
    using meaning [OF pieces(1) _ pieces(1)] by (simp_all add: glob_matches_def)
  have a: "agrees [''Sunroof''] ''Sunroof''" "agrees [''Speed''] ''Speed''"
    by (simp_all add: agrees_def components_leaf piece_ok_def)
  have hit1: "\<exists>u v w. ''Vehicle.Sunroof.Position'' = u @ CHR ''.'' # v @ CHR ''.'' # w \<and> u \<noteq> [] \<and> list_all not_newline u \<and>
      agrees [''Sunroof''] v \<and> list_all not_newline w"
    by (rule exI [of _ "''Vehicle''"], rule exI [of _ "''Sunroof''"], rule exI [of _ "''Position''"]) (simp add: a not_newline_def)
  have hit2: "\<exists>u v w. ''SunroofX.Speed'' = u @ v @ CHR ''.'' # w \<and> agrees [''Sunroof''] u \<and>
      list_all (\<lambda>c. c = CHR ''.'' \<or> word_char c) v \<and> agrees [''Speed''] w"
    by (rule exI [of _ "''Sunroof''"], rule exI [of _ "''X''"], rule exI [of _ "''Speed''"]) (simp add: a word_char_def is_whitespace_def)
  have miss: "\<not> (\<exists>u v. ''Sunroof'' = u @ CHR ''.'' # v)" by (auto simp: Cons_eq_append_conv)
  have m: "\<exists>m. to_regex glob_engine ''**.Sunroof'' = Ok m \<and>
        (\<forall>path. m path \<longleftrightarrow> (\<exists>u v. path = u @ CHR ''.'' # v \<and> u \<noteq> [] \<and> list_all not_newline u \<and> agrees [''Sunroof''] v))"
      "\<exists>m. to_regex glob_engine ''**.Sunroof.**'' = Ok m \<and>
        (\<forall>path. m path \<longleftrightarrow> (\<exists>u v w. path = u @ CHR ''.'' # v @ CHR ''.'' # w \<and> u \<noteq> [] \<and> list_all not_newline u \<and>
          agrees [''Sunroof''] v \<and> list_all not_newline w))"
      "\<exists>m. to_regex glob_engine ''Sunroof.**.Speed'' = Ok m \<and>
        (\<forall>path. m path \<longleftrightarrow> (\<exists>u v w. path = u @ v @ CHR ''.'' # w \<and> agrees [''Sunroof''] u \<and>
          list_all (\<lambda>c. c = CHR ''.'' \<or> word_char c) v \<and> agrees [''Speed''] w))"
    using meaning [OF pieces(2) _ pieces(3)] by simp_all
  have "\<exists>m. to_regex glob_engine ''**.Sunroof'' = Ok m \<and> \<not> m ''Sunroof''" using m(1) miss by blast
  moreover have "\<exists>m. to_regex glob_engine ''**.Sunroof.**'' = Ok m \<and> m ''Vehicle.Sunroof.Position''"
    using m(2) hit1 by (elim exE conjE) (intro exI conjI, assumption, blast)
  moreover have "\<exists>m. to_regex glob_engine ''Sunroof.**.Speed'' = Ok m \<and> m ''SunroofX.Speed''"
    using m(3) hit2 by (elim exE conjE) (intro exI conjI, assumption, blast)
  ultimately show ?thesis using v by blast
qed

text \<open>
  What a token grants, from the text of its scope claim: a path is granted for an action
  exactly when one of the words of the claim names the action, alone or followed by a glob that
  matches the path, until the token expires.
\<close>

theorem token_meaning:
  assumes "glob_regex_spec re" and "scope_regex_spec captures"
    and "permissions_try_from captures re claims = Ok p"
  shows "(is_match re (perm_of a p) path \<longleftrightarrow>
      (\<exists>w\<in>set (split_whitespace (cl_scope claims)). word_grants a w path)) \<and>
    expires_at p = Some (uint (cl_exp claims) * 1000000000)"
proof -
  obtain scopes where s: "parse_whitespace_separated captures (cl_scope claims) = Ok scopes"
    using permissions_try_from_scopes [OF assms(3)] by blast
  then show ?thesis
    using permissions_try_from_grants [OF assms(3) s] parse_scopes_grants [OF assms(1,2)]
    by (simp add: parse_whitespace_separated_def)
qed

definition example_permissions :: Permissions where
  "example_permissions = \<lparr>expires_at = Some 9000000000, perm_read = M_Regexps [to_regex_string ''Vehicle.*''],
     perm_actuate = M_Nothing, perm_provide = M_Everything, perm_create = M_Nothing\<rparr>"

lemma example_try_from_glob:
  "permissions_try_from example_captures glob_engine example_claims = Ok example_permissions"
proof -
  have "\<forall>p\<in>set [''Vehicle'', ''*'']. is_piece p" by (simp add: is_piece_def lit_char_def)
  then have "to_regex glob_engine ''Vehicle.*'' = Ok (glob_matches [''Vehicle'', ''*''])"
    using to_regex_pieces [OF glob_engine_spec, of "[''Vehicle'', ''*'']"] by simp
  then have "glob_engine (to_regex_string ''Vehicle.*'') \<noteq> None"
    by (auto simp: to_regex_def split: option.splits)
  then show ?thesis using example_try_from
    by (auto simp: permissions_try_from_def example_permissions_def example_claims_def example_captures_def
        parse_whitespace_separated_def split_whitespace_def is_whitespace_def scope_groups_def
        is_scope_path_def is_upper_def is_scope_char_def parse_action_def add_scope_def new_builder_def
        add_read_permission_def add_provide_permission_def set_expires_at_def build_permissions_def Let_def)
qed

theorem token_meaning_witness:
  "is_match glob_engine (perm_of A_Read example_permissions) ''Vehicle.Speed'' \<and>
   \<not> is_match glob_engine (perm_of A_Actuate example_permissions) ''Vehicle.Speed''"
proof -
  have spec: "scope_regex_spec example_captures" by (simp add: scope_regex_spec_def example_captures_def fun_eq_iff)
  have ws: "split_whitespace (cl_scope example_claims) = [''read:Vehicle.*'', ''provide'']"
    by (simp add: split_whitespace_def example_claims_def is_whitespace_def)
  have "components ''Vehicle.*'' = [''Vehicle'', ''*'']" "components ''Vehicle.Speed'' = [''Vehicle'', ''Speed'']"
    using components_dot [of "''Vehicle''" "''*''"] components_dot [of "''Vehicle''" "''Speed''"]
      components_leaf [of "''*''"] components_leaf [of "''Speed''"] by simp_all
  then have "glob_matches (components ''Vehicle.*'') ''Vehicle.Speed''"
    by (simp add: glob_matches_def piece_ok_def word_char_def is_whitespace_def)
  then have "word_grants A_Read ''read:Vehicle.*'' ''Vehicle.Speed''"
      "\<not> word_grants A_Actuate ''read:Vehicle.*'' ''Vehicle.Speed''" "\<not> word_grants A_Actuate ''provide'' ''Vehicle.Speed''"
    by (simp_all add: word_grants_def split_once_def parse_action_def)
  then show ?thesis
    using token_meaning [OF glob_engine_spec spec example_try_from_glob, of A_Read "''Vehicle.Speed''"]
      token_meaning [OF glob_engine_spec spec example_try_from_glob, of A_Actuate "''Vehicle.Speed''"] ws
    by simp
qed

end
