(* ===== verification/Jwt.thy ===== *)
theory Jwt
  imports Launch GlobMeaning
begin

text \<open>
  The token decoder (\<open>authorization/jwt/decoder.rs\<close>) in the running program: which tokens are let in, and
  what they allow.  The crate \<open>jsonwebtoken\<close> is the parameter \<open>jwt\<close>, with the documented behaviour of a
  validation \<open>jwt_spec\<close>; that a token carries claims under a signature, \<open>signature\<close>, is left to cryptography.
\<close>

section \<open>Decoder\<close>

record ('k, 'v) jsonwebtoken =
  from_rsa_pem :: "string \<Rightarrow> 'k option"
  new_validation :: "string \<Rightarrow> 'v"
  set_audience :: "'v \<Rightarrow> string list \<Rightarrow> 'v"
  jwt_decode :: "SystemTime \<Rightarrow> string \<Rightarrow> 'k \<Rightarrow> 'v \<Rightarrow> Claims option"

record ('k, 'v) Decoder =
  dec_key :: 'k
  dec_validator :: 'v

definition decoder_new :: "('k, 'v) jsonwebtoken \<Rightarrow> string \<Rightarrow> (('k, 'v) Decoder, JwtError) result" where
  "decoder_new jwt public_key =
     (case from_rsa_pem jwt public_key of
        None \<Rightarrow> Err PublicKeyError
      | Some decoding_key \<Rightarrow>
          (let validator = new_validation jwt ''RS256'';
               validator = set_audience jwt validator [''kuksa.val'']
           in Ok \<lparr>dec_key = decoding_key, dec_validator = validator\<rparr>))"

definition decoder_decode :: "('k, 'v) jsonwebtoken \<Rightarrow> SystemTime \<Rightarrow> ('k, 'v) Decoder \<Rightarrow> string \<Rightarrow> Claims option" where
  "decoder_decode jwt now decoder token = jwt_decode jwt now token (dec_key decoder) (dec_validator decoder)"

text \<open>What start-up keeps of a public key: the decoder, at the time \<open>now\<close> of a request.\<close>

definition decoder_of_key :: "('k, 'v) jsonwebtoken \<Rightarrow> SystemTime \<Rightarrow> string \<Rightarrow> (string \<Rightarrow> Claims option) option" where
  "decoder_of_key jwt now public_key =
     (case decoder_new jwt public_key of Ok decoder \<Rightarrow> Some (decoder_decode jwt now decoder) | Err _ \<Rightarrow> None)"

text \<open>
  A token is valid if it is signed with the algorithm and the key, one of the audiences of the
  validation is among its audiences, and it has not been expired for more than 60 seconds, the leeway of a new
  validation.
\<close>

definition jwt_spec :: "('k, 'v) jsonwebtoken \<Rightarrow> (string \<Rightarrow> 'k \<Rightarrow> string \<Rightarrow> Claims \<Rightarrow> bool) \<Rightarrow> bool" where
  "jwt_spec jwt signature \<longleftrightarrow>
     (\<forall>now token key algorithm audience claims.
        jwt_decode jwt now token key (set_audience jwt (new_validation jwt algorithm) audience) = Some claims \<longleftrightarrow>
        signature algorithm key token claims \<and> set audience \<inter> set (cl_aud claims) \<noteq> {} \<and>
        now div 1000000000 \<le> uint (cl_exp claims) + 60)"

section \<open>Access\<close>

lemma decoder_of_key_decodes:
  assumes "jwt_spec jwt signature" and "decoder_of_key jwt now public_key = Some decode"
  shows "\<exists>key. from_rsa_pem jwt public_key = Some key \<and>
    (\<forall>token claims. decode token = Some claims \<longleftrightarrow>
       signature ''RS256'' key token claims \<and> ''kuksa.val'' \<in> set (cl_aud claims) \<and>
       now div 1000000000 \<le> uint (cl_exp claims) + 60)"
  using assms
  by (auto simp: decoder_of_key_def decoder_new_def decoder_decode_def jwt_spec_def Let_def split: option.splits)

text \<open>The permissions of a token say the same about a path as its text, until it expires.\<close>

lemma claims_access:
  assumes "glob_regex_spec re" and "scope_regex_spec captures" and "permissions_try_from captures re claims = Ok ps"
  defines "granted a path \<equiv> \<exists>w\<in>set (split_whitespace (cl_scope claims)). word_grants a w path"
    and "valid time \<equiv> time \<le> uint (cl_exp claims) * 1000000000"
  shows "can_read re time ps path = Ok () \<longleftrightarrow> valid time \<and> (\<exists>a. granted a path)"
    "can_write_datapoint re time ps path = Ok () \<longleftrightarrow> valid time \<and> granted A_Provide path"
    "can_write_actuator_target re time ps path = Ok () \<longleftrightarrow> valid time \<and> granted A_Actuate path"
    "can_create re time ps path = Ok () \<longleftrightarrow> valid time \<and> granted A_Create path"
proof -
  have g: "is_match re (perm_of a ps) path \<longleftrightarrow> granted a path" for a
    using token_meaning [OF assms(1-3)] by (simp add: granted_def)
  have v: "has_expired time ps \<longleftrightarrow> \<not> valid time"
    using token_meaning [OF assms(1-3)] by (auto simp: has_expired_def valid_def)
  have "(\<exists>a. granted a path) \<longleftrightarrow> granted A_Read path \<or> granted A_Actuate path \<or> granted A_Provide path \<or> granted A_Create path"
    by (metis Action.exhaust)
  then show "can_read re time ps path = Ok () \<longleftrightarrow> valid time \<and> (\<exists>a. granted a path)"
    "can_write_datapoint re time ps path = Ok () \<longleftrightarrow> valid time \<and> granted A_Provide path"
    "can_write_actuator_target re time ps path = Ok () \<longleftrightarrow> valid time \<and> granted A_Actuate path"
    "can_create re time ps path = Ok () \<longleftrightarrow> valid time \<and> granted A_Create path"
    using g [of A_Read] g [of A_Actuate] g [of A_Provide] g [of A_Create] v by (auto simp: check_eqs)
qed

lemma launched_decoder:
  assumes "program env host tls_ok re start_time clock info args = Ok l"
    and "\<not> arg_disable_authorization (la_start args)" and "arg_jwt_public_key (la_start args) = Some file"
  shows "\<exists>pem decoder. read_to_string env file = Some pem \<and> new_decoder env pem = Some decoder \<and>
    (\<forall>service. map_of (gs_services (l_grpc l)) service = Some (Auth_Enabled decoder)) \<and>
    (\<forall>v. l_viss l = Some v \<longrightarrow> vl_authorization v = Auth_Enabled decoder)"
proof -
  obtain ip broker tls authorization where l:
    "start env re start_time clock info (la_start args) = Ok (broker, tls, authorization)"
    "gs_services (l_grpc l) = [(Broker_Service, authorization), (Collector_Service, authorization), (Val_Service, authorization)]"
    "l_viss l = (if la_enable_viss args \<and> bind_viss host (ip, la_viss_port args)
       then Some \<lparr>vl_address = (ip, la_viss_port args), vl_broker = broker, vl_authorization = authorization\<rparr> else None)"
    using program_Ok [OF assms(1)] by auto
  have "map_of (gs_services (l_grpc l)) service = Some authorization" for service
    using l(2) by (cases service) simp_all
  then show ?thesis
    using authorization_config_cases [OF start_authorization(2) [OF l(1)]] assms(2,3) l(3) by auto
qed

text \<open>
  C6.  Who may do what in the running program.  When a public key is configured, a request to any gRPC
  service, or to the VISS service, obtains permissions with a token only if the token is signed
  with RS256 under that key, names the audience \<open>kuksa.val\<close> and has not been expired for more
  than a minute.  Whoever presents it may then, up to the second of its expiration and not later, read exactly the paths that a
  word of its scope claim grants for any action, and write values, set targets and register entries exactly for the paths
  granted for providing, actuating and creating.
\<close>

theorem launched_token_access:
  assumes "program env host tls_ok re start_time clock info args = Ok l"
    and "\<not> arg_disable_authorization (la_start args)" and "arg_jwt_public_key (la_start args) = Some file"
    and "new_decoder env = decoder_of_key jwt now" and "jwt_spec jwt signature"
    and "glob_regex_spec re" and "scope_regex_spec captures"
    and "(\<exists>service h. to_str h = Some (''Bearer '' @ token) \<and>
            grpc_permissions captures re to_str (l_grpc l) service (Some h) = Some (Ok ps)) \<or>
         (\<exists>v. l_viss l = Some v \<and> resolve_permissions captures re (vl_authorization v) (Some token) = Some (Ok ps))"
  shows "\<exists>pem key claims. read_to_string env file = Some pem \<and> from_rsa_pem jwt pem = Some key \<and>
    signature ''RS256'' key token claims \<and> ''kuksa.val'' \<in> set (cl_aud claims) \<and> now div 1000000000 \<le> uint (cl_exp claims) + 60 \<and>
    (let granted = (\<lambda>a path. \<exists>w\<in>set (split_whitespace (cl_scope claims)). word_grants a w path);
         valid = (\<lambda>time. time \<le> uint (cl_exp claims) * 1000000000)
     in \<forall>time path.
       (can_read re time ps path = Ok () \<longleftrightarrow> valid time \<and> (\<exists>a. granted a path)) \<and>
       (can_write_datapoint re time ps path = Ok () \<longleftrightarrow> valid time \<and> granted A_Provide path) \<and>
       (can_write_actuator_target re time ps path = Ok () \<longleftrightarrow> valid time \<and> granted A_Actuate path) \<and>
       (can_create re time ps path = Ok () \<longleftrightarrow> valid time \<and> granted A_Create path))"
proof -
  obtain pem decoder where d: "read_to_string env file = Some pem" "decoder_of_key jwt now pem = Some decoder"
      "\<And>service. map_of (gs_services (l_grpc l)) service = Some (Auth_Enabled decoder)"
      "\<And>v. l_viss l = Some v \<Longrightarrow> vl_authorization v = Auth_Enabled decoder"
    using launched_decoder [OF assms(1-3)] assms(4) by auto
  have "token_permissions captures re decoder token ps"
    using assms(8) d(3,4) by (auto simp: grpc_permissions_def intercept_token resolve_token)
  then obtain claims where claims: "decoder token = Some claims" "permissions_try_from captures re claims = Ok ps"
    by (auto simp: token_permissions_def decode_token_def split: option.splits)
  obtain key where "from_rsa_pem jwt pem = Some key" "signature ''RS256'' key token claims" "''kuksa.val'' \<in> set (cl_aud claims)"
      "now div 1000000000 \<le> uint (cl_exp claims) + 60"
    using decoder_of_key_decodes [OF assms(5) d(2)] claims(1) by auto
  then show ?thesis
    using d(1) claims_access [OF assms(6,7) claims(2)] by (intro exI [of _ pem] exI [of _ key] exI [of _ claims]) (simp add: Let_def)
qed

text \<open>A validation that knows one token, with the permissions \<open>read:Vehicle.*\<close> and \<open>provide\<close>.\<close>

definition example_signed :: "string \<Rightarrow> unit \<Rightarrow> string \<Rightarrow> Claims \<Rightarrow> bool" where
  "example_signed algorithm key token claims \<longleftrightarrow> algorithm = ''RS256'' \<and> token = ''token'' \<and> claims = example_claims"

definition example_jwt :: "(unit, string \<times> string list) jsonwebtoken" where
  "example_jwt =
     \<lparr>from_rsa_pem = (\<lambda>_. Some ()), new_validation = (\<lambda>algorithm. (algorithm, [])), set_audience = (\<lambda>v audience. (fst v, audience)),
      jwt_decode = (\<lambda>now token key v.
        if example_signed (fst v) key token example_claims \<and> ''kuksa.val'' \<in> set (snd v) \<and> now div 1000000000 \<le> 69
        then Some example_claims else None)\<rparr>"

lemma example_jwt_spec: "jwt_spec example_jwt example_signed"
  by (auto simp: jwt_spec_def example_jwt_def example_signed_def example_claims_def)

lemma example_launch_jwt:
  "\<exists>l. program (example_env\<lparr>new_decoder := decoder_of_key example_jwt 0\<rparr>) example_host (\<lambda>_ _. True) glob_engine 1 (\<lambda>_ _. 1)
     \<lparr>bi_version = ''0.4'', bi_git_version = [], bi_cargo_version = [], bi_commit_sha = []\<rparr> example_launch = Ok l"
  by (simp add: program_def start_def example_launch_def example_host_def example_args_def example_env_def tls_config_def
      authorization_config_def new_authorization_def decoder_of_key_def decoder_new_def example_jwt_def
      grpc_serve_def serve_with_incoming_shutdown_def viss_serve_def Let_def)

theorem launched_token_access_witness:
  "\<exists>l. program (example_env\<lparr>new_decoder := decoder_of_key example_jwt 0\<rparr>) example_host (\<lambda>_ _. True) glob_engine 1 (\<lambda>_ _. 1)
      \<lparr>bi_version = ''0.4'', bi_git_version = [], bi_cargo_version = [], bi_commit_sha = []\<rparr> example_launch = Ok l \<and>
    grpc_permissions example_captures glob_engine Some (l_grpc l) Val_Service (Some ''Bearer token'') = Some (Ok example_permissions) \<and>
    can_write_datapoint glob_engine 9000000000 example_permissions ''Vehicle.Speed'' = Ok () \<and>
    can_write_datapoint glob_engine 9000000001 example_permissions ''Vehicle.Speed'' \<noteq> Ok ()"
proof -
  let ?env = "example_env\<lparr>new_decoder := decoder_of_key example_jwt 0\<rparr>"
  obtain l where l: "program ?env example_host (\<lambda>_ _. True) glob_engine 1 (\<lambda>_ _. 1)
      \<lparr>bi_version = ''0.4'', bi_git_version = [], bi_cargo_version = [], bi_commit_sha = []\<rparr> example_launch = Ok l"
    using example_launch_jwt by blast
  have args: "\<not> arg_disable_authorization (la_start example_launch)" "arg_jwt_public_key (la_start example_launch) = Some ''key.pub''"
    by (simp_all add: example_launch_def example_args_def)
  have spec: "scope_regex_spec example_captures" by (simp add: scope_regex_spec_def example_captures_def fun_eq_iff)
  have nd: "new_decoder ?env = decoder_of_key example_jwt 0" by simp
  obtain decoder pem where d: "decoder_of_key example_jwt 0 pem = Some decoder"
      "map_of (gs_services (l_grpc l)) Val_Service = Some (Auth_Enabled decoder)"
    using launched_decoder [OF l args] by auto
  have "decode_token decoder ''token'' = Ok example_claims"
    using d(1) by (auto simp: decode_token_def decoder_of_key_def decoder_new_def decoder_decode_def example_jwt_def example_signed_def Let_def)
  then have g: "grpc_permissions example_captures glob_engine Some (l_grpc l) Val_Service (Some ''Bearer token'') = Some (Ok example_permissions)"
    using d(2) example_try_from_glob by (auto simp: grpc_permissions_def intercept_token token_permissions_def)
  have ws: "split_whitespace (cl_scope example_claims) = [''read:Vehicle.*'', ''provide'']"
    by (simp add: split_whitespace_def example_claims_def is_whitespace_def)
  have provide: "word_grants A_Provide ''provide'' ''Vehicle.Speed''" "uint (cl_exp example_claims) = 9"
    by (simp_all add: word_grants_def split_once_def parse_action_def example_claims_def)
  have request: "(\<exists>service h. Some h = Some (''Bearer '' @ ''token'') \<and>
        grpc_permissions example_captures glob_engine Some (l_grpc l) service (Some h) = Some (Ok example_permissions)) \<or>
      (\<exists>v. l_viss l = Some v \<and>
        resolve_permissions example_captures glob_engine (vl_authorization v) (Some ''token'') = Some (Ok example_permissions))"
    using g by auto
  have "can_write_datapoint glob_engine 9000000000 example_permissions ''Vehicle.Speed'' = Ok ()"
    "can_write_datapoint glob_engine 9000000001 example_permissions ''Vehicle.Speed'' \<noteq> Ok ()"
    using launched_token_access [OF l args nd example_jwt_spec glob_engine_spec spec request] ws provide
    by (auto simp: Let_def example_signed_def)
  then show ?thesis using l g by blast
qed

end
