(* ===== verification/Client.thy ===== *)
theory Client
  imports Authorization Batches Val
begin

text \<open>
  The client shared by the client libraries (\<open>lib/common/src/lib.rs\<close>): its connection, its access
  token and the broadcast of its connection state.  The crates \<open>tonic\<close> and \<open>http\<close> are the
  parameters collected in the record \<open>network\<close>: which texts are header values, which TLS
  configurations are accepted, and which channel connecting to an address gives.  A channel is the
  server at its other end; the state of all servers is a function from channels, on which a call
  runs the interceptor and the handler of the service.  The parameters of the services are part of
  the record.  Texts of errors are left out.
\<close>

section \<open>Addresses\<close>

record UriParts =
  u_scheme :: "string option"
  u_authority :: "string option"
  u_path_and_query :: "string option"

datatype UriError = Uri_Parse | Uri_NoServer | Uri_Parts

definition to_uri ::
  "(string \<Rightarrow> UriParts option) \<Rightarrow> (UriParts \<Rightarrow> 'u option) \<Rightarrow> string \<Rightarrow> ('u, UriError) result" where
  "to_uri parse from_parts uri =
     (case parse uri of
        None \<Rightarrow> Err Uri_Parse
      | Some parts \<Rightarrow>
          (let parts = (if u_scheme parts = None then parts\<lparr>u_scheme := Some ''http''\<rparr> else parts)
           in case u_authority parts of
                Some _ \<Rightarrow>
                  (case from_parts (parts\<lparr>u_path_and_query := Some []\<rparr>) of
                     Some uri \<Rightarrow> Ok uri
                   | None \<Rightarrow> Err Uri_Parts)
              | None \<Rightarrow> Err Uri_NoServer))"

section \<open>The client\<close>

datatype ConnectionState = Connected | Disconnected

text \<open>\<open>proto::v1::Error\<close> is its code and its reason.\<close>

datatype ClientError = CE_Connection | CE_Status Status | CE_Function "(nat \<times> string) list"

datatype TokenError = MalformedTokenError

text \<open>A broadcast channel: how many receivers it has, and what was sent to them.\<close>

record state_broadcast =
  bc_receivers :: nat
  bc_sent :: "ConnectionState list"

record ('u, 't, 'c) Client =
  c_uri :: 'u
  c_token :: "string option"
  c_tls_config :: "'t option"
  c_channel :: "'c option"
  c_connection_state_subs :: "state_broadcast option"

record ('u, 't, 'c) network =
  net_ascii :: "string \<Rightarrow> bool"
  net_tls :: "'t \<Rightarrow> bool"
  net_connect :: "'u \<Rightarrow> 't option \<Rightarrow> 'c option"
  net_captures :: captures
  net_re :: regex_engine
  net_ts_from :: "SystemTime \<Rightarrow> Timestamp"
  net_ts_into :: "Timestamp \<Rightarrow> SystemTime option"
  net_parse_sql :: "string \<Rightarrow> sql_statement list option"
  net_aborted :: Status

definition new_client :: "'u \<Rightarrow> ('u, 't, 'c) Client" where
  "new_client uri = \<lparr>c_uri = uri, c_token = None, c_tls_config = None, c_channel = None,
     c_connection_state_subs = None\<rparr>"

definition set_tls_config :: "('u, 't, 'c) Client \<Rightarrow> 't \<Rightarrow> ('u, 't, 'c) Client" where
  "set_tls_config client tls_config = client\<lparr>c_tls_config := Some tls_config\<rparr>"

definition set_access_token ::
  "('u, 't, 'c) network \<Rightarrow> ('u, 't, 'c) Client \<Rightarrow> string \<Rightarrow> (unit, TokenError) result \<times> ('u, 't, 'c) Client" where
  "set_access_token net client token =
     (if net_ascii net (''Bearer '' @ token) then (Ok (), client\<lparr>c_token := Some (''Bearer '' @ token)\<rparr>)
      else (Err MalformedTokenError, client))"

definition is_connected :: "('u, 't, 'c) Client \<Rightarrow> bool" where
  "is_connected client \<longleftrightarrow> c_channel client \<noteq> None"

definition subscribe_to_connection_state :: "('u, 't, 'c) Client \<Rightarrow> ('u, 't, 'c) Client" where
  "subscribe_to_connection_state client =
     (case c_connection_state_subs client of
        Some tx \<Rightarrow> client\<lparr>c_connection_state_subs := Some (tx\<lparr>bc_receivers := bc_receivers tx + 1\<rparr>)\<rparr>
      | None \<Rightarrow> client\<lparr>c_connection_state_subs := Some \<lparr>bc_receivers = 1, bc_sent = []\<rparr>\<rparr>)"

text \<open>\<open>broadcast::Sender::send\<close> fails when there is no receiver.\<close>

definition send_state :: "state_broadcast \<Rightarrow> ConnectionState \<Rightarrow> state_broadcast option" where
  "send_state tx state =
     (if bc_receivers tx = 0 then None else Some (tx\<lparr>bc_sent := bc_sent tx @ [state]\<rparr>))"

definition try_create_channel ::
  "('u, 't, 'c) network \<Rightarrow> ('u, 't, 'c) Client \<Rightarrow> ('c, ClientError) result \<times> ('u, 't, 'c) Client" where
  "try_create_channel net client =
     (if (case c_tls_config client of Some tls_config \<Rightarrow> \<not> net_tls net tls_config | None \<Rightarrow> False)
      then (Err CE_Connection, client)
      else
        (case net_connect net (c_uri client) (c_tls_config client) of
           Some channel \<Rightarrow>
             (case c_connection_state_subs client of
                Some subs \<Rightarrow>
                  (case send_state subs Connected of
                     Some subs \<Rightarrow> (Ok channel, client\<lparr>c_connection_state_subs := Some subs, c_channel := Some channel\<rparr>)
                   | None \<Rightarrow> (Err CE_Connection, client))
              | None \<Rightarrow> (Ok channel, client\<lparr>c_channel := Some channel\<rparr>))
         | None \<Rightarrow>
             (Err CE_Connection,
              case c_connection_state_subs client of
                Some subs \<Rightarrow>
                  (case send_state subs Disconnected of
                     Some subs \<Rightarrow> client\<lparr>c_connection_state_subs := Some subs\<rparr>
                   | None \<Rightarrow> client)
              | None \<Rightarrow> client)))"

definition try_connect ::
  "('u, 't, 'c) network \<Rightarrow> ('u, 't, 'c) Client \<Rightarrow> (unit, ClientError) result \<times> ('u, 't, 'c) Client" where
  "try_connect net client =
     (case try_create_channel net client of (r, client) \<Rightarrow> (result_map (\<lambda>_. ()) r, client))"

definition try_connect_to ::
  "('u, 't, 'c) network \<Rightarrow> ('u, 't, 'c) Client \<Rightarrow> 'u \<Rightarrow> (unit, ClientError) result \<times> ('u, 't, 'c) Client" where
  "try_connect_to net client uri =
     (case try_create_channel net (client\<lparr>c_uri := uri\<rparr>) of (r, client) \<Rightarrow> (result_map (\<lambda>_. ()) r, client))"

definition get_channel ::
  "('u, 't, 'c) network \<Rightarrow> ('u, 't, 'c) Client \<Rightarrow> ('c, ClientError) result \<times> ('u, 't, 'c) Client" where
  "get_channel net client =
     (case c_channel client of
        None \<Rightarrow> try_create_channel net client
      | Some channel \<Rightarrow> (Ok channel, client))"

text \<open>The interceptor of the client: the \<open>authorization\<close> header of a request after it.\<close>

definition get_auth_interceptor :: "('u, 't, 'c) Client \<Rightarrow> string option \<Rightarrow> string option" where
  "get_auth_interceptor client header =
     (case c_token client of Some token \<Rightarrow> Some token | None \<Rightarrow> header)"

section \<open>Calls\<close>

record server =
  srv_authorization :: Authorization
  srv_broker :: DataBroker

type_synonym 'c servers = "'c \<Rightarrow> server"

text \<open>
  A call on a channel: the interceptor of the server reads the header that the interceptor of the
  client has set and puts the permissions into the request.  \<open>net_aborted\<close> is the status a
  client sees when the server panics.
\<close>

definition request_permissions ::
  "('u, 't, 'c) network \<Rightarrow> ('u, 't, 'c) Client \<Rightarrow> server \<Rightarrow> (Permissions, Status) result" where
  "request_permissions net client server =
     map_err (\<lambda>err. case err of Unauthenticated \<Rightarrow> St_Unauthenticated | AuthPanic \<Rightarrow> net_aborted net)
       (intercept (net_captures net) (net_re net) Some (srv_authorization server)
         (get_auth_interceptor client None))"

definition call ::
  "('u, 't, 'c) network \<Rightarrow> ('u, 't, 'c) Client \<Rightarrow> 'c \<Rightarrow> 'c servers \<Rightarrow>
   (Permissions option \<Rightarrow> DataBroker \<Rightarrow> ('a, Status) result \<times> DataBroker) \<Rightarrow>
   ('a, ClientError) result \<times> 'c servers" where
  "call net client channel w handler =
     (case request_permissions net client (w channel) of
        Err status \<Rightarrow> (Err (CE_Status status), w)
      | Ok permissions \<Rightarrow>
          (case handler (Some permissions) (srv_broker (w channel)) of
             (r, broker) \<Rightarrow> (map_err CE_Status r, w(channel := (w channel)\<lparr>srv_broker := broker\<rparr>))))"

type_synonym ('a, 'u, 't, 'c) client_method =
  "('u, 't, 'c) Client \<Rightarrow> 'c servers \<Rightarrow> ('a, ClientError) result \<times> ('u, 't, 'c) Client \<times> 'c servers"

text \<open>What every method of the client libraries does: get the channel, then call.\<close>

definition rpc ::
  "('u, 't, 'c) network \<Rightarrow>
   (Permissions option \<Rightarrow> DataBroker \<Rightarrow> ('a, Status) result \<times> DataBroker) \<Rightarrow>
   ('a, 'u, 't, 'c) client_method" where
  "rpc net handler client w =
     (case get_channel net client of
        (Err err, client) \<Rightarrow> (Err err, client, w)
      | (Ok channel, client) \<Rightarrow>
          (case call net client channel w handler of (r, w) \<Rightarrow> (r, client, w)))"

section \<open>Connections\<close>

lemma get_channel_connected: "c_channel client = Some ch \<Longrightarrow> get_channel net client = (Ok ch, client)"
  by (simp add: get_channel_def)

lemma try_create_channel_frame:
  assumes "try_create_channel net client = (r, client')"
  shows "c_uri client' = c_uri client" "c_token client' = c_token client" "c_tls_config client' = c_tls_config client"
    "c_channel client' = (case r of Ok ch \<Rightarrow> Some ch | Err _ \<Rightarrow> c_channel client)"
    "r = Ok ch \<Longrightarrow> net_connect net (c_uri client) (c_tls_config client) = Some ch"
  using assms by (auto simp: try_create_channel_def split: if_splits option.splits)

lemma rpc_connected:
  "c_channel client = Some ch \<Longrightarrow>
   rpc net handler client w = (case call net client ch w handler of (r, w) \<Rightarrow> (r, client, w))"
  by (simp add: rpc_def get_channel_connected)

lemma rpc_granted:
  assumes "c_channel client = Some ch" and "request_permissions net client (w ch) = Ok ps"
    and "handler (Some ps) (srv_broker (w ch)) = (r, b)"
  shows "rpc net handler client w = (map_err CE_Status r, client, w(ch := (w ch)\<lparr>srv_broker := b\<rparr>))"
  using assms by (simp add: rpc_connected call_def)

lemma rpc_refused:
  assumes "c_channel client = Some ch" and "request_permissions net client (w ch) = Err st"
  shows "rpc net handler client w = (Err (CE_Status st), client, w)"
  using assms by (simp add: rpc_connected call_def)

text \<open>Permissions do not depend on the state of the broker.\<close>

lemma request_permissions_broker [simp]:
  "request_permissions net client (s\<lparr>srv_broker := b\<rparr>) = request_permissions net client s"
  by (simp add: request_permissions_def)

lemma rpc_same_channel:
  assumes "c_channel client = Some ch" and "c_channel client' = Some ch" and "c_token client' = c_token client"
  shows "rpc net handler client' w = (case rpc net handler client w of (r, _, w') \<Rightarrow> (r, client', w'))"
proof -
  have "request_permissions net client' s = request_permissions net client s" for s
    using assms(3) by (simp add: request_permissions_def get_auth_interceptor_def)
  then show ?thesis using assms(1,2) by (simp add: rpc_connected call_def split: result.split prod.split)
qed

section \<open>What a server stores\<close>

text \<open>Why an update of an entry is refused.\<close>

definition entry_error ::
  "regex_engine \<Rightarrow> SystemTime \<Rightarrow> Permissions \<Rightarrow> string \<Rightarrow> Entry \<Rightarrow> EntryUpdate \<Rightarrow> UpdateError option" where
  "entry_error re now ps path e u =
     (if touches_metadata u then Some PermissionDenied
      else if writes_value u \<and> has_expired now ps then Some PermissionExpired
      else if \<not> write_granted re ps path u then Some PermissionDenied
      else case validate e (diff e u) of Ok _ \<Rightarrow> None | Err err \<Rightarrow> Some err)"

lemma update_entry_error:
  assumes "db_wf db" and "abs_db db path = Some e"
  shows "fst (update re now ps db (md_id (e_metadata e)) u) =
      (case entry_error re now ps path e u of None \<Rightarrow> Ok (changed_by e u) | Some err \<Rightarrow> Err err)"
    and "after_update re now ps db e u = (if entry_error re now ps path e u = None then updated_entry e u else e)"
proof -
  note e = abs_db_wf_path [OF assms]
  show "fst (update re now ps db (md_id (e_metadata e)) u) =
      (case entry_error re now ps path e u of None \<Rightarrow> Ok (changed_by e u) | Some err \<Rightarrow> Err err)"
    using e by (auto simp: update_eq entry_error_def split: result.split)
  then show "after_update re now ps db e u = (if entry_error re now ps path e u = None then updated_entry e u else e)"
    by (auto simp: after_update_def split: option.splits)
qed

lemma update_one:
  assumes wf: "db_wf (database b)" and e: "abs_db (database b) path = Some e"
    and one: "update_entries re now ps b [(md_id (e_metadata e), u)] = (r, b')"
  shows "r = (case entry_error re now ps path e u of None \<Rightarrow> Ok () | Some err \<Rightarrow> Err [(md_id (e_metadata e), err)])"
    and "abs_db (database b') =
      (if entry_error re now ps path e u = None then (abs_db (database b))(path \<mapsto> updated_entry e u)
       else abs_db (database b))"
    and "entry_error re now ps path e u \<noteq> None \<Longrightarrow> database b' = database b"
    and "db_wf (database b')"
proof -
  note error = update_entry_error [OF wf e, of re now ps u]
  show "r = (case entry_error re now ps path e u of None \<Rightarrow> Ok () | Some err \<Rightarrow> Err [(md_id (e_metadata e), err)])"
    using one update_single(1) [of re now ps b "md_id (e_metadata e)" u] error(1)
    by (cases "entry_error re now ps path e u") simp_all
  show "abs_db (database b') =
      (if entry_error re now ps path e u = None then (abs_db (database b))(path \<mapsto> updated_entry e u)
       else abs_db (database b))"
    using write_one [OF wf e, of re now ps u] one error(2) e by (simp add: fun_upd_idem)
  show "database b' = database b" if refused: "entry_error re now ps path e u \<noteq> None"
  proof -
    obtain err where "entry_error re now ps path e u = Some err" using refused by blast
    then have "fst (update re now ps (database b) (md_id (e_metadata e)) u) = Err err" using error(1) by simp
    then have "snd (update re now ps (database b) (md_id (e_metadata e)) u) = database b"
      using update_Err by (metis prod.collapse)
    then show ?thesis using one update_single(2) [of re now ps b "md_id (e_metadata e)" u] by simp
  qed
  show "db_wf (database b')" using update_entries_wf [OF wf, of re now ps "[(md_id (e_metadata e), u)]"] one by simp
qed

abbreviation server_map :: "server \<Rightarrow> string \<rightharpoonup> Entry" where
  "server_map s \<equiv> abs_db (database (srv_broker s))"

text \<open>A client with a channel, and a token that the server at its end accepts.\<close>

definition reaches ::
  "('u, 't, 'c) network \<Rightarrow> ('u, 't, 'c) Client \<Rightarrow> 'c servers \<Rightarrow> 'c \<Rightarrow> Permissions \<Rightarrow> bool" where
  "reaches net client w ch ps \<longleftrightarrow> c_channel client = Some ch \<and>
     request_permissions net client (w ch) = Ok ps \<and> db_wf (database (srv_broker (w ch)))"

definition only_broker_changed :: "'c servers \<Rightarrow> 'c \<Rightarrow> 'c servers \<Rightarrow> bool" where
  "only_broker_changed w ch w' \<longleftrightarrow> (\<exists>b. w' = w(ch := (w ch)\<lparr>srv_broker := b\<rparr>) \<and> db_wf (database b))"

lemma only_broker_changed_reaches:
  "reaches net client w ch ps \<Longrightarrow> only_broker_changed w ch w' \<Longrightarrow> reaches net client w' ch ps"
  by (auto simp: reaches_def only_broker_changed_def)

lemma only_broker_changed_refl: "reaches net client w ch ps \<Longrightarrow> only_broker_changed w ch w"
  by (auto simp: reaches_def only_broker_changed_def intro!: exI [of _ "srv_broker (w ch)"])

lemma only_broker_changed_trans:
  "only_broker_changed w ch w' \<Longrightarrow> only_broker_changed w' ch w'' \<Longrightarrow> only_broker_changed w ch w''"
  by (auto simp: only_broker_changed_def)

section \<open>Properties\<close>

text \<open>
  A failed change of server goes unnoticed by later calls.  When a connected client is told to
  connect to another address and cannot, it reports the error and, to those who listen, that it is
  disconnected; it now shows the new address, but it still holds the channel to the old server, says
  that it is connected, and all its calls go on to be served by the old server.
\<close>

theorem failed_reconnect_keeps_old_server:
  assumes "c_channel client = Some ch" and "try_connect_to net client uri = (res, client')"
    and "net_connect net uri (c_tls_config client) = None"
  shows "res = Err CE_Connection \<and> c_uri client' = uri \<and> is_connected client' \<and>
    rpc net handler client' w = (case rpc net handler client w of (r, _, w') \<Rightarrow> (r, client', w'))"
proof -
  obtain r where r: "try_create_channel net (client\<lparr>c_uri := uri\<rparr>) = (r, client')" "res = result_map (\<lambda>_. ()) r"
    using assms(2) by (auto simp: try_connect_to_def split: prod.splits)
  then have "r = Err CE_Connection"
    using assms(3) by (auto simp: try_create_channel_def split: if_splits option.splits)
  then show ?thesis
    using assms(1) r(2) try_create_channel_frame [OF r(1)] rpc_same_channel [OF assms(1), of client' net handler w]
    by (simp add: is_connected_def)
qed

definition small_network :: "(nat, unit, nat) network" where
  "small_network = \<lparr>net_ascii = (\<lambda>_. True), net_tls = (\<lambda>_. True), net_connect = (\<lambda>n _. if n < 10 then Some n else None),
     net_captures = example_captures, net_re = any_regex, net_ts_from = zero_ts, net_ts_into = (\<lambda>_. None),
     net_parse_sql = (\<lambda>_. None), net_aborted = St_Internal\<rparr>"

theorem failed_reconnect_keeps_old_server_witness:
  "\<exists>client1 client2. try_connect small_network (new_client 3) = (Ok (), client1) \<and>
     try_connect_to small_network client1 12 = (Err CE_Connection, client2) \<and>
     c_uri client2 = 12 \<and> is_connected client2 \<and>
     fst (rpc small_network (\<lambda>_ b. (Ok (database b), b)) client2
            (\<lambda>n. \<lparr>srv_authorization = Auth_Disabled, srv_broker = if n = 3 then example_broker else new_broker []\<rparr>)) =
       Ok example_db"
proof -
  let ?c = "(new_client 3 :: (nat, unit, nat) Client)\<lparr>c_channel := Some 3\<rparr>"
  let ?w = "\<lambda>n :: nat. \<lparr>srv_authorization = Auth_Disabled, srv_broker = if n = 3 then example_broker else new_broker []\<rparr>"
  obtain res client2 where t: "try_connect_to small_network ?c 12 = (res, client2)" by fastforce
  have c: "try_connect small_network (new_client 3) = (Ok (), ?c)"
    by (simp add: try_connect_def try_create_channel_def new_client_def small_network_def)
  have "fst (rpc small_network (\<lambda>_ b. (Ok (database b), b)) ?c ?w) = Ok example_db"
    by (simp add: rpc_def get_channel_def call_def request_permissions_def intercept_def)
  then show ?thesis
    using c t failed_reconnect_keeps_old_server [of ?c 3 small_network 12 res client2 "\<lambda>_ b. (Ok (database b), b)" ?w]
    by (auto simp: small_network_def split: prod.splits)
qed

text \<open>
  A client that the server does not know changes nothing.  On a server with authorization, every
  call of a connected client without a token, or with a token that the server cannot decode, fails as
  unauthenticated, whatever the method, and no server changes.
\<close>

theorem unauthenticated_calls_change_nothing:
  assumes "c_channel client = Some ch" and "srv_authorization (w ch) = Auth_Enabled decode"
    and "\<forall>token. c_token client = Some (''Bearer '' @ token) \<longrightarrow> decode token = None"
  shows "rpc net handler client w = (Err (CE_Status St_Unauthenticated), client, w)"
proof -
  have "request_permissions net client (w ch) = Err St_Unauthenticated"
    using assms(2,3)
    by (auto simp: request_permissions_def get_auth_interceptor_def intercept_def decode_token_def prefix_def Let_def
        split: option.splits)
  then show ?thesis using assms(1) by (simp add: rpc_refused)
qed

theorem unauthenticated_calls_change_nothing_witness:
  "rpc small_network (\<lambda>_ b. (Ok (), new_broker [])) ((new_client 0)\<lparr>c_channel := Some 0, c_token := Some ''Bearer x''\<rparr>)
     (\<lambda>_. \<lparr>srv_authorization = Auth_Enabled (\<lambda>_. None), srv_broker = example_broker\<rparr>) =
   (Err (CE_Status St_Unauthenticated), (new_client 0)\<lparr>c_channel := Some 0, c_token := Some ''Bearer x''\<rparr>,
    \<lambda>_. \<lparr>srv_authorization = Auth_Enabled (\<lambda>_. None), srv_broker = example_broker\<rparr>)"
  by (rule unauthenticated_calls_change_nothing [where ch = 0 and decode = "\<lambda>_. None"]) simp_all

end
