(* ===== verification/KuksaClient.thy ===== *)
theory KuksaClient
  imports Client GlobMeaning
begin

text \<open>
  The client library for \<open>kuksa.val.v1\<close> (\<open>lib/kuksa/src/lib.rs\<close>).  Its methods make one call per
  path, one after the other; \<open>clock n\<close> is the time at which the server serves the n-th of them.
  The reference \<open>write_values\<close> says what a sequence of writes does to the map from paths to entries
  of the server, and the methods are shown to implement it.
\<close>

section \<open>The methods\<close>

text \<open>The errors of a response, the global one first.\<close>

definition response_errors :: "DataEntryError option \<Rightarrow> DataEntryError list \<Rightarrow> (nat \<times> string) list" where
  "response_errors error errors =
     (case error of Some err \<Rightarrow> [(err_code err, err_reason err)] | None \<Rightarrow> []) @
     map (\<lambda>err. (err_code err, err_reason err)) errors"

definition kuksa_set ::
  "('u, 't, 'c) network \<Rightarrow> SystemTime \<Rightarrow> DataEntry \<Rightarrow> int list \<Rightarrow> (unit, 'u, 't, 'c) client_method" where
  "kuksa_set net now entry flds client w =
     (case rpc net (\<lambda>permissions broker. val_set (net_re net) (net_ts_into net) now permissions broker
                      [\<lparr>se_entry = Some entry, se_fields = flds\<rparr>]) client w of
        (Ok errors, client, w) \<Rightarrow>
          (let errors = response_errors None errors
           in if errors = [] then (Ok (), client, w) else (Err (CE_Function errors), client, w))
      | (Err err, client, w) \<Rightarrow> (Err err, client, w))"

definition view_code :: "View \<Rightarrow> int" where
  "view_code view =
     (case view of V_Unspecified \<Rightarrow> 0 | V_CurrentValue \<Rightarrow> 1 | V_TargetValue \<Rightarrow> 2 | V_Metadata \<Rightarrow> 3
      | V_Fields \<Rightarrow> 10 | V_All \<Rightarrow> 20)"

definition field_code :: "ProtoField \<Rightarrow> int" where
  "field_code f =
     (case f of PF_Unspecified \<Rightarrow> 0 | PF_Path \<Rightarrow> 1 | PF_Value \<Rightarrow> 2 | PF_ActuatorTarget \<Rightarrow> 3 | PF_Metadata \<Rightarrow> 10
      | PF_MetadataDataType \<Rightarrow> 11 | PF_MetadataDescription \<Rightarrow> 12 | PF_MetadataEntryType \<Rightarrow> 13
      | PF_MetadataComment \<Rightarrow> 14 | PF_MetadataDeprecation \<Rightarrow> 15 | PF_MetadataUnit \<Rightarrow> 16
      | PF_MetadataValueRestriction \<Rightarrow> 17 | PF_MetadataActuator \<Rightarrow> 20 | PF_MetadataSensor \<Rightarrow> 30
      | PF_MetadataAttribute \<Rightarrow> 40)"

definition kuksa_get ::
  "('u, 't, 'c) network \<Rightarrow> SystemTime \<Rightarrow> string \<Rightarrow> View \<Rightarrow> int list \<Rightarrow> (DataEntry list, 'u, 't, 'c) client_method" where
  "kuksa_get net now path view flds client w =
     (case rpc net (\<lambda>permissions broker. (val_get (net_re net) (net_ts_from net) now permissions broker
                      [\<lparr>er_path = path, er_view = view_code view, er_fields = flds\<rparr>], broker)) client w of
        (Ok message, client, w) \<Rightarrow>
          (let errors = response_errors (gr_error message) (gr_errors message)
           in if errors \<noteq> [] then (Err (CE_Function errors), client, w) else (Ok (gr_entries message), client, w))
      | (Err err, client, w) \<Rightarrow> (Err err, client, w))"

fun get_paths ::
  "('u, 't, 'c) network \<Rightarrow> (nat \<Rightarrow> SystemTime) \<Rightarrow> View \<Rightarrow> int list \<Rightarrow> string list \<Rightarrow> DataEntry list \<Rightarrow>
   (DataEntry list, 'u, 't, 'c) client_method" where
  "get_paths net clock view flds [] result client w = (Ok result, client, w)"
| "get_paths net clock view flds (path # paths) result client w =
     (case kuksa_get net (clock 0) path view flds client w of
        (Ok entry, client, w) \<Rightarrow>
          get_paths net (\<lambda>n. clock (Suc n)) view flds paths (result @ entry) client w
      | (Err err, client, w) \<Rightarrow> (Err err, client, w))"

definition kuksa_get_metadata ::
  "('u, 't, 'c) network \<Rightarrow> (nat \<Rightarrow> SystemTime) \<Rightarrow> string list \<Rightarrow> (DataEntry list, 'u, 't, 'c) client_method" where
  "kuksa_get_metadata net clock paths =
     get_paths net clock V_Metadata [field_code PF_Metadata] paths []"

definition get_current_values ::
  "('u, 't, 'c) network \<Rightarrow> (nat \<Rightarrow> SystemTime) \<Rightarrow> string list \<Rightarrow> (DataEntry list, 'u, 't, 'c) client_method" where
  "get_current_values net clock paths =
     get_paths net clock V_CurrentValue [field_code PF_Value, field_code PF_Metadata] paths []"

definition get_target_values ::
  "('u, 't, 'c) network \<Rightarrow> (nat \<Rightarrow> SystemTime) \<Rightarrow> string list \<Rightarrow> (DataEntry list, 'u, 't, 'c) client_method" where
  "get_target_values net clock paths =
     get_paths net clock V_TargetValue [field_code PF_ActuatorTarget, field_code PF_Metadata] paths []"

fun set_entries ::
  "('u, 't, 'c) network \<Rightarrow> (nat \<Rightarrow> SystemTime) \<Rightarrow> int list \<Rightarrow> DataEntry list \<Rightarrow>
   (unit, 'u, 't, 'c) client_method" where
  "set_entries net clock flds [] client w = (Ok (), client, w)"
| "set_entries net clock flds (entry # rest) client w =
     (case kuksa_set net (clock 0) entry flds client w of
        (Ok _, client, w) \<Rightarrow> set_entries net (\<lambda>n. clock (Suc n)) flds rest client w
      | (Err err, client, w) \<Rightarrow> (Err err, client, w))"

definition set_current_values ::
  "('u, 't, 'c) network \<Rightarrow> (nat \<Rightarrow> SystemTime) \<Rightarrow> (string \<times> ProtoDatapoint) list \<Rightarrow> (unit, 'u, 't, 'c) client_method" where
  "set_current_values net clock datapoints =
     set_entries net clock [field_code PF_Value, field_code PF_Path]
       (map (\<lambda>(path, datapoint). \<lparr>de_path = path, de_value = Some datapoint, de_actuator_target = None,
          de_metadata = None\<rparr>) datapoints)"

definition set_target_values ::
  "('u, 't, 'c) network \<Rightarrow> (nat \<Rightarrow> SystemTime) \<Rightarrow> (string \<times> ProtoDatapoint) list \<Rightarrow> (unit, 'u, 't, 'c) client_method" where
  "set_target_values net clock datapoints =
     set_entries net clock [field_code PF_ActuatorTarget, field_code PF_Path]
       (map (\<lambda>(path, datapoint). \<lparr>de_path = path, de_value = None, de_actuator_target = Some datapoint,
          de_metadata = None\<rparr>) datapoints)"

definition set_metadata ::
  "('u, 't, 'c) network \<Rightarrow> (nat \<Rightarrow> SystemTime) \<Rightarrow> (string \<times> ProtoMetadata) list \<Rightarrow> (unit, 'u, 't, 'c) client_method" where
  "set_metadata net clock metadatas =
     set_entries net clock [field_code PF_Metadata, field_code PF_Path]
       (map (\<lambda>(path, metadata). \<lparr>de_path = path, de_value = None, de_actuator_target = None,
          de_metadata = Some metadata\<rparr>) metadatas)"

definition subscribe_paths ::
  "('u, 't, 'c) network \<Rightarrow> SystemTime \<Rightarrow> int list \<Rightarrow> string list \<Rightarrow> (ChangeSubscription, 'u, 't, 'c) client_method" where
  "subscribe_paths net now flds paths =
     rpc net (\<lambda>permissions broker. val_subscribe (net_re net) now permissions broker
       (map (\<lambda>path. \<lparr>sub_path = path, sub_fields = flds\<rparr>) paths))"

definition subscribe_current_values ::
  "('u, 't, 'c) network \<Rightarrow> SystemTime \<Rightarrow> string list \<Rightarrow> (ChangeSubscription, 'u, 't, 'c) client_method" where
  "subscribe_current_values net now paths = subscribe_paths net now [field_code PF_Value, field_code PF_Metadata] paths"

definition kuksa_subscribe ::
  "('u, 't, 'c) network \<Rightarrow> SystemTime \<Rightarrow> string list \<Rightarrow> (ChangeSubscription, 'u, 't, 'c) client_method" where
  "kuksa_subscribe net now paths = subscribe_current_values net now paths"

definition subscribe_target_values ::
  "('u, 't, 'c) network \<Rightarrow> SystemTime \<Rightarrow> string list \<Rightarrow> (ChangeSubscription, 'u, 't, 'c) client_method" where
  "subscribe_target_values net now paths = subscribe_paths net now [field_code PF_ActuatorTarget] paths"

definition subscribe_metadata ::
  "('u, 't, 'c) network \<Rightarrow> SystemTime \<Rightarrow> string list \<Rightarrow> (ChangeSubscription, 'u, 't, 'c) client_method" where
  "subscribe_metadata net now paths = subscribe_paths net now [field_code PF_Metadata] paths"

lemma field_from_code: "field_from_i32 (field_code f) = Some f"
  by (cases f) (simp_all add: field_from_i32_def field_code_def)

lemma view_from_code: "view_from_i32 (view_code v) = Some v"
  by (cases v) (simp_all add: view_from_i32_def view_code_def)

section \<open>Writing as seen from outside\<close>

definition set_one ::
  "regex_engine \<Rightarrow> SystemTime \<Rightarrow> Permissions \<Rightarrow> (Entry \<Rightarrow> bool) \<Rightarrow> string \<Rightarrow> EntryUpdate \<Rightarrow> (string \<rightharpoonup> Entry) \<Rightarrow>
   (unit, ClientError) result \<times> (string \<rightharpoonup> Entry)" where
  "set_one re now ps admissible path u m =
     (case m path of
        None \<Rightarrow> (Err (CE_Function [(404, ''not_found'')]), m)
      | Some e \<Rightarrow>
          if \<not> admissible e then (Err (CE_Status St_InvalidArgument), m)
          else
            (case entry_error re now ps path e u of
               Some err \<Rightarrow> (Err (CE_Function (response_errors None [update_error path err])), m)
             | None \<Rightarrow> (Ok (), m(path \<mapsto> updated_entry e u))))"

text \<open>The reference: one write after the other, up to the first that is refused.\<close>

fun write_values ::
  "regex_engine \<Rightarrow> (nat \<Rightarrow> SystemTime) \<Rightarrow> Permissions \<Rightarrow> (Entry \<Rightarrow> bool) \<Rightarrow> (SystemTime \<Rightarrow> 'x \<Rightarrow> EntryUpdate) \<Rightarrow>
   (string \<times> 'x) list \<Rightarrow> (string \<rightharpoonup> Entry) \<Rightarrow> (unit, ClientError) result \<times> (string \<rightharpoonup> Entry)" where
  "write_values re clock ps admissible upd [] m = (Ok (), m)"
| "write_values re clock ps admissible upd ((path, x) # rest) m =
     (case set_one re (clock 0) ps admissible path (upd (clock 0) x) m of
        (Ok _, m) \<Rightarrow> write_values re (\<lambda>n. clock (Suc n)) ps admissible upd rest m
      | (Err err, m) \<Rightarrow> (Err err, m))"

definition admissible_entry :: "DataEntry \<Rightarrow> Entry \<Rightarrow> bool" where
  "admissible_entry entry e \<longleftrightarrow> de_actuator_target entry = None \<or> md_entry_type (e_metadata e) = Actuator"

lemma update_nothing: "update_entries re now ps b [] = (Ok (), b') \<Longrightarrow> database b' = database b"
  using update_entries_database [of re now ps b "[]"] by simp

definition set_outcome :: "(DataEntryError list, Status) result \<Rightarrow> (unit, ClientError) result" where
  "set_outcome r =
     (case r of
        Err st \<Rightarrow> Err (CE_Status st)
      | Ok errs \<Rightarrow> if errs = [] then Ok () else Err (CE_Function (response_errors None errs)))"

lemma val_set_one:
  assumes wf: "db_wf (database b)"
    and set: "val_set re ts_into now (Some ps) b [\<lparr>se_entry = Some entry, se_fields = flds\<rparr>] = (r, b')"
  shows "db_wf (database b') \<and> (set_outcome r, abs_db (database b')) =
    set_one re now ps (admissible_entry entry) (de_path entry)
      (from_proto_entry_and_fields ts_into now entry (known_fields flds)) (abs_db (database b))"
proof (cases "abs_db (database b) (de_path entry)")
  case None
  obtain r1 b1 where n: "update_entries re now ps b [] = (r1, b1)" by (cases "update_entries re now ps b []")
  then have "r1 = Ok ()" using update_entries_result [of re now ps b "[]"] by simp
  then have "b' = b1" "database b1 = database b"
      "r = Ok [\<lparr>err_path = de_path entry, err_code = 404, err_reason = ''not_found''\<rparr>]"
    using set None n update_nothing by (auto simp: val_set_def get_id_by_path_abs)
  then show ?thesis using wf None by (simp add: set_one_def set_outcome_def response_errors_def)
next
  case (Some e)
  note e = abs_db_wf_path [OF wf Some]
  let ?u = "from_proto_entry_and_fields ts_into now entry (known_fields flds)"
  have md: "get_metadata b (md_id (e_metadata e)) = Some (e_metadata e)"
    using e by (simp add: get_metadata_def get_metadata_by_id_def)
  show ?thesis
  proof (cases "admissible_entry entry e")
    case False
    then show ?thesis using set Some md wf
      by (auto simp: val_set_def set_one_def set_outcome_def admissible_entry_def get_id_by_path_abs)
  next
    case True
    have collect: "collect_updates ts_into now b [\<lparr>se_entry = Some entry, se_fields = flds\<rparr>] [] [] =
        Ok ([(md_id (e_metadata e), ?u)], [])"
      using True Some md by (auto simp: admissible_entry_def get_id_by_path_abs)
    obtain r1 b1 where one: "update_entries re now ps b [(md_id (e_metadata e), ?u)] = (r1, b1)"
      by (cases "update_entries re now ps b [(md_id (e_metadata e), ?u)]")
    note o = update_one [OF wf Some one]
    show ?thesis
    proof (cases "entry_error re now ps (de_path entry) e ?u")
      case None
      then have "b' = b1" "r = Ok []" using set collect one o(1) by (auto simp: val_set_def simp del: collect_updates.simps)
      then show ?thesis using None o True Some by (simp add: set_one_def set_outcome_def)
    next
      case err: (Some err)
      then have "get_metadata b1 (md_id (e_metadata e)) = Some (e_metadata e)" using md o(3) by (simp add: get_metadata_def)
      then have "b' = b1" "r = Ok [update_error (de_path entry) err]"
        using set collect one o(1) err e by (auto simp: val_set_def simp del: collect_updates.simps)
      then show ?thesis using err o True Some by (simp add: set_one_def set_outcome_def)
    qed
  qed
qed

section \<open>The methods implement the reference\<close>

lemma kuksa_set_one:
  assumes r: "reaches net client w ch ps" and set: "kuksa_set net now entry flds client w = (res, client', w')"
  shows "client' = client \<and> only_broker_changed w ch w' \<and>
    (res, server_map (w' ch)) =
      set_one (net_re net) now ps (admissible_entry entry) (de_path entry)
        (from_proto_entry_and_fields (net_ts_into net) now entry (known_fields flds)) (server_map (w ch))"
proof -
  obtain q b where v: "val_set (net_re net) (net_ts_into net) now (Some ps) (srv_broker (w ch))
      [\<lparr>se_entry = Some entry, se_fields = flds\<rparr>] = (q, b)" by (metis prod.exhaust)
  have "rpc net (\<lambda>permissions broker. val_set (net_re net) (net_ts_into net) now permissions broker
      [\<lparr>se_entry = Some entry, se_fields = flds\<rparr>]) client w =
      (map_err CE_Status q, client, w(ch := (w ch)\<lparr>srv_broker := b\<rparr>))"
    using r v by (intro rpc_granted) (auto simp: reaches_def)
  then have "w' = w(ch := (w ch)\<lparr>srv_broker := b\<rparr>)" "client' = client" "res = set_outcome q"
    using set by (auto simp: kuksa_set_def set_outcome_def response_errors_def split: result.splits if_splits)
  then show ?thesis using val_set_one [OF _ v] r by (auto simp: reaches_def only_broker_changed_def)
qed

lemma set_entries_refines:
  assumes "reaches net client w ch ps"
    and "set_entries net clock flds (map mk xs) client w = (res, client', w')"
    and "\<And>x. admissible_entry (mk x) = admissible" and "\<And>x. de_path (mk x) = fst x"
    and "\<And>now x. from_proto_entry_and_fields (net_ts_into net) now (mk x) (known_fields flds) = upd now (snd x)"
  shows "client' = client \<and> only_broker_changed w ch w' \<and>
    (res, server_map (w' ch)) = write_values (net_re net) clock ps admissible upd xs (server_map (w ch))"
  using assms(1,2)
proof (induction xs arbitrary: clock w)
  case Nil
  then show ?case using only_broker_changed_refl by auto
next
  case (Cons x xs)
  obtain q client1 w1 where s: "kuksa_set net (clock 0) (mk x) flds client w = (q, client1, w1)"
    by (metis prod.exhaust)
  note one = kuksa_set_one [OF Cons.prems(1) s]
  obtain path v where x: "x = (path, v)" by (cases x)
  show ?case
  proof (cases q)
    case (Ok a)
    then have rest: "set_entries net (\<lambda>n. clock (Suc n)) flds (map mk xs) client w1 = (res, client', w')"
      using Cons.prems(2) s one by simp
    have c: "only_broker_changed w ch w1" using one by blast
    have "set_one (net_re net) (clock 0) ps admissible path (upd (clock 0) v) (server_map (w ch)) = (Ok a, server_map (w1 ch))"
      using one Ok assms(3-5) x by simp
    then show ?thesis
      using Cons.IH [OF only_broker_changed_reaches [OF Cons.prems(1) c] rest] only_broker_changed_trans [OF c] x by simp
  next
    case (Err err)
    then have "res = Err err" "client' = client1" "w' = w1" using Cons.prems(2) s by auto
    moreover have "set_one (net_re net) (clock 0) ps admissible path (upd (clock 0) v) (server_map (w ch)) = (Err err, server_map (w1 ch))"
      using one Err assms(3-5) x by simp
    ultimately show ?thesis using one x by simp
  qed
qed

definition client_value_update :: "(Timestamp \<Rightarrow> SystemTime option) \<Rightarrow> SystemTime \<Rightarrow> ProtoDatapoint \<Rightarrow> EntryUpdate" where
  "client_value_update ts_into now d = default_update\<lparr>upd_datapoint := Some (datapoint_of_proto ts_into now d)\<rparr>"

definition client_target_update :: "(Timestamp \<Rightarrow> SystemTime option) \<Rightarrow> SystemTime \<Rightarrow> ProtoDatapoint \<Rightarrow> EntryUpdate" where
  "client_target_update ts_into now d = default_update\<lparr>upd_actuator_target := Some (Some (datapoint_of_proto ts_into now d))\<rparr>"

definition is_actuator :: "Entry \<Rightarrow> bool" where
  "is_actuator e \<longleftrightarrow> md_entry_type (e_metadata e) = Actuator"

lemma known_codes: "known_fields (map field_code fs) = set fs"
  by (induction fs) (auto simp: known_fields_def map_filter_simps field_from_code)

lemma known_codes2 [simp]:
  "known_fields [field_code f] = {f}" "known_fields [field_code f, field_code g] = {f, g}"
  using known_codes [of "[f]"] known_codes [of "[f, g]"] by simp_all

lemma set_current_values_refines:
  assumes "reaches net client w ch ps" and "set_current_values net clock xs client w = (res, client', w')"
  shows "client' = client \<and> only_broker_changed w ch w' \<and>
    (res, server_map (w' ch)) =
      write_values (net_re net) clock ps (\<lambda>_. True) (client_value_update (net_ts_into net)) xs (server_map (w ch))"
  using assms(2) unfolding set_current_values_def
  by (rule set_entries_refines [OF assms(1)])
    (auto simp: admissible_entry_def fun_eq_iff from_proto_entry_and_fields_def client_value_update_def default_update_def)

lemma set_target_values_refines:
  assumes "reaches net client w ch ps" and "set_target_values net clock xs client w = (res, client', w')"
  shows "client' = client \<and> only_broker_changed w ch w' \<and>
    (res, server_map (w' ch)) =
      write_values (net_re net) clock ps is_actuator (client_target_update (net_ts_into net)) xs (server_map (w ch))"
  using assms(2) unfolding set_target_values_def
  by (rule set_entries_refines [OF assms(1)])
    (auto simp: admissible_entry_def is_actuator_def fun_eq_iff from_proto_entry_and_fields_def client_target_update_def
      default_update_def)

text \<open>An update of nothing is granted to everybody.\<close>

lemma empty_entry_error: "entry_error re now ps path e default_update = None" "updated_entry e default_update = e"
  by (auto simp: entry_error_def touches_metadata_def writes_value_def write_granted_def validate_def diff_def
      updated_entry_def apply_update_def default_update_def)

lemma set_nothing:
  "write_values re clock ps (\<lambda>_. True) (\<lambda>_ _. default_update) xs m =
     (if \<forall>(path, _)\<in>set xs. m path \<noteq> None then Ok () else Err (CE_Function [(404, ''not_found'')]), m)"
proof (induction xs arbitrary: clock)
  case (Cons x xs)
  then show ?case by (cases x; cases "m (fst x)") (auto simp: set_one_def empty_entry_error fun_upd_idem)
qed simp

lemma set_metadata_refines:
  assumes "reaches net client w ch ps" and "set_metadata net clock xs client w = (res, client', w')"
  shows "client' = client \<and> only_broker_changed w ch w' \<and>
    (res, server_map (w' ch)) = write_values (net_re net) clock ps (\<lambda>_. True) (\<lambda>_ _. default_update) xs (server_map (w ch))"
  using assms(2) unfolding set_metadata_def
  by (rule set_entries_refines [OF assms(1)])
    (auto simp: admissible_entry_def fun_eq_iff from_proto_entry_and_fields_def default_update_def)

section \<open>Reading\<close>

definition read_answer ::
  "('u, 't, 'c) network \<Rightarrow> SystemTime \<Rightarrow> Permissions \<Rightarrow> (string \<Rightarrow> bool) \<Rightarrow> ProtoField set \<Rightarrow> Database \<Rightarrow>
   (DataEntry list, ClientError) result" where
  "read_answer net now ps matches flds db =
     (let found = filter (\<lambda>a. matches (md_path (era_metadata a))) (iter_entries (net_re net) now ps db)
      in if found = [] then Err (CE_Function [(404, ''not_found''), (404, ''not_found'')])
         else if \<exists>a\<in>set found. \<not> is_ok (era_datapoint a)
         then Err (CE_Function [(403, ''forbidden''), (403, ''forbidden'')])
         else Ok (map (\<lambda>a. proto_entry_from_entry_and_fields (net_ts_from net) a flds) found))"

lemma val_get_first_error:
  "val_get re ts_from now perms b reqs = Ok resp \<Longrightarrow>
   gr_error resp = (case gr_errors resp of [] \<Rightarrow> None | e # _ \<Rightarrow> Some e)"
  by (cases "fill_valid_requests re reqs [] []")
    (auto simp: val_get_def Let_def split: option.splits if_splits prod.splits)

lemma kuksa_get_answer:
  assumes r: "reaches net client w ch ps" and re: "to_regex (net_re net) path = Ok matches"
    and path: "CHR ''*'' \<in> set path \<Longrightarrow> is_valid_pattern (net_re net) path"
    and wants: "PF_Value \<in> flds \<or> PF_ActuatorTarget \<in> flds"
    and flds: "flds = combine_view_and_fields view (known_fields codes)"
  shows "kuksa_get net now path view codes client w =
    (read_answer net now ps matches flds (database (srv_broker (w ch))), client, w)"
proof -
  let ?reqs = "[\<lparr>er_path = path, er_view = view_code view, er_fields = codes\<rparr>]"
  let ?req = "\<lparr>vr_regex = matches, vr_fields = flds, vr_path = path, vr_is_match = False, vr_error = None\<rparr>"
  let ?b = "srv_broker (w ch)"
  let ?as = "iter_entries (net_re net) now ps (database ?b)"
  have "fill_valid_requests (net_re net) ?reqs [] [] = Ok ([?req], [])"
    using re path flds by (simp add: view_from_code)
  from val_get_eq [OF _ this refl, where now = now and ps = ps and broker = ?b and ts_from = "net_ts_from net"]
  obtain resp where resp: "val_get (net_re net) (net_ts_from net) now (Some ps) ?b ?reqs = Ok resp"
    and entries: "gr_entries resp = (if \<exists>a\<in>set ?as. denied ?req a then [] else answer (net_ts_from net) [?req] ?as)"
    and errors: "gr_errors resp = request_error ?as ?req" by auto
  have call: "rpc net (\<lambda>permissions broker. (val_get (net_re net) (net_ts_from net) now permissions broker ?reqs, broker)) client w =
      (Ok resp, client, w)"
    using rpc_granted [of client ch net w ps _ "Ok resp" ?b] r resp by (simp add: reaches_def)
  have "flds \<noteq> {}" using wants by auto
  then have "\<not> denied ?req a \<Longrightarrow> entry_fields [?req] a = (if matches (md_path (era_metadata a)) then flds else {})" for a
    using wants by (auto simp: entry_fields_def granted_fields_def selects_def denied_def wants_value_def)
  then have "\<not> (\<exists>a\<in>set ?as. denied ?req a) \<Longrightarrow> answer (net_ts_from net) [?req] ?as =
      map (\<lambda>a. proto_entry_from_entry_and_fields (net_ts_from net) a flds) (filter (\<lambda>a. matches (md_path (era_metadata a))) ?as)"
    using \<open>flds \<noteq> {}\<close> by (auto simp: answer_def intro!: map_cong filter_cong)
  then show ?thesis
    using call entries errors val_get_first_error [OF resp] wants
    by (auto simp: kuksa_get_def read_answer_def request_error_def response_errors_def selects_def denied_def
        wants_value_def filter_empty_conv Let_def)
qed

text \<open>A sequence of answers, up to the first error.\<close>

fun collect_results :: "('a list, 'e) result list \<Rightarrow> ('a list, 'e) result" where
  "collect_results [] = Ok []"
| "collect_results (r # rs) = result_bind r (\<lambda>xs. result_map (\<lambda>ys. xs @ ys) (collect_results rs))"

lemma result_map_append: "result_map ((@) (xs @ ys)) r = result_map ((@) xs) (result_map ((@) ys) r)"
  by (cases r) simp_all

lemma result_map_Nil: "result_map ((@) []) r = r"
  by (cases r) simp_all

lemma get_paths_answer:
  assumes "\<And>n path. path \<in> set paths \<Longrightarrow>
      kuksa_get net (clock n) path view codes client w = (f n path, client, w)"
  shows "get_paths net clock view codes paths acc client w =
    (result_map ((@) acc) (collect_results (map (\<lambda>(n, path). f n path) (enumerate 0 paths))), client, w)"
  using assms
proof (induction paths arbitrary: clock acc f)
  case (Cons path paths)
  have tail: "map (\<lambda>(n, path). f n path) (enumerate (Suc 0) paths) = map (\<lambda>(n, path). f (Suc n) path) (enumerate 0 paths)"
    by (simp add: enumerate_Suc_eq comp_def case_prod_unfold)
  have "get_paths net (\<lambda>n. clock (Suc n)) view codes paths acc client w =
      (result_map ((@) acc) (collect_results (map (\<lambda>(n, path). f (Suc n) path) (enumerate 0 paths))), client, w)" for acc
    using Cons.prems by (intro Cons.IH) simp
  then show ?case using Cons.prems [of path 0] tail
    by (cases "f 0 path") (simp_all add: result_map_append)
qed simp

lemma words_path:
  assumes "glob_regex_spec re" and "words ws"
  shows "to_regex re (join_dots ws) = Ok (at_or_below (join_dots ws))" "CHR ''*'' \<notin> set (join_dots ws)"
proof -
  have "\<forall>p\<in>set ws. is_piece p" "ws \<noteq> []" "''*'' \<notin> set ws" using assms(2) is_wordD by auto
  then show "to_regex re (join_dots ws) = Ok (at_or_below (join_dots ws))"
    using to_regex_pieces [OF assms(1), of ws] by (auto simp: glob_matches_def fun_eq_iff)
  show "CHR ''*'' \<notin> set (join_dots ws)" by (rule words_no_star [OF assms(2)])
qed

lemma kuksa_get_words:
  assumes "reaches net client w ch ps" and "glob_regex_spec (net_re net)" and "words ws"
  shows "kuksa_get net now (join_dots ws) V_CurrentValue [field_code PF_Value, field_code PF_Metadata] client w =
      (read_answer net now ps (at_or_below (join_dots ws)) {PF_Path, PF_Value, PF_Metadata} (database (srv_broker (w ch))), client, w)"
    and "kuksa_get net now (join_dots ws) V_TargetValue [field_code PF_ActuatorTarget, field_code PF_Metadata] client w =
      (read_answer net now ps (at_or_below (join_dots ws)) {PF_Path, PF_ActuatorTarget, PF_Metadata} (database (srv_broker (w ch))), client, w)"
  using words_path [OF assms(2,3)]
  by (auto intro!: kuksa_get_answer [OF assms(1)] simp: combine_view_and_fields_def)

text \<open>One matching entry.\<close>

lemma access_metadata [simp]: "era_metadata (new_entry_read_access re now ps e) = e_metadata e"
  by (auto simp: new_entry_read_access_def split: result.split PermissionError.split)

lemma singleton_list: "set xs = {x} \<Longrightarrow> distinct xs \<Longrightarrow> xs = [x]"
  by (cases xs; cases "tl xs") auto

lemma single_entry_found:
  assumes wf: "db_wf db" and e: "abs_db db path = Some e"
    and only: "\<And>q. abs_db db q \<noteq> None \<Longrightarrow> matches q \<longleftrightarrow> q = path"
  shows "filter (\<lambda>a. matches (md_path (era_metadata a))) (iter_entries re now ps db) = [new_entry_read_access re now ps e]"
proof -
  let ?f = "filter (\<lambda>(_, e'). matches (md_path (e_metadata e'))) (entries db)"
  note p = abs_db_wf_path [OF wf e]
  have d: "distinct (map fst (entries db))" using wf by (simp add: db_wf_def)
  have hit: "x = (md_id (e_metadata e), e)" if "x \<in> set (entries db)" "matches (md_path (e_metadata (snd x)))" for x
  proof -
    have x: "map_of (entries db) (fst x) = Some (snd x)" using that(1) d by (metis map_of_is_SomeI prod.collapse)
    have "abs_db db (md_path (e_metadata (snd x))) = Some (snd x)" by (rule abs_db_by_id [OF wf x])
    moreover from this have "md_path (e_metadata (snd x)) = path" using only that(2) by auto
    ultimately have "snd x = e" using e by simp
    moreover have "fst x = md_id (e_metadata (snd x))" using db_wf_entryD [OF wf x] by simp
    ultimately show ?thesis by (simp add: prod_eq_iff)
  qed
  have here: "(md_id (e_metadata e), e) \<in> set (entries db)" using p(3) by (rule map_of_SomeD)
  have found: "matches (md_path (e_metadata (snd (md_id (e_metadata e), e))))" using only [of path] e p(1) by simp
  have "set ?f = {x \<in> set (entries db). matches (md_path (e_metadata (snd x)))}" by auto
  also have "\<dots> = {(md_id (e_metadata e), e)}" using hit here found by blast
  finally have "set ?f = {(md_id (e_metadata e), e)}" .
  moreover have "distinct ?f" using d by (simp add: distinct_map)
  ultimately have "?f = [(md_id (e_metadata e), e)]" by (rule singleton_list)
  then show ?thesis by (simp add: iter_entries_def filter_map comp_def case_prod_unfold)
qed

lemma value_echo:
  "pd_value d = Some v \<Longrightarrow>
   \<exists>p. proto_datapoint ts_from (datapoint_of_proto ts_into now d) = Some p \<and> pd_value p = Some v"
  by (cases v) (simp_all add: proto_datapoint_def datapoint_of_proto_def data_value_of_proto_def)

text \<open>A path without wildcards that has an entry and nothing below it.\<close>

definition leaf_path :: "(string \<rightharpoonup> Entry) \<Rightarrow> string list \<Rightarrow> Entry \<Rightarrow> bool" where
  "leaf_path m ws e \<longleftrightarrow> ws \<noteq> [] \<and> (\<forall>w\<in>set ws. is_word w) \<and> m (join_dots ws) = Some e \<and>
     (\<forall>q. m q \<noteq> None \<and> at_or_below (join_dots ws) q \<longrightarrow> q = join_dots ws)"

lemma leaf_path_update: "leaf_path m ws e \<Longrightarrow> leaf_path (m(join_dots ws \<mapsto> e')) ws e'"
  by (auto simp: leaf_path_def)

lemma leaf_found:
  assumes wf: "db_wf db" and leaf: "leaf_path (abs_db db) ws e"
  shows "filter (\<lambda>a. at_or_below (join_dots ws) (md_path (era_metadata a))) (iter_entries re now ps db) =
    [new_entry_read_access re now ps e]"
proof -
  have "at_or_below (join_dots ws) (join_dots ws)" by (simp add: at_or_below_def)
  then show ?thesis using leaf by (intro single_entry_found [OF wf, of "join_dots ws"]) (auto simp: leaf_path_def)
qed

lemma leaf_values:
  assumes r: "reaches net client w ch ps" and re: "glob_regex_spec (net_re net)" and leaf: "leaf_path (server_map (w ch)) ws e"
    and read: "can_read (net_re net) (clock 0) ps (join_dots ws) = Ok ()"
  shows "get_current_values net clock [join_dots ws] client w =
    (Ok [proto_entry_from_entry_and_fields (net_ts_from net) (ReadEntry e) {PF_Path, PF_Value, PF_Metadata}], client, w)"
proof -
  have wf: "db_wf (database (srv_broker (w ch)))" using r by (simp add: reaches_def)
  have "md_path (e_metadata e) = join_dots ws" using abs_db_wf_path(1) [OF wf] leaf by (simp add: leaf_path_def)
  then have "new_entry_read_access (net_re net) (clock 0) ps e = ReadEntry e"
    using read by (simp add: new_entry_read_access_def)
  then show ?thesis
    using kuksa_get_words(1) [OF r re, of ws "clock 0"] leaf_found [OF wf leaf] leaf
    by (simp add: get_current_values_def read_answer_def leaf_path_def)
qed

text \<open>The value of an entry after a write that was not skipped.\<close>

lemma written_datapoint:
  assumes "md_change_type (e_metadata e) = Continuous \<or> \<not> dv_eq (data_value_of_proto (pd_value d)) (dp_value (e_datapoint e))"
  shows "e_datapoint (updated_entry e (client_value_update ts_into now d)) = datapoint_of_proto ts_into now d"
    "e_metadata (updated_entry e (client_value_update ts_into now d)) = e_metadata e"
  using assms
  by (auto simp: updated_entry_def apply_update_fields diff_fields client_value_update_def datapoint_of_proto_def default_update_def)

section \<open>Properties\<close>

text \<open>
  C9.  Writing through the client library refines a write to a map.  A client with a channel and a
  token that the server accepts, writing values (or targets) one call per path, does to the entries
  of that server what the reference does, and returns what it returns: paths are written in order
  up to the first refusal, which is reported with the code of the service, and stay written when a
  later one is refused.  Targets of entries that are not actuators are refused as an invalid
  request.  No other server changes, nor does the client.
\<close>

theorem client_writes_refine_map:
  assumes "reaches net client w ch ps"
    and "set_current_values net clock xs client w = (res, client', w')"
    and "set_target_values net clock xs client w = (res'', client'', w'')"
  shows "(res, server_map (w' ch)) =
      write_values (net_re net) clock ps (\<lambda>_. True) (client_value_update (net_ts_into net)) xs (server_map (w ch)) \<and>
    (res'', server_map (w'' ch)) =
      write_values (net_re net) clock ps is_actuator (client_target_update (net_ts_into net)) xs (server_map (w ch)) \<and>
    client' = client \<and> only_broker_changed w ch w' \<and> client'' = client \<and> only_broker_changed w ch w''"
  using set_current_values_refines [OF assms(1,2)] set_target_values_refines [OF assms(1,3)] by simp

definition example_network :: "(nat, unit, nat) network" where
  "example_network = \<lparr>net_ascii = (\<lambda>_. True), net_tls = (\<lambda>_. True), net_connect = (\<lambda>n _. if n < 10 then Some n else None),
     net_captures = example_captures, net_re = glob_engine, net_ts_from = zero_ts, net_ts_into = (\<lambda>_. None),
     net_parse_sql = (\<lambda>_. None), net_aborted = St_Internal\<rparr>"

definition example_client :: "(nat, unit, nat) Client" where
  "example_client = (new_client 0)\<lparr>c_channel := Some 0\<rparr>"

definition example_servers :: "nat servers" where
  "example_servers = (\<lambda>_. \<lparr>srv_authorization = Auth_Disabled, srv_broker = example_broker\<rparr>)"

lemma example_reaches: "reaches example_network example_client example_servers 0 ALLOW_ALL"
  by (simp add: reaches_def example_network_def example_client_def example_servers_def request_permissions_def
      intercept_def)

definition example_value :: ProtoDatapoint where
  "example_value = \<lparr>pd_timestamp = None, pd_value = Some (KV_Int32 7)\<rparr>"

definition example_written :: Entry where
  "example_written = example_entry\<lparr>e_datapoint := \<lparr>dp_ts = 1, dp_value = Int32 7\<rparr>\<rparr>"

lemma example_server_map [simp]: "server_map (example_servers n) = [''A'' \<mapsto> example_entry]"
  by (auto simp: example_servers_def abs_db_def fun_eq_iff)

lemma example_write:
  "entry_error re 1 ALLOW_ALL ''A'' example_entry (client_value_update (\<lambda>_. None) 1 example_value) = None"
  "updated_entry example_entry (client_value_update (\<lambda>_. None) 1 example_value) = example_written"
  by (simp_all add: entry_error_def client_value_update_def example_value_def example_written_def datapoint_of_proto_def
      data_value_of_proto_def touches_metadata_def writes_value_def write_granted_def validate_def diff_def
      updated_entry_def apply_update_def default_update_def has_expired_def ALLOW_ALL_def validate_value_def validate_allowed_def)

theorem client_writes_refine_map_witness:
  "\<exists>w. set_current_values example_network (\<lambda>_. 1) [(''A'', example_value), (''B'', example_value)] example_client example_servers =
      (Err (CE_Function [(404, ''not_found'')]), example_client, w) \<and>
    server_map (w 0) = [''A'' \<mapsto> example_written] \<and> w 1 = example_servers 1"
proof -
  let ?xs = "[(''A'', example_value), (''B'', example_value)]"
  obtain res client' w' where s: "set_current_values example_network (\<lambda>_. 1) ?xs example_client example_servers = (res, client', w')"
    by (metis prod.exhaust)
  obtain res'' client'' w'' where t: "set_target_values example_network (\<lambda>_. 1) ?xs example_client example_servers = (res'', client'', w'')"
    by (metis prod.exhaust)
  note r = client_writes_refine_map [OF example_reaches s t]
  have "write_values (net_re example_network) (\<lambda>_. 1) ALLOW_ALL (\<lambda>_. True) (client_value_update (net_ts_into example_network)) ?xs
      [''A'' \<mapsto> example_entry] = (Err (CE_Function [(404, ''not_found'')]), [''A'' \<mapsto> example_written])"
    by (simp add: set_one_def example_network_def example_write)
  then show ?thesis using r s by (auto simp: only_broker_changed_def)
qed

text \<open>
  C22.  What the client library reads.  For paths without wildcards the values (or targets) returned
  are those of all entries at or below each path, in the order of the paths; the first path with
  nothing there, or with an entry the client may not read, makes the whole call fail.
\<close>

theorem client_reads_subtrees:
  assumes "reaches net client w ch ps" and "glob_regex_spec (net_re net)" and "\<forall>ws\<in>set wss. words ws"
  shows "get_current_values net clock (map join_dots wss) client w =
      (collect_results (map (\<lambda>(n, path). read_answer net (clock n) ps (at_or_below path)
          {PF_Path, PF_Value, PF_Metadata} (database (srv_broker (w ch)))) (enumerate 0 (map join_dots wss))), client, w) \<and>
    get_target_values net clock (map join_dots wss) client w =
      (collect_results (map (\<lambda>(n, path). read_answer net (clock n) ps (at_or_below path)
          {PF_Path, PF_ActuatorTarget, PF_Metadata} (database (srv_broker (w ch)))) (enumerate 0 (map join_dots wss))), client, w)"
proof -
  have read: "get_paths net clock view codes (map join_dots wss) [] client w =
      (collect_results (map (\<lambda>(n, path). f n path) (enumerate 0 (map join_dots wss))), client, w)"
    if get: "\<And>n ws. words ws \<Longrightarrow> kuksa_get net (clock n) (join_dots ws) view codes client w = (f n (join_dots ws), client, w)"
    for view codes f
  proof -
    have "kuksa_get net (clock n) path view codes client w = (f n path, client, w)" if "path \<in> set (map join_dots wss)" for n path
      using that get assms(3) by auto
    from get_paths_answer [where paths = "map join_dots wss" and clock = clock and f = f and acc = "[]", OF this] show ?thesis
      by (simp add: result_map_Nil)
  qed
  show ?thesis unfolding get_current_values_def get_target_values_def
    by (rule conjI; rule read; rule kuksa_get_words [OF assms(1,2)]; assumption)
qed

lemma example_words: "words [''A'']" "join_dots [''A''] = ''A''"
  by (simp_all add: is_word_def is_piece_def lit_char_def)

theorem client_reads_subtrees_witness:
  "get_current_values example_network (\<lambda>_. 1) [''B''] example_client example_servers =
     (Err (CE_Function [(404, ''not_found''), (404, ''not_found'')]), example_client, example_servers)"
proof -
  have "words [''B'']" "join_dots [''B''] = ''B''" by (simp_all add: is_word_def is_piece_def lit_char_def)
  then show ?thesis
    using client_reads_subtrees [OF example_reaches, of "[[''B'']]" "\<lambda>_. 1"] glob_engine_spec
    by (simp add: example_network_def read_answer_def example_servers_def iter_entries_def at_or_below_def
        enumerate_eq_zip)
qed

text \<open>
  A value written by a client is read back.  When the write of one path has succeeded, nothing
  is registered below the path, and the entry is continuous or had another value, then reading the
  path gives exactly one entry, with this path and the value written.
\<close>

theorem client_round_trip:
  assumes "reaches net client w ch ps" and "glob_regex_spec (net_re net)" and "leaf_path (server_map (w ch)) ws e"
    and "set_current_values net clock [(join_dots ws, d)] client w = (Ok (), client', w')"
    and "can_read (net_re net) (clock' 0) ps (join_dots ws) = Ok ()"
    and "md_change_type (e_metadata e) = Continuous \<or>
      \<not> dv_eq (data_value_of_proto (pd_value d)) (dp_value (e_datapoint e))"
    and "pd_value d \<noteq> None"
  shows "\<exists>entry p. get_current_values net clock' [join_dots ws] client' w' = (Ok [entry], client', w') \<and>
    de_path entry = join_dots ws \<and> de_value entry = Some p \<and> pd_value p = pd_value d"
proof -
  let ?path = "join_dots ws" and ?u = "client_value_update (net_ts_into net) (clock 0) d"
  note s = set_current_values_refines [OF assms(1,4)]
  have r: "reaches net client' w' ch ps" using s only_broker_changed_reaches [OF assms(1)] by auto
  have m: "server_map (w' ch) = (server_map (w ch))(?path \<mapsto> updated_entry e ?u)"
    using s assms(3) by (auto simp: leaf_path_def set_one_def split: option.splits result.splits if_splits)
  then have leaf: "leaf_path (server_map (w' ch)) ws (updated_entry e ?u)" using leaf_path_update [OF assms(3)] by simp
  have "md_path (e_metadata (updated_entry e ?u)) = ?path"
    using abs_db_wf_path(1) [of "database (srv_broker (w ch))" ?path e] assms(1,3)
    by (simp add: reaches_def leaf_path_def updated_entry_def)
  moreover obtain p where "proto_datapoint (net_ts_from net) (datapoint_of_proto (net_ts_into net) (clock 0) d) = Some p"
      "pd_value p = pd_value d"
    using assms(7) value_echo by fastforce
  ultimately show ?thesis
    using leaf_values [where clock = clock', OF r assms(2) leaf assms(5)] written_datapoint(1) [OF assms(6)]
    by (simp add: proto_entry_from_entry_and_fields_def)
qed

theorem client_round_trip_witness:
  "\<exists>w entry p. set_current_values example_network (\<lambda>_. 1) [(''A'', example_value)] example_client example_servers =
      (Ok (), example_client, w) \<and>
    get_current_values example_network (\<lambda>_. 2) [''A''] example_client w = (Ok [entry], example_client, w) \<and>
    de_path entry = ''A'' \<and> de_value entry = Some p \<and> pd_value p = Some (KV_Int32 7)"
proof -
  obtain res client' w' where s: "set_current_values example_network (\<lambda>_. 1) [(''A'', example_value)] example_client example_servers = (res, client', w')"
    by (metis prod.exhaust)
  have "write_values (net_re example_network) (\<lambda>_. 1) ALLOW_ALL (\<lambda>_. True) (client_value_update (net_ts_into example_network))
      [(''A'', example_value)] [''A'' \<mapsto> example_entry] = (Ok (), [''A'' \<mapsto> example_written])"
    by (simp add: set_one_def example_network_def example_write)
  then have ok: "set_current_values example_network (\<lambda>_. 1) [(''A'', example_value)] example_client example_servers = (Ok (), example_client, w')"
    using set_current_values_refines [OF example_reaches s] s by auto
  have read: "can_read (net_re example_network) 2 ALLOW_ALL ''A'' = Ok ()"
    by (simp add: can_read_eq has_expired_def ALLOW_ALL_def)
  have leaf: "leaf_path (server_map (example_servers 0)) [''A''] example_entry"
    using example_words by (simp add: leaf_path_def)
  have re: "glob_regex_spec (net_re example_network)" by (simp add: example_network_def glob_engine_spec)
  have changed: "\<not> dv_eq (data_value_of_proto (pd_value example_value)) (dp_value (e_datapoint example_entry))"
    "pd_value example_value \<noteq> None" by (simp_all add: example_value_def data_value_of_proto_def)
  have "\<exists>entry p. get_current_values example_network (\<lambda>_. 2) [''A''] example_client w' = (Ok [entry], example_client, w') \<and>
      de_path entry = ''A'' \<and> de_value entry = Some p \<and> pd_value p = pd_value example_value"
    by (rule client_round_trip [OF example_reaches re leaf, unfolded example_words(2),
          OF ok read disjI2 [OF changed(1)] changed(2)])
  then show ?thesis using ok by (auto simp: example_value_def)
qed

text \<open>
  The metadata a client sets is dropped.  Setting metadata of known paths is answered with
  success, whatever permissions the client has, and the entries of the server are as before; an
  unknown path is answered as not found.
\<close>

theorem set_metadata_has_no_effect:
  assumes "reaches net client w ch ps" and "set_metadata net clock xs client w = (res, client', w')"
  shows "server_map (w' ch) = server_map (w ch) \<and>
    res = (if \<forall>(path, _)\<in>set xs. server_map (w ch) path \<noteq> None then Ok () else Err (CE_Function [(404, ''not_found'')]))"
  using set_metadata_refines [OF assms] set_nothing [of "net_re net" clock ps xs "server_map (w ch)"] by simp

theorem set_metadata_has_no_effect_witness:
  "\<exists>w. set_metadata example_network (\<lambda>_. 1) [(''A'', default_metadata\<lparr>pm_unit := Some ''km''\<rparr>)] example_client example_servers =
      (Ok (), example_client, w) \<and> server_map (w 0) = [''A'' \<mapsto> example_entry]"
proof -
  let ?xs = "[(''A'', default_metadata\<lparr>pm_unit := Some ''km''\<rparr>)]"
  obtain res client' w' where s: "set_metadata example_network (\<lambda>_. 1) ?xs example_client example_servers = (res, client', w')"
    by (metis prod.exhaust)
  then show ?thesis
    using set_metadata_has_no_effect [OF example_reaches s] set_metadata_refines [OF example_reaches s] by simp
qed

end
