(* ===== verification/Delivery.thy ===== *)
theory Delivery
  imports KuksaClient
begin

text \<open>
  Two clients and one server: what a client that has subscribed to a path receives while another
  client writes.  The reference \<open>observed\<close> says which of the values written to a path a subscriber is told of.
\<close>

section \<open>A subscription to one path\<close>

lemma subscribe_scan_filter:
  "subscribe_scan regex flds accs sub found perr =
   subscribe_scan regex flds (filter (\<lambda>a. regex (md_path (era_metadata a))) accs) sub found perr"
  by (induction regex flds accs sub found perr rule: subscribe_scan.induct) (auto simp: Let_def)

lemma leaf_collect:
  assumes wf: "db_wf (database b)" and re: "glob_regex_spec re" and leaf: "leaf_path (abs_db (database b)) ws e"
  shows "subscribe_collect (iter_entries re now ps (database b))
      (subscribe_requests re [\<lparr>sub_path = join_dots ws, sub_fields = [field_code PF_Value, field_code PF_Metadata]\<rparr>] []) [] =
    (if can_read re now ps (join_dots ws) = Ok () then Ok [(md_id (e_metadata e), {F_Datapoint})] else Err St_PermissionDenied)"
proof -
  have words: "words ws" using leaf by (simp add: leaf_path_def)
  have path: "md_path (e_metadata e) = join_dots ws"
    using abs_db_wf_path(1) [OF wf] leaf by (simp add: leaf_path_def)
  then have below: "at_or_below (join_dots ws) (md_path (e_metadata e))" by (simp add: at_or_below_def)
  have req: "subscribe_requests re [\<lparr>sub_path = join_dots ws, sub_fields = [field_code PF_Value, field_code PF_Metadata]\<rparr>] [] =
      [(join_dots ws, at_or_below (join_dots ws), {F_Datapoint})]"
    using words_path [OF re words] by (simp add: field_from_code)
  have "subscribe_scan (at_or_below (join_dots ws)) {F_Datapoint} (iter_entries re now ps (database b)) [] False False =
      ([(md_id (e_metadata e), {F_Datapoint})], True, \<not> is_ok (era_datapoint (new_entry_read_access re now ps e)))"
    by (subst subscribe_scan_filter) (simp add: leaf_found [OF wf leaf] Let_def below)
  moreover have "is_ok (era_datapoint (new_entry_read_access re now ps e)) \<longleftrightarrow> can_read re now ps (join_dots ws) = Ok ()"
    by (auto simp: new_entry_read_access_def path is_ok_iff split: result.split PermissionError.split)
  ultimately show ?thesis unfolding req by simp
qed

lemma leaf_subscribe:
  assumes wf: "db_wf (database b)" and re: "glob_regex_spec re" and leaf: "leaf_path (abs_db (database b)) ws e"
    and s: "val_subscribe re now (Some ps) b
      [\<lparr>sub_path = join_dots ws, sub_fields = [field_code PF_Value, field_code PF_Metadata]\<rparr>] = (Ok sub, b')"
  shows "cs_entries sub = [(md_id (e_metadata e), {F_Datapoint})]" "cs_permissions sub = ps" "\<not> ch_closed (cs_sender sub)"
    "ch_sent (cs_sender sub) = [[initial_notification e {F_Datapoint}]]"
    "database b' = database b" "change_subscriptions (subscriptions b') = change_subscriptions (subscriptions b) @ [sub]"
proof -
  have path: "md_path (e_metadata e) = join_dots ws"
    using abs_db_wf_path(1) [OF wf] leaf by (simp add: leaf_path_def)
  have sub: "subscribe re now ps b [(md_id (e_metadata e), {F_Datapoint})] = (Ok sub, b')"
      and read: "can_read re now ps (join_dots ws) = Ok ()"
    using s leaf_collect [OF wf re leaf, of now ps]
    by (auto simp: val_subscribe_def simp del: subscribe_requests.simps split: if_splits result.splits prod.splits SubscriptionError.splits)
  have e: "map_of (entries (database b)) (md_id (e_metadata e)) = Some e"
    using abs_db_wf_path [OF wf] leaf by (auto simp: leaf_path_def)
  then have g: "get_entry_by_id re now ps (database b) (md_id (e_metadata e)) = Ok e"
    using read path by (simp add: get_entry_by_id_Ok)
  have "sub = \<lparr>cs_entries = [(md_id (e_metadata e), {F_Datapoint})],
      cs_sender = \<lparr>ch_closed = False, ch_sent = [[initial_notification e {F_Datapoint}]]\<rparr>, cs_permissions = ps\<rparr>"
      and b': "b' = subscribe_register b sub"
    using sub g by (auto simp: subscribe_def subscribe_open_def change_notify_def send_def new_channel_def Let_def split: result.splits)
  then show "cs_entries sub = [(md_id (e_metadata e), {F_Datapoint})]" "cs_permissions sub = ps" "\<not> ch_closed (cs_sender sub)"
    "ch_sent (cs_sender sub) = [[initial_notification e {F_Datapoint}]]"
    "database b' = database b" "change_subscriptions (subscriptions b') = change_subscriptions (subscriptions b) @ [sub]"
    by (simp_all add: subscribe_register_def add_change_subscription_def)
qed

section \<open>One write\<close>

lemma update_entries_last:
  assumes "change_subscriptions (subscriptions b) = xs @ [sub]" and "\<not> ch_closed (cs_sender sub)"
    and "apply_updates re now ps us (database b) [] [] = (db, changed, errs)"
  shows "\<exists>ys. change_subscriptions (subscriptions (snd (update_entries re now ps b us))) =
    ys @ [change.deliver re now (Some changed) db sub]"
  using assms by (simp add: update_entries_eq [OF assms(3)] delivered_def cleanup_def)

definition told :: "ChangeSubscription \<Rightarrow> EntryUpdates list \<Rightarrow> ChangeSubscription" where
  "told sub msgs = sub\<lparr>cs_sender := (cs_sender sub)\<lparr>ch_sent := ch_sent (cs_sender sub) @ msgs\<rparr>\<rparr>"

lemma told_simps [simp]:
  "told sub [] = sub" "told (told sub xs) ys = told sub (xs @ ys)" "cs_entries (told sub msgs) = cs_entries sub"
  "cs_permissions (told sub msgs) = cs_permissions sub" "ch_closed (cs_sender (told sub msgs)) = ch_closed (cs_sender sub)"
  "ch_sent (cs_sender (told sub msgs)) = ch_sent (cs_sender sub) @ msgs"
  by (simp_all add: told_def)

lemma deliver_one:
  assumes "\<not> ch_closed (cs_sender sub)" and "cs_entries sub = [(eid, {F_Datapoint})]"
    and "get_entry_by_id re now (cs_permissions sub) db eid = Ok e"
  shows "change.deliver re now (Some [(k, cf)]) db sub =
      told sub (if k = eid \<and> F_Datapoint \<in> cf then [[changed_notification e {F_Datapoint} cf]] else [])"
    and "change.deliver re now (Some []) db sub = sub"
  using assms
  by (auto simp: change.deliver_def change.nf_eq change_message_def changed_notifications_concat change_of_def told_def)

definition value_entry :: "string \<Rightarrow> ProtoDatapoint \<Rightarrow> DataEntry" where
  "value_entry path d = \<lparr>de_path = path, de_value = Some d, de_actuator_target = None, de_metadata = None\<rparr>"

text \<open>A write of the stored value to an entry that is not continuous is skipped.\<close>

definition effective :: "Entry \<Rightarrow> ProtoDatapoint \<Rightarrow> bool" where
  "effective e d \<longleftrightarrow> md_change_type (e_metadata e) = Continuous \<or>
     \<not> dv_eq (data_value_of_proto (pd_value d)) (dp_value (e_datapoint e))"

lemma value_update_changes:
  "changed_by e (client_value_update ts_into now d) = (if effective e d then {F_Datapoint} else {})"
  by (auto simp: changed_by_def apply_update_fields diff_fields client_value_update_def default_update_def effective_def
      datapoint_of_proto_def)

lemma value_entry_update:
  "from_proto_entry_and_fields ts_into now (value_entry p d) (known_fields [field_code PF_Value, field_code PF_Path]) =
   client_value_update ts_into now d"
  by (auto simp: value_entry_def from_proto_entry_and_fields_def client_value_update_def default_update_def)

lemma apply_updates_one:
  "apply_updates re now ps [(k, u)] db [] [] =
     (snd (update re now ps db k u),
      (case fst (update re now ps db k u) of Ok cf \<Rightarrow> if cf = {} then [] else [(k, cf)] | Err _ \<Rightarrow> []),
      (case fst (update re now ps db k u) of Ok _ \<Rightarrow> [] | Err err \<Rightarrow> [(k, err)]))"
  by (auto split: prod.split result.split)

lemma val_set_broker:
  assumes wf: "db_wf (database b)"
    and set: "val_set re ts_into now (Some ps) b
      [\<lparr>se_entry = Some (value_entry p d), se_fields = [field_code PF_Value, field_code PF_Path]\<rparr>] = (r, b')"
  shows "b' = snd (update_entries re now ps b
    (case abs_db (database b) p of Some e \<Rightarrow> [(md_id (e_metadata e), client_value_update ts_into now d)] | None \<Rightarrow> []))"
proof -
  let ?us = "case abs_db (database b) p of Some e \<Rightarrow> [(md_id (e_metadata e), client_value_update ts_into now d)] | None \<Rightarrow> []"
  have md: "get_metadata b (md_id (e_metadata e)) = Some (e_metadata e)" if "abs_db (database b) p = Some e" for e
    using abs_db_wf_path [OF wf that] by (simp add: get_metadata_def get_metadata_by_id_def)
  have "\<exists>errs. collect_updates ts_into now b
      [\<lparr>se_entry = Some (value_entry p d), se_fields = [field_code PF_Value, field_code PF_Path]\<rparr>] [] [] = Ok (?us, errs)"
    using md value_entry_update [of ts_into now p d] by (auto simp: value_entry_def get_id_by_path_abs split: option.split)
  then show ?thesis using set
    by (auto simp: val_set_def simp del: collect_updates.simps split: prod.splits result.splits)
qed

lemma val_set_delivers:
  assumes wf: "db_wf (database b)" and leaf: "leaf_path (abs_db (database b)) ws e"
    and subs: "change_subscriptions (subscriptions b) = xs @ [sub]" "\<not> ch_closed (cs_sender sub)"
      "cs_entries sub = [(md_id (e_metadata e), {F_Datapoint})]" "can_read re now (cs_permissions sub) (join_dots ws) = Ok ()"
    and set: "val_set re ts_into now (Some ps) b
      [\<lparr>se_entry = Some (value_entry p d), se_fields = [field_code PF_Value, field_code PF_Path]\<rparr>] = (r, b')"
  shows "\<exists>ys. change_subscriptions (subscriptions b') = ys @ [told sub
    (if set_outcome r = Ok () \<and> p = join_dots ws \<and> effective e d
     then [[changed_notification (updated_entry e (client_value_update ts_into now d)) {F_Datapoint} {F_Datapoint}]] else [])]"
proof -
  let ?u = "client_value_update ts_into now d" and ?db = "database b"
  have le: "abs_db ?db (join_dots ws) = Some e" using leaf by (simp add: leaf_path_def)
  note ep = abs_db_wf_path [OF wf le]
  have get_e: "get_entry_by_id re now (cs_permissions sub) ?db (md_id (e_metadata e)) = Ok e"
    using ep subs(4) by (simp add: get_entry_by_id_Ok)
  have one: "set_outcome r = fst (set_one re now ps (admissible_entry (value_entry p d)) p ?u (abs_db ?db))"
    using val_set_one [OF wf set, unfolded value_entry_update] by (auto simp: value_entry_def prod_eq_iff)
  show ?thesis
  proof (cases "abs_db ?db p")
    case None
    then show ?thesis
      using update_entries_last [OF subs(1,2), of re now ps "[]" ?db "[]" "[]"] deliver_one(2) [OF subs(2,3) get_e]
        val_set_broker [OF wf set] one by (simp add: set_one_def)
  next
    case (Some e2)
    let ?k = "md_id (e_metadata e2)"
    note e2 = abs_db_wf_path [OF wf Some]
    have same: "?k = md_id (e_metadata e) \<longleftrightarrow> p = join_dots ws"
    proof
      assume k: "?k = md_id (e_metadata e)"
      have "e2 = e" using e2(3) ep(3) unfolding k by simp
      then show "p = join_dots ws" using e2(1) ep(1) by simp
    qed (use Some le in simp)
    have b': "b' = snd (update_entries re now ps b [(?k, ?u)])" using val_set_broker [OF wf set] Some by simp
    note last = update_entries_last [OF subs(1,2) apply_updates_one, of re now ps ?k ?u, folded b']
    show ?thesis
    proof (cases "fst (update re now ps ?db ?k ?u)")
      case (Err err)
      then have "snd (update re now ps ?db ?k ?u) = ?db" using update_Err by (metis prod.collapse)
      moreover have "set_outcome r \<noteq> Ok ()"
        using one Some Err update_entry_error [OF wf Some, of re now ps ?u]
        by (auto simp: set_one_def split: option.splits)
      ultimately show ?thesis using last Err deliver_one(2) [OF subs(2,3) get_e] by simp
    next
      case (Ok cf)
      let ?db' = "snd (update re now ps ?db ?k ?u)" and ?e' = "if p = join_dots ws then updated_entry e ?u else e"
      have none: "entry_error re now ps p e2 ?u = None" "cf = changed_by e2 ?u"
        using update_entry_error(1) [OF wf Some, of re now ps ?u] Ok by (auto split: option.splits)
      then have ok: "set_outcome r = Ok ()"
        using one Some by (simp add: set_one_def admissible_entry_def value_entry_def)
      have "map_of (entries ?db') (md_id (e_metadata e)) = Some ?e'"
      proof (cases "p = join_dots ws")
        case True
        then have "e2 = e" using Some le by simp
        then show ?thesis using Ok ep(3) True by (simp add: store.upd_same)
      next
        case False
        then have "md_id (e_metadata e) \<noteq> ?k" using same by metis
        then show ?thesis using ep(3) False by (simp add: store.upd_other)
      qed
      moreover have "md_path (e_metadata ?e') = join_dots ws" using ep(1) by simp
      ultimately have get: "get_entry_by_id re now (cs_permissions sub) ?db' (md_id (e_metadata e)) = Ok ?e'"
        using subs(4) by (simp add: get_entry_by_id_Ok)
      show ?thesis
      proof (cases "p = join_dots ws")
        case True
        then have "e2 = e" using Some le by simp
        then show ?thesis using last Ok ok none(2) True deliver_one [OF subs(2,3) get]
          by (cases "effective e d") (simp_all add: value_update_changes)
      next
        case False
        then have "?k \<noteq> md_id (e_metadata e)" using same by metis
        then show ?thesis using last Ok False deliver_one [OF subs(2,3) get] by (cases "cf = {}") simp_all
      qed
    qed
  qed
qed

lemma kuksa_set_delivers:
  assumes r: "reaches net client w ch ps" and leaf: "leaf_path (server_map (w ch)) ws e"
    and subs: "change_subscriptions (subscriptions (srv_broker (w ch))) = xs @ [sub]" "\<not> ch_closed (cs_sender sub)"
      "cs_entries sub = [(md_id (e_metadata e), {F_Datapoint})]" "can_read (net_re net) now (cs_permissions sub) (join_dots ws) = Ok ()"
    and set: "kuksa_set net now (value_entry p d) [field_code PF_Value, field_code PF_Path] client w = (res, client', w')"
  shows "\<exists>ys. change_subscriptions (subscriptions (srv_broker (w' ch))) = ys @ [told sub
    (if res = Ok () \<and> p = join_dots ws \<and> effective e d
     then [[changed_notification (updated_entry e (client_value_update (net_ts_into net) now d)) {F_Datapoint} {F_Datapoint}]] else [])]"
proof -
  obtain q b where v: "val_set (net_re net) (net_ts_into net) now (Some ps) (srv_broker (w ch))
      [\<lparr>se_entry = Some (value_entry p d), se_fields = [field_code PF_Value, field_code PF_Path]\<rparr>] = (q, b)" by (metis prod.exhaust)
  have "rpc net (\<lambda>permissions broker. val_set (net_re net) (net_ts_into net) now permissions broker
      [\<lparr>se_entry = Some (value_entry p d), se_fields = [field_code PF_Value, field_code PF_Path]\<rparr>]) client w =
      (map_err CE_Status q, client, w(ch := (w ch)\<lparr>srv_broker := b\<rparr>))"
    using r v by (intro rpc_granted) (auto simp: reaches_def)
  then have "w' = w(ch := (w ch)\<lparr>srv_broker := b\<rparr>)" "res = set_outcome q"
    using set by (auto simp: kuksa_set_def set_outcome_def response_errors_def split: result.splits if_splits)
  then show ?thesis using val_set_delivers [OF _ leaf subs v] r by (simp add: reaches_def)
qed

section \<open>A sequence of writes\<close>

text \<open>
  The values of a path that its subscribers are told of: those that are accepted, until the first
  refusal of any, and not skipped.
\<close>

fun observed ::
  "regex_engine \<Rightarrow> (nat \<Rightarrow> SystemTime) \<Rightarrow> Permissions \<Rightarrow> (Timestamp \<Rightarrow> SystemTime option) \<Rightarrow> string \<Rightarrow>
   (string \<times> ProtoDatapoint) list \<Rightarrow> (string \<rightharpoonup> Entry) \<Rightarrow> Datapoint list" where
  "observed re clock ps ts_into path [] m = []"
| "observed re clock ps ts_into path ((p, d) # rest) m =
     (case set_one re (clock 0) ps (\<lambda>_. True) p (client_value_update ts_into (clock 0) d) m of
        (Ok _, m') \<Rightarrow>
          (if p = path \<and> effective (the (m path)) d then [datapoint_of_proto ts_into (clock 0) d] else []) @
          observed re (\<lambda>n. clock (Suc n)) ps ts_into path rest m'
      | (Err _, _) \<Rightarrow> [])"

definition value_message :: "Entry \<Rightarrow> Datapoint \<Rightarrow> EntryUpdates" where
  "value_message e dp = [changed_notification (e\<lparr>e_datapoint := dp\<rparr>) {F_Datapoint} {F_Datapoint}]"

lemma value_update_metadata: "e_metadata (updated_entry e (client_value_update ts_into now d)) = e_metadata e"
  by (simp add: updated_entry_def apply_update_fields diff_fields client_value_update_def default_update_def)

lemma value_message_cong: "e_metadata e = e_metadata e' \<Longrightarrow> value_message e = value_message e'"
  by (auto simp: value_message_def changed_notification_def fun_eq_iff)

lemma value_message_written:
  "effective e d \<Longrightarrow>
   [changed_notification (updated_entry e (client_value_update ts_into now d)) {F_Datapoint} {F_Datapoint}] =
   value_message e (datapoint_of_proto ts_into now d)"
  using written_datapoint(1) [of e d ts_into now]
  by (simp add: effective_def value_message_def changed_notification_def value_update_metadata)

lemma leaf_path_other: "leaf_path m ws e \<Longrightarrow> m p \<noteq> None \<Longrightarrow> p \<noteq> join_dots ws \<Longrightarrow> leaf_path (m(p \<mapsto> x)) ws e"
  by (auto simp: leaf_path_def)

text \<open>The entry of the path after one accepted write.\<close>

lemma set_one_leaf:
  assumes leaf: "leaf_path m ws e" and "set_one re now ps (\<lambda>_. True) p u m = (Ok r, m')"
  shows "leaf_path m' ws (if p = join_dots ws then updated_entry e u else e)"
proof -
  obtain e2 where e2: "m p = Some e2" "m' = m(p \<mapsto> updated_entry e2 u)"
    using assms(2) by (auto simp: set_one_def split: option.splits)
  show ?thesis
  proof (cases "p = join_dots ws")
    case True
    then have "e2 = e" using leaf e2(1) by (simp add: leaf_path_def)
    then show ?thesis using leaf_path_update [OF leaf] e2(2) True by simp
  next
    case False
    then show ?thesis using leaf_path_other [OF leaf, of p] e2 by simp
  qed
qed

lemma writes_delivered:
  assumes "reaches net client w ch ps" and "leaf_path (server_map (w ch)) ws e"
    and "change_subscriptions (subscriptions (srv_broker (w ch))) = xs @ [sub]" and "\<not> ch_closed (cs_sender sub)"
    and "cs_entries sub = [(md_id (e_metadata e), {F_Datapoint})]"
    and "\<forall>n<length ds. can_read (net_re net) (clock n) (cs_permissions sub) (join_dots ws) = Ok ()"
    and "set_entries net clock [field_code PF_Value, field_code PF_Path] (map (\<lambda>(p, d). value_entry p d) ds) client w = (res, client', w')"
  shows "\<exists>ys. change_subscriptions (subscriptions (srv_broker (w' ch))) =
    ys @ [told sub (map (value_message e) (observed (net_re net) clock ps (net_ts_into net) (join_dots ws) ds (server_map (w ch))))]"
  using assms
proof (induction ds arbitrary: clock w e xs sub)
  case Nil
  then show ?case by auto
next
  case (Cons pd ds)
  obtain p d where pd: "pd = (p, d)" by (cases pd)
  let ?u = "client_value_update (net_ts_into net) (clock 0) d"
  obtain q client1 w1 where s: "kuksa_set net (clock 0) (value_entry p d) [field_code PF_Value, field_code PF_Path] client w = (q, client1, w1)"
    by (metis prod.exhaust)
  let ?msgs = "if q = Ok () \<and> p = join_dots ws \<and> effective e d
    then [[changed_notification (updated_entry e ?u) {F_Datapoint} {F_Datapoint}]] else []"
  have adm: "admissible_entry (value_entry p d) = (\<lambda>_. True)" "de_path (value_entry p d) = p"
    by (auto simp: admissible_entry_def value_entry_def)
  note one = kuksa_set_one [OF Cons.prems(1) s, unfolded adm value_entry_update]
  obtain ys where ys: "change_subscriptions (subscriptions (srv_broker (w1 ch))) = ys @ [told sub ?msgs]"
    using kuksa_set_delivers [OF Cons.prems(1-5) _ s] Cons.prems(6) by auto
  have path: "server_map (w ch) (join_dots ws) = Some e" using Cons.prems(2) by (simp add: leaf_path_def)
  show ?case
  proof (cases q)
    case (Err err)
    then have "w' = w1" using Cons.prems(7) s pd by simp
    then show ?thesis using ys Err one pd by (auto split: prod.split)
  next
    case (Ok a)
    let ?e = "if p = join_dots ws then updated_entry e ?u else e"
    have c: "client1 = client" "only_broker_changed w ch w1"
        and so: "set_one (net_re net) (clock 0) ps (\<lambda>_. True) p ?u (server_map (w ch)) = (Ok a, server_map (w1 ch))"
      using one Ok by auto
    have rest: "set_entries net (\<lambda>n. clock (Suc n)) [field_code PF_Value, field_code PF_Path] (map (\<lambda>(p, d). value_entry p d) ds)
        client w1 = (res, client', w')"
      using Cons.prems(7) s pd Ok c(1) by simp
    have leaf: "leaf_path (server_map (w1 ch)) ws ?e" by (rule set_one_leaf [OF Cons.prems(2) so])
    have reads: "\<forall>n<length ds. can_read (net_re net) (clock (Suc n)) (cs_permissions (told sub ?msgs)) (join_dots ws) = Ok ()"
      using Cons.prems(6) by auto
    have md: "e_metadata ?e = e_metadata e" by (simp add: value_update_metadata)
    obtain zs where "change_subscriptions (subscriptions (srv_broker (w' ch))) =
        zs @ [told (told sub ?msgs) (map (value_message ?e)
          (observed (net_re net) (\<lambda>n. clock (Suc n)) ps (net_ts_into net) (join_dots ws) ds (server_map (w1 ch))))]"
      using Cons.IH [OF only_broker_changed_reaches [OF Cons.prems(1) c(2)] leaf ys _ _ reads rest] Cons.prems(4,5) md by auto
    moreover have "?msgs = map (value_message e) (if p = join_dots ws \<and> effective e d
        then [datapoint_of_proto (net_ts_into net) (clock 0) d] else [])"
      using Ok value_message_written [of e d] by simp
    ultimately show ?thesis using pd so path value_message_cong [OF md] by simp
  qed
qed

section \<open>Properties\<close>

text \<open>
  C5.  A client that has subscribed to a path is told of what another client writes.  Its stream begins
  with the value stored when it subscribed; then follows, whatever other paths the other client
  writes in between, one response for each accepted write to the path that is not skipped as
  a repetition, in the order of the writes, with the path, the value written and the unit of the entry, and nothing
  else; the first response has no unit.  This holds as long as the subscriber may read the path when the values are written.
\<close>

theorem writes_reach_subscriber:
  assumes "reaches net reader w ch reader_ps" and "reaches net writer w ch writer_ps"
    and "glob_regex_spec (net_re net)" and "leaf_path (server_map (w ch)) ws e"
    and "subscribe_current_values net now [join_dots ws] reader w = (Ok sub, reader', w1)"
    and "set_current_values net clock ds writer w1 = (res, writer', w2)"
    and "\<forall>n<length ds. can_read (net_re net) (clock n) reader_ps (join_dots ws) = Ok ()"
  shows "\<exists>subs sub'. change_subscriptions (subscriptions (srv_broker (w2 ch))) = subs @ [sub'] \<and>
    cs_entries sub' = cs_entries sub \<and> cs_permissions sub' = reader_ps \<and> \<not> ch_closed (cs_sender sub') \<and>
    (let response = (\<lambda>dp un. [(\<lparr>de_path = join_dots ws, de_value = proto_datapoint (net_ts_from net) dp,
       de_actuator_target = None, de_metadata = Some (default_metadata\<lparr>pm_unit := un\<rparr>)\<rparr>, {PF_Value})])
     in convert_to_proto_stream (net_ts_from net) (ch_sent (cs_sender sub')) =
       response (e_datapoint e) None #
       map (\<lambda>dp. response dp (md_unit (e_metadata e)))
         (observed (net_re net) clock writer_ps (net_ts_into net) (join_dots ws) ds (server_map (w ch))))"
proof -
  have wf: "db_wf (database (srv_broker (w ch)))" using assms(1) by (simp add: reaches_def)
  obtain q b where v: "val_subscribe (net_re net) now (Some reader_ps) (srv_broker (w ch))
      [\<lparr>sub_path = join_dots ws, sub_fields = [field_code PF_Value, field_code PF_Metadata]\<rparr>] = (q, b)" by (metis prod.exhaust)
  have "subscribe_current_values net now [join_dots ws] reader w = (map_err CE_Status q, reader, w(ch := (w ch)\<lparr>srv_broker := b\<rparr>))"
    unfolding subscribe_current_values_def subscribe_paths_def
    using assms(1) v by (intro rpc_granted) (auto simp: reaches_def)
  then have q: "q = Ok sub" and w1: "w1 = w(ch := (w ch)\<lparr>srv_broker := b\<rparr>)"
    using assms(5) by (cases q; simp)+
  note sub = leaf_subscribe [OF wf assms(3,4) v [unfolded q]]
  have path: "md_path (e_metadata e) = join_dots ws" using abs_db_wf_path(1) [OF wf] assms(4) by (simp add: leaf_path_def)
  have reach: "reaches net writer w1 ch writer_ps" using assms(2) sub(5) w1 by (simp add: reaches_def)
  have map: "server_map (w1 ch) = server_map (w ch)" using sub(5) w1 by simp
  have leaf: "leaf_path (server_map (w1 ch)) ws e" using assms(4) map by simp
  have subs: "change_subscriptions (subscriptions (srv_broker (w1 ch))) = change_subscriptions (subscriptions (srv_broker (w ch))) @ [sub]"
    using sub(6) w1 by simp
  have set: "set_entries net clock [field_code PF_Value, field_code PF_Path] (map (\<lambda>(p, d). value_entry p d) ds) writer w1 = (res, writer', w2)"
    using assms(6) by (simp add: set_current_values_def value_entry_def)
  obtain ys where ys: "change_subscriptions (subscriptions (srv_broker (w2 ch))) =
      ys @ [told sub (map (value_message e) (observed (net_re net) clock writer_ps (net_ts_into net) (join_dots ws) ds (server_map (w ch))))]"
    using writes_delivered [OF reach leaf subs sub(3,1) _ set] assms(7) sub(2) map by auto
  have resp: "convert_to_proto_stream (net_ts_from net) [value_message e dp] =
      [[(\<lparr>de_path = join_dots ws, de_value = proto_datapoint (net_ts_from net) dp, de_actuator_target = None,
         de_metadata = Some (default_metadata\<lparr>pm_unit := md_unit (e_metadata e)\<rparr>)\<rparr>, {PF_Value})]]" for dp
    by (simp add: convert_to_proto_stream_def value_message_def data_entry_of_update_def changed_notification_fields path proto_field_def)
  show ?thesis
    using ys sub path resp
    by (auto simp: Let_def convert_to_proto_stream_def data_entry_of_update_def initial_notification_fields proto_field_def)
qed

lemma example_subscribed:
  "\<exists>sub w. subscribe_current_values example_network 1 [''A''] example_client example_servers = (Ok sub, example_client, w)"
proof -
  let ?b = "srv_broker (example_servers 0)"
  have re: "glob_regex_spec (net_re example_network)" by (simp add: example_network_def glob_engine_spec)
  have leaf: "leaf_path (abs_db (database ?b)) [''A''] example_entry"
    using example_words example_server_map [of 0] by (simp add: leaf_path_def)
  have wf: "db_wf (database ?b)" using example_reaches by (simp add: reaches_def)
  have "\<exists>sub b. val_subscribe (net_re example_network) 1 (Some ALLOW_ALL) ?b
      [\<lparr>sub_path = ''A'', sub_fields = [field_code PF_Value, field_code PF_Metadata]\<rparr>] = (Ok sub, b)"
    using leaf_collect [OF wf re leaf, of 1 ALLOW_ALL, unfolded example_words(2)]
    by (simp add: val_subscribe_def subscribe_def subscribe_open_def Let_def del: subscribe_requests.simps)
  then obtain sub b where "val_subscribe (net_re example_network) 1 (Some ALLOW_ALL) ?b
      [\<lparr>sub_path = ''A'', sub_fields = [field_code PF_Value, field_code PF_Metadata]\<rparr>] = (Ok sub, b)" by blast
  then have "subscribe_current_values example_network 1 [''A''] example_client example_servers =
      (map_err CE_Status (Ok sub), example_client, example_servers(0 := (example_servers 0)\<lparr>srv_broker := b\<rparr>))"
    unfolding subscribe_current_values_def subscribe_paths_def
    using example_reaches by (intro rpc_granted) (auto simp: reaches_def)
  then show ?thesis by auto
qed

theorem writes_reach_subscriber_witness:
  "\<exists>sub w1 res client' w2 subs sub'.
     subscribe_current_values example_network 1 [''A''] example_client example_servers = (Ok sub, example_client, w1) \<and>
     set_current_values example_network (\<lambda>_. 1) [(''A'', example_value)] example_client w1 = (res, client', w2) \<and>
     change_subscriptions (subscriptions (srv_broker (w2 0))) = subs @ [sub'] \<and>
     length (convert_to_proto_stream zero_ts (ch_sent (cs_sender sub'))) = 2 \<and>
     (\<exists>entry p. last (convert_to_proto_stream zero_ts (ch_sent (cs_sender sub'))) = [(entry, {PF_Value})] \<and>
        de_path entry = ''A'' \<and> de_value entry = Some p \<and> pd_value p = Some (KV_Int32 7))"
proof -
  obtain sub w1 where s: "subscribe_current_values example_network 1 [''A''] example_client example_servers = (Ok sub, example_client, w1)"
    using example_subscribed by blast
  obtain res client' w2 where w: "set_current_values example_network (\<lambda>_. 1) [(''A'', example_value)] example_client w1 = (res, client', w2)"
    by (metis prod.exhaust)
  have leaf: "leaf_path (server_map (example_servers 0)) [''A''] example_entry" using example_words by (simp add: leaf_path_def)
  have re: "glob_regex_spec (net_re example_network)" by (simp add: example_network_def glob_engine_spec)
  have dp: "datapoint_of_proto (net_ts_into example_network) 1 example_value = \<lparr>dp_ts = 1, dp_value = Int32 7\<rparr>"
    "effective example_entry example_value"
    by (simp_all add: datapoint_of_proto_def example_value_def data_value_of_proto_def effective_def)
  have "entry_error (net_re example_network) 1 ALLOW_ALL ''A'' example_entry (client_value_update (net_ts_into example_network) 1 example_value) = None"
    by (simp add: example_network_def example_write)
  then have o: "observed (net_re example_network) (\<lambda>_. 1) ALLOW_ALL (net_ts_into example_network) ''A'' [(''A'', example_value)]
      (server_map (example_servers 0)) = [\<lparr>dp_ts = 1, dp_value = Int32 7\<rparr>]"
    using dp by (simp add: set_one_def)
  obtain subs sub' where "change_subscriptions (subscriptions (srv_broker (w2 0))) = subs @ [sub']"
      "convert_to_proto_stream zero_ts (ch_sent (cs_sender sub')) =
        [[(\<lparr>de_path = ''A'', de_value = proto_datapoint zero_ts (e_datapoint example_entry), de_actuator_target = None,
           de_metadata = Some (default_metadata\<lparr>pm_unit := None\<rparr>)\<rparr>, {PF_Value})],
         [(\<lparr>de_path = ''A'', de_value = proto_datapoint zero_ts \<lparr>dp_ts = 1, dp_value = Int32 7\<rparr>, de_actuator_target = None,
           de_metadata = Some (default_metadata\<lparr>pm_unit := md_unit (e_metadata example_entry)\<rparr>)\<rparr>, {PF_Value})]]"
    using writes_reach_subscriber [OF example_reaches example_reaches re leaf, unfolded example_words(2), OF s w] o
    by (auto simp: Let_def example_network_def [THEN arg_cong [of _ _ net_ts_from]])
  moreover have "\<exists>p. proto_datapoint zero_ts \<lparr>dp_ts = 1, dp_value = Int32 7\<rparr> = Some p \<and> pd_value p = Some (KV_Int32 7)"
    by (simp add: proto_datapoint_def)
  ultimately show ?thesis using s w by auto
qed

end
