(* ===== verification/Locks.thy ===== *)
theory Locks
  imports Main
begin

text \<open>
  How the operations of the broker run at the same time (\<open>broker.rs\<close>).  The database and the
  subscriptions are each behind a read-write lock, and notifications go through bounded channels.
  An operation is here the sequence of its lock and channel actions; any number of requests run
  interleaved, clients come, read, hang up and cancel requests.  The locks are those of the crate
  \<open>tokio\<close>: which of the waiting tasks is let in is the parameter \<open>grants\<close>, with the documented
  guarantees \<open>rwlock_spec\<close> and \<open>write_preferring\<close>; first in, first out (\<open>fifo_grants\<close>) is an instance.
  The number of changes to what a lock protects stands for its contents.
\<close>

section \<open>Actions and programs\<close>

datatype mode = Shared | Exclusive

datatype 'l action = Lock 'l mode | Downgrade 'l | Unlock 'l | Change 'l | Send nat

datatype broker_lock = Database_Lock | Subscriptions_Lock

text \<open>The functions that read the database under \<open>database.read()\<close>.\<close>

definition read_program :: "broker_lock action list" where
  "read_program = [Lock Database_Lock Shared, Unlock Database_Lock]"

definition add_entry_program :: "broker_lock action list" where
  "add_entry_program = [Lock Database_Lock Exclusive, Change Database_Lock, Unlock Database_Lock]"

definition cleanup_program :: "broker_lock action list" where
  "cleanup_program = [Lock Subscriptions_Lock Exclusive, Change Subscriptions_Lock, Unlock Subscriptions_Lock]"

definition shutdown_program :: "broker_lock action list" where
  "shutdown_program = [Lock Subscriptions_Lock Exclusive, Change Subscriptions_Lock, Unlock Subscriptions_Lock]"

text \<open>The channels that are sent a notification, and whether one of them turned out to be closed.\<close>

definition update_entries_program :: "nat list \<Rightarrow> bool \<Rightarrow> broker_lock action list" where
  "update_entries_program recipients cleanup_needed =
     [Lock Database_Lock Exclusive, Change Database_Lock, Downgrade Database_Lock, Lock Subscriptions_Lock Shared] @
     map Send recipients @
     [Unlock Database_Lock, Unlock Subscriptions_Lock] @
     (if cleanup_needed then cleanup_program else [])"

text \<open>
  The channel made for the subscription; \<open>None\<close> if there is nothing to subscribe to.  The initial
  notification is always sent.
\<close>

definition subscribe_program :: "nat option \<Rightarrow> broker_lock action list" where
  "subscribe_program channel =
     (case channel of
        Some c \<Rightarrow>
          [Lock Database_Lock Shared, Send c, Unlock Database_Lock,
           Lock Subscriptions_Lock Exclusive, Change Subscriptions_Lock, Unlock Subscriptions_Lock]
      | None \<Rightarrow> [])"

text \<open>
  \<open>None\<close>: the query does not compile.  Otherwise the channel if the initial execution of the query
  gives a response.
\<close>

definition subscribe_query_program :: "nat option option \<Rightarrow> broker_lock action list" where
  "subscribe_query_program compiled =
     (case compiled of
        Some initial \<Rightarrow>
          [Lock Database_Lock Shared] @ (case initial of Some c \<Rightarrow> [Send c] | None \<Rightarrow> []) @
          [Lock Subscriptions_Lock Exclusive, Change Subscriptions_Lock, Unlock Subscriptions_Lock, Unlock Database_Lock]
      | None \<Rightarrow> [Lock Database_Lock Shared, Unlock Database_Lock])"

datatype operation =
  Op_Read | Op_Add | Op_Update "nat list" bool | Op_Subscribe "nat option" | Op_Query "nat option option" |
  Op_Cleanup | Op_Shutdown

fun operation_program :: "operation \<Rightarrow> broker_lock action list" where
  "operation_program Op_Read = read_program"
| "operation_program Op_Add = add_entry_program"
| "operation_program (Op_Update recipients cleanup_needed) = update_entries_program recipients cleanup_needed"
| "operation_program (Op_Subscribe channel) = subscribe_program channel"
| "operation_program (Op_Query compiled) = subscribe_query_program compiled"
| "operation_program Op_Cleanup = cleanup_program"
| "operation_program Op_Shutdown = shutdown_program"

text \<open>A handler awaits one operation after the other.\<close>

definition request_program :: "operation list \<Rightarrow> broker_lock action list" where
  "request_program ops = concat (map operation_program ops)"

section \<open>Interleaved execution\<close>

text \<open>\<open>mpsc::channel(10)\<close>\<close>

definition channel_capacity :: nat where
  "channel_capacity = 10"

record 'l conc =
  progs :: "nat \<Rightarrow> 'l action list"
  held :: "'l \<Rightarrow> (nat \<times> mode) list"
  waiting :: "'l \<Rightarrow> (nat \<times> mode) list"
  buffered :: "nat \<Rightarrow> nat"
  gone :: "nat \<Rightarrow> bool"
  changes :: "'l \<Rightarrow> nat"

definition initial_conc :: "'l conc" where
  "initial_conc = \<lparr>progs = (\<lambda>_. []), held = (\<lambda>_. []), waiting = (\<lambda>_. []), buffered = (\<lambda>_. 0), gone = (\<lambda>_. False), changes = (\<lambda>_. 0)\<rparr>"

type_synonym grants = "mode set \<Rightarrow> mode list \<Rightarrow> nat \<Rightarrow> bool"

definition compatible :: "mode set \<Rightarrow> mode \<Rightarrow> bool" where
  "compatible H m \<longleftrightarrow> (case m of Shared \<Rightarrow> Exclusive \<notin> H | Exclusive \<Rightarrow> H = {})"

text \<open>
  The lock is given to a waiting task only if the tasks that hold it allow it, and a free lock is
  given to one of those who wait for it.
\<close>

definition rwlock_spec :: "grants \<Rightarrow> bool" where
  "rwlock_spec grants \<longleftrightarrow>
     (\<forall>H ws i. grants H ws i \<longrightarrow> i < length ws \<and> compatible H (ws ! i)) \<and>
     (\<forall>ws. ws \<noteq> [] \<longrightarrow> (\<exists>i. grants {} ws i))"

text \<open>No reader overtakes a writer that waits.\<close>

definition write_preferring :: "grants \<Rightarrow> bool" where
  "write_preferring grants \<longleftrightarrow> (\<forall>H ws i. grants H ws i \<longrightarrow> ws ! i = Shared \<longrightarrow> Exclusive \<notin> set (take i ws))"

definition fifo_grants :: grants where
  "fifo_grants H ws i \<longleftrightarrow> i = 0 \<and> ws \<noteq> [] \<and> compatible H (hd ws)"

lemma fifo_grants_spec: "rwlock_spec fifo_grants" "write_preferring fifo_grants"
  by (auto simp: rwlock_spec_def write_preferring_def fifo_grants_def hd_conv_nth compatible_def split: mode.split)

datatype ('l, 'r) conc_event =
  E_Spawn nat 'r | E_Ask nat | E_Grant 'l nat | E_Run nat | E_Cancel nat | E_Receive nat | E_Drop nat

definition advance :: "nat \<Rightarrow> 'l action list \<Rightarrow> 'l conc \<Rightarrow> 'l conc" where
  "advance t p s = s\<lparr>progs := (progs s)(t := p)\<rparr>"

definition without :: "nat \<Rightarrow> (nat \<times> mode) list \<Rightarrow> (nat \<times> mode) list" where
  "without t xs = filter (\<lambda>(u, _). u \<noteq> t) xs"

fun conc_step :: "('r \<Rightarrow> 'l action list) \<Rightarrow> grants \<Rightarrow> 'l conc \<Rightarrow> ('l, 'r) conc_event \<Rightarrow> 'l conc option" where
  "conc_step prog grants s (E_Spawn t r) = (if progs s t = [] then Some (advance t (prog r) s) else None)"
| "conc_step prog grants s (E_Ask t) =
     (case progs s t of
        Lock l m # _ \<Rightarrow>
          if t \<in> fst ` set (waiting s l) then None
          else Some (s\<lparr>waiting := (waiting s)(l := waiting s l @ [(t, m)])\<rparr>)
      | _ \<Rightarrow> None)"
| "conc_step prog grants s (E_Grant l i) =
     (if i < length (waiting s l) \<and> grants (snd ` set (held s l)) (map snd (waiting s l)) i then
        (case waiting s l ! i of
           (t, m) \<Rightarrow>
             Some (advance t (tl (progs s t))
               (s\<lparr>waiting := (waiting s)(l := take i (waiting s l) @ drop (Suc i) (waiting s l)),
                  held := (held s)(l := (t, m) # held s l)\<rparr>)))
      else None)"
| "conc_step prog grants s (E_Run t) =
     (case progs s t of
        Downgrade l # p \<Rightarrow> Some (advance t p (s\<lparr>held := (held s)(l := map (\<lambda>(u, m). (u, if u = t then Shared else m)) (held s l))\<rparr>))
      | Unlock l # p \<Rightarrow> Some (advance t p (s\<lparr>held := (held s)(l := without t (held s l))\<rparr>))
      | Change l # p \<Rightarrow> Some (advance t p (s\<lparr>changes := (changes s)(l := Suc (changes s l))\<rparr>))
      | Send c # p \<Rightarrow>
          if gone s c then Some (advance t p s)
          else if buffered s c < channel_capacity then
            Some (advance t p (s\<lparr>buffered := (buffered s)(c := Suc (buffered s c))\<rparr>))
          else None
      | _ \<Rightarrow> None)"
| "conc_step prog grants s (E_Cancel t) =
     Some (advance t [] (s\<lparr>held := (\<lambda>l. without t (held s l)), waiting := (\<lambda>l. without t (waiting s l))\<rparr>))"
| "conc_step prog grants s (E_Receive c) =
     (if 0 < buffered s c then Some (s\<lparr>buffered := (buffered s)(c := buffered s c - 1)\<rparr>) else None)"
| "conc_step prog grants s (E_Drop c) = Some (s\<lparr>gone := (gone s)(c := True)\<rparr>)"

fun conc_run :: "('r \<Rightarrow> 'l action list) \<Rightarrow> grants \<Rightarrow> 'l conc \<Rightarrow> ('l, 'r) conc_event list \<Rightarrow> 'l conc option" where
  "conc_run prog grants s [] = Some s"
| "conc_run prog grants s (ev # evs) =
     (case conc_step prog grants s ev of Some s' \<Rightarrow> conc_run prog grants s' evs | None \<Rightarrow> None)"

definition conc_reachable :: "('r \<Rightarrow> 'l action list) \<Rightarrow> grants \<Rightarrow> 'l conc \<Rightarrow> bool" where
  "conc_reachable prog grants s \<longleftrightarrow> (\<exists>evs. conc_run prog grants initial_conc evs = Some s)"

text \<open>A task that waits for a client to read.\<close>

definition blocked_on :: "'l conc \<Rightarrow> nat \<Rightarrow> nat \<Rightarrow> bool" where
  "blocked_on s t c \<longleftrightarrow> (\<exists>p. progs s t = Send c # p) \<and> \<not> gone s c \<and> channel_capacity \<le> buffered s c"

definition conc_done :: "'l conc \<Rightarrow> bool" where
  "conc_done s \<longleftrightarrow> (\<forall>t. progs s t = [])"

section \<open>Lock order\<close>

text \<open>
  The remaining program of a task, given the locks it holds, takes locks in increasing rank, changes
  only what it holds exclusively, sends only while it holds the locks \<open>guard\<close> in shared mode, and gives
  all locks back.
\<close>

fun disciplined :: "('l \<Rightarrow> nat) \<Rightarrow> 'l set \<Rightarrow> ('l \<Rightarrow> mode option) \<Rightarrow> 'l action list \<Rightarrow> bool" where
  "disciplined rank guard h [] \<longleftrightarrow> (\<forall>l. h l = None)"
| "disciplined rank guard h (Lock l m # p) \<longleftrightarrow>
     (\<forall>k. h k \<noteq> None \<longrightarrow> rank k < rank l) \<and> disciplined rank guard (h(l := Some m)) p"
| "disciplined rank guard h (Downgrade l # p) \<longleftrightarrow> h l = Some Exclusive \<and> disciplined rank guard (h(l := Some Shared)) p"
| "disciplined rank guard h (Unlock l # p) \<longleftrightarrow> h l \<noteq> None \<and> disciplined rank guard (h(l := None)) p"
| "disciplined rank guard h (Change l # p) \<longleftrightarrow> h l = Some Exclusive \<and> disciplined rank guard h p"
| "disciplined rank guard h (Send c # p) \<longleftrightarrow> (\<forall>l\<in>guard. h l = Some Shared) \<and> disciplined rank guard h p"

lemma disciplined_append:
  "disciplined rank guard h p \<Longrightarrow> disciplined rank guard (\<lambda>_. None) q \<Longrightarrow> disciplined rank guard h (p @ q)"
proof (induction p arbitrary: h)
  case Nil
  then have "h = (\<lambda>_. None)" by auto
  then show ?case using Nil by simp
next
  case (Cons a p)
  then show ?case by (cases a) auto
qed

definition holding :: "'l conc \<Rightarrow> nat \<Rightarrow> 'l \<Rightarrow> mode option" where
  "holding s t l = map_of (held s l) t"

lemma map_of_without [simp]: "map_of (without t xs) u = (if u = t then None else map_of xs u)"
  by (induction xs) (auto simp: without_def)

lemma set_without [simp]: "set (without t xs) = {x \<in> set xs. fst x \<noteq> t}"
  by (auto simp: without_def)

lemma distinct_without [simp]: "distinct (map fst xs) \<Longrightarrow> distinct (map fst (without t xs))"
  unfolding without_def by (rule distinct_map_filter)

lemma holding_simps [simp]:
  "holding (s\<lparr>progs := ps\<rparr>) = holding s" "holding (s\<lparr>waiting := w\<rparr>) = holding s" "holding (s\<lparr>buffered := b\<rparr>) = holding s"
  "holding (s\<lparr>gone := g\<rparr>) = holding s" "holding (s\<lparr>changes := c\<rparr>) = holding s"
  "holding (s\<lparr>held := (held s)(l := xs)\<rparr>) u = (holding s u)(l := map_of xs u)"
  "holding (s\<lparr>waiting := w, held := (held s)(l := xs)\<rparr>) u = (holding s u)(l := map_of xs u)"
  "holding (s\<lparr>held := (held s)(l := xs), progs := ps\<rparr>) u = (holding s u)(l := map_of xs u)"
  by (auto simp: holding_def fun_eq_iff)

lemma map_of_downgrade:
  "map_of (map (\<lambda>(u, m). (u, if u = t then Shared else m)) xs) v = (if v = t then map_option (\<lambda>_. Shared) (map_of xs v) else map_of xs v)"
  by (induction xs) auto

definition active :: "(nat \<Rightarrow> 'l action list) \<Rightarrow> nat set" where
  "active ps = {t. ps t \<noteq> []}"

lemma finite_active [simp]: "finite (active (ps(t := p))) = finite (active ps)"
proof -
  have "active (ps(t := p)) \<subseteq> insert t (active ps)" "active ps \<subseteq> insert t (active (ps(t := p)))"
    by (auto simp: active_def)
  then show ?thesis by (metis finite_insert finite_subset)
qed

definition lock_inv :: "('l \<Rightarrow> nat) \<Rightarrow> 'l set \<Rightarrow> 'l conc \<Rightarrow> bool" where
  "lock_inv rank guard s \<longleftrightarrow>
     (\<forall>t. disciplined rank guard (holding s t) (progs s t)) \<and>
     (\<forall>l. distinct (map fst (held s l))) \<and>
     (\<forall>l t. (t, Exclusive) \<in> set (held s l) \<longrightarrow> held s l = [(t, Exclusive)]) \<and>
     (\<forall>l. distinct (map fst (waiting s l))) \<and>
     (\<forall>l t m. (t, m) \<in> set (waiting s l) \<longrightarrow> (\<exists>p. progs s t = Lock l m # p)) \<and>
     (\<forall>c. buffered s c \<le> channel_capacity) \<and>
     finite (active (progs s))"

lemma lock_invD:
  assumes "lock_inv rank guard s"
  shows "disciplined rank guard (holding s t) (progs s t)" "distinct (map fst (held s l))"
    "(t, Exclusive) \<in> set (held s l) \<Longrightarrow> held s l = [(t, Exclusive)]"
    "distinct (map fst (waiting s l))" "(t, m) \<in> set (waiting s l) \<Longrightarrow> \<exists>p. progs s t = Lock l m # p"
    "buffered s c \<le> channel_capacity" "finite (active (progs s))"
  using assms by (simp_all add: lock_inv_def)

lemma initial_lock_inv: "lock_inv rank guard initial_conc"
  by (simp add: lock_inv_def initial_conc_def holding_def active_def)

lemma holding_None: "holding s t l = None \<longleftrightarrow> t \<notin> fst ` set (held s l)"
  by (simp add: holding_def map_of_eq_None_iff)

lemma holding_Some: "lock_inv rank guard s \<Longrightarrow> holding s t l = Some m \<longleftrightarrow> (t, m) \<in> set (held s l)"
  by (simp add: holding_def lock_invD(2))

text \<open>A task that waits for a lock does not hold it, nor does it wait for another.\<close>

lemma waiting_not_held: "lock_inv rank guard s \<Longrightarrow> (t, m) \<in> set (waiting s l) \<Longrightarrow> holding s t l = None"
  using lock_invD(1) [of rank guard s t] lock_invD(5) [of rank guard s t m l] by fastforce

lemma step_ask_inv: "lock_inv rank guard s \<Longrightarrow> conc_step prog grants s (E_Ask t) = Some s' \<Longrightarrow> lock_inv rank guard s'"
  by (auto simp: lock_inv_def split: list.splits action.splits if_splits)

lemma step_run_inv:
  assumes inv: "lock_inv rank guard s" and step: "conc_step prog grants s (E_Run t) = Some s'"
  shows "lock_inv rank guard s'"
proof -
  obtain a p where p: "progs s t = a # p" using step by (auto split: list.splits)
  have no_wait: "(t, m) \<notin> set (waiting s l)" for m l
    using lock_invD(5) [OF inv, of t m l] step p by auto
  note d = lock_invD(1) [OF inv, of t, unfolded p]
  note rest = lock_invD(2-7) [OF inv]
  have others: "disciplined rank guard (holding s u) (progs s u)" for u using lock_invD(1) [OF inv] .
  show ?thesis
  proof (cases a)
    case (Downgrade l)
    have h: "held s l = [(t, Exclusive)]"
      using d Downgrade lock_invD(3) [OF inv, of t l] holding_Some [OF inv, of t l Exclusive] by simp
    have "disciplined rank guard ((holding s u)(l := map_of [(t, Shared)] u)) (((progs s)(t := p)) u)" for u
      using others [of u] d Downgrade h by (cases "u = t") (simp_all add: holding_def fun_upd_idem)
    then show ?thesis
      using step p Downgrade no_wait rest h by (auto simp: lock_inv_def advance_def)
  next
    case (Unlock l)
    have "disciplined rank guard ((holding s u)(l := map_of (without t (held s l)) u)) (((progs s)(t := p)) u)" for u
      using others [of u] d Unlock by (cases "u = t") (simp_all add: holding_def fun_upd_idem)
    moreover have "without t (held s l) = [(u, Exclusive)]" if "(u, Exclusive) \<in> set (held s l)" "u \<noteq> t" for u
      using rest(2) [OF that(1)] that(2) by (simp add: without_def)
    ultimately show ?thesis
      using step p Unlock no_wait rest by (auto simp: lock_inv_def advance_def)
  next
    case (Change l)
    then show ?thesis using step p no_wait d rest others by (auto simp: lock_inv_def advance_def)
  next
    case (Send c)
    then show ?thesis using step p no_wait d rest others by (auto simp: lock_inv_def advance_def Suc_le_eq split: if_splits)
  qed (use step p in simp)
qed

lemma step_grant_inv:
  assumes inv: "lock_inv rank guard s" and step: "conc_step prog grants s (E_Grant l i) = Some s'" and spec: "rwlock_spec grants"
  shows "lock_inv rank guard s'"
proof -
  obtain t m where w: "i < length (waiting s l)" "waiting s l ! i = (t, m)"
      and g: "grants (snd ` set (held s l)) (map snd (waiting s l)) i"
    using step by (cases "waiting s l ! i") (auto split: if_splits)
  let ?rest = "take i (waiting s l) @ drop (Suc i) (waiting s l)"
  have mem: "(t, m) \<in> set (waiting s l)" using w nth_mem by metis
  then obtain p where p: "progs s t = Lock l m # p" using lock_invD(5) [OF inv] by blast
  have s': "s' = s\<lparr>waiting := (waiting s)(l := ?rest), held := (held s)(l := (t, m) # held s l), progs := (progs s)(t := p)\<rparr>"
    using step w g p by (simp add: advance_def)
  have split: "waiting s l = take i (waiting s l) @ (t, m) # drop (Suc i) (waiting s l)"
    using w id_take_nth_drop by metis
  have dist: "distinct (map fst ?rest)" "t \<notin> fst ` set ?rest"
    using lock_invD(4) [OF inv, of l] by (subst (asm) split, force)+
  have sub: "set ?rest \<subseteq> set (waiting s l)" by (metis Un_subset_iff set_append set_drop_subset set_take_subset)
  have not_held: "t \<notin> fst ` set (held s l)" using waiting_not_held [OF inv mem] holding_None by metis
  have comp: "compatible (snd ` set (held s l)) m" using spec g w unfolding rwlock_spec_def by (metis nth_map snd_conv)
  have d: "disciplined rank guard ((holding s u)(l := map_of ((t, m) # held s l) u)) (((progs s)(t := p)) u)" for u
    using lock_invD(1) [OF inv, of u] p by (cases "u = t") (simp_all add: holding_def fun_upd_idem)
  have others: "(t, m') \<notin> set (waiting s k)" if "k \<noteq> l" for k m'
    using lock_invD(5) [OF inv, of t m' k] p that by auto
  have excl: "(u, Exclusive) \<in> set ((t, m) # held s l) \<Longrightarrow> (t, m) # held s l = [(u, Exclusive)]" for u
    using comp by (cases m) (force simp: compatible_def)+
  have wait: "\<exists>q. ((progs s)(t := p)) u = Lock k n # q" if "(u, n) \<in> set (((waiting s)(l := ?rest)) k)" for u n k
  proof (cases "k = l")
    case True
    then have "u \<noteq> t" "(u, n) \<in> set (waiting s l)" using that dist(2) sub by (force, auto)
    then show ?thesis using lock_invD(5) [OF inv, of u n l] True by simp
  next
    case False
    then show ?thesis using that others [of k n] lock_invD(5) [OF inv, of u n k] by (cases "u = t") auto
  qed
  show ?thesis unfolding s' lock_inv_def
    using d excl wait dist not_held lock_invD(2-4,6,7) [OF inv]
    by (auto simp del: set_append simp: image_iff)
qed

lemma step_cancel_inv:
  assumes inv: "lock_inv rank guard s"
  shows "lock_inv rank guard (advance t [] (s\<lparr>held := (\<lambda>l. without t (held s l)), waiting := (\<lambda>l. without t (waiting s l))\<rparr>))"
proof -
  have "holding (s\<lparr>held := (\<lambda>l. without t (held s l)), waiting := (\<lambda>l. without t (waiting s l)), progs := (progs s)(t := [])\<rparr>) u =
      (if u = t then (\<lambda>_. None) else holding s u)" for u
    by (auto simp: holding_def fun_eq_iff)
  moreover have "without t (held s l) = [(u, Exclusive)]" if "(u, Exclusive) \<in> set (held s l)" "u \<noteq> t" for u l
    using lock_invD(3) [OF inv that(1)] that(2) by (simp add: without_def)
  ultimately show ?thesis using lock_invD [OF inv] by (auto simp: lock_inv_def advance_def)
qed

lemma step_spawn_inv:
  assumes inv: "lock_inv rank guard s" and "progs s t = []" and "disciplined rank guard (\<lambda>_. None) p"
  shows "lock_inv rank guard (advance t p s)"
proof -
  have "holding s t = (\<lambda>_. None)" using lock_invD(1) [OF inv, of t] assms(2) by auto
  moreover have "(t, m) \<notin> set (waiting s l)" for m l using lock_invD(5) [OF inv, of t m l] assms(2) by auto
  ultimately show ?thesis using lock_invD [OF inv] assms(3) by (auto simp: lock_inv_def advance_def)
qed

lemma step_client_inv:
  "lock_inv rank guard s \<Longrightarrow> lock_inv rank guard (s\<lparr>buffered := (buffered s)(c := buffered s c - Suc 0)\<rparr>)"
  "lock_inv rank guard s \<Longrightarrow> lock_inv rank guard (s\<lparr>gone := g\<rparr>)"
  by (auto simp: lock_inv_def le_diff_conv intro: le_SucI)

section \<open>Progress\<close>

text \<open>The steps that need no client.\<close>

definition internal :: "('l, 'r) conc_event \<Rightarrow> bool" where
  "internal ev \<longleftrightarrow> (case ev of E_Ask _ \<Rightarrow> True | E_Grant _ _ \<Rightarrow> True | E_Run _ \<Rightarrow> True | _ \<Rightarrow> False)"

lemma internal_simps [simp]: "internal (E_Ask t)" "internal (E_Grant l i)" "internal (E_Run t)"
  by (simp_all add: internal_def)

text \<open>What is left to do: an action counts two, one less once its lock has been asked for.\<close>

definition waits :: "'l conc \<Rightarrow> nat \<Rightarrow> bool" where
  "waits s t \<longleftrightarrow> (\<exists>l m. (t, m) \<in> set (waiting s l))"

definition todo :: "'l conc \<Rightarrow> nat \<Rightarrow> nat" where
  "todo s t = 2 * length (progs s t) - (if waits s t then 1 else 0)"

definition work :: "'l conc \<Rightarrow> nat" where
  "work s = (\<Sum>t\<in>active (progs s). todo s t)"

lemma less_work:
  assumes "finite (active (progs s))" and "todo s' t < todo s t" and "\<And>u. u \<noteq> t \<Longrightarrow> todo s' u = todo s u"
    and "active (progs s') \<subseteq> active (progs s)" and "t \<in> active (progs s)"
  shows "work s' < work s"
proof -
  have le: "todo s' u \<le> todo s u" for u using assms(2,3) by (cases "u = t") auto
  have "work s' \<le> (\<Sum>u\<in>active (progs s). todo s' u)"
    unfolding work_def using assms(1,4) by (intro sum_mono2) auto
  also have "\<dots> < work s"
    unfolding work_def using le assms(1,2,5) by (intro sum_strict_mono_ex1) auto
  finally show ?thesis .
qed

lemma step_changes_one:
  assumes "lock_inv rank guard s" and "conc_step prog grants s ev = Some s'" and "internal ev"
  shows "\<exists>t. t \<in> active (progs s) \<and> todo s' t < todo s t \<and> (\<forall>u. u \<noteq> t \<longrightarrow> progs s' u = progs s u \<and> waits s' u = waits s u)"
proof (cases ev)
  case (E_Ask t)
  obtain l m p where p: "progs s t = Lock l m # p" "t \<notin> fst ` set (waiting s l)"
      and s': "s' = s\<lparr>waiting := (waiting s)(l := waiting s l @ [(t, m)])\<rparr>"
    using assms(2) E_Ask by (auto split: list.splits action.splits if_splits)
  have "\<not> waits s t"
  proof
    assume "waits s t"
    then obtain k n where k: "(t, n) \<in> set (waiting s k)" by (auto simp: waits_def)
    then have "k = l" using lock_invD(5) [OF assms(1) k] p(1) by simp
    then show False using k p(2) by force
  qed
  moreover have "waits s' t" using s' by (auto simp: waits_def)
  moreover have "waits s' u = waits s u" if "u \<noteq> t" for u using s' that by (auto simp: waits_def)
  ultimately show ?thesis using p s' by (intro exI [of _ t]) (auto simp: active_def todo_def)
next
  case (E_Run t)
  obtain a p where p: "progs s t = a # p" using assms(2) E_Run by (auto split: list.splits)
  have a: "\<not> (\<exists>l m. a = Lock l m)" "waiting s' = waiting s" "progs s' = (progs s)(t := p)"
    using assms(2) E_Run p by (cases a; auto simp: advance_def split: if_splits)+
  have "\<not> waits s t" using lock_invD(5) [OF assms(1), of t] p a(1) by (auto simp: waits_def)
  then show ?thesis using p a by (intro exI [of _ t]) (auto simp: active_def todo_def waits_def)
next
  case (E_Grant l i)
  obtain t m where w: "i < length (waiting s l)" "waiting s l ! i = (t, m)"
      and s': "s' = advance t (tl (progs s t)) (s\<lparr>waiting := (waiting s)(l := take i (waiting s l) @ drop (Suc i) (waiting s l)),
        held := (held s)(l := (t, m) # held s l)\<rparr>)"
    using assms(2) E_Grant by (cases "waiting s l ! i") (auto split: if_splits)
  have split: "set (waiting s l) = insert (t, m) (set (take i (waiting s l) @ drop (Suc i) (waiting s l)))"
    using id_take_nth_drop [OF w(1)] w(2) by (metis Un_insert_right list.simps(15) set_append)
  then obtain p where p: "progs s t = Lock l m # p" using lock_invD(5) [OF assms(1), of t m l] by auto
  have "(u, n) \<in> set (waiting s' k) \<longleftrightarrow> (u, n) \<in> set (waiting s k)" if "u \<noteq> t" for u n k
    using that by (cases "k = l") (simp_all add: s' split advance_def)
  then have "waits s' u = waits s u" if "u \<noteq> t" for u using that by (simp add: waits_def)
  moreover have "progs s' = (progs s)(t := p)" using s' p by (simp add: advance_def)
  ultimately show ?thesis using p by (intro exI [of _ t]) (auto simp: active_def todo_def)
qed (use assms in \<open>simp_all add: internal_def\<close>)

lemma internal_less_work:
  assumes inv: "lock_inv rank guard s" and "conc_step prog grants s ev = Some s'" and "internal ev"
  shows "work s' < work s"
proof -
  obtain t where t: "t \<in> active (progs s)" "todo s' t < todo s t"
      "\<And>u. u \<noteq> t \<Longrightarrow> progs s' u = progs s u \<and> waits s' u = waits s u"
    using step_changes_one [OF assms] by blast
  moreover have "active (progs s') \<subseteq> active (progs s)" using t(1,3) by (fastforce simp: active_def)
  ultimately show ?thesis using less_work [OF lock_invD(7) [OF inv], of s' t] by (simp add: todo_def)
qed

lemma conc_run_append:
  "conc_run prog grants s (evs @ evs') = (case conc_run prog grants s evs of Some s' \<Rightarrow> conc_run prog grants s' evs' | None \<Rightarrow> None)"
  by (induction evs arbitrary: s) (auto split: option.split)

lemma done_frees_locks:
  assumes inv: "lock_inv rank guard s" and fin: "conc_done s"
  shows "held s l = []" "waiting s l = []"
proof -
  have nil: "progs s t = []" for t using fin by (simp add: conc_done_def)
  have "holding s t l = None" for t using lock_invD(1) [OF inv, of t] unfolding nil by simp
  then have "t \<notin> fst ` set (held s l)" for t by (rule holding_None [THEN iffD1])
  then have "fst ` set (held s l) = {}" by (metis ex_in_conv)
  then show "held s l = []" by simp
  show "waiting s l = []"
  proof (cases "waiting s l")
    case (Cons x xs)
    then show ?thesis using lock_invD(5) [OF inv, of "fst x" "snd x" l] nil by simp
  qed
qed

text \<open>What a lock protects changes in a step of its only holder.\<close>

lemma change_needs_lock:
  assumes inv: "lock_inv rank guard s" and "conc_step prog grants s ev = Some s'" and "changes s' l \<noteq> changes s l"
  shows "\<exists>t p. ev = E_Run t \<and> progs s t = Change l # p \<and> held s l = [(t, Exclusive)]"
proof -
  obtain t where t: "ev = E_Run t" using assms(2,3)
    by (cases ev) (auto simp: advance_def split: list.splits action.splits if_splits prod.splits)
  then obtain p where p: "progs s t = Change l # p" using assms(2,3)
    by (auto simp: advance_def split: list.splits action.splits if_splits)
  then have "holding s t l = Some Exclusive" using lock_invD(1) [OF inv, of t] by simp
  then show ?thesis using t p lock_invD(3) [OF inv] holding_Some [OF inv] by auto
qed

text \<open>What one step leaves of the program and of the locks of a task that is neither cancelled nor started.\<close>

lemma step_task:
  assumes inv: "lock_inv rank guard s" and "conc_step prog grants s ev = Some s'"
    and "ev \<noteq> E_Cancel t" and "\<forall>r. ev \<noteq> E_Spawn t r"
  shows "(progs s' t = progs s t \<and> holding s' t = holding s t \<and> ev \<noteq> E_Run t) \<or>
    (\<exists>a. progs s t = a # progs s' t \<and> (ev = E_Run t \<or> (\<exists>l m. a = Lock l m)) \<and>
      (\<forall>l. a \<noteq> Unlock l \<longrightarrow> holding s t l \<noteq> None \<longrightarrow> holding s' t l \<noteq> None))"
proof (cases ev)
  case (E_Spawn u r)
  then show ?thesis using assms(2,4) by (auto simp: advance_def split: if_splits)
next
  case (E_Ask u)
  then show ?thesis using assms(2) by (auto split: list.splits action.splits if_splits)
next
  case (E_Grant l i)
  obtain u m where w: "(u, m) \<in> set (waiting s l)"
      and s': "s' = advance u (tl (progs s u)) (s\<lparr>waiting := (waiting s)(l := take i (waiting s l) @ drop (Suc i) (waiting s l)),
        held := (held s)(l := (u, m) # held s l)\<rparr>)"
    using assms(2) E_Grant by (cases "waiting s l ! i") (auto split: if_splits dest: nth_mem)
  obtain p where p: "progs s u = Lock l m # p" using lock_invD(5) [OF inv w] by blast
  show ?thesis
    using s' p E_Grant waiting_not_held [OF inv w] by (cases "u = t") (auto simp: advance_def holding_def)
next
  case (E_Run u)
  show ?thesis
  proof (cases "u = t")
    case True
    then show ?thesis using assms(2) E_Run
      by (auto simp: advance_def holding_def map_of_downgrade split: list.splits action.splits if_splits)
  next
    case False
    then show ?thesis using assms(2) E_Run
      by (auto simp: advance_def holding_def fun_eq_iff map_of_downgrade split: list.splits action.splits if_splits)
  qed
next
  case (E_Cancel u)
  then show ?thesis using assms(2,3) by (auto simp: advance_def holding_def fun_eq_iff)
qed (use assms(2) in \<open>auto split: if_splits\<close>)

text \<open>A task gets past a request for a lock only when the lock is granted to it.\<close>

lemma step_lock:
  assumes "lock_inv rank guard s" and "conc_step prog grants s ev = Some s'" and "progs s t = Lock l m # p"
    and "progs s' t \<noteq> progs s t" and "ev \<noteq> E_Cancel t" and "\<forall>r. ev \<noteq> E_Spawn t r"
  shows "\<exists>i. ev = E_Grant l i"
proof -
  obtain k i where ev: "ev = E_Grant k i"
    using assms(2-6) by (cases ev) (auto simp: advance_def split: list.splits action.splits if_splits)
  then obtain u n where u: "(u, n) \<in> set (waiting s k)" "progs s' = (progs s)(u := tl (progs s u))"
    using assms(2) by (cases "waiting s k ! i") (auto simp: advance_def split: if_splits dest: nth_mem)
  then show ?thesis using lock_invD(5) [OF assms(1) u(1)] assms(3,4) ev by (auto split: if_splits)
qed

text \<open>Only its reader takes messages out of a channel, or closes it.\<close>

lemma step_channel:
  "conc_step prog grants s ev = Some s' \<Longrightarrow> ev \<noteq> E_Receive c \<Longrightarrow> ev \<noteq> E_Drop c \<Longrightarrow>
   gone s' c = gone s c \<and> buffered s c \<le> buffered s' c"
  by (cases ev) (auto simp: advance_def split: list.splits action.splits if_splits prod.splits)

lemma step_blocked:
  assumes inv: "lock_inv rank guard s" and step: "conc_step prog grants s ev = Some s'" and b: "blocked_on s t c"
    and ev: "ev \<notin> {E_Receive c, E_Drop c, E_Cancel t}"
  shows "blocked_on s' t c" "holding s' t = holding s t" "progs s' t = progs s t"
proof -
  obtain p where p: "progs s t = Send c # p" using b by (auto simp: blocked_on_def)
  have "ev \<noteq> E_Spawn t r" for r using step p by auto
  moreover have "ev \<noteq> E_Run t" using step p b by (auto simp: blocked_on_def)
  ultimately have "progs s' t = progs s t \<and> holding s' t = holding s t"
    using step_task [OF inv step, of t] ev p by auto
  then show "blocked_on s' t c" "holding s' t = holding s t" "progs s' t = progs s t"
    using b step_channel [OF step, of c] ev by (auto simp: blocked_on_def)
qed

lemma fst_set_without [simp]: "u \<in> fst ` set (without t xs) \<longleftrightarrow> u \<noteq> t \<and> u \<in> fst ` set xs"
  by auto

lemma without_append [simp]: "without t (xs @ ys) = without t xs @ without t ys"
  by (simp add: without_def)

lemma without_Cons [simp]: "without t ((u, m) # xs) = (if u = t then without t xs else (u, m) # without t xs)"
  by (simp add: without_def)

text \<open>While a lock is held, nobody who asked for it after a writer gets it.\<close>

lemma grant_behind_writer:
  assumes "rwlock_spec grants" and "write_preferring grants" and "grants (snd ` set hs) (map snd (xs @ (w, Exclusive) # ys)) i" and "hs \<noteq> []"
  shows "i < length xs"
proof (rule ccontr)
  let ?ws = "map snd (xs @ (w, Exclusive) # ys)"
  assume "\<not> i < length xs"
  then have "i = length xs \<or> Exclusive \<in> set (take i ?ws)" by (cases "i - length xs") auto
  moreover have "?ws ! length xs = Exclusive" by (simp add: nth_append)
  ultimately have "?ws ! i = Exclusive" using assms(2,3) unfolding write_preferring_def by (metis mode.exhaust)
  then show False using assms(1,3,4) unfolding rwlock_spec_def compatible_def by fastforce
qed

lemma step_behind_writer:
  assumes spec: "rwlock_spec grants" "write_preferring grants" and step: "conc_step prog grants s ev = Some s'"
    and "held s l \<noteq> []" and w: "waiting s l = xs @ (w, Exclusive) # ys" and u: "u \<notin> fst ` set xs" "u \<notin> fst ` set (held s l)"
    and "ev \<noteq> E_Cancel w"
  shows "\<exists>xs' ys'. waiting s' l = xs' @ (w, Exclusive) # ys' \<and> u \<notin> fst ` set xs' \<and> u \<notin> fst ` set (held s' l)"
proof (cases ev)
  case (E_Ask t)
  then obtain zs where "waiting s' l = waiting s l @ zs" "held s' l = held s l"
    using step by (cases "waiting s' l = waiting s l") (auto split: list.splits action.splits if_splits)
  then show ?thesis using w u by (intro exI [of _ xs] exI [of _ "ys @ zs"]) auto
next
  case (E_Grant k i)
  show ?thesis
  proof (cases "k = l")
    case True
    then have i: "i < length xs" using grant_behind_writer [OF spec _ assms(4)] step E_Grant w by (auto split: if_splits)
    then have "xs ! i \<in> set xs" by simp
    then have "fst (xs ! i) \<noteq> u" using u(1) by force
    moreover have "waiting s' l = (take i xs @ drop (Suc i) xs) @ (w, Exclusive) # ys" "held s' l = xs ! i # held s l"
      using step E_Grant True w i by (auto simp: advance_def nth_append split: if_splits prod.splits)
    moreover have "u \<notin> fst ` set (take i xs @ drop (Suc i) xs)"
      using u(1) by (auto dest: in_set_takeD in_set_dropD)
    ultimately show ?thesis using u by (intro exI [of _ "take i xs @ drop (Suc i) xs"] exI [of _ ys]) auto
  next
    case False
    then show ?thesis using step E_Grant w u
      by (intro exI [of _ xs] exI [of _ ys]) (auto simp: advance_def split: if_splits prod.splits)
  qed
next
  case (E_Run t)
  then have "waiting s' l = waiting s l" "fst ` set (held s' l) \<subseteq> fst ` set (held s l)"
    using step by (force simp: advance_def split: list.splits action.splits if_splits)+
  then show ?thesis using w u by (intro exI [of _ xs] exI [of _ ys]) auto
next
  case (E_Cancel t)
  then show ?thesis using step w u assms(8)
    by (intro exI [of _ "without t xs"] exI [of _ "without t ys"]) (auto simp: advance_def)
next
  case (E_Spawn t r)
  then show ?thesis using step w u by (intro exI [of _ xs] exI [of _ ys]) (auto simp: advance_def split: if_splits)
next
  case (E_Receive c)
  then show ?thesis using step w u by (intro exI [of _ xs] exI [of _ ys]) (auto split: if_splits)
next
  case (E_Drop c)
  then show ?thesis using step w u by (intro exI [of _ xs] exI [of _ ys]) auto
qed

locale ordered_programs =
  fixes rank :: "'l \<Rightarrow> nat" and guard :: "'l set" and bound :: nat and prog :: "'r \<Rightarrow> 'l action list"
  assumes rank_bound: "rank l < bound"
    and prog_disciplined: "disciplined rank guard (\<lambda>_. None) (prog r)"
begin

lemma step_keeps:
  assumes spec: "rwlock_spec grants" and inv: "lock_inv rank guard s" and step: "conc_step prog grants s ev = Some s'"
  shows "lock_inv rank guard s'"
proof (cases ev)
  case (E_Spawn t r)
  then show ?thesis using step inv by (auto intro: step_spawn_inv prog_disciplined split: if_splits)
next
  case (E_Ask t)
  show ?thesis by (rule step_ask_inv [OF inv step [unfolded E_Ask]])
next
  case (E_Grant l i)
  show ?thesis by (rule step_grant_inv [OF inv step [unfolded E_Grant] spec])
next
  case (E_Run t)
  show ?thesis by (rule step_run_inv [OF inv step [unfolded E_Run]])
next
  case (E_Cancel t)
  then show ?thesis using step step_cancel_inv [OF inv, of t] by simp
qed (use step inv in \<open>auto simp: step_client_inv split: if_splits\<close>)

lemma run_inv: "rwlock_spec grants \<Longrightarrow> lock_inv rank guard s \<Longrightarrow> conc_run prog grants s evs = Some s' \<Longrightarrow> lock_inv rank guard s'"
  by (induction evs arbitrary: s) (auto dest: step_keeps split: option.splits)

lemma reachable_inv: "rwlock_spec grants \<Longrightarrow> conc_reachable prog grants s \<Longrightarrow> lock_inv rank guard s"
  using run_inv initial_lock_inv unfolding conc_reachable_def by blast

text \<open>A task that cannot take a step waits for a lock or for a client.\<close>

lemma task_waits:
  assumes inv: "lock_inv rank guard s" and stuck: "\<forall>ev. internal ev \<longrightarrow> conc_step prog grants s ev = None"
    and "\<forall>c. \<not> blocked_on s t c" and "progs s t \<noteq> []"
  shows "\<exists>l m p. progs s t = Lock l m # p \<and> (t, m) \<in> set (waiting s l)"
proof -
  obtain a p where p: "progs s t = a # p" using assms(4) by (cases "progs s t") auto
  have "conc_step prog grants s (E_Run t) = None" "conc_step prog grants s (E_Ask t) = None"
    using stuck internal_simps by blast+
  then obtain l m where a: "a = Lock l m" "t \<in> fst ` set (waiting s l)"
    using p assms(3) by (cases a) (auto simp: blocked_on_def not_less split: if_splits)
  then obtain m' where "(t, m') \<in> set (waiting s l)" by auto
  then show ?thesis using lock_invD(5) [OF inv, of t m' l] p a by auto
qed

lemma nobody_waits:
  assumes spec: "rwlock_spec grants" and inv: "lock_inv rank guard s"
    and stuck: "\<forall>ev. internal ev \<longrightarrow> conc_step prog grants s ev = None" and "\<forall>t c. \<not> blocked_on s t c"
  shows "held s l = [] \<and> waiting s l = []"
proof (induction "bound - rank l" arbitrary: l rule: less_induct)
  case less
  have "(t, m) \<notin> set (held s l)" for t m
  proof
    assume h: "(t, m) \<in> set (held s l)"
    then have hold: "holding s t l = Some m" using holding_Some [OF inv] by simp
    then have "progs s t \<noteq> []" using lock_invD(1) [OF inv, of t] by auto
    then obtain k n p where k: "progs s t = Lock k n # p" "(t, n) \<in> set (waiting s k)"
      using task_waits [OF inv stuck] assms(4) by blast
    then have "rank l < rank k" using lock_invD(1) [OF inv, of t] hold by auto
    then have "waiting s k = []" using less rank_bound [of k] rank_bound [of l] by simp
    then show False using k by simp
  qed
  then have "set (held s l) = {}" by (metis ex_in_conv surj_pair)
  then have held: "held s l = []" by simp
  have "waiting s l = []"
  proof (rule ccontr)
    assume "waiting s l \<noteq> []"
    then obtain i where g: "grants {} (map snd (waiting s l)) i" using spec unfolding rwlock_spec_def by (metis map_is_Nil_conv)
    then have "i < length (waiting s l)" using spec unfolding rwlock_spec_def by (metis length_map)
    then have "\<exists>s'. conc_step prog grants s (E_Grant l i) = Some s'" using g held by (cases "waiting s l ! i") simp
    then show False using stuck [rule_format, OF internal_simps(2), of l i] by simp
  qed
  then show ?case using held by simp
qed

lemma progress:
  assumes "rwlock_spec grants" and "lock_inv rank guard s" and "\<not> conc_done s"
  shows "(\<exists>ev. internal ev \<and> conc_step prog grants s ev \<noteq> None) \<or> (\<exists>t c. blocked_on s t c)"
proof (rule ccontr)
  assume "\<not> ?thesis"
  then have stuck: "\<forall>ev. internal ev \<longrightarrow> conc_step prog grants s ev = None" "\<forall>t c. \<not> blocked_on s t c" by auto
  obtain t where "progs s t \<noteq> []" using assms(3) by (auto simp: conc_done_def)
  then obtain l m where "(t, m) \<in> set (waiting s l)" using task_waits [OF assms(2) stuck(1)] stuck(2) by blast
  then show False using nobody_waits [OF assms(1,2) stuck, of l] by simp
qed

text \<open>As long as clients read, all requests can be completed.\<close>

lemma completes:
  assumes "rwlock_spec grants" and "lock_inv rank guard s"
  shows "\<exists>evs s'. conc_run prog grants s evs = Some s' \<and> conc_done s' \<and> (\<forall>ev\<in>set evs. internal ev \<or> (\<exists>c. ev = E_Receive c))"
  using assms(2)
proof (induction "work s" arbitrary: s rule: less_induct)
  case less
  show ?case
  proof (cases "conc_done s")
    case True
    then show ?thesis by (intro exI [of _ "[]"]) auto
  next
    case False
    have "\<exists>evs s1. conc_run prog grants s evs = Some s1 \<and> work s1 < work s \<and> (\<forall>ev\<in>set evs. internal ev \<or> (\<exists>c. ev = E_Receive c))"
      using progress [OF assms(1) less.prems False]
    proof
      assume "\<exists>ev. internal ev \<and> conc_step prog grants s ev \<noteq> None"
      then obtain ev s1 where "internal ev" "conc_step prog grants s ev = Some s1" by auto
      then show ?thesis using internal_less_work [OF less.prems] by (intro exI [of _ "[ev]"] exI [of _ s1]) auto
    next
      assume "\<exists>t c. blocked_on s t c"
      then obtain t c p where b: "progs s t = Send c # p" "\<not> gone s c" "channel_capacity \<le> buffered s c"
        by (auto simp: blocked_on_def)
      let ?s = "s\<lparr>buffered := (buffered s)(c := buffered s c - 1)\<rparr>"
      have full: "buffered s c = channel_capacity" using lock_invD(6) [OF less.prems, of c] b(3) by simp
      then have r: "conc_step prog grants s (E_Receive c) = Some ?s" by (simp add: channel_capacity_def)
      have "\<exists>s1. conc_step prog grants ?s (E_Run t) = Some s1" using b full by (auto simp: channel_capacity_def)
      then obtain s1 where s1: "conc_step prog grants ?s (E_Run t) = Some s1" by blast
      have "work s1 < work ?s" using internal_less_work [OF step_keeps [OF assms(1) less.prems r] s1] by simp
      moreover have "work ?s = work s" by (simp add: work_def todo_def waits_def)
      ultimately show ?thesis using r s1 by (intro exI [of _ "[E_Receive c, E_Run t]"] exI [of _ s1]) auto
    qed
    then obtain evs s1 where s1: "conc_run prog grants s evs = Some s1" "work s1 < work s"
        "\<forall>ev\<in>set evs. internal ev \<or> (\<exists>c. ev = E_Receive c)" by blast
    then obtain evs' s' where "conc_run prog grants s1 evs' = Some s'" "conc_done s'"
        "\<forall>ev\<in>set evs'. internal ev \<or> (\<exists>c. ev = E_Receive c)"
      using less.hyps [OF s1(2) run_inv [OF assms(1) less.prems s1(1)]] by blast
    then show ?thesis using s1 by (intro exI [of _ "evs @ evs'"] exI [of _ s']) (auto simp: conc_run_append)
  qed
qed

text \<open>From where it is to where it will be, a task runs a part of its program.\<close>

lemma run_suffix:
  assumes "rwlock_spec grants" and "lock_inv rank guard s" and "conc_run prog grants s evs = Some s'"
    and "E_Cancel t \<notin> set evs" and "\<forall>r. E_Spawn t r \<notin> set evs"
  shows "\<exists>q. progs s t = q @ progs s' t"
  using assms(2-5)
proof (induction evs arbitrary: s)
  case (Cons ev evs)
  obtain s1 where s1: "conc_step prog grants s ev = Some s1" "conc_run prog grants s1 evs = Some s'"
    using Cons.prems(2) by (auto split: option.splits)
  obtain q where q: "progs s1 t = q @ progs s' t"
    using Cons.IH [OF step_keeps [OF assms(1) Cons.prems(1) s1(1)] s1(2)] Cons.prems(3,4) by auto
  have "ev \<noteq> E_Cancel t" "\<forall>r. ev \<noteq> E_Spawn t r" using Cons.prems(3,4) by auto
  then have "progs s t = progs s1 t \<or> (\<exists>a. progs s t = a # progs s1 t)"
    using step_task [OF Cons.prems(1) s1(1), of t] by auto
  then show ?case using q by (metis append_Cons)
qed auto

lemma section_isolated:
  assumes "rwlock_spec grants" and "lock_inv rank guard s" and "conc_run prog grants s evs = Some s'"
    and "E_Cancel t \<notin> set evs" and "\<forall>r. E_Spawn t r \<notin> set evs"
    and "progs s t = q @ progs s' t" and "Change l \<notin> set q" and "Unlock l \<notin> set q" and "holding s t l \<noteq> None"
  shows "changes s' l = changes s l \<and> holding s' t l \<noteq> None"
  using assms(2-)
proof (induction evs arbitrary: s q)
  case (Cons ev evs)
  obtain s1 where s1: "conc_step prog grants s ev = Some s1" "conc_run prog grants s1 evs = Some s'"
    using Cons.prems(2) by (auto split: option.splits)
  have inv1: "lock_inv rank guard s1" by (rule step_keeps [OF assms(1) Cons.prems(1) s1(1)])
  have rest: "E_Cancel t \<notin> set evs" "\<forall>r. E_Spawn t r \<notin> set evs"
    and ev: "ev \<noteq> E_Cancel t" "\<forall>r. ev \<noteq> E_Spawn t r" using Cons.prems(3,4) by auto
  obtain q' where q': "progs s1 t = q' @ progs s' t" using run_suffix [OF assms(1) inv1 s1(2) rest] by blast
  have same: "changes s1 l = changes s l" if "progs s t \<noteq> Change l # progs s1 t"
  proof (rule ccontr)
    assume "changes s1 l \<noteq> changes s l"
    then obtain u p where u: "ev = E_Run u" "progs s u = Change l # p" "held s l = [(u, Exclusive)]"
      using change_needs_lock [OF Cons.prems(1) s1(1)] by blast
    then have "u = t" using Cons.prems(8) holding_None [of s t l] by auto
    then show False using u s1(1) that by (auto simp: advance_def)
  qed
  consider (idle) "progs s1 t = progs s t" "holding s1 t = holding s t"
    | (move) a where "progs s t = a # progs s1 t" "a \<noteq> Unlock l \<longrightarrow> holding s1 t l \<noteq> None"
    using step_task [OF Cons.prems(1) s1(1) ev] Cons.prems(8) by auto
  then show ?case
  proof cases
    case idle
    then show ?thesis
      using Cons.IH [OF inv1 s1(2) rest, of q] Cons.prems same by simp
  next
    case move
    then have q: "q = a # q'" using Cons.prems(5) q' by simp
    then show ?thesis
      using Cons.IH [OF inv1 s1(2) rest q'] Cons.prems(6,7) same move by auto
  qed
qed auto

text \<open>The step in which a task does one action of the part of its program that it runs.\<close>

lemma run_through:
  assumes "rwlock_spec grants" and "lock_inv rank guard s" and "conc_run prog grants s evs = Some s'"
    and "E_Cancel t \<notin> set evs" and "\<forall>r. E_Spawn t r \<notin> set evs"
    and "progs s t = q @ x # q' @ progs s' t"
  shows "\<exists>evs1 ev evs2 s1 s2. evs = evs1 @ ev # evs2 \<and> conc_run prog grants s evs1 = Some s1 \<and>
    conc_step prog grants s1 ev = Some s2 \<and> conc_run prog grants s2 evs2 = Some s' \<and>
    progs s1 t = x # q' @ progs s' t \<and> progs s2 t = q' @ progs s' t"
  using assms(2-)
proof (induction evs arbitrary: s q)
  case (Cons ev evs)
  obtain s1 where s1: "conc_step prog grants s ev = Some s1" "conc_run prog grants s1 evs = Some s'"
    using Cons.prems(2) by (auto split: option.splits)
  have inv1: "lock_inv rank guard s1" by (rule step_keeps [OF assms(1) Cons.prems(1) s1(1)])
  have rest: "E_Cancel t \<notin> set evs" "\<forall>r. E_Spawn t r \<notin> set evs"
    and ev: "ev \<noteq> E_Cancel t" "\<forall>r. ev \<noteq> E_Spawn t r" using Cons.prems(3,4) by auto
  have later: ?case if at: "progs s1 t = r @ x # q' @ progs s' t" for r
  proof -
    obtain evs1 ev' evs2 u1 u2 where "evs = evs1 @ ev' # evs2" "conc_run prog grants s1 evs1 = Some u1"
        "conc_step prog grants u1 ev' = Some u2" "conc_run prog grants u2 evs2 = Some s'"
        "progs u1 t = x # q' @ progs s' t" "progs u2 t = q' @ progs s' t"
      using Cons.IH [OF inv1 s1(2) rest at] by blast
    then show ?thesis using s1(1) by (intro exI [of _ "ev # evs1"] exI [of _ ev'] exI [of _ evs2] exI [of _ u1] exI [of _ u2]) simp
  qed
  have "progs s1 t = progs s t \<or> (\<exists>a. progs s t = a # progs s1 t)" using step_task [OF Cons.prems(1) s1(1) ev] by blast
  then consider (later) r where "progs s1 t = r @ x # q' @ progs s' t" | (now) "q = []" "progs s1 t = q' @ progs s' t"
    using Cons.prems(5) by (cases q) (auto, metis)
  then show ?case
  proof cases
    case now
    then show ?thesis using s1 Cons.prems(5)
      by (intro exI [of _ "[]"] exI [of _ ev] exI [of _ evs] exI [of _ s] exI [of _ s1]) simp
  qed (rule later)
qed auto

text \<open>A task that sends holds the locks that guard the channels.\<close>

lemma sender_holds:
  "lock_inv rank guard s \<Longrightarrow> progs s t = Send c # p \<Longrightarrow> l \<in> guard \<Longrightarrow> (t, Shared) \<in> set (held s l)"
  using lock_invD(1) [of rank guard s t] holding_Some [of rank guard s t l Shared] by simp

text \<open>A task that waits for a client keeps its locks from everybody else.\<close>

lemma blocked_run:
  assumes "rwlock_spec grants" and "lock_inv rank guard s" and "conc_run prog grants s evs = Some s'"
    and "blocked_on s t c" and "(t, m) \<in> set (held s l)" and "set evs \<inter> {E_Receive c, E_Drop c, E_Cancel t} = {}"
  shows "blocked_on s' t c \<and> (t, m) \<in> set (held s' l) \<and> changes s' l = changes s l"
  using assms(2-)
proof (induction evs arbitrary: s)
  case (Cons ev evs)
  obtain s1 where s1: "conc_step prog grants s ev = Some s1" "conc_run prog grants s1 evs = Some s'"
    using Cons.prems(2) by (auto split: option.splits)
  have inv1: "lock_inv rank guard s1" by (rule step_keeps [OF assms(1) Cons.prems(1) s1(1)])
  have b: "blocked_on s1 t c" "holding s1 t = holding s t"
    using step_blocked [OF Cons.prems(1) s1(1) Cons.prems(3)] Cons.prems(5) by auto
  then have h: "(t, m) \<in> set (held s1 l)"
    using Cons.prems(4) holding_Some [OF Cons.prems(1), of t l m] holding_Some [OF inv1, of t l m] by simp
  have "changes s1 l = changes s l"
  proof (rule ccontr)
    assume "changes s1 l \<noteq> changes s l"
    then obtain u p where "progs s u = Change l # p" "held s l = [(u, Exclusive)]"
      using change_needs_lock [OF Cons.prems(1) s1(1), of l] by auto
    then show False using Cons.prems(3,4) by (auto simp: blocked_on_def)
  qed
  then show ?case using Cons.IH [OF inv1 s1(2) b(1) h] Cons.prems(5) by auto
qed auto

lemma blocked_queue:
  assumes "rwlock_spec grants" and "write_preferring grants" and "lock_inv rank guard s" and "conc_run prog grants s evs = Some s'"
    and "blocked_on s t c" and "(t, m) \<in> set (held s l)" and "set evs \<inter> {E_Receive c, E_Drop c, E_Cancel t} = {}"
    and "waiting s l = xs @ (w, Exclusive) # ys" and "u \<notin> fst ` set xs" and "u \<notin> fst ` set (held s l)" and "E_Cancel w \<notin> set evs"
  shows "u \<notin> fst ` set (held s' l)"
  using assms(3-)
proof (induction evs arbitrary: s xs ys)
  case (Cons ev evs)
  obtain s1 where s1: "conc_step prog grants s ev = Some s1" "conc_run prog grants s1 evs = Some s'"
    using Cons.prems(2) by (auto split: option.splits)
  have inv1: "lock_inv rank guard s1" by (rule step_keeps [OF assms(1) Cons.prems(1) s1(1)])
  have "conc_run prog grants s [ev] = Some s1" using s1(1) by simp
  then have b: "blocked_on s1 t c" "(t, m) \<in> set (held s1 l)"
    using blocked_run [OF assms(1) Cons.prems(1) _ Cons.prems(3,4), of "[ev]" s1] Cons.prems(5) by auto
  have "held s l \<noteq> []" using Cons.prems(4) by auto
  then obtain xs' ys' where "waiting s1 l = xs' @ (w, Exclusive) # ys'" "u \<notin> fst ` set xs'" "u \<notin> fst ` set (held s1 l)"
    using step_behind_writer [OF assms(1,2) s1(1) _ Cons.prems(6-8)] Cons.prems(9) by auto
  then show ?case using Cons.IH [OF inv1 s1(2) b] Cons.prems(5,9) by auto
qed auto

end

section \<open>The locks of the broker\<close>

text \<open>The database comes before the subscriptions.\<close>

definition lock_rank :: "broker_lock \<Rightarrow> nat" where
  "lock_rank l = (case l of Database_Lock \<Rightarrow> 0 | Subscriptions_Lock \<Rightarrow> 1)"

lemma lock_rank_simps [simp]: "lock_rank Database_Lock = 0" "lock_rank Subscriptions_Lock = 1"
  by (simp_all add: lock_rank_def)

lemma all_broker_lock: "(\<forall>l. P l) \<longleftrightarrow> P Database_Lock \<and> P Subscriptions_Lock"
  by (metis broker_lock.exhaust)

lemma disciplined_sends [simp]:
  "disciplined rank guard h (map Send cs @ p) \<longleftrightarrow> (cs = [] \<or> (\<forall>l\<in>guard. h l = Some Shared)) \<and> disciplined rank guard h p"
  by (induction cs) auto

lemma operation_disciplined: "disciplined lock_rank {Database_Lock} (\<lambda>_. None) (operation_program op)"
  by (cases op)
    (auto simp: all_broker_lock read_program_def add_entry_program_def cleanup_program_def shutdown_program_def
      update_entries_program_def subscribe_program_def subscribe_query_program_def split: option.split)

lemma request_disciplined: "disciplined lock_rank {Database_Lock} (\<lambda>_. None) (request_program ops)"
  by (induction ops) (simp_all add: request_program_def operation_disciplined disciplined_append)

interpretation broker_locks: ordered_programs lock_rank "{Database_Lock}" 2 request_program
  by unfold_locales (auto simp: lock_rank_def request_disciplined split: broker_lock.split)

text \<open>
  A schedule in which a subscriber reads nothing: task 1 makes eleven updates, and its eleventh notification does
  not fit into channel 0; task 2 then wants to register an entry.
\<close>

definition update_events :: "(broker_lock, operation list) conc_event list" where
  "update_events =
     [E_Ask 1, E_Grant Database_Lock 0, E_Run 1, E_Run 1, E_Ask 1, E_Grant Subscriptions_Lock 0]"

definition stalled_run :: "(broker_lock, operation list) conc_event list" where
  "stalled_run =
     E_Spawn 1 (replicate 11 (Op_Update [0] False)) #
     concat (replicate 10 (update_events @ [E_Run 1, E_Run 1, E_Run 1])) @ update_events @ [E_Spawn 2 [Op_Add], E_Ask 2]"

definition stalled :: "broker_lock conc" where
  "stalled = \<lparr>progs = (\<lambda>_. [])(1 := [Send 0, Unlock Database_Lock, Unlock Subscriptions_Lock], 2 := add_entry_program),
     held = (\<lambda>_. [])(Database_Lock := [(1, Shared)], Subscriptions_Lock := [(1, Shared)]),
     waiting = (\<lambda>_. [])(Subscriptions_Lock := [], Database_Lock := [(2, Exclusive)]),
     buffered = (\<lambda>_. 0)(0 := 10), gone = (\<lambda>_. False), changes = (\<lambda>_. 0)(Database_Lock := 11)\<rparr>"

lemma stalled_reached: "conc_run request_program fifo_grants initial_conc stalled_run = Some stalled"
  by (simp add: stalled_run_def update_events_def stalled_def initial_conc_def request_program_def update_entries_program_def
      add_entry_program_def advance_def fifo_grants_def compatible_def without_def channel_capacity_def numeral_eq_Suc)

lemmas evaluate_run = request_program_def update_entries_program_def add_entry_program_def read_program_def
  advance_def fifo_grants_def compatible_def without_def channel_capacity_def stalled_def

lemma stalled_reachable: "conc_reachable request_program fifo_grants stalled"
  using stalled_reached unfolding conc_reachable_def by blast

lemma stalled_blocked: "blocked_on stalled 1 0" "(2, Exclusive) \<in> set (waiting stalled Database_Lock)" "progs stalled 3 = []"
  by (simp_all add: blocked_on_def stalled_def channel_capacity_def)

text \<open>
  C4.  The broker does not deadlock.  Whatever requests run at the same time, and however the locks
  are handed out to those who wait for them, as long as the clients read their streams every request
  can be completed, and then all locks are free.  Only a client that does not read can stop the
  broker: as long as a request is unfinished, some task can go on, unless one waits for a client whose
  channel is full.  And every step of the broker brings it closer to the end.
\<close>

theorem requests_complete:
  assumes "rwlock_spec grants" and "conc_reachable request_program grants s"
  shows "(\<exists>evs s'. conc_run request_program grants s evs = Some s' \<and> conc_done s' \<and>
           (\<forall>ev\<in>set evs. internal ev \<or> (\<exists>c. ev = E_Receive c)) \<and> (\<forall>l. held s' l = [] \<and> waiting s' l = [])) \<and>
         (conc_done s \<or> (\<exists>ev. internal ev \<and> conc_step request_program grants s ev \<noteq> None) \<or> (\<exists>t c. blocked_on s t c)) \<and>
         (\<forall>ev s'. internal ev \<and> conc_step request_program grants s ev = Some s' \<longrightarrow> work s' < work s)"
proof -
  have inv: "lock_inv lock_rank {Database_Lock} s" by (rule broker_locks.reachable_inv [OF assms])
  obtain evs s' where run: "conc_run request_program grants s evs = Some s'" "conc_done s'"
      "\<forall>ev\<in>set evs. internal ev \<or> (\<exists>c. ev = E_Receive c)"
    using broker_locks.completes [OF assms(1) inv] by blast
  have "\<forall>l. held s' l = [] \<and> waiting s' l = []"
    using done_frees_locks [OF broker_locks.run_inv [OF assms(1) inv run(1)] run(2)] by simp
  then have "\<exists>evs s'. conc_run request_program grants s evs = Some s' \<and> conc_done s' \<and>
      (\<forall>ev\<in>set evs. internal ev \<or> (\<exists>c. ev = E_Receive c)) \<and> (\<forall>l. held s' l = [] \<and> waiting s' l = [])"
    using run by (intro exI [of _ evs] exI [of _ s']) simp
  moreover have "conc_done s \<or> (\<exists>ev. internal ev \<and> conc_step request_program grants s ev \<noteq> None) \<or> (\<exists>t c. blocked_on s t c)"
    using broker_locks.progress [OF assms(1) inv] by blast
  moreover have "work s1 < work s" if "internal ev \<and> conc_step request_program grants s ev = Some s1" for ev s1
    using internal_less_work [OF inv] that by blast
  ultimately show ?thesis by simp
qed

theorem requests_complete_witness:
  "rwlock_spec fifo_grants \<and> conc_reachable request_program fifo_grants stalled \<and> \<not> conc_done stalled \<and>
   (\<exists>evs s'. conc_run request_program fifo_grants stalled evs = Some s' \<and> conc_done s' \<and>
     (\<forall>ev\<in>set evs. internal ev \<or> (\<exists>c. ev = E_Receive c)))"
proof -
  have "\<not> conc_done stalled" by (auto simp: conc_done_def stalled_def add_entry_program_def)
  then show ?thesis
    using requests_complete [OF fifo_grants_spec(1) stalled_reachable] fifo_grants_spec(1) stalled_reachable by blast
qed

text \<open>Where an update is when it sends, and a query when it is registered.\<close>

lemma remaining_split:
  "prog @ rest = part @ x # p \<Longrightarrow> length rest \<le> length p \<Longrightarrow> \<exists>us. prog = part @ x # us \<and> p = us @ rest"
proof (induction prog arbitrary: part)
  case (Cons a prog)
  then show ?case by (cases part) auto
qed auto

lemma sends_split:
  assumes "pre @ map Send cs @ post = part @ Send c # us" and "\<forall>d. Send d \<notin> set pre" and "\<forall>d. Send d \<notin> set post"
  shows "\<exists>ds es. part = pre @ map Send ds \<and> us = map Send es @ post"
proof -
  have sends: "\<exists>ds es. part = map Send ds \<and> us = map Send es @ post" if "map Send cs @ post = part @ Send c # us" for part
    using that
  proof (induction cs arbitrary: part)
    case (Cons d cs)
    show ?case
    proof (cases part)
      case Nil
      then show ?thesis using Cons.prems by (intro exI [of _ "[]"] exI [of _ cs]) simp
    next
      case (Cons a part')
      then obtain ds es where "part' = map Send ds" "us = map Send es @ post" using Cons.prems Cons.IH [of part'] by auto
      then show ?thesis using Cons Cons.prems by (intro exI [of _ "d # ds"] exI [of _ es]) simp
    qed
  qed (use assms(3) in auto)
  show ?thesis using assms(1,2)
  proof (induction pre arbitrary: part)
    case (Cons a pre)
    then show ?case by (cases part) auto
  qed (use sends in simp)
qed

lemma update_section:
  assumes "rwlock_spec grants" and inv: "lock_inv lock_rank {Database_Lock} s"
    and run: "conc_run request_program grants s evs = Some s'" "E_Cancel t \<notin> set evs" "\<forall>r. E_Spawn t r \<notin> set evs"
    and "progs s t = update_entries_program recipients cleanup @ rest" and "length rest < length (progs s' t)"
    and send: "progs s' t = Send c # p"
  shows "\<exists>evs1 evs2 s1 s2. evs = evs1 @ E_Run t # evs2 \<and> conc_run request_program grants s evs1 = Some s1 \<and>
    conc_step request_program grants s1 (E_Run t) = Some s2 \<and> conc_run request_program grants s2 evs2 = Some s' \<and>
    changes s2 Database_Lock = Suc (changes s1 Database_Lock) \<and> changes s' Database_Lock = changes s2 Database_Lock \<and>
    (t, Shared) \<in> set (held s' Database_Lock) \<and> t \<in> fst ` set (held s' Subscriptions_Lock)"
proof -
  let ?x = "Change Database_Lock"
  obtain part where part: "progs s t = part @ progs s' t" using broker_locks.run_suffix [OF assms(1) inv run] by blast
  then obtain us where us: "update_entries_program recipients cleanup = part @ Send c # us" "progs s' t = Send c # us @ rest"
    using remaining_split [of _ rest part "Send c" p] assms(6,7) send by auto
  then obtain ds es where ds: "part = [Lock Database_Lock Exclusive, ?x, Downgrade Database_Lock, Lock Subscriptions_Lock Shared] @ map Send ds"
      and es: "us = map Send es @ [Unlock Database_Lock, Unlock Subscriptions_Lock] @ (if cleanup then cleanup_program else [])"
    using sends_split [OF us(1) [unfolded update_entries_program_def]] by (auto simp: cleanup_program_def)
  let ?q = "Downgrade Database_Lock # Lock Subscriptions_Lock Shared # map Send ds"
  have "progs s t = [Lock Database_Lock Exclusive] @ ?x # ?q @ progs s' t" using part ds by simp
  then obtain evs1 ev evs2 s1 s2 where split: "evs = evs1 @ ev # evs2" "conc_run request_program grants s evs1 = Some s1"
      "conc_step request_program grants s1 ev = Some s2" "conc_run request_program grants s2 evs2 = Some s'"
      and at: "progs s1 t = ?x # ?q @ progs s' t" "progs s2 t = ?q @ progs s' t"
    using broker_locks.run_through [OF assms(1) inv run] by blast
  note inv1 = broker_locks.run_inv [OF assms(1) inv split(2)]
  note inv2 = broker_locks.step_keeps [OF assms(1) inv1 split(3)]
  note inv' = broker_locks.run_inv [OF assms(1) inv2 split(4)]
  have ev: "ev = E_Run t" using step_task [OF inv1 split(3), of t] run(2,3) split(1) at by auto
  have "changes s' Database_Lock = changes s2 Database_Lock"
    using broker_locks.section_isolated [OF assms(1) inv2 split(4) _ _ at(2), of Database_Lock] run(2,3) split(1)
      lock_invD(1) [OF inv2, of t] at(2) by auto
  moreover have "changes s2 Database_Lock = Suc (changes s1 Database_Lock)" using split(3) ev at by (auto simp: advance_def)
  moreover have "(t, Shared) \<in> set (held s' Database_Lock)" by (rule broker_locks.sender_holds [OF inv' send]) simp
  moreover have "holding s' t Subscriptions_Lock \<noteq> None" using lock_invD(1) [OF inv', of t] us(2) es by simp
  then have "t \<in> fst ` set (held s' Subscriptions_Lock)" using holding_None by metis
  ultimately show ?thesis using split ev
    by (intro exI [of _ evs1] exI [of _ evs2] exI [of _ s1] exI [of _ s2]) simp
qed

lemma query_section:
  assumes "rwlock_spec grants" and inv: "lock_inv lock_rank {Database_Lock} s"
    and run: "conc_run request_program grants s evs = Some s'" "E_Cancel t \<notin> set evs" "\<forall>r. E_Spawn t r \<notin> set evs"
    and "progs s t = subscribe_query_program (Some initial) @ rest" and "length rest < length (progs s' t)"
    and change: "progs s' t = Change Subscriptions_Lock # p"
  shows "\<exists>evs1 i evs2 s1 s2. evs = evs1 @ E_Grant Database_Lock i # evs2 \<and> conc_run request_program grants s evs1 = Some s1 \<and>
    conc_step request_program grants s1 (E_Grant Database_Lock i) = Some s2 \<and> conc_run request_program grants s2 evs2 = Some s' \<and>
    t \<notin> fst ` set (held s1 Database_Lock) \<and> t \<in> fst ` set (held s2 Database_Lock) \<and>
    changes s' Database_Lock = changes s2 Database_Lock \<and>
    t \<in> fst ` set (held s' Database_Lock) \<and> (t, Exclusive) \<in> set (held s' Subscriptions_Lock)"
proof -
  let ?x = "Lock Database_Lock Shared" and ?q = "(case initial of Some c \<Rightarrow> [Send c] | None \<Rightarrow> []) @ [Lock Subscriptions_Lock Exclusive]"
  obtain part where part: "progs s t = part @ progs s' t" using broker_locks.run_suffix [OF assms(1) inv run] by blast
  then obtain us where us: "subscribe_query_program (Some initial) = part @ Change Subscriptions_Lock # us" "p = us @ rest"
    using remaining_split [of "subscribe_query_program (Some initial)" rest part "Change Subscriptions_Lock" p] assms(6,7) change by auto
  then have "part = ?x # ?q" "us = [Unlock Subscriptions_Lock, Unlock Database_Lock]"
    by (auto simp: subscribe_query_program_def Cons_eq_append_conv split: option.splits)
  then have "progs s t = [] @ ?x # ?q @ progs s' t" and p: "p = Unlock Subscriptions_Lock # Unlock Database_Lock # rest"
    using part us(2) by simp_all
  from broker_locks.run_through [OF assms(1) inv run this(1)]
  obtain evs1 ev evs2 s1 s2 where split: "evs = evs1 @ ev # evs2" "conc_run request_program grants s evs1 = Some s1"
      "conc_step request_program grants s1 ev = Some s2" "conc_run request_program grants s2 evs2 = Some s'"
      and at: "progs s1 t = ?x # ?q @ progs s' t" "progs s2 t = ?q @ progs s' t"
    by blast
  note inv1 = broker_locks.run_inv [OF assms(1) inv split(2)]
  note inv2 = broker_locks.step_keeps [OF assms(1) inv1 split(3)]
  note inv' = broker_locks.run_inv [OF assms(1) inv2 split(4)]
  have fresh: "holding s1 t Database_Lock = None" using lock_invD(1) [OF inv1, of t] at(1) by auto
  have now: "holding s2 t Database_Lock \<noteq> None"
    using lock_invD(1) [OF inv2, of t] at(2) change p by (cases initial) auto
  obtain i where ev: "ev = E_Grant Database_Lock i"
    using step_lock [OF inv1 split(3) at(1)] at run(2,3) split(1) by auto
  have "changes s' Database_Lock = changes s2 Database_Lock \<and> holding s' t Database_Lock \<noteq> None"
    by (rule broker_locks.section_isolated [OF assms(1) inv2 split(4) _ _ at(2) _ _ now])
      (use run(2,3) split(1) in \<open>auto split: option.split\<close>)
  moreover have "(t, Exclusive) \<in> set (held s' Subscriptions_Lock)"
    using lock_invD(1) [OF inv', of t] change holding_Some [OF inv', of t Subscriptions_Lock Exclusive] by simp
  ultimately show ?thesis using split ev fresh now unfolding holding_None
    by (intro exI [of _ evs1] exI [of _ i] exI [of _ evs2] exI [of _ s1] exI [of _ s2]) simp
qed

text \<open>
  C10.  The critical sections of the broker.  While an update sends its notifications, the database
  is what the update itself made of it: since the step in which it changed the database nobody else has,
  it still holds the database lock, and it holds the subscriptions.  And a query is registered on the
  database it was first executed on: from the moment the query got the database lock to its
  registration the database has not changed.  This holds whatever the other tasks do, as long as the request is not cancelled.
\<close>

theorem lock_sections_isolated:
  assumes "rwlock_spec grants" and "conc_reachable request_program grants s"
    and "conc_run request_program grants s evs = Some s'" and "E_Cancel t \<notin> set evs" and "\<forall>r. E_Spawn t r \<notin> set evs"
    and "progs s t = operation_program op @ rest" and "length rest < length (progs s' t)"
  shows "(\<forall>recipients cleanup c p. op = Op_Update recipients cleanup \<and> progs s' t = Send c # p \<longrightarrow>
      (\<exists>evs1 evs2 s1 s2. evs = evs1 @ E_Run t # evs2 \<and> conc_run request_program grants s evs1 = Some s1 \<and>
         conc_step request_program grants s1 (E_Run t) = Some s2 \<and> conc_run request_program grants s2 evs2 = Some s' \<and>
         changes s2 Database_Lock = Suc (changes s1 Database_Lock) \<and> changes s' Database_Lock = changes s2 Database_Lock \<and>
         (t, Shared) \<in> set (held s' Database_Lock) \<and> t \<in> fst ` set (held s' Subscriptions_Lock))) \<and>
    (\<forall>initial p. op = Op_Query (Some initial) \<and> progs s' t = Change Subscriptions_Lock # p \<longrightarrow>
      (\<exists>evs1 i evs2 s1 s2. evs = evs1 @ E_Grant Database_Lock i # evs2 \<and> conc_run request_program grants s evs1 = Some s1 \<and>
         conc_step request_program grants s1 (E_Grant Database_Lock i) = Some s2 \<and> conc_run request_program grants s2 evs2 = Some s' \<and>
         t \<notin> fst ` set (held s1 Database_Lock) \<and> t \<in> fst ` set (held s2 Database_Lock) \<and>
         changes s' Database_Lock = changes s2 Database_Lock \<and>
         t \<in> fst ` set (held s' Database_Lock) \<and> (t, Exclusive) \<in> set (held s' Subscriptions_Lock)))"
proof -
  have inv: "lock_inv lock_rank {Database_Lock} s" by (rule broker_locks.reachable_inv [OF assms(1,2)])
  show ?thesis
    using update_section [OF assms(1) inv assms(3-5) _ assms(7)] query_section [OF assms(1) inv assms(3-5) _ assms(7)] assms(6)
    by simp
qed

text \<open>Task 1 has just been asked for one operation, and task 2 wants to register an entry in the meantime.\<close>

definition started :: "operation \<Rightarrow> broker_lock conc" where
  "started op = advance 1 (operation_program op) initial_conc"

definition section_run :: "(broker_lock, operation list) conc_event list \<Rightarrow> (broker_lock, operation list) conc_event list" where
  "section_run evs = [E_Ask 1, E_Spawn 2 [Op_Add], E_Ask 2, E_Grant Database_Lock 0] @ evs @ [E_Ask 1, E_Grant Subscriptions_Lock 0]"

lemma started_reachable: "conc_reachable request_program fifo_grants (started op)"
  unfolding conc_reachable_def
  by (rule exI [of _ "[E_Spawn 1 [op]]"]) (simp add: started_def initial_conc_def request_program_def)

theorem lock_sections_isolated_witness:
  "(\<exists>s' evs1 evs2 s1 s2. section_run [E_Run 1, E_Run 1] = evs1 @ E_Run 1 # evs2 \<and>
      conc_run request_program fifo_grants (started (Op_Update [0] False)) evs1 = Some s1 \<and>
      conc_step request_program fifo_grants s1 (E_Run 1) = Some s2 \<and> conc_run request_program fifo_grants s2 evs2 = Some s' \<and>
      changes s2 Database_Lock = Suc (changes s1 Database_Lock) \<and> changes s' Database_Lock = changes s2 Database_Lock \<and>
      (1, Shared) \<in> set (held s' Database_Lock)) \<and>
   (\<exists>s' evs1 i evs2 s1 s2. section_run [E_Run 1] = evs1 @ E_Grant Database_Lock i # evs2 \<and>
      conc_run request_program fifo_grants (started (Op_Query (Some (Some 0)))) evs1 = Some s1 \<and>
      conc_step request_program fifo_grants s1 (E_Grant Database_Lock i) = Some s2 \<and> conc_run request_program fifo_grants s2 evs2 = Some s' \<and>
      changes s' Database_Lock = changes s2 Database_Lock \<and> 1 \<in> fst ` set (held s' Database_Lock))"
proof
  let ?op = "Op_Update [0] False" and ?evs = "section_run [E_Run 1, E_Run 1]"
  obtain s' where s': "conc_run request_program fifo_grants (started ?op) ?evs = Some s'"
      "progs s' 1 = [Send 0, Unlock Database_Lock, Unlock Subscriptions_Lock]"
    by (simp add: evaluate_run started_def section_run_def initial_conc_def)
  have "E_Cancel 1 \<notin> set ?evs" "\<forall>r. E_Spawn 1 r \<notin> set ?evs" "progs (started ?op) 1 = operation_program ?op @ []" "length [] < length (progs s' 1)"
    using s'(2) by (simp_all add: section_run_def started_def advance_def)
  from lock_sections_isolated [OF fifo_grants_spec(1) started_reachable s'(1) this, THEN conjunct1, rule_format, OF conjI [OF refl s'(2)]]
  show "\<exists>s' evs1 evs2 s1 s2. ?evs = evs1 @ E_Run 1 # evs2 \<and>
      conc_run request_program fifo_grants (started ?op) evs1 = Some s1 \<and>
      conc_step request_program fifo_grants s1 (E_Run 1) = Some s2 \<and> conc_run request_program fifo_grants s2 evs2 = Some s' \<and>
      changes s2 Database_Lock = Suc (changes s1 Database_Lock) \<and> changes s' Database_Lock = changes s2 Database_Lock \<and>
      (1, Shared) \<in> set (held s' Database_Lock)"
    by (elim exE conjE) (intro exI conjI, assumption+)
next
  let ?op = "Op_Query (Some (Some 0))" and ?evs = "section_run [E_Run 1]"
  obtain s' where s': "conc_run request_program fifo_grants (started ?op) ?evs = Some s'"
      "progs s' 1 = [Change Subscriptions_Lock, Unlock Subscriptions_Lock, Unlock Database_Lock]"
    by (simp add: evaluate_run started_def section_run_def initial_conc_def subscribe_query_program_def)
  have "E_Cancel 1 \<notin> set ?evs" "\<forall>r. E_Spawn 1 r \<notin> set ?evs" "progs (started ?op) 1 = operation_program ?op @ []" "length [] < length (progs s' 1)"
    using s'(2) by (simp_all add: section_run_def started_def advance_def)
  from lock_sections_isolated [OF fifo_grants_spec(1) started_reachable s'(1) this, THEN conjunct2, rule_format, OF conjI [OF refl s'(2)]]
  show "\<exists>s' evs1 i evs2 s1 s2. ?evs = evs1 @ E_Grant Database_Lock i # evs2 \<and>
      conc_run request_program fifo_grants (started ?op) evs1 = Some s1 \<and>
      conc_step request_program fifo_grants s1 (E_Grant Database_Lock i) = Some s2 \<and> conc_run request_program fifo_grants s2 evs2 = Some s' \<and>
      changes s' Database_Lock = changes s2 Database_Lock \<and> 1 \<in> fst ` set (held s' Database_Lock)"
    by (elim exE conjE) (intro exI conjI, assumption+)
qed

text \<open>
  C11.  One client that stops reading stops the broker.  A task that waits for a client whose channel is
  full holds the database lock, and as long as that client neither reads nor hangs up and the
  request is not cancelled, the task keeps the lock and the database does not change, whatever anybody else does.
  And once a writer waits, no request that comes later gets the database, not even to read.
\<close>

theorem slow_subscriber_blocks:
  assumes "rwlock_spec grants" and "conc_reachable request_program grants s"
    and "conc_run request_program grants s evs = Some s'"
    and "blocked_on s t c" and "set evs \<inter> {E_Receive c, E_Drop c, E_Cancel t} = {}"
  shows "(t, Shared) \<in> set (held s Database_Lock) \<and>
    blocked_on s' t c \<and> (t, Shared) \<in> set (held s' Database_Lock) \<and> changes s' Database_Lock = changes s Database_Lock \<and>
    (\<forall>w u. write_preferring grants \<and> (w, Exclusive) \<in> set (waiting s Database_Lock) \<and> E_Cancel w \<notin> set evs \<and> progs s u = [] \<longrightarrow>
       u \<notin> fst ` set (held s' Database_Lock))"
proof -
  let ?l = Database_Lock
  have inv: "lock_inv lock_rank {Database_Lock} s" by (rule broker_locks.reachable_inv [OF assms(1,2)])
  have h: "(t, Shared) \<in> set (held s ?l)"
    using assms(4) broker_locks.sender_holds [OF inv] unfolding blocked_on_def by blast
  have "u \<notin> fst ` set (held s' ?l)"
    if w: "write_preferring grants" "(w, Exclusive) \<in> set (waiting s ?l)" "E_Cancel w \<notin> set evs" and u: "progs s u = []" for w u
  proof -
    obtain xs ys where q: "waiting s ?l = xs @ (w, Exclusive) # ys" using w(2) by (auto dest: split_list)
    have "holding s u ?l = None" using lock_invD(1) [OF inv, of u] u by simp
    then have "u \<notin> fst ` set (held s ?l)" by (rule holding_None [THEN iffD1])
    moreover have "u \<notin> fst ` set xs" using lock_invD(5) [OF inv, of u _ ?l] u q by fastforce
    ultimately show ?thesis
      using broker_locks.blocked_queue [OF assms(1) w(1) inv assms(3,4) h assms(5) q] w(3) by blast
  qed
  then show ?thesis using broker_locks.blocked_run [OF assms(1) inv assms(3,4) h assms(5)] h by blast
qed

theorem slow_subscriber_blocks_witness:
  "\<exists>s'. conc_run request_program fifo_grants stalled [E_Spawn 3 [Op_Read], E_Ask 3] = Some s' \<and>
     (1, Shared) \<in> set (held stalled Database_Lock) \<and>
     blocked_on s' 1 0 \<and> changes s' Database_Lock = 11 \<and> 3 \<notin> fst ` set (held s' Database_Lock)"
proof -
  let ?evs = "[E_Spawn 3 [Op_Read], E_Ask 3] :: (broker_lock, operation list) conc_event list"
  obtain s' where s': "conc_run request_program fifo_grants stalled ?evs = Some s'" by (simp add: evaluate_run)
  have "(1, Shared) \<in> set (held stalled Database_Lock) \<and> blocked_on s' 1 0 \<and>
      changes s' Database_Lock = changes stalled Database_Lock \<and> 3 \<notin> fst ` set (held s' Database_Lock)"
    using slow_subscriber_blocks [OF fifo_grants_spec(1) stalled_reachable s' stalled_blocked(1)]
      fifo_grants_spec(2) stalled_blocked(2,3) by fastforce
  then show ?thesis using s' by (simp add: stalled_def)
qed

end
