(* ===== verification/CliText.thy ===== *)
theory CliText
  imports Authorization SdvTypes VissTypes
begin

text \<open>
  Text in the command line clients (\<open>databroker-cli/src\<close>): splitting a line into words, reading a
  value of a data type from the text of a command and printing the values of a response, for both
  protocols.  The crate \<open>regex\<close> is the parameter \<open>matches\<close>, where \<open>matches p s\<close> are the texts
  matched by \<open>Regex::new(p).captures_iter(s)\<close> in order; \<open>array_regex_spec\<close> is what the
  documentation of the crate says of the one pattern used.  Colours are left out.
\<close>

section \<open>Words\<close>

definition trim_start :: "string \<Rightarrow> string" where
  "trim_start s = dropWhile is_whitespace s"

definition trim :: "string \<Rightarrow> string" where
  "trim s = rev (trim_start (rev (trim_start s)))"

definition split_first_word :: "string \<Rightarrow> string \<times> string" where
  "split_first_word s =
     (let s = trim s;
          pos = length (takeWhile (\<lambda>ch. \<not> is_whitespace ch) s)
      in if pos < length s then (take pos s, trim_start (drop pos s)) else (s, []))"

text \<open>What the enter key does to the line being edited.\<close>

datatype enter_action = AcceptInput string | InsertStr string | NoAction

definition enter_function :: "string \<Rightarrow> int \<Rightarrow> enter_action" where
  "enter_function buffer count =
     (if prefix ''subscribe'' (trim buffer) then
        if suffix [CHR 0x0A] buffer then AcceptInput (take (length buffer - 1) buffer)
        else if count > 0 then InsertStr [CHR 0x0A]
        else NoAction
      else AcceptInput buffer)"

section \<open>Arrays as text\<close>

datatype cli_parse_error = Cli_ParseError

type_synonym matcher = "string \<Rightarrow> string \<Rightarrow> string list"

definition ARRAY_REGEX :: string where
  "ARRAY_REGEX =
     (let b = [CHR 0x5C, CHR 0x5C]; q = [CHR 0x22]
      in ''(?:'' @ b @ ''.|[^'' @ q @ '',])*'' @ q @ ''(?:'' @ b @ ''.|[^'' @ q @ ''])*'' @ q @ ''|[^'' @ q @ '',]+'')"

fun parse_parts :: "(string \<Rightarrow> 'a option) \<Rightarrow> string list \<Rightarrow> 'a list \<Rightarrow> ('a list, cli_parse_error) result" where
  "parse_parts parse [] array = Ok array"
| "parse_parts parse (part # parts) array =
     (case parse (str_replace [CHR 0x5C] [CHR 0x22] (str_replace [CHR 0x22] [] (trim part))) of
        Some v \<Rightarrow> parse_parts parse parts (array @ [v])
      | None \<Rightarrow> Err Cli_ParseError)"

definition get_array_from_input ::
  "matcher \<Rightarrow> (string \<Rightarrow> 'a option) \<Rightarrow> string \<Rightarrow> ('a list, cli_parse_error) result" where
  "get_array_from_input matches parse input =
     (case input of
        [] \<Rightarrow> Err Cli_ParseError
      | c # s \<Rightarrow>
          if c = CHR ''['' \<and> s \<noteq> [] \<and> last s = CHR '']'' then parse_parts parse (matches ARRAY_REGEX (butlast s)) []
          else Err Cli_ParseError)"

definition display_array :: "('a \<Rightarrow> string) \<Rightarrow> 'a list \<Rightarrow> string" where
  "display_array show array =
     ''['' @ concat (map (\<lambda>(i, v). (if i = 0 then [] else '', '') @ show v) (enumerate 0 array)) @ '']''"

section \<open>Values as text\<close>

definition parse_scalar :: "('a \<Rightarrow> 'v) \<Rightarrow> 'a option \<Rightarrow> ('v, cli_parse_error) result" where
  "parse_scalar c r = (case r of Some v \<Rightarrow> Ok (c v) | None \<Rightarrow> Err Cli_ParseError)"

definition kuksa_try_into_data_value ::
  "matcher \<Rightarrow> string \<Rightarrow> ProtoDataType \<Rightarrow> (KValue, cli_parse_error) result" where
  "kuksa_try_into_data_value matches input data_type =
     (if input = ''NotAvailable'' then Ok (KV_String input)
      else
        (case data_type of
           KT_String \<Rightarrow> Ok (KV_String input)
         | KT_StringArray \<Rightarrow> result_map KV_StringArray (get_array_from_input matches Some input)
         | KT_Boolean \<Rightarrow> parse_scalar KV_Bool (parse_bool input)
         | KT_BooleanArray \<Rightarrow> result_map KV_BoolArray (get_array_from_input matches parse_bool input)
         | KT_Int8 \<Rightarrow> parse_scalar KV_Int32 (map_option scast (parse_i8 input))
         | KT_Int8Array \<Rightarrow> result_map KV_Int32Array (get_array_from_input matches parse_i32 input)
         | KT_Int16 \<Rightarrow> parse_scalar KV_Int32 (map_option scast (parse_i16 input))
         | KT_Int16Array \<Rightarrow> result_map KV_Int32Array (get_array_from_input matches parse_i32 input)
         | KT_Int32 \<Rightarrow> parse_scalar KV_Int32 (parse_i32 input)
         | KT_Int32Array \<Rightarrow> result_map KV_Int32Array (get_array_from_input matches parse_i32 input)
         | KT_Int64 \<Rightarrow> parse_scalar KV_Int64 (parse_i64 input)
         | KT_Int64Array \<Rightarrow> result_map KV_Int64Array (get_array_from_input matches parse_i64 input)
         | KT_Uint8 \<Rightarrow> parse_scalar KV_Uint32 (map_option ucast (parse_u8 input))
         | KT_Uint8Array \<Rightarrow> result_map KV_Uint32Array (get_array_from_input matches parse_u32 input)
         | KT_Uint16 \<Rightarrow> parse_scalar KV_Uint32 (map_option ucast (parse_u16 input))
         | KT_Uint16Array \<Rightarrow> result_map KV_Uint32Array (get_array_from_input matches parse_u32 input)
         | KT_Uint32 \<Rightarrow> parse_scalar KV_Uint32 (parse_u32 input)
         | KT_Uint32Array \<Rightarrow> result_map KV_Uint32Array (get_array_from_input matches parse_u32 input)
         | KT_Uint64 \<Rightarrow> parse_scalar KV_Uint64 (parse_u64 input)
         | KT_Uint64Array \<Rightarrow> result_map KV_Uint64Array (get_array_from_input matches parse_u64 input)
         | KT_Float \<Rightarrow> parse_scalar KV_Float (parse_f32 input)
         | KT_FloatArray \<Rightarrow> result_map KV_FloatArray (get_array_from_input matches parse_f32 input)
         | KT_Double \<Rightarrow> parse_scalar KV_Double (parse_f64 input)
         | KT_DoubleArray \<Rightarrow> result_map KV_DoubleArray (get_array_from_input matches parse_f64 input)
         | _ \<Rightarrow> Err Cli_ParseError))"

definition sdv_try_into_data_value ::
  "matcher \<Rightarrow> string \<Rightarrow> SdvDataType \<Rightarrow> (SdvValue, cli_parse_error) result" where
  "sdv_try_into_data_value matches input data_type =
     (if input = ''NotAvailable'' then Ok (SV_Failure (failure_code SF_NotAvailable))
      else
        (case data_type of
           ST_String \<Rightarrow> Ok (SV_String input)
         | ST_StringArray \<Rightarrow> result_map SV_StringArray (get_array_from_input matches Some input)
         | ST_Bool \<Rightarrow> parse_scalar SV_Bool (parse_bool input)
         | ST_BoolArray \<Rightarrow> result_map SV_BoolArray (get_array_from_input matches parse_bool input)
         | ST_Int8 \<Rightarrow> parse_scalar SV_Int32 (map_option scast (parse_i8 input))
         | ST_Int8Array \<Rightarrow> result_map SV_Int32Array (get_array_from_input matches parse_i32 input)
         | ST_Int16 \<Rightarrow> parse_scalar SV_Int32 (map_option scast (parse_i16 input))
         | ST_Int16Array \<Rightarrow> result_map SV_Int32Array (get_array_from_input matches parse_i32 input)
         | ST_Int32 \<Rightarrow> parse_scalar SV_Int32 (parse_i32 input)
         | ST_Int32Array \<Rightarrow> result_map SV_Int32Array (get_array_from_input matches parse_i32 input)
         | ST_Int64 \<Rightarrow> parse_scalar SV_Int64 (parse_i64 input)
         | ST_Int64Array \<Rightarrow> result_map SV_Int64Array (get_array_from_input matches parse_i64 input)
         | ST_Uint8 \<Rightarrow> parse_scalar SV_Uint32 (map_option ucast (parse_u8 input))
         | ST_Uint8Array \<Rightarrow> result_map SV_Uint32Array (get_array_from_input matches parse_u32 input)
         | ST_Uint16 \<Rightarrow> parse_scalar SV_Uint32 (map_option ucast (parse_u16 input))
         | ST_Uint16Array \<Rightarrow> result_map SV_Uint32Array (get_array_from_input matches parse_u32 input)
         | ST_Uint32 \<Rightarrow> parse_scalar SV_Uint32 (parse_u32 input)
         | ST_Uint32Array \<Rightarrow> result_map SV_Uint32Array (get_array_from_input matches parse_u32 input)
         | ST_Uint64 \<Rightarrow> parse_scalar SV_Uint64 (parse_u64 input)
         | ST_Uint64Array \<Rightarrow> result_map SV_Uint64Array (get_array_from_input matches parse_u64 input)
         | ST_Float \<Rightarrow> parse_scalar SV_Float (parse_f32 input)
         | ST_FloatArray \<Rightarrow> result_map SV_FloatArray (get_array_from_input matches parse_f32 input)
         | ST_Double \<Rightarrow> parse_scalar SV_Double (parse_f64 input)
         | ST_DoubleArray \<Rightarrow> result_map SV_DoubleArray (get_array_from_input matches parse_f64 input)))"

text \<open>\<open>{value:.2}\<close> on a floating-point number: two digits, ties to even.\<close>

definition show_f32_2 :: "f32 \<Rightarrow> string" where
  "show_f32_2 w =
     (case f32_val w of
        NaN \<Rightarrow> ''NaN''
      | PInf \<Rightarrow> ''inf''
      | NInf \<Rightarrow> ''-inf''
      | Fin x \<Rightarrow> (if 2 ^ 31 \<le> uint w then ''-'' else []) @ show_decimal (nat (round_half_even (\<bar>x\<bar> * 100))) 2)"

definition kuksa_display_datapoint :: "KValue option \<Rightarrow> string" where
  "kuksa_display_datapoint datapoint =
     (case datapoint of
        Some value \<Rightarrow>
        (case value of
           KV_Bool v \<Rightarrow> show_bool v
         | KV_Int32 v \<Rightarrow> show_int (sint v)
         | KV_Int64 v \<Rightarrow> show_int (sint v)
         | KV_Uint32 v \<Rightarrow> show_nat (unat v)
         | KV_Uint64 v \<Rightarrow> show_nat (unat v)
         | KV_Float v \<Rightarrow> show_f32_2 v
         | KV_Double v \<Rightarrow> show_f64 v
         | KV_String v \<Rightarrow> [CHR 0x27] @ v @ [CHR 0x27]
         | KV_StringArray vs \<Rightarrow> display_array (\<lambda>v. v) vs
         | KV_BoolArray vs \<Rightarrow> display_array show_bool vs
         | KV_Int32Array vs \<Rightarrow> display_array (\<lambda>v. show_int (sint v)) vs
         | KV_Int64Array vs \<Rightarrow> display_array (\<lambda>v. show_int (sint v)) vs
         | KV_Uint32Array vs \<Rightarrow> display_array (\<lambda>v. show_nat (unat v)) vs
         | KV_Uint64Array vs \<Rightarrow> display_array (\<lambda>v. show_nat (unat v)) vs
         | KV_FloatArray vs \<Rightarrow> display_array show_f32 vs
         | KV_DoubleArray vs \<Rightarrow> display_array show_f64 vs)
      | None \<Rightarrow> ''None'')"

datatype display_error = Display_Panic

definition failure_from_i32 :: "int \<Rightarrow> SdvFailure option" where
  "failure_from_i32 n =
     map_of [(0, SF_InvalidValue), (1, SF_NotAvailable), (2, SF_UnknownDatapoint), (3, SF_AccessDenied), (4, SF_InternalError)] n"

definition show_failure :: "SdvFailure \<Rightarrow> string" where
  "show_failure f =
     (case f of
        SF_InvalidValue \<Rightarrow> ''InvalidValue''
      | SF_NotAvailable \<Rightarrow> ''NotAvailable''
      | SF_UnknownDatapoint \<Rightarrow> ''UnknownDatapoint''
      | SF_AccessDenied \<Rightarrow> ''AccessDenied''
      | SF_InternalError \<Rightarrow> ''InternalError'')"

text \<open>The failure code is converted with \<open>unwrap\<close>, which panics on an unknown code.\<close>

definition sdv_display_datapoint :: "SdvValue option \<Rightarrow> (string, display_error) result" where
  "sdv_display_datapoint datapoint =
     (case datapoint of
        Some value \<Rightarrow>
        (case value of
           SV_Failure f \<Rightarrow> (case failure_from_i32 f of Some failure \<Rightarrow> Ok (''( '' @ show_failure failure @ '' )'') | None \<Rightarrow> Err Display_Panic)
         | SV_Bool v \<Rightarrow> Ok (show_bool v)
         | SV_Int32 v \<Rightarrow> Ok (show_int (sint v))
         | SV_Int64 v \<Rightarrow> Ok (show_int (sint v))
         | SV_Uint32 v \<Rightarrow> Ok (show_nat (unat v))
         | SV_Uint64 v \<Rightarrow> Ok (show_nat (unat v))
         | SV_Float v \<Rightarrow> Ok (show_f32_2 v)
         | SV_Double v \<Rightarrow> Ok (show_f64 v)
         | SV_String v \<Rightarrow> Ok ([CHR 0x27] @ v @ [CHR 0x27])
         | SV_StringArray vs \<Rightarrow> Ok (display_array (\<lambda>v. v) vs)
         | SV_BoolArray vs \<Rightarrow> Ok (display_array show_bool vs)
         | SV_Int32Array vs \<Rightarrow> Ok (display_array (\<lambda>v. show_int (sint v)) vs)
         | SV_Int64Array vs \<Rightarrow> Ok (display_array (\<lambda>v. show_int (sint v)) vs)
         | SV_Uint32Array vs \<Rightarrow> Ok (display_array (\<lambda>v. show_nat (unat v)) vs)
         | SV_Uint64Array vs \<Rightarrow> Ok (display_array (\<lambda>v. show_nat (unat v)) vs)
         | SV_FloatArray vs \<Rightarrow> Ok (display_array show_f32 vs)
         | SV_DoubleArray vs \<Rightarrow> Ok (display_array show_f64 vs))
      | None \<Rightarrow> Ok ''None'')"

section \<open>The array pattern\<close>

fun join_commas :: "string list \<Rightarrow> string" where
  "join_commas [] = []"
| "join_commas [t] = t"
| "join_commas (t # ts) = t @ CHR '','' # join_commas ts"

definition plain_chars :: "string \<Rightarrow> bool" where
  "plain_chars t \<longleftrightarrow> set t \<inter> {CHR 0x22, CHR 0x5C, CHR '',''} = {}"

text \<open>
  The pattern on text without backslashes: between commas stands either text without quotes or some
  text followed by a quoted part, in which commas do not count; the matches are the parts that are
  not empty.
\<close>

definition array_token :: "string \<Rightarrow> bool" where
  "array_token t \<longleftrightarrow> plain_chars t \<or>
     (\<exists>pre body. t = pre @ CHR 0x22 # body @ [CHR 0x22] \<and> plain_chars pre \<and> set body \<inter> {CHR 0x22, CHR 0x5C} = {})"

definition array_regex_spec :: "matcher \<Rightarrow> bool" where
  "array_regex_spec matches \<longleftrightarrow>
     (\<forall>ts. list_all array_token ts \<longrightarrow> matches ARRAY_REGEX (join_commas ts) = filter (\<lambda>t. t \<noteq> []) ts)"

text \<open>A scanner that agrees with the pattern on such text.\<close>

fun scan_array :: "bool \<Rightarrow> string \<Rightarrow> string \<Rightarrow> string list" where
  "scan_array quoted word [] = (if word = [] then [] else [word])"
| "scan_array quoted word (c # s) =
     (if c = CHR '','' \<and> \<not> quoted then (if word = [] then [] else [word]) @ scan_array False [] s
      else scan_array (if c = CHR 0x22 then \<not> quoted else quoted) (word @ [c]) s)"

lemma scan_plain: "plain_chars t \<Longrightarrow> scan_array False word (t @ s) = scan_array False (word @ t) s"
  by (induction t arbitrary: word) (auto simp: plain_chars_def)

lemma scan_quoted: "set body \<inter> {CHR 0x22, CHR 0x5C} = {} \<Longrightarrow> scan_array True word (body @ s) = scan_array True (word @ body) s"
  by (induction body arbitrary: word) auto

lemma scan_token: "array_token t \<Longrightarrow> scan_array False [] (t @ s) = scan_array False t s"
  using scan_plain [of t "[]"] scan_quoted by (auto simp: array_token_def scan_plain)

lemma scan_array_spec: "array_regex_spec (\<lambda>_. scan_array False [])"
proof -
  have "scan_array False [] (join_commas ts) = filter (\<lambda>t. t \<noteq> []) ts" if "list_all array_token ts" for ts
    using that
  proof (induction ts rule: join_commas.induct)
    case (2 t)
    then show ?case using scan_token [of t "[]"] by simp
  next
    case (3 t t' ts)
    then show ?case by (simp add: scan_token)
  qed simp
  then show ?thesis by (simp add: array_regex_spec_def)
qed

section \<open>Printed arrays are read back\<close>

text \<open>Text that an element of a printed array must be for the array to be read back.\<close>

definition element_text :: "string \<Rightarrow> bool" where
  "element_text t \<longleftrightarrow> t \<noteq> [] \<and> plain_chars t \<and> \<not> is_whitespace (hd t) \<and> \<not> is_whitespace (last t)"

lemma trim_element: "element_text t \<Longrightarrow> trim t = t \<and> trim (CHR '' '' # t) = t"
proof -
  assume e: "element_text t"
  then have start: "trim_start t = t" by (cases t) (simp_all add: element_text_def trim_start_def)
  have "trim_start (rev t) = rev t" using e
    by (cases t rule: rev_cases) (simp_all add: element_text_def trim_start_def)
  then show ?thesis using start by (simp add: trim_def trim_start_def is_whitespace_def)
qed

lemma replace_plain: "plain_chars t \<Longrightarrow> str_replace [CHR 0x5C] [CHR 0x22] (str_replace [CHR 0x22] [] t) = t"
  by (induction t) (auto simp: plain_chars_def)

definition spaced :: "string list \<Rightarrow> string list" where
  "spaced ts = (case ts of [] \<Rightarrow> [] | t # ts \<Rightarrow> t # map (Cons CHR '' '') ts)"

lemma join_spaced:
  "concat (map (\<lambda>(i :: nat, v). (if i = 0 then [] else '', '') @ shw v) (enumerate 0 vs)) = join_commas (spaced (map shw vs))"
proof (cases vs)
  case (Cons v vs')
  have later: "concat (map (\<lambda>(i :: nat, v). (if i = 0 then [] else '', '') @ shw v) (enumerate (Suc k) us)) =
      concat (map (\<lambda>v. '', '' @ shw v) us)" for k us
    by (induction us arbitrary: k) simp_all
  have "join_commas (t # map (Cons CHR '' '') (map shw us)) = t @ concat (map (\<lambda>v. '', '' @ shw v) us)" for t us
    by (induction us arbitrary: t) (simp_all add: comp_def)
  then show ?thesis using Cons later [of 0 vs'] by (simp add: spaced_def)
qed (simp add: spaced_def)

lemma parse_parts_spaced:
  assumes "\<And>v. v \<in> set vs \<Longrightarrow> element_text (shw v) \<and> parse (shw v) = Some v"
  shows "parse_parts parse (map (Cons CHR '' '') (map shw vs)) acc = Ok (acc @ vs)"
  using assms by (induction vs arbitrary: acc) (simp_all add: trim_element replace_plain element_text_def [of "shw _"])

lemma array_round_trip:
  assumes m: "array_regex_spec matches" and e: "\<And>v. v \<in> set vs \<Longrightarrow> element_text (shw v) \<and> parse (shw v) = Some v"
  shows "get_array_from_input matches parse (display_array shw vs) = Ok vs"
proof -
  have space: "plain_chars (CHR '' '' # t) = plain_chars t" for t by (simp add: plain_chars_def)
  have "list_all array_token (spaced (map shw vs))" "filter (\<lambda>t. t \<noteq> []) (spaced (map shw vs)) = spaced (map shw vs)"
    using e by (cases vs; auto simp: spaced_def list_all_iff array_token_def element_text_def space filter_id_conv)+
  then have parts: "matches ARRAY_REGEX (join_commas (spaced (map shw vs))) = spaced (map shw vs)"
    using m by (simp add: array_regex_spec_def)
  have "parse_parts parse (spaced (map shw vs)) [] = Ok vs"
  proof (cases vs)
    case (Cons v vs')
    have plain: "plain_chars (shw v)" using e Cons by (simp add: element_text_def)
    show ?thesis using e parse_parts_spaced [of vs' shw parse "[v]"] Cons
      by (simp add: spaced_def trim_element replace_plain plain)
  qed (simp add: spaced_def)
  then show ?thesis using parts
    by (simp add: get_array_from_input_def display_array_def join_spaced butlast_append)
qed

section \<open>Printed values are read back\<close>

definition number_char :: "char \<Rightarrow> bool" where
  "number_char c \<longleftrightarrow> is_digit c \<or> c = CHR ''.'' \<or> c = CHR ''-'' \<or> c \<in> set ''inf''"

lemma number_char_plain: "number_char c \<Longrightarrow> \<not> is_whitespace c \<and> c \<noteq> CHR 0x22 \<and> c \<noteq> CHR 0x5C \<and> c \<noteq> CHR '','' \<and> c \<noteq> CHR ''N''"
  by (auto simp: number_char_def is_digit_def is_whitespace_def)

lemma number_text: "t \<noteq> [] \<Longrightarrow> list_all number_char t \<Longrightarrow> element_text t \<and> t \<noteq> ''NotAvailable''"
  using number_char_plain [of "hd t"] number_char_plain [of "last t"] number_char_plain
  by (cases t) (auto simp: element_text_def plain_chars_def list_all_iff)

lemma number_letters: "number_char CHR ''i''" "number_char CHR ''n''" "number_char CHR ''f''" "number_char CHR ''-''"
  by (simp_all add: number_char_def)

lemma show_nat_number: "show_nat n \<noteq> [] \<and> list_all number_char (show_nat n)"
  using show_nat_Cons [of n] show_nat_digits [of n] by (auto simp: list_all_iff number_char_def)

lemma show_int_number: "show_int n \<noteq> [] \<and> list_all number_char (show_int n)"
  using show_nat_number by (simp add: show_int_def number_char_def [of "CHR ''-''"])

lemma show_decimal_number: "show_decimal c s \<noteq> [] \<and> list_all number_char (show_decimal c s)"
  using show_nat_number pad_digits_spec(2) [of "nat s" "c mod 10 ^ nat s"]
  by (auto simp: show_decimal_def number_char_def [of "CHR ''.''"] list_all_iff) (simp add: number_char_def)

lemma show_magnitude_number: "show_magnitude f d q r \<noteq> [] \<and> list_all number_char (show_magnitude f d q r)"
  using show_decimal_number by (auto simp: show_magnitude_def number_char_def [of "CHR ''0''"] is_digit_def split: option.split)

lemma show_f64_number: "f64_val w \<noteq> NaN \<Longrightarrow> show_f64 w \<noteq> [] \<and> list_all number_char (show_f64 w)"
  using show_magnitude_number by (auto simp: show_f64_def Let_def number_letters split: fpval.split)

lemma show_f32_number: "f32_val w \<noteq> NaN \<Longrightarrow> show_f32 w \<noteq> [] \<and> list_all number_char (show_f32 w)"
  using show_magnitude_number by (auto simp: show_f32_def Let_def number_letters split: fpval.split)

lemma show_bool_text: "element_text (show_bool b) \<and> show_bool b \<noteq> ''NotAvailable''"
  by (simp add: show_bool_def element_text_def plain_chars_def is_whitespace_def)

lemma printed_elements:
  "element_text (show_nat n)" "show_nat n \<noteq> ''NotAvailable''"
  "element_text (show_int i)" "show_int i \<noteq> ''NotAvailable''"
  "f32_val v \<noteq> NaN \<Longrightarrow> element_text (show_f32 v)"
  "f64_val w \<noteq> NaN \<Longrightarrow> element_text (show_f64 w)" "f64_val w \<noteq> NaN \<Longrightarrow> show_f64 w \<noteq> ''NotAvailable''"
  using show_nat_number [of n] show_int_number [of i] show_f32_number [of v] show_f64_number [of w] number_text by blast+

lemma narrow_show:
  "sint v \<in> {- 128..127} \<Longrightarrow> parse_i8 (show_int (sint v)) = Some (scast v)"
  "sint v \<in> {- 32768..32767} \<Longrightarrow> parse_i16 (show_int (sint v)) = Some (scast v)"
  "uint w \<le> 255 \<Longrightarrow> parse_u8 (show_nat (unat w)) = Some (ucast w)"
  "uint w \<le> 65535 \<Longrightarrow> parse_u16 (show_nat (unat w)) = Some (ucast w)"
  for v :: i32 and w :: u32
  by (auto simp: parse_i8_def parse_i16_def parse_u8_def parse_u16_def parse_in_def parse_signed_show_int
      parse_unsigned_show_nat uint_nat [symmetric])

lemma narrow_sint:
  "sint v \<in> {- 128..127} \<Longrightarrow> sint (scast v :: i8) = sint v"
  "sint v \<in> {- 32768..32767} \<Longrightarrow> sint (scast v :: i16) = sint v"
  for v :: i32
  by (simp_all add: signed_scast_eq signed_take_bit_int_eq_self)

lemma narrow_uint:
  "uint w \<le> 255 \<Longrightarrow> uint (ucast w :: u8) = uint w"
  "uint w \<le> 65535 \<Longrightarrow> uint (ucast w :: u16) = uint w"
  for w :: u32
  by (simp_all add: unsigned_ucast_eq take_bit_int_eq_self)

lemma narrow_back:
  "sint v \<in> {- 128..127} \<Longrightarrow> scast (scast v :: i8) = v"
  "sint v \<in> {- 32768..32767} \<Longrightarrow> scast (scast v :: i16) = v"
  "uint w \<le> 255 \<Longrightarrow> ucast (ucast w :: u8) = w"
  "uint w \<le> 65535 \<Longrightarrow> ucast (ucast w :: u16) = w"
  for v :: i32 and w :: u32
  unfolding scast_eq [of "scast v :: i8"] scast_eq [of "scast v :: i16"] ucast_eq [of "ucast w :: u8"] ucast_eq [of "ucast w :: u16"]
  by (simp_all add: narrow_sint narrow_uint)

section \<open>Properties\<close>

text \<open>Values whose printed text denotes them.\<close>

definition printable :: "DataValue \<Rightarrow> bool" where
  "printable v =
     (case v of
        String _ \<Rightarrow> False
      | Float _ \<Rightarrow> False
      | NotAvailable \<Rightarrow> False
      | StringArray ss \<Rightarrow> list_all element_text ss
      | _ \<Rightarrow> nan_free v)"

lemma display_array_not: "display_array shw vs \<noteq> ''NotAvailable''"
  by (simp add: display_array_def)

lemmas value_text_simps =
  kuksa_try_into_data_value_def sdv_try_into_data_value_def kuksa_display_datapoint_def sdv_display_datapoint_def
  proto_data_type_def sdv_data_type_def data_value_of_proto_def data_value_of_sdv_def parse_scalar_def
  display_array_not show_bool_text printed_elements parse_show narrow_show narrow_back

lemma array_texts:
  assumes "array_regex_spec matches"
  shows "get_array_from_input matches parse_bool (display_array show_bool bs) = Ok bs"
    "get_array_from_input matches parse_i32 (display_array (\<lambda>v. show_int (sint v)) is32) = Ok is32"
    "get_array_from_input matches parse_i64 (display_array (\<lambda>v. show_int (sint v)) is64) = Ok is64"
    "get_array_from_input matches parse_u32 (display_array (\<lambda>v. show_nat (unat v)) us32) = Ok us32"
    "get_array_from_input matches parse_u64 (display_array (\<lambda>v. show_nat (unat v)) us64) = Ok us64"
    "\<forall>v\<in>set fs32. f32_val v \<noteq> NaN \<Longrightarrow> get_array_from_input matches parse_f32 (display_array show_f32 fs32) = Ok fs32"
    "\<forall>v\<in>set fs64. f64_val v \<noteq> NaN \<Longrightarrow> get_array_from_input matches parse_f64 (display_array show_f64 fs64) = Ok fs64"
    "list_all element_text ss \<Longrightarrow> get_array_from_input matches Some (display_array (\<lambda>v. v) ss) = Ok ss"
  using assms
  by (auto intro!: array_round_trip simp: show_bool_text printed_elements parse_show list_all_iff)

lemma kuksa_value_text:
  assumes "array_regex_spec matches" and "conforms dt (data_value_of_proto (Some v))" and "printable (data_value_of_proto (Some v))"
  shows "kuksa_try_into_data_value matches (kuksa_display_datapoint (Some v)) (proto_data_type dt) = Ok v"
  using assms(2,3) array_texts [OF assms(1)]
  by (cases v; cases dt) (simp_all add: value_text_simps conforms_def printable_def)

lemma sdv_value_text:
  assumes "array_regex_spec matches"
    and "conforms dt (data_value_of_sdv \<lparr>sd_timestamp = ts, sd_value = Some v\<rparr>)"
    and "printable (data_value_of_sdv \<lparr>sd_timestamp = ts, sd_value = Some v\<rparr>)"
  shows "\<exists>text. sdv_display_datapoint (Some v) = Ok text \<and> sdv_try_into_data_value matches text (sdv_data_type dt) = Ok v"
  using assms(2,3) array_texts [OF assms(1)]
  by (cases v; cases dt) (simp_all add: value_text_simps conforms_def printable_def)

lemma parsed_value_carried:
  assumes "kuksa_try_into_data_value matches input (proto_data_type dt) = Ok w" and "input \<noteq> ''NotAvailable''"
  shows "carried_by dt (data_value_of_proto (Some w))"
  using assms
  by (cases dt) (auto simp: kuksa_try_into_data_value_def proto_data_type_def parse_scalar_def result_map_eq_Ok
      data_value_of_proto_def carried_by_def split: option.splits)

text \<open>
  C29.  What the command line clients print can be typed in again.  For every data type and both
  protocols, reading the text printed for a value of the type gives the value back, bit for bit,
  in range and with double precision, elements of arrays included, as long as it is no scalar
  string, no scalar of single precision, not NaN, and the strings of an array need no quotes.
  Whatever else is read for a type, except \<open>NotAvailable\<close>, the value obtained is carried by the type.  (The user guide
  says that arrays can only be displayed; both clients read them.)
\<close>

theorem cli_text_round_trip:
  assumes "array_regex_spec matches"
  shows "(conforms dt (data_value_of_proto (Some v)) \<and> printable (data_value_of_proto (Some v)) \<longrightarrow>
      kuksa_try_into_data_value matches (kuksa_display_datapoint (Some v)) (proto_data_type dt) = Ok v) \<and>
    (conforms dt (data_value_of_sdv \<lparr>sd_timestamp = ts, sd_value = Some sv\<rparr>) \<and>
     printable (data_value_of_sdv \<lparr>sd_timestamp = ts, sd_value = Some sv\<rparr>) \<longrightarrow>
      (\<exists>text. sdv_display_datapoint (Some sv) = Ok text \<and> sdv_try_into_data_value matches text (sdv_data_type dt) = Ok sv)) \<and>
    (kuksa_try_into_data_value matches input (proto_data_type dt) = Ok w \<and> input \<noteq> ''NotAvailable'' \<longrightarrow>
      carried_by dt (data_value_of_proto (Some w)))"
  using kuksa_value_text [OF assms] sdv_value_text [OF assms] parsed_value_carried by blast

theorem cli_text_round_trip_witness:
  "kuksa_display_datapoint (Some (KV_Int32Array [5, - 7])) = ''[5, -7]'' \<and>
   kuksa_try_into_data_value (\<lambda>_. scan_array False []) ''[5, -7]'' KT_Int16Array = Ok (KV_Int32Array [5, - 7])"
proof -
  have "kuksa_display_datapoint (Some (KV_Int32Array [5, - 7])) = ''[5, -7]''"
    by (simp add: kuksa_display_datapoint_def display_array_def show_int_def) code_simp
  moreover have "conforms T_Int16Array (Int32Array [5, - 7])" "printable (Int32Array [5, - 7])"
    by (simp_all add: conforms_def printable_def)
  ultimately show ?thesis
    using cli_text_round_trip [OF scan_array_spec, of T_Int16Array "KV_Int32Array [5, - 7]"]
    by (simp add: data_value_of_proto_def proto_data_type_def)
qed

text \<open>
  Where the printed text does not denote the value.  A scalar string is printed between single
  quotes, which become part of the value when it is typed in again; a number of single precision is
  printed with two decimals, so that every positive one below a two hundredth is read back as
  zero; and in the newer protocol the word for an unavailable value is sent as a string, whatever
  the type of the entry, where the older one sends a failure.
\<close>

theorem cli_text_defects:
  assumes "f32_val x = Fin r" and "uint x < 2 ^ 31" and "0 \<le> r" and "r < 1 / 200"
  shows "kuksa_try_into_data_value matches (kuksa_display_datapoint (Some (KV_String s))) KT_String =
      Ok (KV_String ([CHR 0x27] @ s @ [CHR 0x27])) \<and>
    kuksa_try_into_data_value matches (kuksa_display_datapoint (Some (KV_Float x))) KT_Float = Ok (KV_Float 0) \<and>
    kuksa_try_into_data_value matches ''NotAvailable'' t = Ok (KV_String ''NotAvailable'') \<and>
    sdv_try_into_data_value matches ''NotAvailable'' t' = Ok (SV_Failure (failure_code SF_NotAvailable))"
proof -
  have "round_half_even (r * 100) = 0"
  proof -
    have "\<lfloor>r * 100\<rfloor> = 0" using assms(3,4) by (simp add: floor_eq_iff)
    then show ?thesis using assms(4) by (simp add: round_half_even_def Let_def)
  qed
  then have "show_f32_2 x = show_decimal 0 2" using assms by (simp add: show_f32_2_def)
  also have "\<dots> = ''0.00''" by (simp add: show_decimal_def show_nat.simps numeral_2_eq_2 char_zero)
  finally have "show_f32_2 x = ''0.00''" .
  moreover have "parse_f32 ''0.00'' = Some 0"
    by (simp add: parse_f32_def parse_float_def split_sign_def to_ascii_lowercase_def parse_number_def is_exp_char_def
        is_digit_def digit_val_def f32_of_rat_def encode_mag_def)
  ultimately show ?thesis
    by (simp add: kuksa_try_into_data_value_def sdv_try_into_data_value_def kuksa_display_datapoint_def parse_scalar_def)
qed

theorem cli_text_defects_witness:
  "f32_val 0x3A83126F = Fin (8589935 / 8589934592) \<and>
   kuksa_try_into_data_value (\<lambda>_. scan_array False []) (kuksa_display_datapoint (Some (KV_Float 0x3A83126F))) KT_Float =
     Ok (KV_Float 0)"
proof -
  have "f32_val 0x3A83126F = Fin (8589935 / 8589934592)" by code_simp
  then show ?thesis using cli_text_defects [of "0x3A83126F" "8589935 / 8589934592"] by simp
qed

end
