(* ===== verification/CliComplete.thy ===== *)
theory CliComplete
  imports CliText GlobMeaning "HOL-Library.Char_ord" "HOL-Library.List_Lexorder"
begin

text \<open>
  The completion of commands and paths in the command line clients (\<open>CliCompleter\<close> in
  \<open>databroker-cli/src/kuksa_cli.rs\<close> and \<open>sdv_cli.rs\<close>, which contain the same code up to the field a
  path is taken from and the completion of \<open>subscribe\<close>).  The known paths are kept in a tree whose
  keys are components in lower case.  The children of a node, a \<open>HashMap\<close>, are an association
  list in one iteration order.  The completion of file names is a function of the crate
  \<open>linefeed\<close> and a parameter.
\<close>

section \<open>The tree of paths\<close>

datatype PathPart = PathPart (rel_path: string) (full_path: string) (children: "(string \<times> PathPart) list")

definition new_path_part :: PathPart where
  "new_path_part = PathPart [] [] []"

text \<open>\<open>str::to_lowercase\<close> on the modelled characters.\<close>

definition lower_char :: "char \<Rightarrow> char" where
  "lower_char c =
     (let n = of_char c :: nat
      in if 65 \<le> n \<and> n \<le> 90 \<or> 192 \<le> n \<and> n \<le> 222 \<and> n \<noteq> 215 then char_of (n + 32) else c)"

definition to_lowercase :: "string \<Rightarrow> string" where
  "to_lowercase s = map lower_char s"

fun insert_parts :: "string list \<Rightarrow> PathPart \<Rightarrow> PathPart" where
  "insert_parts [] parent = parent"
| "insert_parts (part # parts) (PathPart rel full cs) =
     (let full_path = (if full = [] then part else full @ ''.'' @ part);
          entry = (case map_of cs (to_lowercase part) of Some e \<Rightarrow> e | None \<Rightarrow> PathPart part full_path [])
      in PathPart rel full (AList.update (to_lowercase part) (insert_parts parts entry) cs))"

definition path_tree :: "string list \<Rightarrow> PathPart" where
  "path_tree paths = foldl (\<lambda>parent path. insert_parts (components path) parent) new_path_part paths"

definition kuksa_from_metadata :: "DataEntry list \<Rightarrow> PathPart" where
  "kuksa_from_metadata entries = path_tree (map de_path entries)"

definition sdv_from_metadata :: "SdvMetadata list \<Rightarrow> PathPart" where
  "sdv_from_metadata metadata = path_tree (map sm_name metadata)"

section \<open>Completions\<close>

datatype Suffix = Suffix_None | Suffix_Default

record Completion =
  co_completion :: string
  co_display :: "string option"
  co_suffix :: Suffix

definition shown :: "Completion \<Rightarrow> string" where
  "shown c = (case co_display c of Some d \<Rightarrow> d | None \<Rightarrow> co_completion c)"

definition completion_of :: "PathPart \<Rightarrow> Completion" where
  "completion_of spec =
     (if children spec \<noteq> [] then
        \<lparr>co_completion = full_path spec @ ''.'', co_display = Some (rel_path spec @ ''.''), co_suffix = Suffix_None\<rparr>
      else \<lparr>co_completion = full_path spec, co_display = Some (rel_path spec), co_suffix = Suffix_Default\<rparr>)"

fun complete_parts :: "string list \<Rightarrow> PathPart \<Rightarrow> Completion list" where
  "complete_parts [] path = map (\<lambda>(_, spec). completion_of spec) (children path)"
| "complete_parts (part # parts) path =
     (case map_of (children path) part of
        Some matching_path \<Rightarrow> complete_parts parts matching_path
      | None \<Rightarrow>
          map (\<lambda>(_, spec). completion_of spec)
            (filter (\<lambda>(path_part_lower, _). prefix part path_part_lower) (children path)))"

definition complete_entry_path :: "PathPart \<Rightarrow> string \<Rightarrow> Completion list option" where
  "complete_entry_path paths word =
     (if children paths \<noteq> [] then
        Some (sort_key shown (complete_parts (components (to_lowercase word)) paths))
      else None)"

definition sdv_complete_entry_path :: "PathPart \<Rightarrow> string \<Rightarrow> Completion list option" where
  "sdv_complete_entry_path paths word = complete_entry_path paths word"

definition CLI_COMMANDS :: "(string \<times> string \<times> string) list" where
  "CLI_COMMANDS =
     [(''connect'', ''[URI]'', ''Connect to server''),
      (''get'', ''<PATH> [[PATH] ...]'', ''Get signal value(s)''),
      (''set'', ''<PATH> <VALUE>'', ''Set actuator signal''),
      (''subscribe'', ''<QUERY>'', ''Subscribe to signals with QUERY, if you use kuksa feature comma separated list''),
      (''feed'', ''<PATH> <VALUE>'', ''Publish signal value''),
      (''metadata'', ''[PATTERN]'', ''Fetch metadata. Provide PATTERN to list metadata of signals matching pattern.''),
      (''token'', ''<TOKEN>'', ''Use TOKEN as access token''),
      (''token-file'', ''<FILE>'', ''Use content of FILE as access token''),
      (''help'', [], ''You'' @ [CHR 0x27] @ ''re looking at it.''),
      (''quit'', [], ''Quit'')]"

definition complete_command :: "string \<Rightarrow> Completion list" where
  "complete_command word =
     map (\<lambda>(cmd, _, _). \<lparr>co_completion = cmd, co_display = None, co_suffix = Suffix_Default\<rparr>)
       (filter (\<lambda>(cmd, _, _). prefix word cmd) CLI_COMMANDS)"

text \<open>\<open>line\<close> is the text before the word to complete.\<close>

definition kuksa_complete ::
  "(string \<Rightarrow> Completion list option) \<Rightarrow> PathPart \<Rightarrow> string \<Rightarrow> string \<Rightarrow> Completion list option" where
  "kuksa_complete path_completer paths line word =
     (case split_whitespace line of
        [] \<Rightarrow> Some (complete_command word)
      | cmd # others \<Rightarrow>
          if cmd = ''set'' \<or> cmd = ''feed'' then (if length others = 0 then complete_entry_path paths word else None)
          else if cmd = ''get'' \<or> cmd = ''metadata'' then complete_entry_path paths word
          else if cmd = ''subscribe'' then (if length others = 0 then complete_entry_path paths word else None)
          else if cmd = ''token-file'' then path_completer word
          else None)"

definition sdv_complete ::
  "(string \<Rightarrow> Completion list option) \<Rightarrow> PathPart \<Rightarrow> string \<Rightarrow> string \<Rightarrow> Completion list option" where
  "sdv_complete path_completer paths line word =
     (case split_whitespace line of
        [] \<Rightarrow> Some (complete_command word)
      | cmd # others \<Rightarrow>
          if cmd = ''set'' \<or> cmd = ''feed'' then (if length others = 0 then sdv_complete_entry_path paths word else None)
          else if cmd = ''get'' \<or> cmd = ''metadata'' then sdv_complete_entry_path paths word
          else if cmd = ''subscribe'' then
            (case others of
               [] \<Rightarrow> Some [\<lparr>co_completion = ''SELECT'', co_display = None, co_suffix = Suffix_Default\<rparr>]
             | nxt # _ \<Rightarrow> if nxt = ''SELECT'' then sdv_complete_entry_path paths word else None)
          else if cmd = ''token-file'' then path_completer word
          else None)"

section \<open>What the tree holds\<close>

text \<open>
  A tree at \<open>base\<close> whose nodes are named by \<open>Q\<close>: \<open>tree_ok\<close> says that its nodes carry their path and
  their name, \<open>has\<close> that a list of components leads to a node.
\<close>

fun tree_ok :: "(string list \<Rightarrow> bool) \<Rightarrow> string list \<Rightarrow> PathPart \<Rightarrow> bool" where
  "tree_ok Q base (PathPart rel full cs) \<longleftrightarrow> full = join_dots base \<and> distinct (map fst cs) \<and>
     (\<forall>(k, c)\<in>set cs. k = to_lowercase (rel_path c) \<and> Q (base @ [rel_path c]) \<and> tree_ok Q (base @ [rel_path c]) c)"

fun has :: "string list \<Rightarrow> PathPart \<Rightarrow> bool" where
  "has [] t = True"
| "has (p # ps) t = (case map_of (children t) (to_lowercase p) of Some c \<Rightarrow> has ps c | None \<Rightarrow> False)"

definition case_consistent :: "(string list \<Rightarrow> bool) \<Rightarrow> bool" where
  "case_consistent Q \<longleftrightarrow>
     (\<forall>xs ys. Q xs \<and> Q ys \<and> map to_lowercase xs = map to_lowercase ys \<longrightarrow> xs = ys) \<and>
     (\<forall>xs. Q xs \<longrightarrow> [] \<notin> set xs)"

lemma case_consistentD:
  assumes "case_consistent Q" and "Q (base @ [c])" and "Q (base @ [d])" and "to_lowercase c = to_lowercase d"
  shows "c = d"
proof -
  have "map to_lowercase (base @ [c]) = map to_lowercase (base @ [d])" using assms(4) by simp
  then have "base @ [c] = base @ [d]" using assms(1-3) unfolding case_consistent_def by blast
  then show ?thesis by simp
qed

lemma tree_ok_child:
  assumes "tree_ok Q base t" and "map_of (children t) k = Some c"
  shows "k = to_lowercase (rel_path c)" "Q (base @ [rel_path c])" "tree_ok Q (base @ [rel_path c]) c"
  using assms map_of_SomeD [OF assms(2)] by (cases t; fastforce)+

lemma insert_parts_ok:
  assumes "case_consistent Q"
  shows "tree_ok Q base t \<Longrightarrow> (\<And>n. 0 < n \<Longrightarrow> n \<le> length parts \<Longrightarrow> Q (base @ take n parts)) \<Longrightarrow> Q base \<or> base = [] \<Longrightarrow>
    tree_ok Q base (insert_parts parts t) \<and> rel_path (insert_parts parts t) = rel_path t"
proof (induction parts arbitrary: base t)
  case (Cons part parts)
  obtain rel full cs where t: "t = PathPart rel full cs" by (cases t)
  let ?k = "to_lowercase part"
  define entry where "entry = (case map_of cs ?k of Some e \<Rightarrow> e | None \<Rightarrow> PathPart part (if full = [] then part else full @ ''.'' @ part) [])"
  have part: "Q (base @ [part])" using Cons.prems(2) [of 1] by simp
  have base: "join_dots base = [] \<longleftrightarrow> base = []"
    using Cons.prems(3) assms by (cases base rule: join_dots.cases) (auto simp: case_consistent_def)
  have e: "rel_path entry = part \<and> tree_ok Q (base @ [part]) entry"
  proof (cases "map_of cs ?k")
    case None
    then show ?thesis using Cons.prems(1) base t by (auto simp: entry_def join_dots_append)
  next
    case (Some c)
    then have "rel_path c = part"
      using tree_ok_child [OF Cons.prems(1), of ?k c] t part case_consistentD [OF assms] by auto
    then show ?thesis using tree_ok_child(3) [OF Cons.prems(1), of ?k c] t Some by (simp add: entry_def)
  qed
  have "Q ((base @ [part]) @ take n parts)" if "0 < n" "n \<le> length parts" for n
    using Cons.prems(2) [of "Suc n"] that by simp
  then have i: "tree_ok Q (base @ [part]) (insert_parts parts entry) \<and> rel_path (insert_parts parts entry) = part"
    using Cons.IH [of "base @ [part]" entry] e part by simp
  have upd: "set (AList.update ?k v cs) \<subseteq> insert (?k, v) (set cs)" for v
    by (induction cs) auto
  let ?new = "insert_parts parts entry"
  have ins: "insert_parts (part # parts) t = PathPart rel full (AList.update ?k ?new cs)"
    by (simp add: t entry_def Let_def)
  have ok: "full = join_dots base" "distinct (map fst cs)"
      "\<And>k c. (k, c) \<in> set cs \<Longrightarrow> k = to_lowercase (rel_path c) \<and> Q (base @ [rel_path c]) \<and> tree_ok Q (base @ [rel_path c]) c"
    using Cons.prems(1) by (auto simp: t)
  have "k = to_lowercase (rel_path c) \<and> Q (base @ [rel_path c]) \<and> tree_ok Q (base @ [rel_path c]) c"
    if "(k, c) \<in> set (AList.update ?k ?new cs)" for k c
  proof (cases "(k, c) = (?k, ?new)")
    case True
    then show ?thesis using i part by simp
  next
    case False
    then show ?thesis using that upd [of ?new] ok(3) by blast
  qed
  then have "tree_ok Q base (PathPart rel full (AList.update ?k ?new cs))"
    using ok(1,2) distinct_update [OF ok(2), of ?k ?new] unfolding tree_ok.simps by blast
  then show ?case unfolding ins by (simp only: t PathPart.sel simp_thms)
qed simp

lemma has_insert: "has parts (insert_parts parts t)" "has ps t \<Longrightarrow> has ps (insert_parts parts t)"
proof (induction parts arbitrary: t ps)
  case (Cons part parts)
  { case 1 show ?case by (cases t) (simp add: Let_def update_conv' Cons.IH(1)) }
  { case 2 then show ?case by (cases t; cases ps) (auto simp: Let_def update_conv' Cons.IH(2) split: option.splits) }
qed simp_all

section \<open>Trees of known paths\<close>

definition known :: "string list \<Rightarrow> string list \<Rightarrow> bool" where
  "known paths cs \<longleftrightarrow> cs \<noteq> [] \<and> (\<exists>p\<in>set paths. prefix cs (components p))"

definition full_tree :: "(string list \<Rightarrow> bool) \<Rightarrow> string list \<Rightarrow> PathPart \<Rightarrow> bool" where
  "full_tree Q base t \<longleftrightarrow> tree_ok Q base t \<and> (\<forall>cs. Q (base @ cs) \<longrightarrow> has cs t)"

lemma path_tree_full:
  assumes "case_consistent (known paths)"
  shows "full_tree (known paths) [] (path_tree paths)"
proof -
  have "tree_ok (known paths) [] (foldl (\<lambda>t p. insert_parts (components p) t) t ps) \<and>
      (\<forall>p\<in>set ps. has (components p) (foldl (\<lambda>t p. insert_parts (components p) t) t ps)) \<and>
      (\<forall>cs. has cs t \<longrightarrow> has cs (foldl (\<lambda>t p. insert_parts (components p) t) t ps))"
    if "tree_ok (known paths) [] t" "set ps \<subseteq> set paths" for t ps
    using that
  proof (induction ps arbitrary: t)
    case (Cons p ps)
    have "known paths ([] @ take n (components p))" if "0 < n" "n \<le> length (components p)" for n
      using that Cons.prems(2) by (auto simp: known_def intro!: bexI [of _ p] take_is_prefix)
    then have "tree_ok (known paths) [] (insert_parts (components p) t)"
      using insert_parts_ok [OF assms Cons.prems(1), of "components p"] by simp
    then show ?case using Cons.IH [of "insert_parts (components p) t"] Cons.prems(2) has_insert by auto
  qed simp
  from this [of new_path_part paths]
  have ok: "tree_ok (known paths) [] (path_tree paths)" and all: "\<forall>p\<in>set paths. has (components p) (path_tree paths)"
    by (simp_all add: path_tree_def new_path_part_def)
  have "has cs t" if "has ps t" "prefix cs ps" for cs ps t
    using that by (induction ps arbitrary: cs t) (auto simp: prefix_Cons split: option.splits)
  then show ?thesis using ok all by (auto simp: full_tree_def known_def)
qed

lemma full_tree_child:
  assumes "full_tree Q base t" and "map_of (children t) k = Some c"
  shows "full_tree Q (base @ [rel_path c]) c" "k = to_lowercase (rel_path c)" "Q (base @ [rel_path c])"
proof -
  note ok = tree_ok_child [OF _ assms(2), of Q base]
  show k: "k = to_lowercase (rel_path c)" and "Q (base @ [rel_path c])"
    using assms(1) ok by (simp_all add: full_tree_def)
  have "has cs c" if "Q ((base @ [rel_path c]) @ cs)" for cs
  proof -
    have "has (rel_path c # cs) t" using assms(1) that by (simp add: full_tree_def del: has.simps)
    then show ?thesis using assms(2) k by simp
  qed
  then show "full_tree Q (base @ [rel_path c]) c" using assms(1) ok by (simp add: full_tree_def)
qed

lemma full_tree_find:
  assumes "case_consistent Q" and "full_tree Q base t" and "Q (base @ [d])"
  shows "\<exists>c. map_of (children t) (to_lowercase d) = Some c \<and> rel_path c = d"
proof -
  have "has [d] t" using assms(2,3) by (simp add: full_tree_def del: has.simps)
  then obtain c where c: "map_of (children t) (to_lowercase d) = Some c" by (auto split: option.splits)
  then show ?thesis using full_tree_child(2,3) [OF assms(2) c] case_consistentD [OF assms(1) _ assms(3)] by auto
qed

lemma full_tree_branch:
  assumes "full_tree Q base t"
  shows "children t \<noteq> [] \<longleftrightarrow> (\<exists>d. Q (base @ [d]))"
proof
  assume "children t \<noteq> []"
  then obtain k c cs where "children t = (k, c) # cs" by (cases "children t") auto
  then have "map_of (children t) k = Some c" by simp
  then show "\<exists>d. Q (base @ [d])" using full_tree_child(3) [OF assms] by blast
next
  assume "\<exists>d. Q (base @ [d])"
  then obtain d where "has [d] t" using assms by (auto simp: full_tree_def)
  then show "children t \<noteq> []" by auto
qed

text \<open>The completion for a known list of components: a dot follows when something is below it.\<close>

definition next_completion :: "(string list \<Rightarrow> bool) \<Rightarrow> string list \<Rightarrow> Completion" where
  "next_completion Q cs =
     (if \<exists>d. Q (cs @ [d]) then
        \<lparr>co_completion = join_dots cs @ ''.'', co_display = Some (last cs @ ''.''), co_suffix = Suffix_None\<rparr>
      else \<lparr>co_completion = join_dots cs, co_display = Some (last cs), co_suffix = Suffix_Default\<rparr>)"

lemma completion_of_node:
  assumes "full_tree Q (base @ [rel_path c]) c"
  shows "completion_of c = next_completion Q (base @ [rel_path c])"
proof -
  have "full_path c = join_dots (base @ [rel_path c])" using assms by (cases c) (simp add: full_tree_def)
  then show ?thesis using full_tree_branch [OF assms] by (simp add: completion_of_def next_completion_def)
qed

lemma children_map_of:
  "full_tree Q base t \<Longrightarrow> (k, c) \<in> set (children t) \<longleftrightarrow> map_of (children t) k = Some c"
  by (cases t) (auto simp: full_tree_def dest: map_of_SomeD)

lemma complete_parts_sound:
  assumes "full_tree Q base t" and "x \<in> set (complete_parts ws t)"
  shows "\<exists>pre d. Q (base @ pre @ [d]) \<and> x = next_completion Q (base @ pre @ [d]) \<and>
    map to_lowercase pre = take (length pre) ws \<and> (length pre < length ws \<longrightarrow> prefix (ws ! length pre) (to_lowercase d))"
  using assms
proof (induction ws arbitrary: base t)
  case Nil
  then obtain k c where "map_of (children t) k = Some c" "x = completion_of c" using children_map_of by fastforce
  then show ?case using full_tree_child [OF Nil.prems(1)] completion_of_node
    by (intro exI [of _ "[]"] exI [of _ "rel_path c"]) auto
next
  case (Cons w ws)
  show ?case
  proof (cases "map_of (children t) w")
    case None
    then obtain k c where "map_of (children t) k = Some c" "x = completion_of c" "prefix w k"
      using Cons.prems children_map_of by fastforce
    then show ?thesis using full_tree_child [OF Cons.prems(1)] completion_of_node
      by (intro exI [of _ "[]"] exI [of _ "rel_path c"]) auto
  next
    case (Some c)
    note ch = full_tree_child [OF Cons.prems(1) Some]
    obtain pre d where "Q ((base @ [rel_path c]) @ pre @ [d])" "x = next_completion Q ((base @ [rel_path c]) @ pre @ [d])"
        "map to_lowercase pre = take (length pre) ws" "length pre < length ws \<longrightarrow> prefix (ws ! length pre) (to_lowercase d)"
      using Cons.IH [OF ch(1)] Cons.prems(2) Some by auto
    then show ?thesis using ch(2) by (intro exI [of _ "rel_path c # pre"] exI [of _ d]) simp
  qed
qed

lemma complete_parts_complete:
  assumes c: "case_consistent Q" and closed: "\<And>xs y ys. Q (xs @ y # ys) \<Longrightarrow> Q (xs @ [y])"
  shows "full_tree Q base t \<Longrightarrow> Q (base @ pre @ [d]) \<Longrightarrow>
    ws = map to_lowercase pre \<or>
    (\<exists>w. ws = map to_lowercase pre @ [w] \<and> prefix w (to_lowercase d) \<and> \<not> (\<exists>e. Q (base @ pre @ [e]) \<and> to_lowercase e = w)) \<Longrightarrow>
    next_completion Q (base @ pre @ [d]) \<in> set (complete_parts ws t)"
proof (induction pre arbitrary: base t ws)
  case Nil
  obtain n where n: "map_of (children t) (to_lowercase d) = Some n" "rel_path n = d"
    using full_tree_find [OF c Nil.prems(1)] Nil.prems(2) by auto
  have comp: "completion_of n = next_completion Q (base @ [d])"
    using completion_of_node [of Q base n] full_tree_child(1) [OF Nil.prems(1) n(1)] n(2) by simp
  have mem: "(to_lowercase d, n) \<in> set (children t)" using n(1) by (rule map_of_SomeD)
  from Nil.prems(3) consider "ws = []"
    | w where "ws = [w]" "prefix w (to_lowercase d)" "\<not> (\<exists>e. Q (base @ [e]) \<and> to_lowercase e = w)" by auto
  then show ?case
  proof cases
    case 1
    then show ?thesis using comp mem by force
  next
    case (2 w)
    have "map_of (children t) w = None"
      using 2(3) full_tree_child(2,3) [OF Nil.prems(1), of w] by (cases "map_of (children t) w") auto
    then show ?thesis using 2 comp mem by force
  qed
next
  case (Cons p pre)
  have "Q (base @ [p])" using closed [of base p "pre @ [d]"] Cons.prems(2) by simp
  then obtain n where n: "map_of (children t) (to_lowercase p) = Some n" "rel_path n = p"
    using full_tree_find [OF c Cons.prems(1)] by blast
  have "full_tree Q (base @ [p]) n" using full_tree_child(1) [OF Cons.prems(1) n(1)] n(2) by simp
  moreover obtain ws' where ws: "ws = to_lowercase p # ws'" using Cons.prems(3) by auto
  ultimately have "next_completion Q ((base @ [p]) @ pre @ [d]) \<in> set (complete_parts ws' n)"
    using Cons.prems(2,3) by (intro Cons.IH) auto
  then show ?case using n ws by simp
qed

section \<open>Properties\<close>

text \<open>
  C30.  Completion of paths.  The completions offered for a word are sorted by what is shown; each is
  a known path cut after some component, ahead of what has been typed, followed by a dot exactly
  when something is below it, and agrees with the word, in whatever case, as far as the word names
  known components.  Every known path is offered, component by component, to a user who has typed its
  beginning, unless the component being typed is by itself the name of a sibling: then only what is
  below the sibling is offered.  The known paths must have no empty components and not differ in case
  only.
\<close>

theorem completion_outcome:
  assumes "case_consistent (known paths)" and "complete_entry_path (path_tree paths) word = Some res"
    and "ws = components (to_lowercase word)"
  shows "sorted (map shown res) \<and>
    (\<forall>x\<in>set res. \<exists>pre d. known paths (pre @ [d]) \<and> x = next_completion (known paths) (pre @ [d]) \<and>
       map to_lowercase pre = take (length pre) ws \<and> (length pre < length ws \<longrightarrow> prefix (ws ! length pre) (to_lowercase d))) \<and>
    (\<forall>pre d. known paths (pre @ [d]) \<and>
       (ws = map to_lowercase pre \<or>
        (\<exists>w. ws = map to_lowercase pre @ [w] \<and> prefix w (to_lowercase d) \<and>
           \<not> (\<exists>e. known paths (pre @ [e]) \<and> to_lowercase e = w))) \<longrightarrow>
       next_completion (known paths) (pre @ [d]) \<in> set res)"
proof -
  have res: "res = sort_key shown (complete_parts ws (path_tree paths))"
    using assms(2,3) by (simp add: complete_entry_path_def split: if_splits)
  note tree = path_tree_full [OF assms(1)]
  have closed: "known paths (xs @ [y])" if "known paths (xs @ y # ys)" for xs y ys
    using that append_prefixD [of "xs @ [y]" ys] by (auto simp: known_def)
  have "sorted (map shown res)" by (simp add: res)
  moreover have "\<forall>x\<in>set res. \<exists>pre d. known paths (pre @ [d]) \<and> x = next_completion (known paths) (pre @ [d]) \<and>
       map to_lowercase pre = take (length pre) ws \<and> (length pre < length ws \<longrightarrow> prefix (ws ! length pre) (to_lowercase d))"
    using complete_parts_sound [OF tree, of _ ws] by (simp add: res)
  moreover have "next_completion (known paths) (pre @ [d]) \<in> set res"
    if "known paths (pre @ [d])"
      "ws = map to_lowercase pre \<or> (\<exists>w. ws = map to_lowercase pre @ [w] \<and> prefix w (to_lowercase d) \<and>
         \<not> (\<exists>e. known paths (pre @ [e]) \<and> to_lowercase e = w))" for pre d
    using complete_parts_complete [where Q = "known paths" and base = "[]" and pre = pre and d = d and ws = ws,
        OF assms(1) closed tree] that by (simp add: res)
  ultimately show ?thesis by blast
qed

definition example_paths :: "string list" where
  "example_paths = [''V.T'', ''V.A.B'']"

definition known_list :: "string list \<Rightarrow> string list list" where
  "known_list paths = filter (\<lambda>cs. cs \<noteq> []) (concat (map (\<lambda>p. prefixes (components p)) paths))"

definition consistent_list :: "string list list \<Rightarrow> bool" where
  "consistent_list l \<longleftrightarrow>
     list_all (\<lambda>xs. [] \<notin> set xs \<and> list_all (\<lambda>ys. map to_lowercase xs = map to_lowercase ys \<longrightarrow> xs = ys) l) l"

lemma known_iff: "known paths cs \<longleftrightarrow> cs \<in> set (known_list paths)"
  by (auto simp: known_def known_list_def)

lemma case_consistent_iff: "case_consistent (known paths) \<longleftrightarrow> consistent_list (known_list paths)"
  by (auto simp: case_consistent_def consistent_list_def known_iff list_all_iff)

theorem completion_outcome_witness:
  "case_consistent (known example_paths) \<and>
   (\<exists>res. complete_entry_path (path_tree example_paths) ''v'' = Some res \<and>
      map shown res = [''A.'', ''T''] \<and>
      next_completion (known example_paths) [''V'', ''T''] \<in> set res)"
proof -
  have c: "case_consistent (known example_paths)" unfolding case_consistent_iff by code_simp
  define cs where "cs = complete_parts (components (to_lowercase ''v'')) (path_tree example_paths)"
  have "map shown cs = [''T'', ''A.'']" unfolding cs_def by code_simp
  then obtain a b where cs: "cs = [a, b]" "shown a = ''T''" "shown b = ''A.''" by auto
  have "''A.'' \<le> ''T''" "\<not> ''T'' \<le> ''A.''" by (simp_all add: less_eq_char_def less_char_def)
  then have "sort_key shown cs = [b, a]" using cs by simp
  moreover have "children (path_tree example_paths) \<noteq> []" by code_simp
  ultimately have res: "complete_entry_path (path_tree example_paths) ''v'' = Some [b, a]"
    by (simp add: complete_entry_path_def cs_def)
  have "known example_paths ([''V''] @ [''T''])" unfolding known_iff by code_simp
  moreover have "components (to_lowercase ''v'') = map to_lowercase [''V'']" by code_simp
  ultimately have "next_completion (known example_paths) ([''V''] @ [''T'']) \<in> set [b, a]"
    using completion_outcome [OF c res refl] by blast
  then show ?thesis using c res cs by auto
qed

end
