(* ===== verification/Cli.thy ===== *)
theory Cli
  imports CliComplete Client
begin

text \<open>
  What the two command line clients share (\<open>databroker-cli/src/cli.rs\<close>): their options, what they
  print, and how they are opened.  The terminal, the file system and the crates for addresses and
  certificates are parameters, collected in the record \<open>cli_env\<close>.  What is printed is a list of
  calls of the printing functions; texts that come from outside (the messages of errors) and the
  colours are left out, as are the history and the prompt of the line editor.
\<close>

section \<open>Options\<close>

datatype Commands = Cmd_Get "string list"

datatype CliAPI = KuksaValV1 | SdvDatabrokerV1

record Cli =
  cli_server :: string
  cli_token_file :: "string option"
  cli_ca_cert :: "string option"
  cli_protocol :: CliAPI
  cli_command :: "Commands option"

record ('u, 't) cli_env =
  env_parse_uri :: "string \<Rightarrow> UriParts option"
  env_from_parts :: "UriParts \<Rightarrow> 'u option"
  env_show_uri :: "'u \<Rightarrow> string"
  env_read_file :: "string \<Rightarrow> string option"
  env_tls_config :: "string \<Rightarrow> 't option"
  env_matches :: matcher
  env_re :: regex_engine

text \<open>The copy of \<open>to_uri\<close> in the client.\<close>

definition cli_to_uri ::
  "(string \<Rightarrow> UriParts option) \<Rightarrow> (UriParts \<Rightarrow> 'u option) \<Rightarrow> string \<Rightarrow> ('u, UriError) result" where
  "cli_to_uri parse from_parts uri =
     (case parse uri of
        None \<Rightarrow> Err Uri_Parse
      | Some parts \<Rightarrow>
          (let parts = (if u_scheme parts = None then parts\<lparr>u_scheme := Some ''http''\<rparr> else parts)
           in case u_authority parts of
                Some _ \<Rightarrow>
                  (case from_parts (parts\<lparr>u_path_and_query := Some []\<rparr>) of
                     Some uri \<Rightarrow> Ok uri
                   | None \<Rightarrow> Err Uri_Parts)
              | None \<Rightarrow> Err Uri_NoServer))"

section \<open>Printing\<close>

datatype Code =
    C_Ok | C_Cancelled | C_Unknown | C_InvalidArgument | C_DeadlineExceeded | C_NotFound | C_AlreadyExists
  | C_PermissionDenied | C_ResourceExhausted | C_FailedPrecondition | C_Aborted | C_OutOfRange | C_Unimplemented
  | C_Internal | C_Unavailable | C_DataLoss | C_Unauthenticated

definition code_to_text :: "Code \<Rightarrow> string" where
  "code_to_text code =
     (case code of
        C_Ok \<Rightarrow> ''Ok''
      | C_Cancelled \<Rightarrow> ''Cancelled''
      | C_Unknown \<Rightarrow> ''Unknown''
      | C_InvalidArgument \<Rightarrow> ''InvalidArgument''
      | C_DeadlineExceeded \<Rightarrow> ''DeadlineExceeded''
      | C_NotFound \<Rightarrow> ''NotFound''
      | C_AlreadyExists \<Rightarrow> ''AlreadyExists''
      | C_PermissionDenied \<Rightarrow> ''PermissionDenied''
      | C_ResourceExhausted \<Rightarrow> ''ResourceExhausted''
      | C_FailedPrecondition \<Rightarrow> ''FailedPrecondition''
      | C_Aborted \<Rightarrow> ''Aborted''
      | C_OutOfRange \<Rightarrow> ''OutOfRange''
      | C_Unimplemented \<Rightarrow> ''Unimplemented''
      | C_Internal \<Rightarrow> ''Internal''
      | C_Unavailable \<Rightarrow> ''Unavailable''
      | C_DataLoss \<Rightarrow> ''DataLoss''
      | C_Unauthenticated \<Rightarrow> ''Unauthenticated'')"

definition status_code :: "Status \<Rightarrow> Code" where
  "status_code status =
     (case status of
        St_Unauthenticated \<Rightarrow> C_Unauthenticated
      | St_InvalidArgument \<Rightarrow> C_InvalidArgument
      | St_NotFound \<Rightarrow> C_NotFound
      | St_PermissionDenied \<Rightarrow> C_PermissionDenied
      | St_Internal \<Rightarrow> C_Internal)"

text \<open>
  The calls of \<open>print_resp_ok\<close>, \<open>print_resp_ok_fmt\<close>, \<open>print_resp_err\<close>, \<open>print_resp_err_fmt\<close>,
  \<open>print_error\<close>, \<open>print_info\<close> and \<open>println\<close>; an error printed alone is one of no operation.
\<close>

datatype printed =
    P_Ok string
  | P_OkFmt string string
  | P_RespErr string string
  | P_RespErrFmt string "(nat \<times> string) list"
  | P_Error string "string option"
  | P_Info string
  | P_Line string

definition print_usage :: "string \<Rightarrow> printed list" where
  "print_usage command =
     map (\<lambda>(cmd, usage, _). P_Line (''Usage: '' @ cmd @ '' '' @ usage))
       (filter (\<lambda>(cmd, _, _). cmd = command) CLI_COMMANDS)"

text \<open>\<open>{:width}\<close> and \<open>{:<width}\<close> on text.\<close>

definition pad :: "nat \<Rightarrow> string \<Rightarrow> string" where
  "pad width s = s @ replicate (width - length s) CHR '' ''"

definition help_lines :: "printed list" where
  "help_lines =
     [P_Line []] @
     map (\<lambda>(cmd, args, help). P_Line (''  '' @ pad 24 (cmd @ '' '' @ args) @ '' '' @ help)) CLI_COMMANDS @
     [P_Line []]"

text \<open>
  The three arms on a \<open>ClientError\<close> that follow every call; they differ in the name of the operation
  they print.
\<close>

definition print_client_error :: "string \<Rightarrow> string \<Rightarrow> ClientError \<Rightarrow> printed" where
  "print_client_error operation function_operation err =
     (case err of
        CE_Status status \<Rightarrow> P_RespErr operation (code_to_text (status_code status))
      | CE_Connection \<Rightarrow> P_Error operation None
      | CE_Function msg \<Rightarrow> P_RespErrFmt function_operation msg)"

section \<open>Opening a client\<close>

datatype cli_error = CliE_Uri UriError | CliE_File | CliE_Token

definition open_client ::
  "('u, 't, 'c) network \<Rightarrow> ('u, 't) cli_env \<Rightarrow> Cli \<Rightarrow> (('u, 't, 'c) Client, cli_error) result" where
  "open_client net env cli =
     (case to_uri (env_parse_uri env) (env_from_parts env) (cli_server cli) of
        Err err \<Rightarrow> Err (CliE_Uri err)
      | Ok uri \<Rightarrow>
          result_bind
            (case cli_token_file cli of
               Some token_filename \<Rightarrow>
                 (case env_read_file env token_filename of
                    None \<Rightarrow> Err CliE_File
                  | Some token \<Rightarrow>
                      (case set_access_token net (new_client uri) token of
                         (Ok _, client) \<Rightarrow> Ok client
                       | (Err _, _) \<Rightarrow> Err CliE_Token))
             | None \<Rightarrow> Ok (new_client uri))
            (\<lambda>client. result_map subscribe_to_connection_state
              (case cli_ca_cert cli of
                 Some ca_cert_filename \<Rightarrow>
                   (case env_tls_config env ca_cert_filename of
                      None \<Rightarrow> Err CliE_File
                    | Some tls_config \<Rightarrow> Ok (set_tls_config client tls_config))
               | None \<Rightarrow> Ok client)))"

text \<open>What the line editor reports.\<close>

datatype ReadResult = RR_Input string | RR_Eof | RR_Signal string

text \<open>What the task behind a subscription receives: a message, the end of the stream or an error.\<close>

datatype 'm sub_message = Sub_Response 'm | Sub_End | Sub_Error

lemma cli_to_uri_same: "cli_to_uri = to_uri"
  by (simp add: fun_eq_iff cli_to_uri_def to_uri_def)

text \<open>An opened client has no connection, and the state of its connection has one listener.\<close>

lemma open_client_fresh:
  assumes "open_client net env cli = Ok client"
  shows "c_channel client = None" "c_connection_state_subs client = Some \<lparr>bc_receivers = 1, bc_sent = []\<rparr>"
  using assms
  by (auto simp: open_client_def new_client_def set_access_token_def set_tls_config_def subscribe_to_connection_state_def
      result_eqs split: result.splits option.splits if_splits prod.splits)

end
