(* ===== verification/KuksaCli.thy ===== *)
theory KuksaCli
  imports Cli KuksaClient
begin

text \<open>
  The command line client for \<open>kuksa.val.v1\<close> (\<open>databroker-cli/src/kuksa_cli.rs\<close>): one definition per
  command, the dispatch on the first word of a line, and the loop over what the line editor reports.
  \<open>clock n\<close> is the time at which a server serves the n-th call of a command and \<open>stamps n\<close> the
  time stamp the client itself makes for it.
\<close>

section \<open>State\<close>

record ('u, 't, 'c) kuksa_cli =
  kc_client :: "('u, 't, 'c) Client"
  kc_servers :: "'c servers"
  kc_completer :: PathPart
  kc_subscription_nbr :: i32
  kc_subscriptions :: "(i32 \<times> ChangeSubscription) list"
  kc_output :: "printed list"

definition emit :: "printed list \<Rightarrow> ('u, 't, 'c) kuksa_cli \<Rightarrow> ('u, 't, 'c) kuksa_cli" where
  "emit ps s = s\<lparr>kc_output := kc_output s @ ps\<rparr>"

definition on_client ::
  "('a, 'u, 't, 'c) client_method \<Rightarrow> ('u, 't, 'c) kuksa_cli \<Rightarrow> ('a, ClientError) result \<times> ('u, 't, 'c) kuksa_cli" where
  "on_client m s = (case m (kc_client s) (kc_servers s) of (r, client, w) \<Rightarrow> (r, s\<lparr>kc_client := client, kc_servers := w\<rparr>))"

section \<open>Printing\<close>

definition entry_unit :: "DataEntry \<Rightarrow> string" where
  "entry_unit entry =
     (case Option.bind (de_metadata entry) pm_unit of Some unit \<Rightarrow> unit | None \<Rightarrow> [])"

definition entry_line :: "DataEntry \<Rightarrow> printed" where
  "entry_line entry =
     (case de_value entry of
        Some val \<Rightarrow>
          P_Line (de_path entry @ '': '' @ kuksa_display_datapoint (pd_value val) @ '' '' @ entry_unit entry)
      | None \<Rightarrow> P_Line (de_path entry @ '': NotAvailable''))"

definition display_entry_type :: "ProtoEntryType \<Rightarrow> string" where
  "display_entry_type t =
     (case t of KE_Unspecified \<Rightarrow> ''Unspecified'' | KE_Attribute \<Rightarrow> ''Attribute'' | KE_Sensor \<Rightarrow> ''Sensor''
      | KE_Actuator \<Rightarrow> ''Actuator'')"

definition show_data_type :: "ProtoDataType \<Rightarrow> string" where
  "show_data_type t =
     (case t of
        KT_Unspecified \<Rightarrow> ''Unspecified'' | KT_String \<Rightarrow> ''String'' | KT_Boolean \<Rightarrow> ''Boolean''
      | KT_Int8 \<Rightarrow> ''Int8'' | KT_Int16 \<Rightarrow> ''Int16'' | KT_Int32 \<Rightarrow> ''Int32'' | KT_Int64 \<Rightarrow> ''Int64''
      | KT_Uint8 \<Rightarrow> ''Uint8'' | KT_Uint16 \<Rightarrow> ''Uint16'' | KT_Uint32 \<Rightarrow> ''Uint32'' | KT_Uint64 \<Rightarrow> ''Uint64''
      | KT_Float \<Rightarrow> ''Float'' | KT_Double \<Rightarrow> ''Double'' | KT_Timestamp \<Rightarrow> ''Timestamp''
      | KT_StringArray \<Rightarrow> ''StringArray'' | KT_BooleanArray \<Rightarrow> ''BooleanArray''
      | KT_Int8Array \<Rightarrow> ''Int8Array'' | KT_Int16Array \<Rightarrow> ''Int16Array'' | KT_Int32Array \<Rightarrow> ''Int32Array''
      | KT_Int64Array \<Rightarrow> ''Int64Array'' | KT_Uint8Array \<Rightarrow> ''Uint8Array'' | KT_Uint16Array \<Rightarrow> ''Uint16Array''
      | KT_Uint32Array \<Rightarrow> ''Uint32Array'' | KT_Uint64Array \<Rightarrow> ''Uint64Array'' | KT_FloatArray \<Rightarrow> ''FloatArray''
      | KT_DoubleArray \<Rightarrow> ''DoubleArray'' | KT_TimestampArray \<Rightarrow> ''TimestampArray'')"

definition metadata_lines :: "DataEntry list \<Rightarrow> printed list" where
  "metadata_lines metadata =
     (if metadata = [] then []
      else
        (let max_len = foldl (\<lambda>max_len item. if length (de_path item) > max_len then length (de_path item) else max_len) 0 metadata
         in P_Info (pad max_len ''Path'' @ '' '' @ pad 10 ''Entry type'' @ '' '' @ pad 9 ''Data type'') #
            map (\<lambda>entry.
              case de_metadata entry of
                Some m \<Rightarrow>
                  P_Line (pad max_len (de_path entry) @ '' '' @ pad 10 (display_entry_type (pm_entry_type m)) @ '' '' @
                    pad 9 (show_data_type (pm_data_type m)))
              | None \<Rightarrow> P_Line (''No entry metadata for '' @ de_path entry)) metadata))"

text \<open>The task behind a subscription: what it writes for each message.\<close>

fun update_text :: "string \<Rightarrow> string \<Rightarrow> bool \<Rightarrow> DataEntry option list \<Rightarrow> string" where
  "update_text disp disp_pad first_line [] = []"
| "update_text disp disp_pad first_line (upd # upds) =
     (if first_line then disp else disp_pad) @ '' '' @
     (case upd of
        Some entry \<Rightarrow>
          (case de_value entry of
             Some value \<Rightarrow>
               de_path entry @ '': '' @ kuksa_display_datapoint (pd_value value) @ '' '' @ entry_unit entry @ [CHR 0x0A]
           | None \<Rightarrow> [])
      | None \<Rightarrow> []) @
     update_text disp disp_pad False upds"

fun kuksa_subscription_output :: "i32 \<Rightarrow> DataEntry option list sub_message list \<Rightarrow> string list" where
  "kuksa_subscription_output nbr [] = []"
| "kuksa_subscription_output nbr (message # messages) =
     (let sub_disp = ''['' @ show_int (sint nbr) @ '']'';
          sub_disp_pad = replicate (length sub_disp) CHR '' ''
      in case message of
           Sub_Response updates \<Rightarrow> update_text sub_disp sub_disp_pad True updates # kuksa_subscription_output nbr messages
         | Sub_End \<Rightarrow> [sub_disp @ '' Server gone. Subscription stopped'' @ [CHR 0x0A]]
         | Sub_Error \<Rightarrow> [sub_disp @ '' Channel error''])"

section \<open>Commands\<close>

definition refresh_completer ::
  "('u, 't, 'c) network \<Rightarrow> (nat \<Rightarrow> SystemTime) \<Rightarrow> string list \<Rightarrow> string \<Rightarrow> ('u, 't, 'c) kuksa_cli \<Rightarrow> ('u, 't, 'c) kuksa_cli" where
  "refresh_completer net clock patterns operation s =
     (case on_client (kuksa_get_metadata net clock patterns) s of
        (Ok metadata, s) \<Rightarrow> s\<lparr>kc_completer := kuksa_from_metadata metadata\<rparr>
      | (Err err, s) \<Rightarrow> emit [print_client_error ''metadata'' operation err] s)"

definition kuksa_get_command ::
  "('u, 't, 'c) network \<Rightarrow> (nat \<Rightarrow> SystemTime) \<Rightarrow> string \<Rightarrow> string \<Rightarrow> ('u, 't, 'c) kuksa_cli \<Rightarrow> ('u, 't, 'c) kuksa_cli" where
  "kuksa_get_command net clock cmd args s =
     (if args = [] then emit (print_usage cmd) s
      else
        (case on_client (get_current_values net clock (split_whitespace args)) s of
           (Ok data_entries, s) \<Rightarrow> emit (P_Ok cmd # map entry_line data_entries) s
         | (Err err, s) \<Rightarrow> emit [print_client_error cmd cmd err] s))"

definition use_token ::
  "('u, 't, 'c) network \<Rightarrow> (nat \<Rightarrow> SystemTime) \<Rightarrow> string \<Rightarrow> string \<Rightarrow> string \<Rightarrow> ('u, 't, 'c) kuksa_cli \<Rightarrow> ('u, 't, 'c) kuksa_cli" where
  "use_token net clock cmd operation token s =
     (case set_access_token net (kc_client s) token of
        (Ok _, client) \<Rightarrow>
          refresh_completer net clock [] operation (emit [P_Info ''Access token set.''] (s\<lparr>kc_client := client\<rparr>))
      | (Err _, client) \<Rightarrow> emit [P_Error cmd None] (s\<lparr>kc_client := client\<rparr>))"

definition kuksa_token_command ::
  "('u, 't, 'c) network \<Rightarrow> (nat \<Rightarrow> SystemTime) \<Rightarrow> string \<Rightarrow> string \<Rightarrow> ('u, 't, 'c) kuksa_cli \<Rightarrow> ('u, 't, 'c) kuksa_cli" where
  "kuksa_token_command net clock cmd args s =
     (if args = [] then emit (print_usage cmd) s else use_token net clock cmd ''metadata'' args s)"

definition kuksa_token_file_command ::
  "('u, 't, 'c) network \<Rightarrow> ('u, 't) cli_env \<Rightarrow> (nat \<Rightarrow> SystemTime) \<Rightarrow> string \<Rightarrow> string \<Rightarrow> ('u, 't, 'c) kuksa_cli \<Rightarrow>
   ('u, 't, 'c) kuksa_cli" where
  "kuksa_token_file_command net env clock cmd args s =
     (if args = [] then emit (print_usage cmd) s
      else
        (case env_read_file env (trim args) of
           Some token \<Rightarrow> use_token net clock cmd cmd token s
         | None \<Rightarrow> emit [P_Error cmd None] s))"

fun for_entries :: "(nat \<Rightarrow> 'e \<Rightarrow> 's \<Rightarrow> 's) \<Rightarrow> nat \<Rightarrow> 'e list \<Rightarrow> 's \<Rightarrow> 's" where
  "for_entries f n [] s = s"
| "for_entries f n (e # es) s = for_entries f (Suc n) es (f n e s)"

definition not_parsed :: "string \<Rightarrow> string \<Rightarrow> printed" where
  "not_parsed text type = P_Line (''Could not parse '' @ [CHR 0x22] @ text @ [CHR 0x22] @ '' as '' @ type)"

text \<open>The body of the loop of \<open>set\<close> over the entries found for the path.\<close>

definition kuksa_set_entry ::
  "('u, 't, 'c) network \<Rightarrow> ('u, 't) cli_env \<Rightarrow> (nat \<Rightarrow> SystemTime) \<Rightarrow> (nat \<Rightarrow> Timestamp) \<Rightarrow> string \<Rightarrow> string \<Rightarrow> string \<Rightarrow>
   nat \<Rightarrow> DataEntry \<Rightarrow> ('u, 't, 'c) kuksa_cli \<Rightarrow> ('u, 't, 'c) kuksa_cli" where
  "kuksa_set_entry net env clock stamps cmd path text n entry s =
     (case de_metadata entry of
        None \<Rightarrow> s
      | Some metadata \<Rightarrow>
          (case kuksa_try_into_data_value (env_matches env) text (pm_data_type metadata) of
             Err _ \<Rightarrow> emit [not_parsed text (show_data_type (pm_data_type metadata))] s
           | Ok data_value \<Rightarrow>
               if pm_entry_type metadata \<noteq> KE_Actuator then
                 emit [P_Error cmd (Some (path @ '' is not an actuator.'')),
                       P_Info ''If you want to provide the signal value, use `feed`.''] s
               else
                 (case on_client (set_current_values net (\<lambda>_. clock n)
                         [(path, \<lparr>pd_timestamp = Some (stamps n), pd_value = Some data_value\<rparr>)]) s of
                    (Ok _, s) \<Rightarrow> emit [P_Ok cmd] s
                  | (Err err, s) \<Rightarrow> emit [print_client_error cmd cmd err] s)))"

definition kuksa_feed_entry ::
  "('u, 't, 'c) network \<Rightarrow> ('u, 't) cli_env \<Rightarrow> (nat \<Rightarrow> SystemTime) \<Rightarrow> (nat \<Rightarrow> Timestamp) \<Rightarrow> string \<Rightarrow> string \<Rightarrow> string \<Rightarrow>
   nat \<Rightarrow> DataEntry \<Rightarrow> ('u, 't, 'c) kuksa_cli \<Rightarrow> ('u, 't, 'c) kuksa_cli" where
  "kuksa_feed_entry net env clock stamps cmd path text n entry s =
     (case de_metadata entry of
        None \<Rightarrow> s
      | Some metadata \<Rightarrow>
          (case kuksa_try_into_data_value (env_matches env) text (pm_data_type metadata) of
             Err _ \<Rightarrow> emit [not_parsed text (show_data_type (pm_data_type metadata))] s
           | Ok data_value \<Rightarrow>
               (case on_client (set_current_values net (\<lambda>_. clock n)
                       [(path, \<lparr>pd_timestamp = Some (stamps n), pd_value = Some data_value\<rparr>)]) s of
                  (Ok _, s) \<Rightarrow> emit [P_Ok cmd] s
                | (Err err, s) \<Rightarrow> emit [print_client_error cmd cmd err] s)))"

definition kuksa_write_command ::
  "('u, 't, 'c) network \<Rightarrow> (nat \<Rightarrow> SystemTime) \<Rightarrow>
   (string \<Rightarrow> string \<Rightarrow> nat \<Rightarrow> DataEntry \<Rightarrow> ('u, 't, 'c) kuksa_cli \<Rightarrow> ('u, 't, 'c) kuksa_cli) \<Rightarrow>
   string \<Rightarrow> string \<Rightarrow> ('u, 't, 'c) kuksa_cli \<Rightarrow> ('u, 't, 'c) kuksa_cli" where
  "kuksa_write_command net clock entry_body cmd args s =
     (case split_first_word args of
        (path, text) \<Rightarrow>
          if text = [] then emit (print_usage cmd) s
          else
            (case on_client (kuksa_get_metadata net clock [path]) s of
               (Ok data_entries, s) \<Rightarrow> for_entries (entry_body path text) 1 data_entries s
             | (Err err, s) \<Rightarrow> emit [print_client_error ''metadata'' cmd err] s))"

definition kuksa_set_command ::
  "('u, 't, 'c) network \<Rightarrow> ('u, 't) cli_env \<Rightarrow> (nat \<Rightarrow> SystemTime) \<Rightarrow> (nat \<Rightarrow> Timestamp) \<Rightarrow> string \<Rightarrow> string \<Rightarrow>
   ('u, 't, 'c) kuksa_cli \<Rightarrow> ('u, 't, 'c) kuksa_cli" where
  "kuksa_set_command net env clock stamps cmd args s =
     kuksa_write_command net clock (kuksa_set_entry net env clock stamps cmd) cmd args s"

definition kuksa_feed_command ::
  "('u, 't, 'c) network \<Rightarrow> ('u, 't) cli_env \<Rightarrow> (nat \<Rightarrow> SystemTime) \<Rightarrow> (nat \<Rightarrow> Timestamp) \<Rightarrow> string \<Rightarrow> string \<Rightarrow>
   ('u, 't, 'c) kuksa_cli \<Rightarrow> ('u, 't, 'c) kuksa_cli" where
  "kuksa_feed_command net env clock stamps cmd args s =
     kuksa_write_command net clock (kuksa_feed_entry net env clock stamps cmd) cmd args s"

definition kuksa_subscribe_command ::
  "('u, 't, 'c) network \<Rightarrow> (nat \<Rightarrow> SystemTime) \<Rightarrow> string \<Rightarrow> string \<Rightarrow> ('u, 't, 'c) kuksa_cli \<Rightarrow> ('u, 't, 'c) kuksa_cli" where
  "kuksa_subscribe_command net clock cmd args s =
     (if args = [] then emit (print_usage cmd) s
      else
        (case on_client (kuksa_subscribe net (clock 0) (split_whitespace args)) s of
           (Ok subscription, s) \<Rightarrow>
             (let nbr = kc_subscription_nbr s
              in (emit [P_Ok cmd, P_Info (''Subscription is now running in the background. Received data is identified by ['' @
                       show_int (sint nbr) @ ''].'')] s)
                 \<lparr>kc_subscriptions := kc_subscriptions s @ [(nbr, subscription)], kc_subscription_nbr := nbr + 1\<rparr>)
         | (Err err, s) \<Rightarrow> emit [print_client_error cmd cmd err] s))"

definition kuksa_connect_command ::
  "('u, 't, 'c) network \<Rightarrow> ('u, 't) cli_env \<Rightarrow> (nat \<Rightarrow> SystemTime) \<Rightarrow> string \<Rightarrow> string \<Rightarrow> ('u, 't, 'c) kuksa_cli \<Rightarrow>
   ('u, 't, 'c) kuksa_cli" where
  "kuksa_connect_command net env clock cmd args s =
     (if \<not> is_connected (kc_client s) \<or> args \<noteq> [] then
        (let report = (\<lambda>(r, client). emit
               (case r of
                  Ok _ \<Rightarrow> [P_Info (''['' @ cmd @ ''] Successfully connected to '' @ env_show_uri env (c_uri client))]
                | Err _ \<Rightarrow> [P_Error cmd None]) (s\<lparr>kc_client := client\<rparr>));
             s =
               (if args = [] then report (try_connect net (kc_client s))
                else
                  (case to_uri (env_parse_uri env) (env_from_parts env) args of
                     Ok valid_uri \<Rightarrow> report (try_connect_to net (kc_client s) valid_uri)
                   | Err _ \<Rightarrow> emit [P_Error cmd None] s))
         in if is_connected (kc_client s) then refresh_completer net clock [''**''] cmd s else s)
      else s)"

definition kuksa_metadata_command ::
  "('u, 't, 'c) network \<Rightarrow> (nat \<Rightarrow> SystemTime) \<Rightarrow> string \<Rightarrow> string \<Rightarrow> ('u, 't, 'c) kuksa_cli \<Rightarrow> ('u, 't, 'c) kuksa_cli" where
  "kuksa_metadata_command net clock cmd args s =
     (if split_whitespace args = [] then
        emit [P_Info ''If you want to list metadata of signals, use `metadata PATTERN`''] s
      else
        (case on_client (kuksa_get_metadata net clock (split_whitespace args)) s of
           (Ok metadata, s) \<Rightarrow> emit (P_Ok cmd # metadata_lines metadata) s
         | (Err err, s) \<Rightarrow> emit [print_client_error cmd cmd err] s))"

section \<open>The loop\<close>

text \<open>One line of input; the result says whether the loop goes on.\<close>

definition kuksa_command ::
  "('u, 't, 'c) network \<Rightarrow> ('u, 't) cli_env \<Rightarrow> (nat \<Rightarrow> SystemTime) \<Rightarrow> (nat \<Rightarrow> Timestamp) \<Rightarrow> string \<Rightarrow> ('u, 't, 'c) kuksa_cli \<Rightarrow>
   bool \<times> ('u, 't, 'c) kuksa_cli" where
  "kuksa_command net env clock stamps line s =
     (case split_first_word line of
        (cmd, args) \<Rightarrow>
          if cmd = ''help'' then (True, emit help_lines s)
          else if cmd = ''get'' then (True, kuksa_get_command net clock cmd args s)
          else if cmd = ''token'' then (True, kuksa_token_command net clock cmd args s)
          else if cmd = ''token-file'' then (True, kuksa_token_file_command net env clock cmd args s)
          else if cmd = ''set'' then (True, kuksa_set_command net env clock stamps cmd args s)
          else if cmd = ''feed'' then (True, kuksa_feed_command net env clock stamps cmd args s)
          else if cmd = ''subscribe'' then (True, kuksa_subscribe_command net clock cmd args s)
          else if cmd = ''connect'' then (True, kuksa_connect_command net env clock cmd args s)
          else if cmd = ''metadata'' then (True, kuksa_metadata_command net clock cmd args s)
          else if cmd = ''quit'' \<or> cmd = ''exit'' then (False, emit [P_Line ''Bye bye!''] s)
          else if cmd = [] then (True, s)
          else (True, emit [P_Line ''Unknown command. See `help` for a list of available commands.''] s))"

fun kuksa_loop ::
  "('u, 't, 'c) network \<Rightarrow> ('u, 't) cli_env \<Rightarrow> ((nat \<Rightarrow> SystemTime) \<times> (nat \<Rightarrow> Timestamp) \<times> ReadResult) list \<Rightarrow>
   ('u, 't, 'c) kuksa_cli \<Rightarrow> ('u, 't, 'c) kuksa_cli" where
  "kuksa_loop net env [] s = s"
| "kuksa_loop net env ((clock, stamps, RR_Input line) # rest) s =
     (case kuksa_command net env clock stamps line s of
        (continue, s) \<Rightarrow> if continue then kuksa_loop net env rest s else s)"
| "kuksa_loop net env ((clock, stamps, RR_Eof) # rest) s = emit [P_Line ''Bye bye!''] s"
| "kuksa_loop net env ((clock, stamps, RR_Signal sig) # rest) s =
     kuksa_loop net env rest (emit [P_Line (''signal received: '' @ sig)] s)"

text \<open>
  The main function up to its loop: with the subcommand \<open>get\<close> the values are printed and the program
  ends (\<open>False\<close>), without one the client connects.
\<close>

definition kuksa_start ::
  "('u, 't, 'c) network \<Rightarrow> ('u, 't) cli_env \<Rightarrow> (nat \<Rightarrow> SystemTime) \<Rightarrow> Cli \<Rightarrow> 'c servers \<Rightarrow>
   (bool \<times> ('u, 't, 'c) kuksa_cli, cli_error) result" where
  "kuksa_start net env clock cli w =
     result_map (\<lambda>client.
       let s = \<lparr>kc_client = client, kc_servers = w, kc_completer = new_path_part, kc_subscription_nbr = 1,
                kc_subscriptions = [], kc_output = [P_Line ''Using kuksa.val.v1'']\<rparr>
       in case cli_command cli of
            Some (Cmd_Get paths) \<Rightarrow>
              (False,
               case on_client (get_current_values net clock paths) s of
                 (Ok data_entries, s) \<Rightarrow>
                   emit (map (\<lambda>entry.
                     case de_value entry of
                       Some val \<Rightarrow> P_Line (de_path entry @ '': '' @ kuksa_display_datapoint (pd_value val))
                     | None \<Rightarrow> P_Line (de_path entry @ '': NotAvailable'')) data_entries) s
               | (Err err, s) \<Rightarrow> emit [P_Error [] None] s)
          | None \<Rightarrow>
              (True,
               case try_connect net client of
                 (Ok _, client) \<Rightarrow>
                   refresh_completer net clock [''**''] ''metadata''
                     (emit [P_Info (''Successfully connected to '' @ env_show_uri env (c_uri client))] (s\<lparr>kc_client := client\<rparr>))
               | (Err _, client) \<Rightarrow> emit [P_Error ''connect'' None] (s\<lparr>kc_client := client\<rparr>)))
       (open_client net env cli)"

section \<open>Fetching metadata\<close>

lemma emit_simps [simp]:
  "kc_client (emit ps s) = kc_client s" "kc_servers (emit ps s) = kc_servers s" "kc_completer (emit ps s) = kc_completer s"
  "kc_output (emit ps s) = kc_output s @ ps"
  by (simp_all add: emit_def)

lemma kuksa_get_metadata_answer:
  assumes r: "reaches net client w ch ps" and re: "to_regex (net_re net) path = Ok matches"
    and path: "CHR ''*'' \<notin> set path"
    and found: "found = filter (\<lambda>a. matches (md_path (era_metadata a))) (iter_entries (net_re net) now ps (database (srv_broker (w ch))))"
  shows "kuksa_get net now path V_Metadata [field_code PF_Metadata] client w =
    (if found = [] then Err (CE_Function [(404, ''not_found''), (404, ''not_found'')])
     else Ok (map (\<lambda>a. proto_entry_from_entry_and_fields (net_ts_from net) a {PF_Path, PF_Metadata}) found), client, w)"
proof -
  let ?reqs = "[\<lparr>er_path = path, er_view = view_code V_Metadata, er_fields = [field_code PF_Metadata]\<rparr>]"
  let ?req = "\<lparr>vr_regex = matches, vr_fields = {PF_Path, PF_Metadata}, vr_path = path, vr_is_match = False, vr_error = None\<rparr>"
  let ?b = "srv_broker (w ch)"
  let ?as = "iter_entries (net_re net) now ps (database ?b)"
  have "fill_valid_requests (net_re net) ?reqs [] [] = Ok ([?req], [])"
    using re path by (simp add: view_from_code combine_view_and_fields_def)
  from val_get_eq [OF _ this refl, where now = now and ps = ps and broker = ?b and ts_from = "net_ts_from net"]
  obtain resp where resp: "val_get (net_re net) (net_ts_from net) now (Some ps) ?b ?reqs = Ok resp"
    and entries: "gr_entries resp = (if \<exists>a\<in>set ?as. denied ?req a then [] else answer (net_ts_from net) [?req] ?as)"
    and errors: "gr_errors resp = request_error ?as ?req" by auto
  have call: "rpc net (\<lambda>permissions broker. (val_get (net_re net) (net_ts_from net) now permissions broker ?reqs, broker)) client w =
      (Ok resp, client, w)"
    using rpc_granted [of client ch net w ps _ "Ok resp" ?b] r resp by (simp add: reaches_def)
  have allowed: "\<not> denied ?req a" for a by (simp add: denied_def wants_value_def)
  have "entry_fields [?req] a = (if matches (md_path (era_metadata a)) then {PF_Path, PF_Metadata} else {})" for a
    by (simp add: entry_fields_def granted_fields_def selects_def)
  then have "answer (net_ts_from net) [?req] ?as = map (\<lambda>a. proto_entry_from_entry_and_fields (net_ts_from net) a {PF_Path, PF_Metadata}) found"
    by (auto simp: answer_def found intro!: map_cong filter_cong)
  then show ?thesis
    using call entries errors val_get_first_error [OF resp] allowed
    by (auto simp: kuksa_get_def request_error_def response_errors_def selects_def filter_empty_conv found Let_def)
qed

definition single_entry :: "DataEntry \<Rightarrow> Entry \<Rightarrow> bool" where
  "single_entry entry e \<longleftrightarrow>
     de_metadata entry = Some \<lparr>pm_data_type = proto_data_type (md_data_type (e_metadata e)),
       pm_entry_type = proto_entry_type (md_entry_type (e_metadata e)),
       pm_description = Some (md_description (e_metadata e)), pm_unit = md_unit (e_metadata e)\<rparr>"

lemma proto_metadata_all: "PF_Metadata \<in> flds \<Longrightarrow> proto_metadata md flds = Some \<lparr>pm_data_type = proto_data_type (md_data_type md),
    pm_entry_type = proto_entry_type (md_entry_type md), pm_description = Some (md_description md), pm_unit = md_unit md\<rparr>"
  by (simp add: proto_metadata_def default_metadata_def Let_def)

lemma leaf_metadata:
  assumes r: "reaches net client w ch ps" and re: "glob_regex_spec (net_re net)" and leaf: "leaf_path (server_map (w ch)) ws e"
  shows "\<exists>entry. kuksa_get_metadata net clock [join_dots ws] client w = (Ok [entry], client, w) \<and> single_entry entry e"
proof -
  let ?path = "join_dots ws" and ?db = "database (srv_broker (w ch))"
  have ws: "words ws" using leaf by (simp add: leaf_path_def)
  have wf: "db_wf ?db" using r by (simp add: reaches_def)
  from kuksa_get_metadata_answer [OF r words_path(1) [OF re ws] words_path(2) [OF re ws] refl, of "clock 0"] leaf_found [OF wf leaf]
  show ?thesis
    by (simp add: kuksa_get_metadata_def proto_entry_from_entry_and_fields_def single_entry_def proto_metadata_all)
qed

section \<open>Setting and feeding\<close>

abbreviation cli_map :: "('u, 't, 'c) kuksa_cli \<Rightarrow> 'c \<Rightarrow> string \<rightharpoonup> Entry" where
  "cli_map s ch \<equiv> server_map (kc_servers s ch)"

definition cli_reaches :: "('u, 't, 'c) network \<Rightarrow> ('u, 't, 'c) kuksa_cli \<Rightarrow> 'c \<Rightarrow> Permissions \<Rightarrow> bool" where
  "cli_reaches net s ch ps \<longleftrightarrow> reaches net (kc_client s) (kc_servers s) ch ps"

lemma cli_reaches_emit [simp]: "cli_reaches net (emit out s) ch ps = cli_reaches net s ch ps"
  by (simp add: cli_reaches_def)

lemma get_paths_keep:
  "reaches net client w ch ps \<Longrightarrow> \<exists>r. get_paths net clock view codes paths acc client w = (r, client, w)"
proof (induction paths arbitrary: clock acc)
  case (Cons path paths)
  have "\<exists>r. kuksa_get net (clock 0) path view codes client w = (r, client, w)"
    using Cons.prems
    by (auto simp: kuksa_get_def rpc_connected reaches_def call_def Let_def fun_upd_idem split: result.splits)
  then obtain r where "kuksa_get net (clock 0) path view codes client w = (r, client, w)" by blast
  then show ?case using Cons by (cases r) simp_all
qed simp

definition targets :: "(string \<rightharpoonup> Entry) \<Rightarrow> string \<rightharpoonup> Datapoint option" where
  "targets m path = map_option e_actuator_target (m path)"

lemma set_one_targets: "targets (snd (set_one re now ps a p (client_value_update ti now' d) m)) = targets m"
  by (auto simp: set_one_def targets_def fun_eq_iff updated_entry_def apply_update_fields diff_fields
      client_value_update_def default_update_def split: option.split)

lemma set_current_values_targets:
  assumes "cli_reaches net s ch ps" and "on_client (set_current_values net clock xs) s = (r, s')"
  shows "cli_reaches net s' ch ps \<and> targets (cli_map s' ch) = targets (cli_map s ch)"
proof -
  obtain client w where m: "set_current_values net clock xs (kc_client s) (kc_servers s) = (r, client, w)"
      and s': "s' = s\<lparr>kc_client := client, kc_servers := w\<rparr>"
    using assms(2) by (auto simp: on_client_def split: prod.splits)
  note refined = set_current_values_refines [OF assms(1) [unfolded cli_reaches_def] m]
  have "targets (snd (write_values re clock ps a (client_value_update ti) xs m)) = targets m" for re a ti and m :: "string \<rightharpoonup> Entry"
  proof (induction xs arbitrary: clock m)
    case (Cons x xs)
    obtain p d where x: "x = (p, d)" by (cases x)
    obtain r1 m1 where one: "set_one re (clock 0) ps a p (client_value_update ti (clock 0) d) m = (r1, m1)" by fastforce
    then have "targets m1 = targets m" using set_one_targets by (metis snd_conv)
    then show ?case using Cons one x by (cases r1) simp_all
  qed simp
  then have "targets (server_map (w ch)) = targets (cli_map s ch)" using refined by (metis snd_conv)
  then show ?thesis using refined only_broker_changed_reaches assms(1) s' by (auto simp: cli_reaches_def)
qed

lemma for_entries_invariant:
  "(\<And>n e s. P s \<Longrightarrow> P (f n e s)) \<Longrightarrow> P s \<Longrightarrow> P (for_entries f n es s)"
  by (induction f n es s rule: for_entries.induct) auto

lemma kuksa_set_entry_targets:
  assumes "cli_reaches net s ch ps \<and> targets (cli_map s ch) = t"
  shows "cli_reaches net (kuksa_set_entry net env clock stamps cmd path text n entry s) ch ps \<and>
    targets (cli_map (kuksa_set_entry net env clock stamps cmd path text n entry s) ch) = t"
proof (cases "de_metadata entry")
  case None
  then show ?thesis using assms by (simp add: kuksa_set_entry_def)
next
  case (Some md)
  show ?thesis
  proof (cases "kuksa_try_into_data_value (env_matches env) text (pm_data_type md)")
    case (Ok v)
    obtain r s' where c: "on_client (set_current_values net (\<lambda>_. clock n) [(path, \<lparr>pd_timestamp = Some (stamps n), pd_value = Some v\<rparr>)]) s = (r, s')"
      by fastforce
    have "cli_reaches net s' ch ps \<and> targets (cli_map s' ch) = t"
      using set_current_values_targets [OF conjunct1 [OF assms] c] assms by blast
    then show ?thesis using Some Ok c assms by (cases r) (simp_all add: kuksa_set_entry_def)
  qed (use Some assms in \<open>simp add: kuksa_set_entry_def\<close>)
qed

lemma metadata_keeps:
  assumes "cli_reaches net s ch ps"
  shows "\<exists>r. on_client (kuksa_get_metadata net clock paths) s = (r, s)"
  using get_paths_keep [of net "kc_client s" "kc_servers s" ch ps clock V_Metadata "[field_code PF_Metadata]" paths "[]"] assms
  by (auto simp: cli_reaches_def on_client_def kuksa_get_metadata_def)

section \<open>Properties\<close>

text \<open>
  The command \<open>set\<close> of the client for the newer protocol does not set actuators.  Whatever path
  and value it is given, the targets of all entries stay what they are; and when all entries found for
  the path are actuators, it does exactly what \<open>feed\<close> does: it overwrites the current value.
\<close>

theorem set_command_is_feed:
  assumes "cli_reaches net s ch ps"
  shows "targets (cli_map (kuksa_set_command net env clock stamps cmd args s) ch) = targets (cli_map s ch) \<and>
    (\<forall>data_entries s'. on_client (kuksa_get_metadata net clock [fst (split_first_word args)]) s = (Ok data_entries, s') \<and>
      (\<forall>entry\<in>set data_entries. \<forall>metadata. de_metadata entry = Some metadata \<longrightarrow> pm_entry_type metadata = KE_Actuator) \<longrightarrow>
      kuksa_set_command net env clock stamps cmd args s = kuksa_feed_command net env clock stamps cmd args s)"
proof
  obtain path input where a: "split_first_word args = (path, input)" by fastforce
  obtain r where m: "on_client (kuksa_get_metadata net clock [path]) s = (r, s)" using metadata_keeps [OF assms] by blast
  have "targets (cli_map (for_entries (kuksa_set_entry net env clock stamps cmd path input) 1 es s) ch) = targets (cli_map s ch)" for es
  proof -
    have "cli_reaches net (for_entries (kuksa_set_entry net env clock stamps cmd path input) 1 es s) ch ps \<and>
        targets (cli_map (for_entries (kuksa_set_entry net env clock stamps cmd path input) 1 es s) ch) = targets (cli_map s ch)"
      by (rule for_entries_invariant [where f = "kuksa_set_entry net env clock stamps cmd path input"])
        (rule kuksa_set_entry_targets, simp_all add: assms)
    then show ?thesis by blast
  qed
  then show "targets (cli_map (kuksa_set_command net env clock stamps cmd args s) ch) = targets (cli_map s ch)"
    using m by (cases r) (simp_all add: kuksa_set_command_def kuksa_write_command_def a)
  have same: "for_entries (kuksa_set_entry net env clock stamps cmd path input) n es s0 =
      for_entries (kuksa_feed_entry net env clock stamps cmd path input) n es s0"
    if "\<forall>entry\<in>set es. \<forall>metadata. de_metadata entry = Some metadata \<longrightarrow> pm_entry_type metadata = KE_Actuator" for n es s0
    using that
  proof (induction es arbitrary: n s0)
    case (Cons e es)
    then have "kuksa_set_entry net env clock stamps cmd path input n e s0 = kuksa_feed_entry net env clock stamps cmd path input n e s0"
      by (auto simp: kuksa_set_entry_def kuksa_feed_entry_def split: option.split result.split)
    then show ?case using Cons by simp
  qed simp
  show "\<forall>data_entries s'. on_client (kuksa_get_metadata net clock [fst (split_first_word args)]) s = (Ok data_entries, s') \<and>
      (\<forall>entry\<in>set data_entries. \<forall>metadata. de_metadata entry = Some metadata \<longrightarrow> pm_entry_type metadata = KE_Actuator) \<longrightarrow>
      kuksa_set_command net env clock stamps cmd args s = kuksa_feed_command net env clock stamps cmd args s"
    using same by (auto simp: kuksa_set_command_def kuksa_feed_command_def kuksa_write_command_def a)
qed

definition example_cli_env :: "(nat, unit) cli_env" where
  "example_cli_env = \<lparr>env_parse_uri = (\<lambda>_. None), env_from_parts = (\<lambda>_. None), env_show_uri = (\<lambda>_. []), env_read_file = (\<lambda>_. None),
     env_tls_config = (\<lambda>_. None), env_matches = (\<lambda>_. scan_array False []), env_re = (\<lambda>_. None)\<rparr>"

definition example_cli :: "(nat, unit, nat) kuksa_cli" where
  "example_cli = \<lparr>kc_client = example_client, kc_servers = example_servers, kc_completer = path_tree [''A''],
     kc_subscription_nbr = 1, kc_subscriptions = [], kc_output = []\<rparr>"

lemma example_cli_reaches: "cli_reaches example_network example_cli 0 ALLOW_ALL"
  using example_reaches by (simp add: cli_reaches_def example_cli_def)

lemma example_leaf: "leaf_path (cli_map example_cli 0) [''A''] example_entry"
  using example_words by (simp add: leaf_path_def example_cli_def)

lemma example_glob: "glob_regex_spec (net_re example_network)"
  by (simp add: example_network_def glob_engine_spec)

theorem set_command_is_feed_witness:
  "targets (cli_map (kuksa_set_command example_network example_cli_env (\<lambda>_. 1) (\<lambda>_. zero_ts 1) ''set'' ''A 7'' example_cli) 0) =
     [''A'' \<mapsto> None] \<and>
   kuksa_set_command example_network example_cli_env (\<lambda>_. 1) (\<lambda>_. zero_ts 1) ''set'' ''A 7'' example_cli =
   kuksa_feed_command example_network example_cli_env (\<lambda>_. 1) (\<lambda>_. zero_ts 1) ''set'' ''A 7'' example_cli"
proof -
  obtain entry where m: "kuksa_get_metadata example_network (\<lambda>_. 1) [''A''] (kc_client example_cli) (kc_servers example_cli) =
      (Ok [entry], kc_client example_cli, kc_servers example_cli)" "single_entry entry example_entry"
    using leaf_metadata [OF example_cli_reaches [unfolded cli_reaches_def] example_glob example_leaf] example_words by auto
  have words: "fst (split_first_word ''A 7'') = ''A''"
    by (simp add: split_first_word_def trim_def trim_start_def is_whitespace_def)
  have "on_client (kuksa_get_metadata example_network (\<lambda>_. 1) [fst (split_first_word ''A 7'')]) example_cli = (Ok [entry], example_cli)"
    using m(1) words by (simp add: on_client_def)
  moreover have "\<forall>e\<in>set [entry]. \<forall>metadata. de_metadata e = Some metadata \<longrightarrow> pm_entry_type metadata = KE_Actuator"
    using m(2) by (simp add: single_entry_def proto_entry_type_def)
  moreover have "targets (cli_map example_cli 0) = [''A'' \<mapsto> None]" by (auto simp: targets_def example_cli_def fun_eq_iff)
  ultimately show ?thesis
    using set_command_is_feed [OF example_cli_reaches, of example_cli_env "\<lambda>_. 1" "\<lambda>_. zero_ts 1" "''set''" "''A 7''"] by metis
qed

text \<open>
  C31.  A session of the command line client: after feeding a value to a path that has an entry and
  nothing below it, getting the path prints the path with the value read from the text and the unit
  of the entry, provided the server accepts the value, the client may read the path, and the entry is
  continuous or had another value.
\<close>

theorem feed_then_get_prints_value:
  assumes "cli_reaches net s ch ps" and "glob_regex_spec (net_re net)" and "leaf_path (cli_map s ch) ws e"
    and "split_first_word args = (join_dots ws, text)" and "text \<noteq> []"
    and "kuksa_try_into_data_value (env_matches env) text (proto_data_type (md_data_type (e_metadata e))) = Ok v"
    and "entry_error (net_re net) (clock 1) ps (join_dots ws) e
      (client_value_update (net_ts_into net) (clock 1) \<lparr>pd_timestamp = Some (stamps 1), pd_value = Some v\<rparr>) = None"
    and "md_change_type (e_metadata e) = Continuous \<or>
      \<not> dv_eq (data_value_of_proto (Some v)) (dp_value (e_datapoint e))"
    and "split_whitespace args' = [join_dots ws]" and "args' \<noteq> []"
    and "can_read (net_re net) (clock' 0) ps (join_dots ws) = Ok ()"
  shows "kc_output (kuksa_get_command net clock' ''get'' args' (kuksa_feed_command net env clock stamps ''feed'' args s)) =
    kc_output s @ [P_Ok ''feed'', P_Ok ''get'',
      P_Line (join_dots ws @ '': '' @ kuksa_display_datapoint (Some v) @ '' '' @
        (case md_unit (e_metadata e) of Some u \<Rightarrow> u | None \<Rightarrow> []))]"
proof -
  let ?path = "join_dots ws" and ?d = "\<lparr>pd_timestamp = Some (stamps 1), pd_value = Some v\<rparr>"
  let ?u = "client_value_update (net_ts_into net) (clock 1) ?d"
  note r = assms(1) [unfolded cli_reaches_def]
  obtain entry where m: "kuksa_get_metadata net clock [?path] (kc_client s) (kc_servers s) = (Ok [entry], kc_client s, kc_servers s)"
      "single_entry entry e"
    using leaf_metadata [OF r assms(2,3)] by blast
  obtain q client w where c: "set_current_values net (\<lambda>_. clock 1) [(?path, ?d)] (kc_client s) (kc_servers s) = (q, client, w)"
    by (metis prod.exhaust)
  note refined = set_current_values_refines [OF r c]
  have here: "cli_map s ch ?path = Some e" using assms(3) by (simp add: leaf_path_def)
  have "q = Ok ()" "server_map (w ch) = (cli_map s ch)(?path \<mapsto> updated_entry e ?u)" "client = kc_client s"
    using refined here assms(7) by (simp_all add: set_one_def)
  then have feed: "kuksa_feed_command net env clock stamps ''feed'' args s = emit [P_Ok ''feed''] (s\<lparr>kc_client := client, kc_servers := w\<rparr>)"
    using m assms(4-6) c
    by (simp add: kuksa_feed_command_def kuksa_write_command_def on_client_def kuksa_feed_entry_def single_entry_def)
  have leaf: "leaf_path (server_map (w ch)) ws (updated_entry e ?u)"
    using \<open>server_map (w ch) = _\<close> leaf_path_update [OF assms(3)] by simp
  have r': "reaches net client w ch ps" using refined only_broker_changed_reaches [OF r] by auto
  have changed: "md_change_type (e_metadata e) = Continuous \<or> \<not> dv_eq (data_value_of_proto (pd_value ?d)) (dp_value (e_datapoint e))"
    using assms(8) by simp
  obtain p where p: "proto_datapoint (net_ts_from net) (datapoint_of_proto (net_ts_into net) (clock 1) ?d) = Some p" "pd_value p = Some v"
    using value_echo [of ?d v "net_ts_from net" "net_ts_into net" "clock 1"] by auto
  have path: "md_path (e_metadata e) = ?path"
    using abs_db_wf_path(1) [of "database (srv_broker (kc_servers s ch))" ?path e] r here by (simp add: reaches_def)
  show ?thesis
    using leaf_values [where clock = clock', OF r' assms(2) leaf assms(11)] written_datapoint [OF changed, of "net_ts_into net" "clock 1"]
      p path assms(9,10)
    by (simp add: feed kuksa_get_command_def on_client_def proto_entry_from_entry_and_fields_def entry_line_def
        entry_unit_def proto_metadata_all)
qed

theorem feed_then_get_prints_value_witness:
  "kc_output (kuksa_get_command example_network (\<lambda>_. 2) ''get'' ''A''
     (kuksa_feed_command example_network example_cli_env (\<lambda>_. 1) (\<lambda>_. zero_ts 1) ''feed'' ''A 7'' example_cli)) =
   [P_Ok ''feed'', P_Ok ''get'', P_Line ''A: 7 '']"
proof -
  have args: "split_first_word ''A 7'' = (join_dots [''A''], ''7'')" "split_whitespace ''A'' = [join_dots [''A'']]"
    by (simp_all add: split_first_word_def trim_def trim_start_def is_whitespace_def split_whitespace_def)
  have v: "kuksa_try_into_data_value (env_matches example_cli_env) ''7'' (proto_data_type (md_data_type (e_metadata example_entry))) = Ok (KV_Int32 7)"
    by (simp add: kuksa_try_into_data_value_def proto_data_type_def parse_scalar_def parse_i32_def parse_signed_def parse_digits_def
        is_digit_def digit_val_def parse_in_def)
  have e: "entry_error (net_re example_network) 1 ALLOW_ALL (join_dots [''A'']) example_entry
      (client_value_update (net_ts_into example_network) 1 \<lparr>pd_timestamp = Some (zero_ts 1), pd_value = Some (KV_Int32 7)\<rparr>) = None"
    by (simp add: entry_error_def client_value_update_def example_network_def datapoint_of_proto_def
      data_value_of_proto_def touches_metadata_def writes_value_def write_granted_def validate_def diff_def
      default_update_def has_expired_def ALLOW_ALL_def validate_value_def validate_allowed_def)
  have c: "\<not> dv_eq (data_value_of_proto (Some (KV_Int32 7))) (dp_value (e_datapoint example_entry))"
    by (simp add: data_value_of_proto_def)
  have read: "can_read (net_re example_network) 2 ALLOW_ALL (join_dots [''A'']) = Ok ()"
    by (simp add: can_read_eq has_expired_def ALLOW_ALL_def)
  have "kuksa_display_datapoint (Some (KV_Int32 7)) = ''7''" by code_simp
  then show ?thesis
    using feed_then_get_prints_value [where clock = "\<lambda>_. 1" and clock' = "\<lambda>_. 2" and stamps = "\<lambda>_. zero_ts 1",
        OF example_cli_reaches example_glob example_leaf args(1) _ v e disjI2 [OF c] args(2) _ read]
    by (simp add: example_cli_def)
qed

text \<open>
  A new token empties the completions.  When the client for the newer protocol accepts a token,
  by the command \<open>token\<close> or from a file, it asks for the metadata of no path at all, which answers
  with nothing and reaches no server, whether or not the token is any good; the paths known until then
  are forgotten and completion of paths is off.
\<close>

theorem token_command_forgets_paths:
  assumes "token \<noteq> []" and "net_ascii net (''Bearer '' @ token)"
  shows "kuksa_token_command net clock cmd token s =
      s\<lparr>kc_client := (kc_client s)\<lparr>c_token := Some (''Bearer '' @ token)\<rparr>, kc_completer := new_path_part,
        kc_output := kc_output s @ [P_Info ''Access token set.'']\<rparr> \<and>
    complete_entry_path (kc_completer (kuksa_token_command net clock cmd token s)) word = None"
  using assms
  by (simp add: kuksa_token_command_def use_token_def set_access_token_def refresh_completer_def on_client_def
      kuksa_get_metadata_def kuksa_from_metadata_def path_tree_def complete_entry_path_def new_path_part_def emit_def)

theorem token_command_forgets_paths_witness:
  "complete_entry_path (kc_completer example_cli) ''a'' \<noteq> None \<and>
   complete_entry_path (kc_completer (kuksa_token_command example_network (\<lambda>_. 1) ''token'' ''x'' example_cli)) ''a'' = None"
proof -
  have "children (path_tree [''A'']) \<noteq> []" by code_simp
  then have "complete_entry_path (kc_completer example_cli) ''a'' \<noteq> None"
    by (simp add: complete_entry_path_def example_cli_def)
  moreover have "net_ascii example_network (''Bearer '' @ ''x'')" by (simp add: example_network_def)
  ultimately show ?thesis
    using token_command_forgets_paths [of "''x''" example_network "\<lambda>_. 1" "''token''" example_cli "''a''"] by blast
qed

end
