(* ===== verification/SdvClient.thy ===== *)
theory SdvClient
  imports Client Sdv
begin

text \<open>
  The client library for \<open>sdv.databroker.v1\<close> (\<open>lib/sdv/src/lib.rs\<close>).  Each method makes one call;
  \<open>now\<close> is the time at which the server serves it.
\<close>

section \<open>The methods\<close>

definition handler_status :: "('u, 't, 'c) network \<Rightarrow> handler_error \<Rightarrow> Status" where
  "handler_status net err = (case err of H_Status status \<Rightarrow> status | H_Panic \<Rightarrow> net_aborted net)"

definition client_get_metadata ::
  "('u, 't, 'c) network \<Rightarrow> SystemTime \<Rightarrow> string list \<Rightarrow> (SdvMetadata list, 'u, 't, 'c) client_method" where
  "client_get_metadata net now paths =
     rpc net (\<lambda>permissions broker. (sdv_get_metadata (net_re net) now permissions broker paths, broker))"

definition client_get_datapoints ::
  "('u, 't, 'c) network \<Rightarrow> SystemTime \<Rightarrow> string list \<Rightarrow> ((string \<times> SdvDatapoint) list, 'u, 't, 'c) client_method" where
  "client_get_datapoints net now paths =
     rpc net (\<lambda>permissions broker.
       (sdv_get_datapoints (net_re net) (net_ts_from net) now permissions broker paths, broker))"

definition client_set_datapoints ::
  "('u, 't, 'c) network \<Rightarrow> SystemTime \<Rightarrow> (string \<times> SdvDatapoint) list \<Rightarrow> ((string \<times> int) list, 'u, 't, 'c) client_method" where
  "client_set_datapoints net now datapoints =
     rpc net (\<lambda>permissions broker.
       (case sdv_set_datapoints (net_re net) (net_ts_into net) now permissions broker datapoints of
          (r, broker) \<Rightarrow> (map_err (handler_status net) r, broker)))"

definition client_subscribe ::
  "('u, 't, 'c) network \<Rightarrow> SystemTime \<Rightarrow> string \<Rightarrow> (QuerySubscription, 'u, 't, 'c) client_method" where
  "client_subscribe net now query =
     rpc net (\<lambda>permissions broker. sdv_subscribe (net_parse_sql net) (net_re net) now permissions broker query)"

definition client_update_datapoints ::
  "('u, 't, 'c) network \<Rightarrow> SystemTime \<Rightarrow> (i32 \<times> SdvDatapoint) list \<Rightarrow> ((i32 \<times> int) list, 'u, 't, 'c) client_method" where
  "client_update_datapoints net now datapoints =
     rpc net (\<lambda>permissions broker. sdv_update_datapoints (net_re net) (net_ts_into net) now permissions broker datapoints)"

section \<open>Reading back\<close>

lemma client_update_one:
  assumes r: "reaches net client w ch ps" and e: "server_map (w ch) path = Some e"
    and upd: "client_update_datapoints net now [(md_id (e_metadata e), d)] client w = (res, client', w')"
    and u: "u = default_update\<lparr>upd_datapoint := Some (datapoint_of_sdv (net_ts_into net) now d)\<rparr>"
  shows "client' = client \<and> only_broker_changed w ch w' \<and>
    (case entry_error (net_re net) now ps path e u of
       None \<Rightarrow> res = Ok [] \<and> server_map (w' ch) = (server_map (w ch))(path \<mapsto> updated_entry e u)
     | Some err \<Rightarrow> res = Ok [(md_id (e_metadata e), datapoint_error_code (datapoint_error err))] \<and>
         server_map (w' ch) = server_map (w ch))"
proof -
  let ?b = "srv_broker (w ch)"
  have wf: "db_wf (database ?b)" using r by (simp add: reaches_def)
  obtain q b where one: "update_entries (net_re net) now ps ?b [(md_id (e_metadata e), u)] = (q, b)" by fastforce
  note o = update_one [OF wf e one]
  let ?r = "case q of Ok _ \<Rightarrow> Ok [] | Err err \<Rightarrow> Ok (error_map err)"
  have "sdv_update_datapoints (net_re net) (net_ts_into net) now (Some ps) ?b [(md_id (e_metadata e), d)] = (?r, b)"
    using one by (simp add: sdv_update_datapoints_def datapoint_updates_def u split: result.split)
  then have "client_update_datapoints net now [(md_id (e_metadata e), d)] client w =
      (map_err CE_Status ?r, client, w(ch := (w ch)\<lparr>srv_broker := b\<rparr>))"
    unfolding client_update_datapoints_def using r by (intro rpc_granted) (auto simp: reaches_def)
  then show ?thesis using upd o by (auto simp: only_broker_changed_def error_map_def split: option.split)
qed

lemma client_get_one:
  assumes r: "reaches net client w ch ps"
  shows "client_get_datapoints net now [path] client w =
    (Ok [(path, case server_map (w ch) path of
        None \<Rightarrow> read_failure ReadNotFound
      | Some e \<Rightarrow>
          (case can_read (net_re net) now ps path of
             Ok _ \<Rightarrow> sdv_datapoint (net_ts_from net) (e_datapoint e)
           | Err Denied \<Rightarrow> read_failure ReadPermissionDenied
           | Err Expired \<Rightarrow> read_failure ReadPermissionExpired))], client, w)"
  (is "_ = (Ok ?l, _)")
proof -
  have "sdv_get_datapoints (net_re net) (net_ts_from net) now (Some ps) (srv_broker (w ch)) [path] = Ok ?l"
    using r by (auto simp: reaches_def sdv_get_datapoints_def get_datapoint_by_path_abs
        split: option.split result.split PermissionError.split)
  then show ?thesis unfolding client_get_datapoints_def using r
    by (subst rpc_granted [where r = "Ok ?l" and b = "srv_broker (w ch)"]) (auto simp: reaches_def)
qed

section \<open>Properties\<close>

text \<open>
  A value fed by id is read back by path.  A client of the older protocol that feeds a value to
  the id of an entry is answered with no error exactly when the update is admissible; then, if the
  entry is continuous or had another value, and the client may read the path, reading it gives the
  value fed.  A refused value leaves the entries of the server as they are.
\<close>

theorem sdv_client_round_trip:
  assumes "reaches net client w ch ps" and "server_map (w ch) path = Some e"
    and "client_update_datapoints net now [(md_id (e_metadata e), d)] client w = (res, client', w')"
    and "can_read (net_re net) now' ps path = Ok ()"
    and "md_change_type (e_metadata e) = Continuous \<or> \<not> dv_eq (data_value_of_sdv d) (dp_value (e_datapoint e))"
  shows "if res = Ok []
    then \<exists>sd. client_get_datapoints net now' [path] client' w' = (Ok [(path, sd)], client', w') \<and>
      data_value_of_sdv sd = data_value_of_sdv d
    else server_map (w' ch) = server_map (w ch) \<and> (\<exists>code. res = Ok [(md_id (e_metadata e), code)])"
proof -
  let ?u = "default_update\<lparr>upd_datapoint := Some (datapoint_of_sdv (net_ts_into net) now d)\<rparr>"
  note u = client_update_one [OF assms(1-3) refl]
  have r: "reaches net client' w' ch ps" using u only_broker_changed_reaches [OF assms(1)] by auto
  have "e_datapoint (updated_entry e ?u) = datapoint_of_sdv (net_ts_into net) now d"
    using assms(5) by (auto simp: updated_entry_def apply_update_fields diff_fields datapoint_of_sdv_def)
  then show ?thesis
    using u client_get_one [OF r, of now' path] assms(4)
    by (cases "entry_error (net_re net) now ps path e ?u") (auto simp: sdv_value_round_trip datapoint_of_sdv_def)
qed

theorem sdv_client_round_trip_witness:
  "\<exists>client w sd. client_update_datapoints small_network 1 [(0, \<lparr>sd_timestamp = None, sd_value = Some (SV_Int32 7)\<rparr>)]
       ((new_client 0)\<lparr>c_channel := Some 0\<rparr>) (\<lambda>_. \<lparr>srv_authorization = Auth_Disabled, srv_broker = example_broker\<rparr>) =
       (Ok [], client, w) \<and>
     client_get_datapoints small_network 2 [''A''] client w = (Ok [(''A'', sd)], client, w) \<and> data_value_of_sdv sd = Int32 7"
proof -
  let ?c = "(new_client 0 :: (nat, unit, nat) Client)\<lparr>c_channel := Some 0\<rparr>"
  let ?w = "\<lambda>_ :: nat. \<lparr>srv_authorization = Auth_Disabled, srv_broker = example_broker\<rparr>"
  let ?d = "\<lparr>sd_timestamp = None, sd_value = Some (SV_Int32 7)\<rparr>"
  have r: "reaches small_network ?c ?w 0 ALLOW_ALL"
    by (simp add: reaches_def request_permissions_def intercept_def)
  have e: "server_map (?w 0) ''A'' = Some example_entry" by (simp add: abs_db_def)
  obtain res c w where u: "client_update_datapoints small_network 1 [(md_id (e_metadata example_entry), ?d)] ?c ?w = (res, c, w)"
    by (metis prod.exhaust)
  have "entry_error any_regex 1 ALLOW_ALL ''A'' example_entry
      (default_update\<lparr>upd_datapoint := Some (datapoint_of_sdv (\<lambda>_. None) 1 ?d)\<rparr>) = None"
    by (simp add: entry_error_def datapoint_of_sdv_def data_value_of_sdv_def touches_metadata_def writes_value_def
        write_granted_def validate_def diff_def default_update_def has_expired_def ALLOW_ALL_def validate_value_def
        validate_allowed_def)
  then have ok: "res = Ok []" using client_update_one [OF r e u refl] by (simp add: small_network_def)
  have read: "can_read (net_re small_network) 2 ALLOW_ALL ''A'' = Ok ()"
    by (simp add: can_read_eq has_expired_def ALLOW_ALL_def)
  have "\<not> dv_eq (data_value_of_sdv ?d) (dp_value (e_datapoint example_entry))" by (simp add: data_value_of_sdv_def)
  from sdv_client_round_trip [OF r e u read disjI2, OF this]
  show ?thesis using u ok by (auto simp: data_value_of_sdv_def)
qed

end
