(* ===== verification/SdvCli.thy ===== *)
theory SdvCli
  imports Cli SdvClient
begin

text \<open>
  The command line client for \<open>sdv.databroker.v1\<close> (\<open>databroker-cli/src/sdv_cli.rs\<close>).  It keeps the
  metadata it has fetched and uses it to find the id and the type of a path.  Enumeration codes in
  messages are converted with \<open>unwrap\<close>; a command that would panic has the value \<open>None\<close>, so that it
  can be proved that none does.  \<open>now\<close> is the time at which the server serves the calls of a command
  and \<open>stamp\<close> the time stamp the client makes.
\<close>

section \<open>State\<close>

record ('u, 't, 'c) sdv_cli =
  sc_client :: "('u, 't, 'c) Client"
  sc_servers :: "'c servers"
  sc_properties :: "SdvMetadata list"
  sc_completer :: PathPart
  sc_subscription_nbr :: i32
  sc_subscriptions :: "(i32 \<times> QuerySubscription) list"
  sc_output :: "printed list"

definition sdv_emit :: "printed list \<Rightarrow> ('u, 't, 'c) sdv_cli \<Rightarrow> ('u, 't, 'c) sdv_cli" where
  "sdv_emit ps s = s\<lparr>sc_output := sc_output s @ ps\<rparr>"

definition sdv_on_client ::
  "('a, 'u, 't, 'c) client_method \<Rightarrow> ('u, 't, 'c) sdv_cli \<Rightarrow> ('a, ClientError) result \<times> ('u, 't, 'c) sdv_cli" where
  "sdv_on_client m s = (case m (sc_client s) (sc_servers s) of (r, client, w) \<Rightarrow> (r, s\<lparr>sc_client := client, sc_servers := w\<rparr>))"

section \<open>Printing\<close>

definition show_sdv_data_type :: "SdvDataType \<Rightarrow> string" where
  "show_sdv_data_type t =
     (case t of
        ST_String \<Rightarrow> ''String'' | ST_Bool \<Rightarrow> ''Bool'' | ST_Int8 \<Rightarrow> ''Int8'' | ST_Int16 \<Rightarrow> ''Int16'' | ST_Int32 \<Rightarrow> ''Int32''
      | ST_Int64 \<Rightarrow> ''Int64'' | ST_Uint8 \<Rightarrow> ''Uint8'' | ST_Uint16 \<Rightarrow> ''Uint16'' | ST_Uint32 \<Rightarrow> ''Uint32''
      | ST_Uint64 \<Rightarrow> ''Uint64'' | ST_Float \<Rightarrow> ''Float'' | ST_Double \<Rightarrow> ''Double''
      | ST_StringArray \<Rightarrow> ''StringArray'' | ST_BoolArray \<Rightarrow> ''BoolArray'' | ST_Int8Array \<Rightarrow> ''Int8Array''
      | ST_Int16Array \<Rightarrow> ''Int16Array'' | ST_Int32Array \<Rightarrow> ''Int32Array'' | ST_Int64Array \<Rightarrow> ''Int64Array''
      | ST_Uint8Array \<Rightarrow> ''Uint8Array'' | ST_Uint16Array \<Rightarrow> ''Uint16Array'' | ST_Uint32Array \<Rightarrow> ''Uint32Array''
      | ST_Uint64Array \<Rightarrow> ''Uint64Array'' | ST_FloatArray \<Rightarrow> ''FloatArray'' | ST_DoubleArray \<Rightarrow> ''DoubleArray'')"

definition display_sdv_data_type :: "SdvDataType option \<Rightarrow> string" where
  "display_sdv_data_type t = (case t of Some data_type \<Rightarrow> show_sdv_data_type data_type | None \<Rightarrow> ''Unknown'')"

definition sdv_entry_type_from_i32 :: "int \<Rightarrow> SdvEntryType option" where
  "sdv_entry_type_from_i32 n = map_of [(0, SE_Unspecified), (1, SE_Sensor), (2, SE_Actuator), (3, SE_Attribute)] n"

definition display_sdv_entry_type :: "SdvEntryType option \<Rightarrow> string" where
  "display_sdv_entry_type t =
     (case t of
        Some SE_Unspecified \<Rightarrow> ''Unspecified'' | Some SE_Sensor \<Rightarrow> ''Sensor'' | Some SE_Actuator \<Rightarrow> ''Actuator''
      | Some SE_Attribute \<Rightarrow> ''Attribute'' | None \<Rightarrow> ''Unknown'')"

definition datapoint_error_from_i32 :: "int \<Rightarrow> SdvDatapointError option" where
  "datapoint_error_from_i32 n =
     map_of [(0, DE_UnknownDatapoint), (1, DE_InvalidType), (2, DE_AccessDenied), (3, DE_InternalError), (4, DE_OutOfBounds)] n"

definition show_datapoint_error :: "SdvDatapointError \<Rightarrow> string" where
  "show_datapoint_error e =
     (case e of DE_UnknownDatapoint \<Rightarrow> ''UnknownDatapoint'' | DE_InvalidType \<Rightarrow> ''InvalidType'' | DE_AccessDenied \<Rightarrow> ''AccessDenied''
      | DE_InternalError \<Rightarrow> ''InternalError'' | DE_OutOfBounds \<Rightarrow> ''OutOfBounds'')"

fun datapoint_lines :: "(string \<times> SdvDatapoint) list \<Rightarrow> printed list option" where
  "datapoint_lines [] = Some []"
| "datapoint_lines ((name, datapoint) # rest) =
     (case sdv_display_datapoint (sd_value datapoint) of
        Ok val_text \<Rightarrow> map_option (Cons (P_Line (name @ '': '' @ val_text))) (datapoint_lines rest)
      | Err _ \<Rightarrow> None)"

definition sdv_metadata_lines :: "SdvMetadata list \<Rightarrow> printed list" where
  "sdv_metadata_lines metadata =
     (if metadata = [] then []
      else
        (let max_len = foldl (\<lambda>max_len item. if length (sm_name item) > max_len then length (sm_name item) else max_len) 0 metadata
         in P_Info (pad max_len ''Path'' @ '' '' @ pad 10 ''Entry type'' @ '' '' @ pad 9 ''Data type'') #
            map (\<lambda>entry.
              P_Line (pad max_len (sm_name entry) @ '' '' @
                pad 10 (display_sdv_entry_type (sdv_entry_type_from_i32 (sm_entry_type entry))) @ '' '' @
                pad 9 (display_sdv_data_type (sdv_data_type_from_i32 (sm_data_type entry))))) metadata))"

text \<open>The text of a message of a subscription; \<open>None\<close> is a panic of its task.\<close>

fun sdv_update_text :: "string \<Rightarrow> string \<Rightarrow> bool \<Rightarrow> (string \<times> SdvDatapoint) list \<Rightarrow> string option" where
  "sdv_update_text disp disp_pad first_line [] = Some []"
| "sdv_update_text disp disp_pad first_line ((name, datapoint) # rest) =
     (case (sdv_display_datapoint (sd_value datapoint), sdv_update_text disp disp_pad False rest) of
        (Ok val_text, Some output) \<Rightarrow>
          Some ((if first_line then disp else disp_pad) @ '' '' @ name @ '': '' @ val_text @ [CHR 0x0A] @ output)
      | _ \<Rightarrow> None)"

fun sdv_subscription_output :: "i32 \<Rightarrow> (string \<times> SdvDatapoint) list sub_message list \<Rightarrow> string list option" where
  "sdv_subscription_output nbr [] = Some []"
| "sdv_subscription_output nbr (message # messages) =
     (let sub_disp = ''['' @ show_int (sint nbr) @ '']'';
          sub_disp_pad = replicate (length sub_disp) CHR '' ''
      in case message of
           Sub_Response resp_fields \<Rightarrow>
             (case sdv_update_text sub_disp sub_disp_pad True resp_fields of
                None \<Rightarrow> None
              | Some output \<Rightarrow> map_option (Cons output) (sdv_subscription_output nbr messages))
         | Sub_End \<Rightarrow> Some [sub_disp @ '' Server gone. Subscription stopped'' @ [CHR 0x0A]]
         | Sub_Error \<Rightarrow> Some [sub_disp @ '' Channel error''])"

section \<open>Commands\<close>

definition sdv_refresh ::
  "('u, 't, 'c) network \<Rightarrow> SystemTime \<Rightarrow> string \<Rightarrow> ('u, 't, 'c) sdv_cli \<Rightarrow> ('u, 't, 'c) sdv_cli" where
  "sdv_refresh net now operation s =
     (case sdv_on_client (client_get_metadata net now []) s of
        (Ok metadata, s) \<Rightarrow> s\<lparr>sc_completer := sdv_from_metadata metadata, sc_properties := metadata\<rparr>
      | (Err err, s) \<Rightarrow> sdv_emit [print_client_error ''metadata'' operation err] s)"

definition sdv_get_command ::
  "('u, 't, 'c) network \<Rightarrow> SystemTime \<Rightarrow> string \<Rightarrow> string \<Rightarrow> ('u, 't, 'c) sdv_cli \<Rightarrow> ('u, 't, 'c) sdv_cli option" where
  "sdv_get_command net now cmd args s =
     (if args = [] then Some (sdv_emit (print_usage cmd) s)
      else
        (case sdv_on_client (client_get_datapoints net now (split_whitespace args)) s of
           (Ok datapoints, s) \<Rightarrow> map_option (\<lambda>lines. sdv_emit (P_Ok cmd # lines) s) (datapoint_lines datapoints)
         | (Err err, s) \<Rightarrow> Some (sdv_emit [print_client_error cmd cmd err] s)))"

definition sdv_use_token ::
  "('u, 't, 'c) network \<Rightarrow> SystemTime \<Rightarrow> string \<Rightarrow> string \<Rightarrow> string \<Rightarrow> ('u, 't, 'c) sdv_cli \<Rightarrow> ('u, 't, 'c) sdv_cli" where
  "sdv_use_token net now cmd operation token s =
     (case set_access_token net (sc_client s) token of
        (Ok _, client) \<Rightarrow> sdv_refresh net now operation (sdv_emit [P_Info ''Access token set.''] (s\<lparr>sc_client := client\<rparr>))
      | (Err _, client) \<Rightarrow> sdv_emit [P_Error cmd None] (s\<lparr>sc_client := client\<rparr>))"

definition sdv_token_command ::
  "('u, 't, 'c) network \<Rightarrow> SystemTime \<Rightarrow> string \<Rightarrow> string \<Rightarrow> ('u, 't, 'c) sdv_cli \<Rightarrow> ('u, 't, 'c) sdv_cli" where
  "sdv_token_command net now cmd args s =
     (if args = [] then sdv_emit (print_usage cmd) s else sdv_use_token net now cmd ''metadata'' args s)"

definition sdv_token_file_command ::
  "('u, 't, 'c) network \<Rightarrow> ('u, 't) cli_env \<Rightarrow> SystemTime \<Rightarrow> string \<Rightarrow> string \<Rightarrow> ('u, 't, 'c) sdv_cli \<Rightarrow> ('u, 't, 'c) sdv_cli" where
  "sdv_token_file_command net env now cmd args s =
     (if args = [] then sdv_emit (print_usage cmd) s
      else
        (case env_read_file env (trim args) of
           Some token \<Rightarrow> sdv_use_token net now cmd cmd token s
         | None \<Rightarrow> sdv_emit [P_Error cmd None] s))"

text \<open>The loop over the fetched metadata: the last entry with the name.\<close>

definition find_metadata :: "SdvMetadata list \<Rightarrow> string \<Rightarrow> SdvMetadata option" where
  "find_metadata properties path =
     foldl (\<lambda>found metadata. if sm_name metadata = path then Some metadata else found) None properties"

definition no_metadata :: "string \<Rightarrow> printed" where
  "no_metadata path =
     P_Info (''No metadata available for '' @ path @ ''. Needed to determine data type for serialization.'')"

definition sdv_not_parsed :: "string \<Rightarrow> SdvDataType \<Rightarrow> printed" where
  "sdv_not_parsed input data_type =
     P_Line (''Could not parse '' @ [CHR 0x22] @ input @ [CHR 0x22] @ '' as '' @ show_sdv_data_type data_type)"

definition sdv_set_command ::
  "('u, 't, 'c) network \<Rightarrow> ('u, 't) cli_env \<Rightarrow> SystemTime \<Rightarrow> Timestamp \<Rightarrow> string \<Rightarrow> string \<Rightarrow> ('u, 't, 'c) sdv_cli \<Rightarrow>
   ('u, 't, 'c) sdv_cli option" where
  "sdv_set_command net env now stamp cmd args s =
     (case split_first_word args of
        (path, input) \<Rightarrow>
          if input = [] then Some (sdv_emit (print_usage cmd) s)
          else
            (case find_metadata (sc_properties s) path of
               None \<Rightarrow> Some (sdv_emit [no_metadata path] s)
             | Some metadata \<Rightarrow>
                 (case sdv_data_type_from_i32 (sm_data_type metadata) of
                    None \<Rightarrow> None
                  | Some data_type \<Rightarrow>
                      (case sdv_try_into_data_value (env_matches env) input data_type of
                         Err _ \<Rightarrow> Some (sdv_emit [sdv_not_parsed input data_type] s)
                       | Ok data_value \<Rightarrow>
                           if sm_entry_type metadata \<noteq> sdv_entry_type_code SE_Actuator then
                             Some (sdv_emit [P_Error cmd (Some (sm_name metadata @ '' is not an actuator.'')),
                               P_Info ''If you want to provide the signal value, use `feed`.''] s)
                           else
                             (case sdv_on_client (client_set_datapoints net now
                                     [(sm_name metadata, \<lparr>sd_timestamp = Some stamp, sd_value = Some data_value\<rparr>)]) s of
                                (Ok errors, s) \<Rightarrow>
                                  Some (sdv_emit
                                    (if errors = [] then [P_Ok cmd]
                                     else concat (map (\<lambda>(name, error).
                                       case datapoint_error_from_i32 error of
                                         Some error \<Rightarrow> [P_Ok cmd, P_Line (''Error setting '' @ name @ '': '' @ show_datapoint_error error)]
                                       | None \<Rightarrow> [P_OkFmt cmd (''Error setting id '' @ name)]) errors)) s)
                              | (Err err, s) \<Rightarrow> Some (sdv_emit [print_client_error cmd cmd err] s))))))"

definition sdv_feed_command ::
  "('u, 't, 'c) network \<Rightarrow> ('u, 't) cli_env \<Rightarrow> SystemTime \<Rightarrow> Timestamp \<Rightarrow> string \<Rightarrow> string \<Rightarrow> ('u, 't, 'c) sdv_cli \<Rightarrow>
   ('u, 't, 'c) sdv_cli option" where
  "sdv_feed_command net env now stamp cmd args s =
     (case split_first_word args of
        (path, input) \<Rightarrow>
          if input = [] then Some (sdv_emit (print_usage cmd) s)
          else
            (case find_metadata (sc_properties s) path of
               None \<Rightarrow> Some (sdv_emit [no_metadata path] s)
             | Some metadata \<Rightarrow>
                 (case sdv_data_type_from_i32 (sm_data_type metadata) of
                    None \<Rightarrow> None
                  | Some data_type \<Rightarrow>
                      (case sdv_try_into_data_value (env_matches env) input data_type of
                         Err _ \<Rightarrow> Some (sdv_emit [sdv_not_parsed input data_type] s)
                       | Ok data_value \<Rightarrow>
                           (case sdv_on_client (client_update_datapoints net now
                                   [(sm_id metadata, \<lparr>sd_timestamp = Some stamp, sd_value = Some data_value\<rparr>)]) s of
                              (Ok errors, s) \<Rightarrow>
                                Some (sdv_emit
                                  (if errors = [] then [P_Ok cmd]
                                   else map (\<lambda>(eid, error).
                                     let identifier = (if eid = sm_id metadata then sm_name metadata else ''id '' @ show_int (sint eid))
                                     in case datapoint_error_from_i32 error of
                                          Some error \<Rightarrow> P_OkFmt cmd (''Error providing '' @ identifier @ '': '' @ show_datapoint_error error)
                                        | None \<Rightarrow> P_OkFmt cmd (''Error providing '' @ identifier)) errors) s)
                            | (Err err, s) \<Rightarrow> Some (sdv_emit [print_client_error cmd cmd err] s))))))"

definition sdv_subscribe_command ::
  "('u, 't, 'c) network \<Rightarrow> SystemTime \<Rightarrow> string \<Rightarrow> string \<Rightarrow> ('u, 't, 'c) sdv_cli \<Rightarrow> ('u, 't, 'c) sdv_cli" where
  "sdv_subscribe_command net now cmd args s =
     (if args = [] then sdv_emit (print_usage cmd) s
      else
        (case sdv_on_client (client_subscribe net now args) s of
           (Ok subscription, s) \<Rightarrow>
             (let nbr = sc_subscription_nbr s
              in (sdv_emit [P_Ok cmd, P_Info (''Subscription is now running in the background. Received data is identified by ['' @
                       show_int (sint nbr) @ ''].'')] s)
                 \<lparr>sc_subscriptions := sc_subscriptions s @ [(nbr, subscription)], sc_subscription_nbr := nbr + 1\<rparr>)
         | (Err err, s) \<Rightarrow> sdv_emit [print_client_error cmd cmd err] s))"

definition sdv_connect_command ::
  "('u, 't, 'c) network \<Rightarrow> ('u, 't) cli_env \<Rightarrow> SystemTime \<Rightarrow> string \<Rightarrow> string \<Rightarrow> ('u, 't, 'c) sdv_cli \<Rightarrow> ('u, 't, 'c) sdv_cli" where
  "sdv_connect_command net env now cmd args s =
     (if \<not> is_connected (sc_client s) \<or> args \<noteq> [] then
        (let report = (\<lambda>(r, client). sdv_emit
               (case r of
                  Ok _ \<Rightarrow> [P_Info (''['' @ cmd @ ''] Successfully connected to '' @ env_show_uri env (c_uri client))]
                | Err _ \<Rightarrow> [P_Error cmd None]) (s\<lparr>sc_client := client\<rparr>));
             s =
               (if args = [] then report (try_connect net (sc_client s))
                else
                  (case cli_to_uri (env_parse_uri env) (env_from_parts env) args of
                     Ok valid_uri \<Rightarrow> report (try_connect_to net (sc_client s) valid_uri)
                   | Err _ \<Rightarrow> sdv_emit [P_Error cmd None] s))
         in if is_connected (sc_client s) then sdv_refresh net now cmd s else s)
      else s)"

definition path_to_regex :: "regex_engine \<Rightarrow> string \<Rightarrow> (string \<Rightarrow> bool) option" where
  "path_to_regex re path =
     re (''^'' @ str_replace ''*'' ''(.*)'' (str_replace ''.'' [CHR 0x5C, CHR ''.''] path) @ ''$'')"

definition sdv_metadata_command ::
  "('u, 't, 'c) network \<Rightarrow> ('u, 't) cli_env \<Rightarrow> SystemTime \<Rightarrow> string \<Rightarrow> string \<Rightarrow> ('u, 't, 'c) sdv_cli \<Rightarrow> ('u, 't, 'c) sdv_cli" where
  "sdv_metadata_command net env now cmd args s =
     (let paths = split_whitespace args
      in case sdv_on_client (client_get_metadata net now []) s of
           (Err err, s) \<Rightarrow> sdv_emit [print_client_error cmd cmd err] s
         | (Ok metadata, s) \<Rightarrow>
             (let metadata = sort_key sm_name metadata;
                  s = sdv_emit [P_Ok cmd] (s\<lparr>sc_properties := metadata, sc_completer := sdv_from_metadata metadata\<rparr>)
              in if paths = [] then
                   sdv_emit [P_Info ''If you want to list metadata of signals, use `metadata PATTERN`''] s
                 else
                   sdv_emit
                     (concat (map (\<lambda>path. if path_to_regex (env_re env) path = None
                        then map (\<lambda>_. P_Info ''Invalid path'') metadata else []) paths) @
                      sdv_metadata_lines (concat (map (\<lambda>path.
                        case path_to_regex (env_re env) path of
                          Some re \<Rightarrow> filter (\<lambda>item. re (sm_name item)) metadata
                        | None \<Rightarrow> []) paths))) s))"

section \<open>The loop\<close>

definition sdv_command ::
  "('u, 't, 'c) network \<Rightarrow> ('u, 't) cli_env \<Rightarrow> SystemTime \<Rightarrow> Timestamp \<Rightarrow> string \<Rightarrow> ('u, 't, 'c) sdv_cli \<Rightarrow>
   (bool \<times> ('u, 't, 'c) sdv_cli) option" where
  "sdv_command net env now stamp line s =
     (case split_first_word line of
        (cmd, args) \<Rightarrow>
          if cmd = ''help'' then Some (True, sdv_emit help_lines s)
          else if cmd = ''get'' then map_option (Pair True) (sdv_get_command net now cmd args s)
          else if cmd = ''token'' then Some (True, sdv_token_command net now cmd args s)
          else if cmd = ''token-file'' then Some (True, sdv_token_file_command net env now cmd args s)
          else if cmd = ''set'' then map_option (Pair True) (sdv_set_command net env now stamp cmd args s)
          else if cmd = ''feed'' then map_option (Pair True) (sdv_feed_command net env now stamp cmd args s)
          else if cmd = ''subscribe'' then Some (True, sdv_subscribe_command net now cmd args s)
          else if cmd = ''connect'' then Some (True, sdv_connect_command net env now cmd args s)
          else if cmd = ''metadata'' then Some (True, sdv_metadata_command net env now cmd args s)
          else if cmd = ''quit'' \<or> cmd = ''exit'' then Some (False, sdv_emit [P_Line ''Bye bye!''] s)
          else if cmd = [] then Some (True, s)
          else Some (True, sdv_emit [P_Line ''Unknown command. See `help` for a list of available commands.''] s))"

fun sdv_loop ::
  "('u, 't, 'c) network \<Rightarrow> ('u, 't) cli_env \<Rightarrow> (SystemTime \<times> Timestamp \<times> ReadResult) list \<Rightarrow>
   ('u, 't, 'c) sdv_cli \<Rightarrow> ('u, 't, 'c) sdv_cli option" where
  "sdv_loop net env [] s = Some s"
| "sdv_loop net env ((now, stamp, RR_Input line) # rest) s =
     (case sdv_command net env now stamp line s of
        None \<Rightarrow> None
      | Some (continue, s) \<Rightarrow> if continue then sdv_loop net env rest s else Some s)"
| "sdv_loop net env ((now, stamp, RR_Eof) # rest) s = Some (sdv_emit [P_Line ''Bye bye!''] s)"
| "sdv_loop net env ((now, stamp, RR_Signal sig) # rest) s =
     sdv_loop net env rest (sdv_emit [P_Line (''signal received: '' @ sig)] s)"

definition sdv_start ::
  "('u, 't, 'c) network \<Rightarrow> ('u, 't) cli_env \<Rightarrow> SystemTime \<Rightarrow> Cli \<Rightarrow> 'c servers \<Rightarrow>
   ((bool \<times> ('u, 't, 'c) sdv_cli) option, cli_error) result" where
  "sdv_start net env now cli w =
     result_map (\<lambda>client.
       let s = \<lparr>sc_client = client, sc_servers = w, sc_properties = [], sc_completer = new_path_part, sc_subscription_nbr = 1,
                sc_subscriptions = [], sc_output = [P_Line ''Using sdv.databroker.v1'']\<rparr>
       in case cli_command cli of
            Some (Cmd_Get paths) \<Rightarrow>
              (case sdv_on_client (client_get_datapoints net now paths) s of
                 (Ok datapoints, s) \<Rightarrow> map_option (\<lambda>lines. (False, sdv_emit lines s)) (datapoint_lines datapoints)
               | (Err err, s) \<Rightarrow> Some (False, sdv_emit [P_Error [] None] s))
          | None \<Rightarrow>
              (case try_connect net client of
                 (Ok _, client) \<Rightarrow>
                   Some (True, sdv_refresh net now ''metadata''
                     (sdv_emit [P_Info (''Successfully connected to '' @ env_show_uri env (c_uri client))] (s\<lparr>sc_client := client\<rparr>)))
               | (Err _, client) \<Rightarrow> Some (True, sdv_emit [P_Error ''connect'' None] (s\<lparr>sc_client := client\<rparr>))))
       (open_client net env cli)"

section \<open>What servers send can be shown\<close>

definition displayable :: "SdvDatapoint \<Rightarrow> bool" where
  "displayable d \<longleftrightarrow> is_ok (sdv_display_datapoint (sd_value d))"

definition typed_metadata :: "SdvMetadata \<Rightarrow> bool" where
  "typed_metadata m \<longleftrightarrow> sdv_data_type_from_i32 (sm_data_type m) \<noteq> None"

lemma failure_round_trip: "failure_from_i32 (failure_code f) = Some f"
  by (cases f) (simp_all add: failure_from_i32_def failure_code_def)

lemma sdv_datapoint_displayable: "displayable (sdv_datapoint ts_from d)" "displayable (read_failure err)"
  by (cases "dp_value d"; simp add: displayable_def sdv_datapoint_def sdv_display_datapoint_def failure_round_trip)
    (simp add: displayable_def read_failure_def sdv_display_datapoint_def failure_round_trip)

lemma sdv_metadata_typed: "typed_metadata (sdv_metadata md)"
  using sdv_data_type_round_trip [of "md_data_type md"] by (auto simp: typed_metadata_def sdv_metadata_def)

lemma rpc_Ok:
  "rpc net handler client w = (Ok x, client', w') \<Longrightarrow> \<exists>ps b b'. handler (Some ps) b = (Ok x, b')"
  by (auto simp: rpc_def call_def split: prod.splits result.splits)

lemma alist_update_set: "(m, e) \<in> set (AList.update k v al) \<Longrightarrow> (m, e) = (k, v) \<or> (m, e) \<in> set al"
  by (induction al) (auto split: if_splits)

lemma get_each_displayable:
  "(\<And>n d. (n, d) \<in> set acc \<Longrightarrow> displayable d) \<Longrightarrow> (n, d) \<in> set (get_each re ts_from now ps b names acc) \<Longrightarrow> displayable d"
proof (induction names arbitrary: acc)
  case (Cons name names)
  obtain v where v: "displayable v" "get_each re ts_from now ps b (name # names) acc = get_each re ts_from now ps b names (AList.update name v acc)"
    using sdv_datapoint_displayable by (cases "get_datapoint_by_path re now ps b name") fastforce+
  have "displayable e" if "(m, e) \<in> set (AList.update name v acc)" for m e
    using alist_update_set [OF that] v(1) Cons.prems(1) by auto
  then show ?case using Cons.IH [of "AList.update name v acc"] Cons.prems(2) v(2) by simp
qed auto

lemma client_get_datapoints_displayable:
  "client_get_datapoints net now paths client w = (Ok dps, client', w') \<Longrightarrow> (n, d) \<in> set dps \<Longrightarrow> displayable d"
  unfolding client_get_datapoints_def
  by (drule rpc_Ok) (auto simp: sdv_get_datapoints_def split: if_splits intro: get_each_displayable [of "[]"])

lemma client_get_metadata_typed:
  "client_get_metadata net now paths client w = (Ok mds, client', w') \<Longrightarrow> m \<in> set mds \<Longrightarrow> typed_metadata m"
  unfolding client_get_metadata_def
  by (drule rpc_Ok) (auto simp: sdv_get_metadata_def map_entries_def sdv_metadata_typed split: if_splits)

lemma datapoint_lines_Some: "(\<And>n d. (n, d) \<in> set dps \<Longrightarrow> displayable d) \<Longrightarrow> datapoint_lines dps \<noteq> None"
  by (induction dps rule: datapoint_lines.induct) (fastforce simp: displayable_def is_ok_iff split: result.split)+

lemma stream_item_displayable:
  assumes "(n, d) \<in> set (sdv_stream_item ts_from now item)"
  shows "displayable d"
proof -
  have fld: "displayable (sdv_datapoint_of_field ts_from now f)" for f
    by (cases "snd f"; simp add: displayable_def sdv_datapoint_of_field_def sdv_display_datapoint_def failure_round_trip)
  have "\<forall>(n, d)\<in>set acc. displayable d \<Longrightarrow>
      \<forall>(n, d)\<in>set (foldl (\<lambda>dps f. AList.update (fst f) (sdv_datapoint_of_field ts_from now f) dps) acc item). displayable d" for acc
  proof (induction item arbitrary: acc)
    case (Cons f item)
    have "\<forall>(n, d)\<in>set (AList.update (fst f) (sdv_datapoint_of_field ts_from now f) acc). displayable d"
      using Cons.prems by (auto dest!: alist_update_set simp: fld)
    then show ?case using Cons.IH by simp
  qed simp
  from this [of "[]"] show ?thesis using assms by (auto simp: sdv_stream_item_def)
qed

lemma sdv_update_text_Some:
  "(\<And>n d. (n, d) \<in> set dps \<Longrightarrow> displayable d) \<Longrightarrow> sdv_update_text disp disp_pad first_line dps \<noteq> None"
proof (induction dps arbitrary: first_line)
  case (Cons p dps)
  obtain n d where p: "p = (n, d)" by fastforce
  obtain t where "sdv_display_datapoint (sd_value d) = Ok t" using Cons.prems [of n d] p by (auto simp: displayable_def is_ok_iff)
  moreover obtain rest where "sdv_update_text disp disp_pad False dps = Some rest"
    using Cons.IH [of False] Cons.prems by (metis list.set_intros(2) option.exhaust)
  ultimately show ?case using p by simp
qed simp

definition from_server :: "(SystemTime \<Rightarrow> Timestamp) \<Rightarrow> (string \<times> SdvDatapoint) list sub_message \<Rightarrow> bool" where
  "from_server ts_from m \<longleftrightarrow> (\<forall>resp. m = Sub_Response resp \<longrightarrow> (\<exists>now item. resp = sdv_stream_item ts_from now item))"

lemma subscription_goes_on: "list_all (from_server ts_from) messages \<Longrightarrow> sdv_subscription_output nbr messages \<noteq> None"
proof (induction messages)
  case (Cons m messages)
  show ?case
  proof (cases m)
    case (Sub_Response resp)
    then obtain shown_text where "sdv_update_text (''['' @ show_int (sint nbr) @ '']'')
        (replicate (length (''['' @ show_int (sint nbr) @ '']'')) CHR '' '') True resp = Some shown_text"
      using Cons.prems sdv_update_text_Some stream_item_displayable by (fastforce simp: from_server_def)
    then show ?thesis using Sub_Response Cons by (auto simp: Let_def)
  qed (simp_all add: Let_def)
qed simp

section \<open>No command panics\<close>

definition props_ok :: "('u, 't, 'c) sdv_cli \<Rightarrow> bool" where
  "props_ok s \<longleftrightarrow> (\<forall>m\<in>set (sc_properties s). typed_metadata m)"

lemma sdv_emit_simps [simp]:
  "sc_properties (sdv_emit ps s) = sc_properties s" "sc_client (sdv_emit ps s) = sc_client s"
  "sc_servers (sdv_emit ps s) = sc_servers s" "props_ok (sdv_emit ps s) = props_ok s"
  by (simp_all add: sdv_emit_def props_ok_def)

lemma sdv_on_client_props [simp]: "sdv_on_client m s = (r, s') \<Longrightarrow> props_ok s' = props_ok s \<and> sc_properties s' = sc_properties s"
  by (auto simp: sdv_on_client_def props_ok_def split: prod.splits)

lemma refresh_props: "props_ok s \<Longrightarrow> props_ok (sdv_refresh net now operation s)"
proof -
  assume ok: "props_ok s"
  obtain r s' where c: "sdv_on_client (client_get_metadata net now []) s = (r, s')" by fastforce
  then have "\<forall>mds. r = Ok mds \<longrightarrow> (\<forall>m\<in>set mds. typed_metadata m)"
    by (auto simp: sdv_on_client_def dest: client_get_metadata_typed split: prod.splits)
  then show ?thesis using c ok sdv_on_client_props [OF c] by (cases r) (auto simp: sdv_refresh_def props_ok_def)
qed

lemma find_metadata_typed:
  assumes "props_ok s" and "find_metadata (sc_properties s) path = Some m"
  shows "typed_metadata m"
proof -
  have "foldl (\<lambda>found metadata. if sm_name metadata = path then Some metadata else found) acc ms = Some m \<Longrightarrow>
      m \<in> set ms \<or> acc = Some m" for acc ms
    by (induction ms arbitrary: acc) (auto split: if_splits)
  then show ?thesis using assms by (auto simp: find_metadata_def props_ok_def)
qed

definition goes_on :: "('u, 't, 'c) sdv_cli option \<Rightarrow> bool" where
  "goes_on r \<longleftrightarrow> (\<exists>s. r = Some s \<and> props_ok s)"

lemma get_goes_on: "props_ok s \<Longrightarrow> goes_on (sdv_get_command net now cmd args s)"
proof -
  assume ok: "props_ok s"
  obtain r s' where c: "sdv_on_client (client_get_datapoints net now (split_whitespace args)) s = (r, s')" by fastforce
  have "\<forall>dps. r = Ok dps \<longrightarrow> datapoint_lines dps \<noteq> None"
    using c by (auto simp: sdv_on_client_def simp del: not_None_eq intro!: datapoint_lines_Some
        dest: client_get_datapoints_displayable split: prod.splits)
  then show ?thesis using c ok sdv_on_client_props [OF c] by (cases r) (auto simp: sdv_get_command_def goes_on_def)
qed

lemma find_metadata_data_type:
  "props_ok s \<Longrightarrow> find_metadata (sc_properties s) path = Some m \<Longrightarrow> \<exists>t. sdv_data_type_from_i32 (sm_data_type m) = Some t"
  using find_metadata_typed by (fastforce simp: typed_metadata_def)

lemma set_goes_on: "props_ok s \<Longrightarrow> goes_on (sdv_set_command net env now stamp cmd args s)"
  by (auto simp: sdv_set_command_def goes_on_def dest: find_metadata_data_type split: prod.splits option.split result.split)

lemma feed_goes_on: "props_ok s \<Longrightarrow> goes_on (sdv_feed_command net env now stamp cmd args s)"
  by (auto simp: sdv_feed_command_def goes_on_def dest: find_metadata_data_type split: prod.splits option.split result.split)

lemma props_ok_client [simp]: "props_ok (s\<lparr>sc_client := c\<rparr>) = props_ok s"
  by (simp add: props_ok_def)

lemma use_token_props: "props_ok s \<Longrightarrow> props_ok (sdv_use_token net now cmd operation token s)"
  by (auto simp: sdv_use_token_def intro!: refresh_props split: prod.split result.split)

lemma subscribe_props: "props_ok s \<Longrightarrow> props_ok (sdv_subscribe_command net now cmd args s)"
  by (auto simp: sdv_subscribe_command_def Let_def sdv_emit_def props_ok_def dest: sdv_on_client_props split: prod.split result.split)

lemma connect_props: "props_ok s \<Longrightarrow> props_ok (sdv_connect_command net env now cmd args s)"
  by (auto simp: sdv_connect_command_def Let_def intro!: refresh_props split: prod.split result.split)

lemma metadata_props: "props_ok s \<Longrightarrow> props_ok (sdv_metadata_command net env now cmd args s)"
proof -
  assume ok: "props_ok s"
  obtain r s' where c: "sdv_on_client (client_get_metadata net now []) s = (r, s')" by fastforce
  then have "\<forall>mds. r = Ok mds \<longrightarrow> (\<forall>m\<in>set mds. typed_metadata m)"
    by (auto simp: sdv_on_client_def dest: client_get_metadata_typed split: prod.splits)
  then show ?thesis
    using c ok sdv_on_client_props [OF c] by (cases r) (auto simp: sdv_metadata_command_def Let_def props_ok_def)
qed

definition steps_on :: "(bool \<times> ('u, 't, 'c) sdv_cli) option \<Rightarrow> bool" where
  "steps_on r \<longleftrightarrow> (case r of None \<Rightarrow> False | Some (go, s) \<Rightarrow> props_ok s)"

lemma steps_on_simps [simp]:
  "steps_on (Some (go, s)) = props_ok s" "steps_on (map_option (Pair go) r) = goes_on r"
  by (cases r; auto simp: steps_on_def goes_on_def)+

lemma command_goes_on: "props_ok s \<Longrightarrow> steps_on (sdv_command net env now stamp line s)"
  by (simp add: sdv_command_def get_goes_on set_goes_on feed_goes_on sdv_token_command_def sdv_token_file_command_def
      subscribe_props connect_props metadata_props use_token_props split: prod.split option.split)

lemma loop_goes_on: "props_ok s \<Longrightarrow> sdv_loop net env inputs s \<noteq> None"
proof (induction net env inputs s rule: sdv_loop.induct)
  case (2 net env now stamp line rest s)
  obtain go s' where "sdv_command net env now stamp line s = Some (go, s')" "props_ok s'"
    using command_goes_on [OF 2(2), of net env now stamp line] by (auto simp: steps_on_def split: option.splits)
  then show ?case using 2(1) by (cases go) auto
qed auto

lemma start_goes_on:
  assumes "sdv_start net env now cli w = Ok r"
  shows "steps_on r"
proof -
  obtain client where c: "open_client net env cli = Ok client" using assms by (auto simp: sdv_start_def result_eqs)
  show ?thesis
  proof (cases "cli_command cli")
    case None
    then show ?thesis using assms c
      by (auto simp: sdv_start_def Let_def props_ok_def [of "sdv_cli_ext _ _ _ _ _ _ _ _"] intro!: refresh_props split: prod.splits result.splits)
  next
    case (Some command)
    then obtain paths where command: "command = Cmd_Get paths" by (cases command)
    obtain res client' w' where g: "client_get_datapoints net now paths client w = (res, client', w')" by (metis prod_cases3)
    then have "res = Ok dps \<Longrightarrow> \<exists>lines. datapoint_lines dps = Some lines" for dps
      using datapoint_lines_Some [of dps] client_get_datapoints_displayable by fastforce
    then show ?thesis using assms c Some command g
      by (cases res) (fastforce simp: sdv_start_def sdv_on_client_def Let_def props_ok_def)+
  qed
qed

text \<open>
  C23.  The client never panics on what a server of this repository sends.  However it is started, it
  runs every sequence of inputs to the end: the enumeration codes of data types and failures that it
  unwraps are those the services send, whatever commands, servers and failures come in between.  The
  tasks behind its subscriptions can show every message of the query stream.  The number of a subscription wraps
  around, as it does in a release build.
\<close>

theorem sdv_cli_never_panics:
  assumes "sdv_start net env now cli w = Ok r" and "list_all (from_server (net_ts_from net)) messages"
  shows "(\<exists>go s. r = Some (go, s) \<and> (go \<longrightarrow> sdv_loop net env inputs s \<noteq> None)) \<and>
    sdv_subscription_output nbr messages \<noteq> None"
proof -
  obtain go s where "r = Some (go, s)" "props_ok s"
    using start_goes_on [OF assms(1)] by (auto simp: steps_on_def split: option.splits)
  then show ?thesis using loop_goes_on [of s net env inputs] subscription_goes_on [OF assms(2), of nbr] by simp
qed

definition localhost_env :: "(nat, unit) cli_env" where
  "localhost_env = \<lparr>env_parse_uri = (\<lambda>t. Some \<lparr>u_scheme = None, u_authority = Some t, u_path_and_query = None\<rparr>), env_from_parts = (\<lambda>_. Some 0),
     env_show_uri = (\<lambda>_. []), env_read_file = (\<lambda>_. None), env_tls_config = (\<lambda>_. None), env_matches = (\<lambda>_. scan_array False []),
     env_re = (\<lambda>_. None)\<rparr>"

theorem sdv_cli_never_panics_witness:
  "(\<exists>go s. sdv_start small_network localhost_env 1 \<lparr>cli_server = ''localhost'', cli_token_file = None, cli_ca_cert = None,
       cli_protocol = SdvDatabrokerV1, cli_command = None\<rparr> (\<lambda>_. \<lparr>srv_authorization = Auth_Disabled, srv_broker = example_broker\<rparr>) =
       Ok (Some (go, s)) \<and>
     (go \<longrightarrow> sdv_loop small_network localhost_env [(2, zero_ts 2, RR_Input ''feed A 7''), (3, zero_ts 3, RR_Input ''get A''), (4, zero_ts 4, RR_Eof)] s
        \<noteq> None)) \<and>
   sdv_subscription_output 1 [Sub_Response (sdv_stream_item zero_ts 2 [(''A'', NotAvailable)]), Sub_End] \<noteq> None"
proof -
  let ?cli = "\<lparr>cli_server = ''localhost'', cli_token_file = None, cli_ca_cert = None, cli_protocol = SdvDatabrokerV1, cli_command = None\<rparr>"
  let ?w = "\<lambda>_ :: nat. \<lparr>srv_authorization = Auth_Disabled, srv_broker = example_broker\<rparr>"
  let ?ms = "[Sub_Response (sdv_stream_item zero_ts 2 [(''A'', NotAvailable)]), Sub_End]"
  have "\<exists>client. open_client small_network localhost_env ?cli = Ok client"
    by (simp add: open_client_def to_uri_def localhost_env_def)
  then obtain r where r: "sdv_start small_network localhost_env 1 ?cli ?w = Ok r" by (auto simp: sdv_start_def)
  have "list_all (from_server (net_ts_from small_network)) ?ms"
    by (auto simp: from_server_def small_network_def)
  from sdv_cli_never_panics [OF r this] show ?thesis unfolding r by (simp del: sdv_loop.simps sdv_subscription_output.simps)
qed

end
