(* ===== verification/Proto.thy ===== *)
theory Proto
  imports CliText
begin

text \<open>
  The helpers beside the generated messages (\<open>databroker-proto/src/lib.rs\<close>): the name of a data type
  read from text, and a value of a data type read from text.  The messages of errors are left out.
  The repository reads the text of a value in four places, here, in the two command line clients and
  in the VISS service; on scalars they agree.
\<close>

datatype ParsingError = ParsingError

definition data_type_from_str :: "string \<Rightarrow> (ProtoDataType, ParsingError) result" where
  "data_type_from_str s =
     (let s = to_ascii_lowercase s in
      if s = ''string'' then Ok KT_String
      else if s = ''string[]'' then Ok KT_StringArray
      else if s = ''bool'' then Ok KT_Boolean
      else if s = ''bool[]'' then Ok KT_BooleanArray
      else if s = ''int8'' then Ok KT_Int8
      else if s = ''int8[]'' then Ok KT_Int8Array
      else if s = ''int16'' then Ok KT_Int16
      else if s = ''int16[]'' then Ok KT_Int16Array
      else if s = ''int32'' then Ok KT_Int32
      else if s = ''int32[]'' then Ok KT_Int32Array
      else if s = ''int64'' then Ok KT_Int64
      else if s = ''int64[]'' then Ok KT_Int64Array
      else if s = ''uint8'' then Ok KT_Uint8
      else if s = ''uint8[]'' then Ok KT_Uint8Array
      else if s = ''uint16'' then Ok KT_Uint16
      else if s = ''uint16[]'' then Ok KT_Uint16Array
      else if s = ''uint32'' then Ok KT_Uint32
      else if s = ''uint32[]'' then Ok KT_Uint32Array
      else if s = ''uint64'' then Ok KT_Uint64
      else if s = ''uint64[]'' then Ok KT_Uint64Array
      else if s = ''float'' then Ok KT_Float
      else if s = ''float[]'' then Ok KT_FloatArray
      else if s = ''double'' then Ok KT_Double
      else if s = ''double[]'' then Ok KT_DoubleArray
      else Err ParsingError)"

definition parsed :: "('a \<Rightarrow> KValue) \<Rightarrow> 'a option \<Rightarrow> (KValue, ParsingError) result" where
  "parsed c r = (case r of Some v \<Rightarrow> Ok (c v) | None \<Rightarrow> Err ParsingError)"

definition value_new :: "ProtoDataType \<Rightarrow> string \<Rightarrow> (KValue, ParsingError) result" where
  "value_new dt input =
     (case dt of
        KT_String \<Rightarrow> Ok (KV_String input)
      | KT_Boolean \<Rightarrow> parsed KV_Bool (parse_bool input)
      | KT_Int8 \<Rightarrow> parsed (\<lambda>v. KV_Int32 (scast v)) (parse_i8 input)
      | KT_Int16 \<Rightarrow> parsed (\<lambda>v. KV_Int32 (scast v)) (parse_i16 input)
      | KT_Int32 \<Rightarrow> parsed KV_Int32 (parse_i32 input)
      | KT_Int64 \<Rightarrow> parsed KV_Int64 (parse_i64 input)
      | KT_Uint8 \<Rightarrow> parsed (\<lambda>v. KV_Uint32 (ucast v)) (parse_u8 input)
      | KT_Uint16 \<Rightarrow> parsed (\<lambda>v. KV_Uint32 (ucast v)) (parse_u16 input)
      | KT_Uint32 \<Rightarrow> parsed KV_Uint32 (parse_u32 input)
      | KT_Uint64 \<Rightarrow> parsed KV_Uint64 (parse_u64 input)
      | KT_Float \<Rightarrow> parsed KV_Float (parse_f32 input)
      | KT_Double \<Rightarrow> parsed KV_Double (parse_f64 input)
      | _ \<Rightarrow> Err ParsingError)"

section \<open>Narrow integers\<close>

lemma signed_narrow:
  "\<lbrakk>- 128 \<le> n; n \<le> 127\<rbrakk> \<Longrightarrow> sint (word_of_int n :: i8) = n"
  "\<lbrakk>- 32768 \<le> n; n \<le> 32767\<rbrakk> \<Longrightarrow> sint (word_of_int n :: i16) = n"
  "\<lbrakk>- (2 ^ 31) \<le> n; n \<le> 2 ^ 31 - 1\<rbrakk> \<Longrightarrow> sint (word_of_int n :: i32) = n"
  by (simp_all add: sint_sbintrunc' signed_take_bit_int_eq_self)

lemma unsigned_narrow:
  "\<lbrakk>0 \<le> n; n \<le> 255\<rbrakk> \<Longrightarrow> uint (word_of_int n :: u8) = n"
  "\<lbrakk>0 \<le> n; n \<le> 65535\<rbrakk> \<Longrightarrow> uint (word_of_int n :: u16) = n"
  "\<lbrakk>0 \<le> n; n \<le> 2 ^ 32 - 1\<rbrakk> \<Longrightarrow> uint (word_of_int n :: u32) = n"
  by (simp_all add: uint_word_of_int)

text \<open>Reading a narrow integer is reading the wide one and checking its bounds.\<close>

definition bounded :: "('a \<Rightarrow> bool) \<Rightarrow> 'a option \<Rightarrow> 'a option" where
  "bounded p r = (case r of Some v \<Rightarrow> if p v then Some v else None | None \<Rightarrow> None)"

lemma signed_bounded:
  assumes "- (2 ^ 31) \<le> lo" and "hi \<le> 2 ^ 31 - 1" and "\<And>n. lo \<le> n \<Longrightarrow> n \<le> hi \<Longrightarrow> sint (word_of_int n :: 'a::len word) = n"
  shows "map_option scast (parse_in lo hi r :: 'a word option) = bounded (\<lambda>v :: i32. sint v \<in> {lo..hi}) (parse_in (- (2 ^ 31)) (2 ^ 31 - 1) r)"
proof (cases r)
  case (Some n)
  have "scast (word_of_int n :: 'a word) = (word_of_int n :: i32)" if "lo \<le> n" "n \<le> hi"
    by (simp only: scast_eq assms(3) [OF that])
  then show ?thesis
    using Some assms(1,2) signed_narrow(3) [of n] by (cases "lo \<le> n \<and> n \<le> hi") (auto simp: parse_in_def bounded_def)
qed (simp add: parse_in_def bounded_def)

lemma unsigned_bounded:
  assumes "hi \<le> 2 ^ 32 - 1" and "\<And>n. 0 \<le> n \<Longrightarrow> n \<le> hi \<Longrightarrow> uint (word_of_int n :: 'a::len word) = n"
  shows "map_option ucast (parse_in 0 hi r :: 'a word option) = bounded (\<lambda>v :: u32. uint v \<le> hi) (parse_in 0 (2 ^ 32 - 1) r)"
proof (cases r)
  case (Some n)
  have "ucast (word_of_int n :: 'a word) = (word_of_int n :: u32)" if "0 \<le> n" "n \<le> hi"
    by (simp only: ucast_eq assms(2) [OF that])
  then show ?thesis
    using Some assms(1) unsigned_narrow(3) [of n] by (cases "0 \<le> n \<and> n \<le> hi") (auto simp: parse_in_def bounded_def)
qed (simp add: parse_in_def bounded_def)

lemma parse_narrow:
  "map_option scast (parse_i8 t) = bounded (\<lambda>v. sint v \<in> {- 128..127}) (parse_i32 t)"
  "map_option scast (parse_i16 t) = bounded (\<lambda>v. sint v \<in> {- 32768..32767}) (parse_i32 t)"
  "map_option ucast (parse_u8 t) = bounded (\<lambda>v. uint v \<le> 255) (parse_u32 t)"
  "map_option ucast (parse_u16 t) = bounded (\<lambda>v. uint v \<le> 65535) (parse_u32 t)"
  unfolding parse_i8_def parse_i16_def parse_i32_def parse_u8_def parse_u16_def parse_u32_def
  using signed_narrow unsigned_narrow by (intro signed_bounded unsigned_bounded; simp)+

section \<open>Properties\<close>

definition scalar_type :: "DataType \<Rightarrow> bool" where
  "scalar_type dt \<longleftrightarrow>
     dt \<in> {T_String, T_Bool, T_Int8, T_Int16, T_Int32, T_Int64, T_Uint8, T_Uint16, T_Uint32, T_Uint64, T_Float, T_Double}"

definition ok_value :: "('a, 'e) result \<Rightarrow> 'a option" where
  "ok_value r = (case r of Ok v \<Rightarrow> Some v | Err _ \<Rightarrow> None)"

lemma ok_value_simps [simp]:
  "ok_value (Ok v) = Some v" "ok_value (Err e) = None" "ok_value (result_map f r) = map_option f (ok_value r)"
  by (cases r; simp add: ok_value_def)+

lemma ok_value_readers [simp]:
  "ok_value (parsed c p) = map_option c p" "ok_value (parse_scalar c' p) = map_option c' p"
  "ok_value (try_scalar parse (VV_Scalar t)) = parse t"
  by (simp_all add: ok_value_def parsed_def parse_scalar_def try_scalar_def split: option.split)

lemma bounded_map: "bounded p (map_option f r) = map_option f (bounded (\<lambda>v. p (f v)) r)"
  by (cases r) (simp_all add: bounded_def)

lemma bounded_Some [simp]: "bounded p (Some v) = (if p v then Some v else None)"
  by (simp add: bounded_def)

lemma bounded_True [simp]: "bounded (\<lambda>_. True) r = r"
  by (cases r) (simp_all add: bounded_def)

lemma map_narrow:
  "map_option (\<lambda>x. f (scast x)) (parse_i8 t) = map_option f (bounded (\<lambda>v. - 128 \<le> sint v \<and> sint v \<le> 127) (parse_i32 t))"
  "map_option (\<lambda>x. f (scast x)) (parse_i16 t) = map_option f (bounded (\<lambda>v. - 32768 \<le> sint v \<and> sint v \<le> 32767) (parse_i32 t))"
  "map_option (\<lambda>x. g (ucast x)) (parse_u8 t) = map_option g (bounded (\<lambda>v. uint v \<le> 255) (parse_u32 t))"
  "map_option (\<lambda>x. g (ucast x)) (parse_u16 t) = map_option g (bounded (\<lambda>v. uint v \<le> 65535) (parse_u32 t))"
  using parse_narrow [of t, symmetric] by (simp_all add: option.map_comp comp_def)

text \<open>The value a reader gets, as the broker would store it.\<close>

definition proto_read :: "DataType \<Rightarrow> string \<Rightarrow> DataValue option" where
  "proto_read dt t = map_option (\<lambda>w. data_value_of_proto (Some w)) (ok_value (value_new (proto_data_type dt) t))"

lemma cli_reads_proto:
  "scalar_type dt \<Longrightarrow> t \<noteq> ''NotAvailable'' \<Longrightarrow>
   ok_value (kuksa_try_into_data_value matches t (proto_data_type dt)) = ok_value (value_new (proto_data_type dt) t)"
  by (cases dt) (simp_all add: scalar_type_def kuksa_try_into_data_value_def value_new_def proto_data_type_def option.map_comp comp_def)

lemma sdv_reads_proto:
  "scalar_type dt \<Longrightarrow> t \<noteq> ''NotAvailable'' \<Longrightarrow>
   map_option (\<lambda>w. data_value_of_sdv \<lparr>sd_timestamp = ts, sd_value = Some w\<rparr>) (ok_value (sdv_try_into_data_value matches t (sdv_data_type dt))) =
   proto_read dt t"
  by (cases dt)
    (simp_all add: scalar_type_def sdv_try_into_data_value_def value_new_def proto_data_type_def sdv_data_type_def option.map_comp comp_def
      proto_read_def data_value_of_proto_def data_value_of_sdv_def)

lemma viss_reads_proto:
  "scalar_type dt \<Longrightarrow> bounded (conforms dt) (ok_value (try_into_type (VV_Scalar t) dt)) = proto_read dt t"
  by (cases dt)
    (simp_all add: map_narrow scalar_type_def try_into_type_def value_new_def proto_data_type_def option.map_comp comp_def proto_read_def
      data_value_of_proto_def bounded_map conforms_def string_try_from_def bool_try_from_def i32_try_from_def i64_try_from_def
      u32_try_from_def u64_try_from_def f32_try_from_def f64_try_from_def)

lemma names_read: "data_type_from_str (display_data_type (viss_data_type dt)) = Ok (proto_data_type dt)"
  by (cases dt) (simp_all add: data_type_from_str_def display_data_type_def viss_data_type_def proto_data_type_def to_ascii_lowercase_def)

lemma lower_idem: "to_ascii_lowercase (to_ascii_lowercase s) = to_ascii_lowercase s"
  by (induction s) (auto simp: to_ascii_lowercase_def)

text \<open>
  C24.  The four readers of values agree.  For every scalar data type and every text but
  \<open>NotAvailable\<close>, the helper of the protocol library and the command line client for
  \<open>kuksa.val.v1\<close> read the same message or fail both; the older command line client gets the same value; and
  it is the value the VISS service reads, if the data type admits that value: VISS reads narrow
  integers at 32 bits and leaves their bounds to the broker.  The helper refuses every array type.
  The name VISS prints for a data type is read back as the data type, and the case of the name does
  not matter.
\<close>

theorem readers_agree:
  shows "(scalar_type dt \<and> t \<noteq> ''NotAvailable'' \<longrightarrow>
      ok_value (kuksa_try_into_data_value matches t (proto_data_type dt)) = ok_value (value_new (proto_data_type dt) t) \<and>
      map_option (\<lambda>w. data_value_of_sdv \<lparr>sd_timestamp = ts, sd_value = Some w\<rparr>)
          (ok_value (sdv_try_into_data_value matches t (sdv_data_type dt))) =
        map_option (\<lambda>w. data_value_of_proto (Some w)) (ok_value (value_new (proto_data_type dt) t)) \<and>
      map_option (\<lambda>w. data_value_of_proto (Some w)) (ok_value (value_new (proto_data_type dt) t)) =
        bounded (conforms dt) (ok_value (try_into_type (VV_Scalar t) dt))) \<and>
    (\<not> scalar_type dt \<longrightarrow> value_new (proto_data_type dt) t = Err ParsingError) \<and>
    data_type_from_str (display_data_type (viss_data_type dt)) = Ok (proto_data_type dt) \<and>
    data_type_from_str (to_ascii_lowercase s) = data_type_from_str s"
proof -
  have "\<not> scalar_type dt \<longrightarrow> value_new (proto_data_type dt) t = Err ParsingError"
    by (cases dt) (simp_all add: scalar_type_def value_new_def proto_data_type_def)
  moreover have "data_type_from_str (to_ascii_lowercase s) = data_type_from_str s"
    by (simp add: data_type_from_str_def lower_idem)
  ultimately show ?thesis
    using cli_reads_proto [of dt t matches] sdv_reads_proto [of dt t ts matches] viss_reads_proto [of dt t] names_read [of dt]
    by (simp add: proto_read_def)
qed

theorem readers_agree_witness:
  "value_new (proto_data_type T_Int8) ''300'' = Err ParsingError \<and>
   try_into_type (VV_Scalar ''300'') T_Int8 = Ok (Int32 300) \<and>
   ok_value (kuksa_try_into_data_value (\<lambda>_. scan_array False []) ''300'' (proto_data_type T_Int8)) =
   ok_value (value_new (proto_data_type T_Int8) ''300'') \<and>
   value_new (proto_data_type T_Int8) ''-7'' = Ok (KV_Int32 (- 7)) \<and>
   bounded (conforms T_Int8) (ok_value (try_into_type (VV_Scalar ''-7'') T_Int8)) = Some (Int32 (- 7))"
proof -
  have "value_new (proto_data_type T_Int8) ''300'' = Err ParsingError"
    "try_into_type (VV_Scalar ''300'') T_Int8 = Ok (Int32 300)" "value_new (proto_data_type T_Int8) ''-7'' = Ok (KV_Int32 (- 7))"
    by code_simp+
  then show ?thesis
    using readers_agree [of T_Int8 "''300''" "\<lambda>_. scan_array False []"] readers_agree [of T_Int8 "''-7''"]
    by (simp add: scalar_type_def data_value_of_proto_def)
qed

end
