(* ===== verification/CliMain.thy ===== *)
theory CliMain
  imports KuksaCli SdvCli Proto
begin

text \<open>
  The two command line clients together: the choice between them (\<open>databroker-cli/src/main.rs\<close>), and
  that feeding a value through either has the same effect on the server.
\<close>

definition cli_main ::
  "('u, 't, 'c) network \<Rightarrow> ('u, 't) cli_env \<Rightarrow> (nat \<Rightarrow> SystemTime) \<Rightarrow> Cli \<Rightarrow> 'c servers \<Rightarrow>
   ((bool \<times> ('u, 't, 'c) sdv_cli) option, cli_error) result + (bool \<times> ('u, 't, 'c) kuksa_cli, cli_error) result" where
  "cli_main net env clock cli w =
     (case cli_protocol cli of
        SdvDatabrokerV1 \<Rightarrow> Inl (sdv_start net env (clock 0) cli w)
      | KuksaValV1 \<Rightarrow> Inr (kuksa_start net env clock cli w))"

section \<open>Both clients read the same value\<close>

lemma ok_value_eq_Some: "ok_value r = Some v \<longleftrightarrow> r = Ok v"
  by (cases r) (auto simp: ok_value_def)

lemma readers_same:
  "t \<noteq> ''NotAvailable'' \<Longrightarrow>
   map_option (\<lambda>w. data_value_of_sdv \<lparr>sd_timestamp = ts, sd_value = Some w\<rparr>) (ok_value (sdv_try_into_data_value matches t (sdv_data_type dt))) =
   map_option (\<lambda>w. data_value_of_proto (Some w)) (ok_value (kuksa_try_into_data_value matches t (proto_data_type dt)))"
  by (cases dt)
    (simp_all add: kuksa_try_into_data_value_def sdv_try_into_data_value_def proto_data_type_def sdv_data_type_def option.map_comp comp_def
      data_value_of_proto_def data_value_of_sdv_def)

lemma data_type_codes: "sdv_data_type_from_i32 (sdv_data_type_code t) = Some t"
  by (cases t) (simp_all add: sdv_data_type_from_i32_def sdv_data_type_code_def)

text \<open>What feeding a text to a path does to the entries of a server.\<close>

definition fed ::
  "('u, 't, 'c) network \<Rightarrow> matcher \<Rightarrow> SystemTime \<Rightarrow> Timestamp \<Rightarrow> Permissions \<Rightarrow> string \<Rightarrow> string \<Rightarrow> Entry \<Rightarrow> (string \<rightharpoonup> Entry) \<Rightarrow>
   string \<rightharpoonup> Entry" where
  "fed net matches now stamp ps path text e m =
     (case kuksa_try_into_data_value matches text (proto_data_type (md_data_type (e_metadata e))) of
        Err _ \<Rightarrow> m
      | Ok v \<Rightarrow>
          (let u = client_value_update (net_ts_into net) now \<lparr>pd_timestamp = Some stamp, pd_value = Some v\<rparr>
           in if entry_error (net_re net) now ps path e u = None then m(path \<mapsto> updated_entry e u) else m))"

lemma kuksa_feed_fed:
  assumes "cli_reaches net s ch ps" and "glob_regex_spec (net_re net)" and "leaf_path (cli_map s ch) ws e"
    and "split_first_word args = (join_dots ws, text)" and "text \<noteq> []"
  shows "cli_map (kuksa_feed_command net env clock stamps cmd args s) ch =
    fed net (env_matches env) (clock 1) (stamps 1) ps (join_dots ws) text e (cli_map s ch)"
proof -
  let ?path = "join_dots ws"
  note r = assms(1) [unfolded cli_reaches_def]
  obtain entry where m: "kuksa_get_metadata net clock [?path] (kc_client s) (kc_servers s) = (Ok [entry], kc_client s, kc_servers s)"
      "single_entry entry e"
    using leaf_metadata [OF r assms(2,3)] by blast
  have here: "cli_map s ch ?path = Some e" using assms(3) by (simp add: leaf_path_def)
  show ?thesis
  proof (cases "kuksa_try_into_data_value (env_matches env) text (proto_data_type (md_data_type (e_metadata e)))")
    case (Ok v)
    let ?d = "\<lparr>pd_timestamp = Some (stamps 1), pd_value = Some v\<rparr>"
    obtain q client w where c: "set_current_values net (\<lambda>_. clock 1) [(?path, ?d)] (kc_client s) (kc_servers s) = (q, client, w)"
      by (metis prod.exhaust)
    show ?thesis
      using set_current_values_refines [OF r c] here m Ok c assms(4,5)
      by (cases q)
        (auto simp: kuksa_feed_command_def kuksa_write_command_def on_client_def kuksa_feed_entry_def single_entry_def fed_def set_one_def
          split: option.splits)
  qed (use m assms(4,5) in \<open>simp add: kuksa_feed_command_def kuksa_write_command_def on_client_def kuksa_feed_entry_def single_entry_def fed_def\<close>)
qed

lemma sdv_feed_fed:
  assumes r: "reaches net (sc_client t) (sc_servers t) ch ps" and here: "server_map (sc_servers t ch) path = Some e"
    and "split_first_word args = (path, text)" and "text \<noteq> []" and other: "text \<noteq> ''NotAvailable''"
    and "find_metadata (sc_properties t) path = Some (sdv_metadata (e_metadata e))"
  shows "\<exists>t'. sdv_feed_command net env now stamp cmd args t = Some t' \<and>
    server_map (sc_servers t' ch) = fed net (env_matches env) now stamp ps path text e (server_map (sc_servers t ch))"
proof -
  let ?dt = "md_data_type (e_metadata e)"
  have md: "sdv_data_type_from_i32 (sm_data_type (sdv_metadata (e_metadata e))) = Some (sdv_data_type ?dt)"
    "sm_id (sdv_metadata (e_metadata e)) = md_id (e_metadata e)"
    by (simp_all add: sdv_metadata_def data_type_codes)
  note same = readers_same [OF other, of "Some stamp" "env_matches env" ?dt]
  show ?thesis
  proof (cases "sdv_try_into_data_value (env_matches env) text (sdv_data_type ?dt)")
    case (Err x)
    then have "\<exists>err. kuksa_try_into_data_value (env_matches env) text (proto_data_type ?dt) = Err err"
      using same by (cases "kuksa_try_into_data_value (env_matches env) text (proto_data_type ?dt)") simp_all
    then show ?thesis using Err assms md by (auto simp: sdv_feed_command_def fed_def)
  next
    case (Ok w)
    let ?d = "\<lparr>sd_timestamp = Some stamp, sd_value = Some w\<rparr>"
    let ?u = "default_update\<lparr>upd_datapoint := Some (datapoint_of_sdv (net_ts_into net) now ?d)\<rparr>"
    obtain v where v: "kuksa_try_into_data_value (env_matches env) text (proto_data_type ?dt) = Ok v"
        "data_value_of_proto (Some v) = data_value_of_sdv ?d"
      using same Ok by (cases "kuksa_try_into_data_value (env_matches env) text (proto_data_type ?dt)") simp_all
    have u: "client_value_update (net_ts_into net) now \<lparr>pd_timestamp = Some stamp, pd_value = Some v\<rparr> = ?u"
      using v(2) by (simp add: client_value_update_def datapoint_of_proto_def datapoint_of_sdv_def)
    obtain res client srv where c: "client_update_datapoints net now [(md_id (e_metadata e), ?d)] (sc_client t) (sc_servers t) = (res, client, srv)"
      by (metis prod.exhaust)
    show ?thesis
      using client_update_one [OF r here c refl] Ok v u md c assms
      by (cases res; cases "entry_error (net_re net) now ps path e ?u")
        (auto simp: sdv_feed_command_def sdv_on_client_def fed_def Let_def)
  qed
qed

section \<open>Properties\<close>

text \<open>
  C8.  Feeding a value has one meaning, whichever client and protocol is used.  Two sessions, one of
  each client, with the same permissions on servers with the same entries, are given the same path
  and the same text, which is neither empty nor \<open>NotAvailable\<close>; the path has an entry and nothing below it, and the older client has
  fetched its metadata.  Then the entries of both servers are the same afterwards, whether the text is a value of
  the data type or not and whether the server accepts the value or not, for every data type.  The text \<open>NotAvailable\<close> is
  excluded because there the clients differ: the newer one sends it as a string, the older one as a failure.
\<close>

theorem clients_feed_alike:
  assumes "cli_reaches net s ch ps" and "reaches net (sc_client t) (sc_servers t) ch ps"
    and "server_map (sc_servers t ch) = cli_map s ch"
    and "glob_regex_spec (net_re net)" and "leaf_path (cli_map s ch) ws e"
    and "find_metadata (sc_properties t) (join_dots ws) = Some (sdv_metadata (e_metadata e))"
    and "split_first_word args = (join_dots ws, text)" and "text \<noteq> []" and "text \<noteq> ''NotAvailable''"
  shows "\<exists>t'. sdv_feed_command net env (clock 1) (stamps 1) cmd args t = Some t' \<and>
    server_map (sc_servers t' ch) = cli_map (kuksa_feed_command net env clock stamps cmd args s) ch"
proof -
  have "server_map (sc_servers t ch) (join_dots ws) = Some e" using assms(3,5) by (simp add: leaf_path_def)
  from sdv_feed_fed [OF assms(2) this assms(7-9,6), of env "clock 1" "stamps 1" cmd]
  show ?thesis using kuksa_feed_fed [OF assms(1,4,5,7,8), of env clock stamps cmd] assms(3) by simp
qed

definition example_sdv_cli :: "(nat, unit, nat) sdv_cli" where
  "example_sdv_cli = \<lparr>sc_client = example_client, sc_servers = example_servers, sc_properties = [sdv_metadata (e_metadata example_entry)],
     sc_completer = new_path_part, sc_subscription_nbr = 1, sc_subscriptions = [], sc_output = []\<rparr>"

theorem clients_feed_alike_witness:
  "\<exists>t'. sdv_feed_command example_network example_cli_env 1 (zero_ts 1) ''feed'' ''A 7'' example_sdv_cli = Some t' \<and>
     server_map (sc_servers t' 0) = cli_map (kuksa_feed_command example_network example_cli_env (\<lambda>_. 1) (\<lambda>_. zero_ts 1) ''feed'' ''A 7'' example_cli) 0"
proof -
  have args: "split_first_word ''A 7'' = (join_dots [''A''], ''7'')"
    by (simp add: split_first_word_def trim_def trim_start_def is_whitespace_def)
  have r: "reaches example_network (sc_client example_sdv_cli) (sc_servers example_sdv_cli) 0 ALLOW_ALL"
    using example_reaches by (simp add: example_sdv_cli_def)
  have m: "server_map (sc_servers example_sdv_cli 0) = cli_map example_cli 0"
    by (simp add: example_sdv_cli_def example_cli_def)
  have f: "find_metadata (sc_properties example_sdv_cli) (join_dots [''A'']) = Some (sdv_metadata (e_metadata example_entry))"
    using example_words by (simp add: find_metadata_def example_sdv_cli_def sdv_metadata_def)
  from clients_feed_alike [OF example_cli_reaches r m example_glob example_leaf f args, where clock = "\<lambda>_. 1" and stamps = "\<lambda>_. zero_ts 1"]
  show ?thesis by simp
qed

end
