(* ===== verification/Spec2Isabelle.thy ===== *)
theory Spec2Isabelle
  imports Authorization Val Jwt Delivery Locks CliMain
begin

text \<open>
  A verification development for the KUKSA.val data broker (\<open>src/kuksa_databroker\<close>), a server that
  keeps the current value of every signal of a vehicle and passes changes on to subscribers, and for
  the client libraries and command line clients that talk to it.

  \<^bold>\<open>The program.\<close>  At start-up (\<open>databroker/src/main.rs\<close>) the broker registers attributes of its own
  and the signals of the VSS files it is given (\<open>vss.rs\<close>).  Clients then reach it over three
  services: \<open>kuksa.val.v1\<close> and the older \<open>sdv.databroker.v1\<close> over gRPC (\<open>grpc/\<close>), and VISS version 2
  over websockets (\<open>viss/\<close>).  An interceptor turns the bearer token of a gRPC request into
  permissions, and the websocket service does so with the token in a request
  (\<open>authorization/\<close>, \<open>permissions.rs\<close>, \<open>glob.rs\<close>).  The handlers of the services call the
  operations of \<open>AuthorizedAccess\<close> (\<open>broker.rs\<close>), which read and write the database under those
  permissions and notify the subscriptions.  A subscription is either to fields of entries or to
  an SQL query, which is compiled when it is registered and executed on every change that concerns
  it (\<open>query/\<close>).  On the other side, a client library (\<open>lib/\<close>) keeps a channel and a token and has a
  method for every call; two command line clients (\<open>databroker-cli\<close>), one for each gRPC protocol,
  read commands, turn texts into values, call the library and print what comes back.

  \<^bold>\<open>The theories of the server,\<close> in the order in which they build on each other.

  \<^item> \<open>Prelude\<close>: Rust's \<open>Result\<close>, machine integers and their conversions, \<open>HashMap\<close>s.
  \<^item> \<open>Floats\<close>: IEEE single and double precision at the bit level, with rounding.
  \<^item> \<open>Types\<close> (\<open>types.rs\<close>): data types, data values and their comparisons, which are shown to
    compare mathematical values (C21).
  \<^item> \<open>Paths\<close>: components of paths and the splitting of texts.
  \<^item> \<open>Glob\<close> (\<open>glob.rs\<close>) and \<open>Permissions\<close> (\<open>permissions.rs\<close>): patterns, the builder of
    permissions and the four checks.
  \<^item> \<open>Authorization\<close> (\<open>authorization/\<close>, the interceptor of \<open>grpc/server.rs\<close>): scopes, claims
    and what a token grants.
  \<^item> \<open>GlobMeaning\<close>: the meaning of the regular expressions that globs are translated to, the paths a
    glob matches (C18: words and single asterisks, with a double asterisk at either end, at both or in the
    middle), and from that what the text of a scope claim grants.
  \<^item> \<open>Entry\<close> (\<open>broker.rs\<close>, \<open>Entry\<close>): one entry with its validation and update (C38).
  \<^item> \<open>Database\<close> (\<open>broker.rs\<close>, \<open>DatabaseReadAccess\<close>, \<open>DatabaseWriteAccess\<close>): the two maps of
    the database, their invariant \<open>db_wf\<close>, and the refinement of a map from paths to entries
    (C12, C13).
  \<^item> \<open>Parsing\<close>, \<open>Compiler\<close> (\<open>query/expr.rs\<close>, \<open>query/compiler.rs\<close>) and \<open>Executor\<close>
    (\<open>query/executor.rs\<close>): number literals, compilation of queries to typed expressions, and
    their execution, with type preservation and progress (C19, C20, C40).
  \<^item> \<open>Subscriptions\<close> (\<open>broker.rs\<close>, \<open>Subscriptions\<close> and the two kinds of subscription): what a
    notification contains and who receives it (C15, C16).
  \<^item> \<open>Broker\<close> (\<open>broker.rs\<close>, \<open>AuthorizedAccess\<close> and \<open>DataBroker\<close>): batches of updates (C14),
    subscribing, and the transition system \<open>system_step\<close> of all operations in any order.
  \<^item> \<open>Locks\<close> (\<open>broker.rs\<close>, the locks and channels): the operations of the broker as sequences of lock
    and channel actions, run at the same time in any number and any interleaving, with cancelled requests
    and clients that hang up: they cannot deadlock (C4); an update notifies, and a query is registered, on the database it left or was executed on
    (C10); and a client that does not read stops everybody else, because notifications are sent under the database lock (C11).
  \<^item> \<open>Batches\<close>: what a batch with distinct ids does to the map from paths to entries, shared by
    the services.
  \<^item> \<open>KuksaTypes\<close> and \<open>Val\<close> (\<open>grpc/kuksa_val_v1\<close>): messages, conversions and the handlers
    \<open>get\<close>, \<open>set\<close> and \<open>subscribe\<close> (C36, C37).
  \<^item> \<open>SdvTypes\<close> and \<open>Sdv\<close> (\<open>grpc/sdv_databroker_v1\<close>): messages, conversions, and the handlers of
    the broker service and of the collector service, streams of updates included (C34, C35, C39).
  \<^item> \<open>Vss\<close> (\<open>vss.rs\<close>): reading a VSS tree and flattening it to entries by path (C32).
  \<^item> \<open>Startup\<close> (\<open>main.rs\<close>): the broker's own attributes, the import of VSS files (C33), and the
    configuration of transport security and authorization.
  \<^item> \<open>Printing\<close>: decimal texts of integers and floating-point numbers; the text of a number
    parses back to it bit for bit.
  \<^item> \<open>VissTypes\<close> (\<open>viss/v2/types.rs\<close>, \<open>viss/v2/conversions.rs\<close>): the messages of the websocket
    service and the texts that stand for values (C28).
  \<^item> \<open>MetadataTree\<close> (\<open>insert_entry\<close> of \<open>viss/v2/server.rs\<close>): the tree of metadata as nested maps.
  \<^item> \<open>Viss\<close> (\<open>viss/v2/server.rs\<close>, \<open>viss/server.rs\<close>): the handlers, the subscriptions of a
    connection and the task that reads its messages (C25 to C27).
  \<^item> \<open>Server\<close>: start-up followed by requests of all three services in any order, as an execution
    of the transition system of the broker (C1).
  \<^item> \<open>Launch\<close> (\<open>main.rs\<close>, \<open>grpc/server.rs\<close>, \<open>viss/server.rs\<close>): the servers the program starts, and that
    every one of their services is guarded as the arguments say (C7).
  \<^item> \<open>Jwt\<close> (\<open>authorization/jwt/decoder.rs\<close>): the token decoder, and from the public key on the command line to the
    checks of the database which tokens the running program accepts and what they allow (C6).
  \<^item> This theory: the properties of whole executions of the broker (C2, C3, C17).

  \<^bold>\<open>The theories of the clients.\<close>

  \<^item> \<open>Client\<close> (\<open>lib/common\<close>): addresses, the channel, the token, and a call through them to a server,
    whose interceptor and handlers are those above.
  \<^item> \<open>KuksaClient\<close> (\<open>lib/kuksa\<close>) and \<open>SdvClient\<close> (\<open>lib/sdv\<close>): the methods of the two libraries; writing
    refines writing to a map (C9), reading reads subtrees (C22).
  \<^item> \<open>Delivery\<close>: two clients of one server, what the one has subscribed to and the other writes (C5).
  \<^item> \<open>Proto\<close> (\<open>databroker-proto\<close>): data types and values read from text; all readers of values in the
    repository agree (C24).
  \<^item> \<open>CliText\<close> (\<open>cli.rs\<close>, and the conversions of \<open>kuksa_cli.rs\<close> and \<open>sdv_cli.rs\<close>): what the command line
    clients print and read (C29).
  \<^item> \<open>CliComplete\<close> (\<open>CliCompleter\<close>): completion of commands and paths (C30).
  \<^item> \<open>Cli\<close>, \<open>KuksaCli\<close> and \<open>SdvCli\<close>: the commands, the main functions and the loops of both clients; what
    a session prints (C31), what \<open>set\<close> does, and that no input makes the older client panic (C23).
  \<^item> \<open>CliMain\<close> (\<open>main.rs\<close> of \<open>databroker-cli\<close>): the choice between the clients, and that both feed values
    alike (C8).

  \<^bold>\<open>Interfaces.\<close>  Each is a locale, interpreted on the definitions of the component that provides
  it: \<open>ordered_comparison\<close> (what the executor needs of the comparisons), \<open>access_policy\<close> (what
  the database needs of permissions), \<open>keyed_store\<close> and \<open>local_store\<close> (what a batch needs of a
  single update), \<open>subscriber\<close> (what the broker needs of a subscription), \<open>reported_field\<close>
  (what makes a field of an entry observable to subscribers), \<open>datapoint_codec\<close> (what a
  client needs of a message format, for both gRPC services), \<open>shadowing_tree\<close> (what makes a
  tree of metadata independent of the order of insertion) and \<open>ordered_programs\<close> (what the operations must
  observe of a lock order so that they cannot deadlock).

  \<^bold>\<open>Correspondence.\<close>  Structs are records, enums datatypes; an operation on \<open>&mut self\<close> returns its
  result together with the new state.  Early returns and \<open>?\<close> are error values of the type
  \<open>result\<close>; a panic is an error value of its own, or \<open>None\<close> around the result, so that its
  absence can be stated.  Loops are recursive functions over the list they iterate.  A \<open>HashMap\<close>
  is an association list whose order stands for one iteration order.  \<open>SystemTime::now()\<close> is the
  argument \<open>now\<close>, read once per operation, or a function \<open>clock\<close> where a loop reads it again.  The
  two \<open>RwLock\<close>s of the broker make the operations that hold the database lock throughout atomic, as
  the theory \<open>Locks\<close> shows; \<open>subscribe\<close>, which does not, is two steps of the transition system.  The servers that clients can
  reach are a function from channels to servers, which every method of a client passes on; what a
  command line client prints is a list in its state, and the inputs of a session are a list.

  \<^bold>\<open>Parameters.\<close>  Code outside the repository is an argument of the definitions that use it: the
  crate \<open>regex\<close> (\<open>re\<close>, \<open>captures\<close> for the scope pattern and \<open>matches\<close> for the array pattern, with the
  named hypotheses \<open>glob_regex_spec\<close>, \<open>scope_regex_spec\<close> and \<open>array_regex_spec\<close> on what their patterns
  match, each with an instance), the SQL parser (\<open>parse_sql\<close>), the validation of tokens
  (\<open>decode\<close>, and in \<open>Jwt\<close> the record \<open>jsonwebtoken\<close> with the hypothesis \<open>jwt_spec\<close>), the choice among the tasks that wait for
  a lock of \<open>tokio\<close> (\<open>grants\<close>, with the hypotheses \<open>rwlock_spec\<close> and \<open>write_preferring\<close>, and first in, first out as an
  instance), the text of a header (\<open>to_str\<close>), the conversion of time stamps (\<open>ts_from\<close>,
  \<open>ts_into\<close>), the JSON readers and writers of \<open>serde_json\<close> (the records \<open>serde\<close> and \<open>json\<close>),
  the file system and the construction of a token decoder (the records \<open>environment\<close> and \<open>cli_env\<close>),
  addresses and connections (the records \<open>host\<close> and \<open>network\<close>), and the generator of subscription
  identifiers (\<open>uuid\<close>).

  \<^bold>\<open>Bounds.\<close>  Entry ids are 32-bit and wrap around; statements about executions are for fewer than
  two to the power of 32 registrations, which is enough for every id to be fresh.  The numbers the clients give to their
  subscriptions are 32-bit, signed, and wrap around as in a release build (a debug build would panic after two to the power of
  31 subscriptions).  The hypothesis
  \<open>glob_regex_spec\<close> is about patterns within the size limit of the crate \<open>regex\<close>; a glob that is too long
  for it fails to compile.  There is no fuel: every function terminates.

  \<^bold>\<open>Not modelled.\<close>  Texts of messages meant for people are dropped where no statement is about them.
  A \<open>char\<close> is a code point below 256.  The capacity of a channel, which delays the sender of a notification, is
  part of \<open>Locks\<close> only, where the recipients of a notification are arbitrary, and elsewhere a channel is the log of its messages;
  that the websocket service drops an event whose queue to the socket is full is not modelled.  Nor
  are the transport, the parsing of the arguments of the programs, logging, the signal handler, the
  texts of time stamps, and, of the command line clients, the line editor, colours, the prompt and
  the logo.  Tests, benchmarks and the examples of \<open>lib/databroker-examples\<close> are left out, and so is
  \<open>kuksa-val-server\<close>, an older server in another language.
\<close>

section \<open>Executions used as witnesses\<close>

lemma example_execution_add:
  "execution any_regex parse_sql [Ev_Add] \<lparr>sys_broker = example_broker, sys_pending = []\<rparr>"
proof -
  have "system_step any_regex parse_sql (initial_system []) Ev_Add \<lparr>sys_broker = example_broker, sys_pending = []\<rparr>"
    using step_add [of any_regex parse_sql "initial_system []" 1 ALLOW_ALL "''A''" T_Int32 OnChange Actuator "[]" None None]
    by (simp add: initial_system_def example_add_entry)
  then show ?thesis using execution_step [OF execution_start [of _ _ "[]"]] by fastforce
qed

lemma example_execution_subscribe:
  "execution any_regex (\<lambda>_. None) [Ev_Add, Ev_Subscribe [0]]
     \<lparr>sys_broker = subscribe_register example_broker example_sub, sys_pending = []\<rparr>"
proof -
  have "system_step any_regex (\<lambda>_. None) \<lparr>sys_broker = example_broker, sys_pending = []\<rparr> (Ev_Subscribe [0])
      \<lparr>sys_broker = subscribe_register example_broker example_sub, sys_pending = []\<rparr>"
    using step_subscribe [of "\<lparr>sys_broker = example_broker, sys_pending = []\<rparr>" "[(0, {F_Datapoint})]" any_regex "\<lambda>_. None" 1 ALLOW_ALL]
    by (simp add: valid_entries_def subscribe_def example_subscribe_open)
  then show ?thesis using execution_step [OF example_execution_add] by fastforce
qed

definition select_A :: "string \<Rightarrow> sql_statement list option" where
  "select_A sql = Some [SelectStatement None [UnnamedExpr (Sql_Identifier ''A'')]]"

definition query_A :: QuerySubscription where
  "query_A =
     \<lparr>qs_query = \<lparr>q_selection = None, q_projection = [E_Datapoint ''A'' T_Int32], q_input_spec = [''A'']\<rparr>,
      qs_sender = \<lparr>ch_closed = False, ch_sent = [[(''A'', NotAvailable)]]\<rparr>, qs_permissions = ALLOW_ALL\<rparr>"

lemma example_subscribe_query:
  "subscribe_query select_A any_regex 1 ALLOW_ALL example_broker [] =
     (Ok query_A, example_broker\<lparr>subscriptions := \<lparr>query_subscriptions = [query_A], change_subscriptions = []\<rparr>\<rparr>)"
  by (simp add: subscribe_query_def compile_def select_A_def compile_selection_def compile_datapoint_def
      get_datapoint_type_def get_metadata_by_path_def get_metadata_by_id_def spec_insert_def new_query_def
      query_notify_def generate_input_def get_entry_by_path_def get_entry_by_id_def input_add_def
      execute_query_def input_lookup_def field_name_def send_def new_channel_def add_query_subscription_def
      new_subscriptions_def query_A_def)

lemma example_execution_query:
  "execution any_regex select_A [Ev_Add, Ev_Query]
     \<lparr>sys_broker = example_broker\<lparr>subscriptions := \<lparr>query_subscriptions = [query_A], change_subscriptions = []\<rparr>\<rparr>,
      sys_pending = []\<rparr>"
proof -
  have "system_step any_regex select_A \<lparr>sys_broker = example_broker, sys_pending = []\<rparr> Ev_Query
     \<lparr>sys_broker = example_broker\<lparr>subscriptions := \<lparr>query_subscriptions = [query_A], change_subscriptions = []\<rparr>\<rparr>,
      sys_pending = []\<rparr>"
    using step_query [of any_regex select_A "\<lparr>sys_broker = example_broker, sys_pending = []\<rparr>" 1 ALLOW_ALL "[]"]
    by (simp add: example_subscribe_query)
  then show ?thesis using execution_step [OF example_execution_add] by fastforce
qed

section \<open>Properties of the whole system\<close>

text \<open>
  C2.  In every state the running broker can reach, under any interleaving of registrations,
  batches, subscriptions, queries, housekeeping, shutdown and clients hanging up, the two maps
  of the database are inverse to each other and every stored entry is well-formed: its current
  value and its target conform to its data type, narrow integers included, and its list of
  allowed values fits the type.  The bound on the number of registrations keeps the 32-bit
  counter of ids from wrapping around; the number of other operations is not bounded.
\<close>

theorem executions_keep_the_database_well_formed:
  assumes "execution re parse_sql evs s" and "registrations evs < 2 ^ 32"
  shows "db_wf (database (sys_broker s)) \<and>
    (\<forall>path e. abs_db (database (sys_broker s)) path = Some e \<longrightarrow>
       md_path (e_metadata e) = path \<and>
       map_of (entries (database (sys_broker s))) (md_id (e_metadata e)) = Some e \<and>
       value_ok (md_data_type (e_metadata e)) (dp_value (e_datapoint e)) \<and>
       (\<forall>t. e_actuator_target e = Some t \<longrightarrow> value_ok (md_data_type (e_metadata e)) (dp_value t)))"
proof -
  have wf: "db_wf (database (sys_broker s))" using execution_inv [OF assms] by (simp add: broker_inv_def)
  have "entry_wf e" if "abs_db (database (sys_broker s)) path = Some e" for path e
    using db_wf_entryD(2) [OF wf] abs_db_wf_path(3) [OF wf that] by blast
  then show ?thesis using wf abs_db_wf_path [OF wf] by (auto simp: entry_wf_def)
qed

theorem executions_keep_the_database_well_formed_witness:
  "registrations [Ev_Add] < 2 ^ 32 \<and> db_wf (database example_broker)"
  using executions_keep_the_database_well_formed [OF example_execution_add [of "\<lambda>_. None"]] by simp

text \<open>
  C3.  Subscribers stay in step with the database: in every execution in which no batch names an
  entry twice and no update comes between the two halves of a subscription, the last datapoint
  that a registered subscriber has been told about is the stored one, for every entry whose
  datapoint it has subscribed to and may always read, as long as its channel is open.
\<close>

theorem subscribers_stay_in_step:
  assumes "execution re parse_sql evs s" and "registrations evs < 2 ^ 32" and "list_all tame evs"
    and "sub \<in> set (change_subscriptions (subscriptions (sys_broker s)))"
    and "\<not> ch_closed (cs_sender sub)"
    and "map_of (cs_entries sub) eid = Some flds" and "F_Datapoint \<in> flds"
  shows "\<exists>e. map_of (entries (database (sys_broker s))) eid = Some e \<and>
    (reads_always re (cs_permissions sub) (md_path (e_metadata e)) \<longrightarrow>
       last_datapoint (ch_sent (cs_sender sub)) (md_path (e_metadata e)) = Some (e_datapoint e))"
proof -
  have "datapoint_field.sub_in_step re (database (sys_broker s)) sub"
    using datapoint_field.execution_in_step [OF assms(1-3)] assms(4)
    by (simp add: datapoint_field.all_in_step_def)
  then obtain e where e: "map_of (entries (database (sys_broker s))) eid = Some e"
    and step: "reads_always re (cs_permissions sub) (md_path (e_metadata e)) \<Longrightarrow>
      datapoint_field.in_step (database (sys_broker s)) sub eid"
    using assms(5-7) by (auto simp: datapoint_field.sub_in_step_def)
  have "last_datapoint (ch_sent (cs_sender sub)) (md_path (e_metadata e)) = Some (e_datapoint e)"
    if "reads_always re (cs_permissions sub) (md_path (e_metadata e))"
    using step [OF that] e by (auto simp: last_datapoint_view datapoint_field.in_step_def)
  then show ?thesis using e by blast
qed

theorem subscribers_stay_in_step_witness:
  "last_datapoint (ch_sent (cs_sender example_sub)) ''A'' = Some (e_datapoint example_entry)"
  using subscribers_stay_in_step [OF example_execution_subscribe, of example_sub 0 "{F_Datapoint}"]
  by (simp add: subscribe_register_def add_change_subscription_def reads_always_def)
    (simp add: ALLOW_ALL_def)

text \<open>
  C17.  In every reachable state each registered query is well-typed against the current schema,
  and every response that has been sent to its subscriber has one field per selected column,
  named as the query says and with a value of the type of the column (or none available), so
  that no later registration or update invalidates a running query.
\<close>

theorem query_responses_are_typed:
  assumes "execution re parse_sql evs s" and "registrations evs < 2 ^ 32"
    and "sub \<in> set (query_subscriptions (subscriptions (sys_broker s)))"
  shows "query_ok (get_datapoint_type (database (sys_broker s))) (qs_query sub) \<and>
    (\<forall>r\<in>set (ch_sent (qs_sender sub)). response_ok (qs_query sub) r)"
  using execution_inv [OF assms(1,2)] assms(3) by (auto simp: broker_inv_def query_sub_ok_def)

theorem query_responses_are_typed_witness:
  "response_ok (qs_query query_A) [(''A'', NotAvailable)]"
proof -
  have "[(''A'', NotAvailable)] \<in> set (ch_sent (qs_sender query_A))" by (simp add: query_A_def)
  then show ?thesis using query_responses_are_typed [OF example_execution_query, of query_A] by simp
qed

end
